(* ===== verification/Ulmk_Base.thy ===== *)
theory Ulmk_Base
  imports Main "HOL-Library.Word" "HOL-Library.State_Monad"
begin

text \<open>
  Shared ground of the board-support models: C integer widths, the constants that the sources
  take from the kernel headers (which are not part of this repository, hence the record
  \<open>ulmk_abi\<close> that every definition receives as an argument), the IPC message, and the
  interaction log through which a driver talks to the kernel and to its device.

  A driver operation is a state transformer of \<open>HOL-Library.State_Monad\<close>.  Its state is a record
  that extends \<open>io\<close>: \<open>trace\<close> is the sequence of interactions performed so far (kernel
  calls and device accesses, oldest first) and \<open>answer\<close> is the outside world, an arbitrary
  function that gives the value returned by the next interaction from the whole history.
  Nothing is assumed about \<open>answer\<close> unless a theorem says so, so a lemma that holds for
  every state holds for every behaviour of the kernel, the hardware and the other threads.
  \<open>fault\<close> records that an access outside a C array has happened.
\<close>

unbundle bit_operations_syntax

named_theorems run_simps \<open>evaluation of the driver monad on a state\<close>
named_theorems const_defs \<open>preprocessor constants of the sources\<close>

section \<open>C integers\<close>

type_synonym u8 = "8 word"
type_synonym u16 = "16 word"
type_synonym u32 = "32 word"

text \<open>A C \<open>int\<close> travels as its 32-bit pattern; \<open>c_neg\<close> is the test \<open>x < 0\<close>.\<close>

type_synonym cint = "32 word"

definition c_neg :: "cint \<Rightarrow> bool" where
  "c_neg x \<longleftrightarrow> sint x < 0"

lemma c_neg_zero [simp]: "\<not> c_neg 0"
  by (simp add: c_neg_def)

lemma unat_u32: "unat (x :: u32) < 2 ^ 32"
proof -
  have "unat x < 2 ^ LENGTH(32)"
    by (rule unsigned_less)
  then show ?thesis by simp
qed

lemma bit_beyond_u8 [simp]: "8 \<le> n \<Longrightarrow> \<not> bit (w :: u8) n"
  and bit_beyond_u16 [simp]: "16 \<le> n \<Longrightarrow> \<not> bit (v :: u16) n"
  and bit_beyond_u32 [simp]: "32 \<le> n \<Longrightarrow> \<not> bit (u :: u32) n"
  using bit_imp_le_length [of w n] bit_imp_le_length [of v n] bit_imp_le_length [of u n] by auto

lemma unat_plus_one:
  fixes x y :: u32
  assumes "x < y"
  shows "unat (x + 1) = Suc (unat x)"
proof -
  have "unat x < unat y"
    using assms by (simp add: word_less_nat_alt)
  moreover have "unat y < 2 ^ LENGTH(32)"
    by (rule unsigned_less)
  ultimately have "unat x + 1 < 2 ^ LENGTH(32)"
    by simp
  then show ?thesis
    by (simp add: unat_word_ariths)
qed

text \<open>The bits of a small value.\<close>

lemma bit_small:
  fixes w :: "'a :: len word"
  assumes "unat w < 2 ^ k" "bit w n"
  shows "n < k"
proof -
  have "bit (take_bit k (unat w)) n"
    using assms by (simp add: take_bit_nat_eq_self bit_unsigned_iff)
  then show ?thesis
    by (simp add: bit_take_bit_iff)
qed

text \<open>The masks of the sources.\<close>

lemma low_mask_u32: "(1 :: u32) = mask 1" "(3 :: u32) = mask 2" "(7 :: u32) = mask 3"
    "(0xF :: u32) = mask 4" "(0xFF :: u32) = mask 8" "(0xFFF :: u32) = mask 12" "(0xFFFF :: u32) = mask 16"
  and low_mask_u8: "(1 :: u8) = mask 1" "(3 :: u8) = mask 2" "(7 :: u8) = mask 3"
  by (simp_all add: mask_eq_exp_minus_1)

lemma ucast_low_byte: "ucast (x AND 0xFF :: u32) = (ucast x :: u8)"
  unfolding low_mask_u32 by (rule bit_eqI) (auto simp: bit_simps)

section \<open>Register fields\<close>

text \<open>The \<open>n\<close> bits of a register from bit \<open>k\<close> on, and their replacement.\<close>

definition field :: "nat \<Rightarrow> nat \<Rightarrow> u32 \<Rightarrow> u32" where
  "field k n v = drop_bit k v AND mask n"

definition set_field :: "nat \<Rightarrow> nat \<Rightarrow> u32 \<Rightarrow> u32 \<Rightarrow> u32" where
  "set_field k n x v = (v AND NOT (push_bit k (mask n))) OR push_bit k (x AND mask n)"

lemma bit_set_field:
  "bit (set_field k n x v) i \<longleftrightarrow> i < 32 \<and> (if k \<le> i \<and> i < k + n then bit x (i - k) else bit v i)"
  by (auto simp: set_field_def bit_simps dest: bit_imp_le_length)

lemma bit_field: "bit (field k n v) i \<longleftrightarrow> i < n \<and> bit v (k + i)"
  by (auto simp: field_def bit_simps dest: bit_imp_le_length)

lemma field_set_same: "k + n \<le> 32 \<Longrightarrow> field k n (set_field k n x v) = x AND mask n"
  by (rule bit_eqI) (auto simp: bit_field bit_set_field bit_simps)

lemma field_set_other: "k + n \<le> j \<or> j + m \<le> k \<Longrightarrow> field j m (set_field k n x v) = field j m v"
  by (rule bit_eqI) (auto simp: bit_field bit_set_field dest: bit_imp_le_length)

section \<open>Constants of the kernel interface\<close>

record ulmk_abi =
  ULMK_OK :: cint
  ULMK_EINVAL :: cint
  ULMK_ENOMEM :: cint
  ULMK_ENOSPC :: cint
  ULMK_ESRCH :: cint
  ULMK_ETIMEOUT :: cint
  ULMK_ENOTSUP :: cint
  ULMK_EPERM :: cint
  ULMK_EDEADLK :: cint
  ULMK_EP_INVALID :: u32
  ULMK_TID_INVALID :: u32
  ULMK_NOTIF_INVALID :: u32

definition abi_errors :: "ulmk_abi \<Rightarrow> cint list" where
  "abi_errors K = [ULMK_EINVAL K, ULMK_ENOMEM K, ULMK_ENOSPC K, ULMK_ESRCH K, ULMK_ETIMEOUT K,
     ULMK_ENOTSUP K, ULMK_EPERM K, ULMK_EDEADLK K]"

text \<open>What the sources rely on: success is zero, the error codes are negative and different.\<close>

definition abi_ok :: "ulmk_abi \<Rightarrow> bool" where
  "abi_ok K \<longleftrightarrow> ULMK_OK K = 0 \<and> (\<forall>e \<in> set (abi_errors K). c_neg e) \<and> distinct (abi_errors K)"

definition sample_abi :: ulmk_abi where
  "sample_abi = \<lparr>ULMK_OK = 0, ULMK_EINVAL = - 1, ULMK_ENOMEM = - 2, ULMK_ENOSPC = - 3,
     ULMK_ESRCH = - 4, ULMK_ETIMEOUT = - 5, ULMK_ENOTSUP = - 6, ULMK_EPERM = - 7,
     ULMK_EDEADLK = - 8, ULMK_EP_INVALID = 0, ULMK_TID_INVALID = 0, ULMK_NOTIF_INVALID = 0\<rparr>"

lemma sample_abi_ok: "abi_ok sample_abi"
  by (simp add: abi_ok_def abi_errors_def sample_abi_def c_neg_def)

lemma abi_ok_OK [simp]: "abi_ok K \<Longrightarrow> ULMK_OK K = 0"
  by (simp add: abi_ok_def)

lemma abi_ok_neg:
  assumes "abi_ok K"
  shows "c_neg (ULMK_EINVAL K)" "c_neg (ULMK_ENOMEM K)" "c_neg (ULMK_ENOSPC K)"
    "c_neg (ULMK_ESRCH K)" "c_neg (ULMK_ETIMEOUT K)" "c_neg (ULMK_ENOTSUP K)"
    "c_neg (ULMK_EPERM K)" "c_neg (ULMK_EDEADLK K)"
  using assms by (auto simp: abi_ok_def abi_errors_def)

lemma abi_ok_nonzero [simp]:
  assumes "abi_ok K"
  shows "ULMK_EINVAL K \<noteq> 0" "ULMK_ENOMEM K \<noteq> 0" "ULMK_ENOSPC K \<noteq> 0"
    "ULMK_ESRCH K \<noteq> 0" "ULMK_ETIMEOUT K \<noteq> 0" "ULMK_ENOTSUP K \<noteq> 0"
    "ULMK_EPERM K \<noteq> 0" "ULMK_EDEADLK K \<noteq> 0"
  using abi_ok_neg [OF assms] by (auto simp: c_neg_def)

section \<open>The IPC message\<close>

text \<open>
  \<open>words i\<close> is the i-th word of the message.  The length of the array is a constant of the
  kernel headers; an index beyond it reads the memory that follows the array, so the index
  bounds of the packing loops are stated as lemmas where the index is computed.
\<close>

record msg =
  label :: u32
  words :: "nat \<Rightarrow> u32"

definition zero_msg :: msg where
  "zero_msg = \<lparr>label = 0, words = (\<lambda>_. 0)\<rparr>"

section \<open>Interactions\<close>

datatype kcall =
    Ep_create
  | Ep_destroy u32
  | Notif_create
  | Notif_wait u32 u32
  | Notif_wait_timeout u32 u32 u32
  | Notif_poll u32 u32
  | Notif_signal u32 u32
  | Irq_bind_hw u32 u32 u32 u32
  | Irq_enable u32
  | Irq_ack u32
  | Thread_create string u32 u32
  | Cap_grant u32 string
  | Mem_map u32 u32
  | Sleep_ms u32

datatype 'd event = Kern kcall | Dev 'd

record 'd io =
  trace :: "'d event list"
  answer :: "'d event list \<Rightarrow> 'd event \<Rightarrow> u32"
  fault :: bool

section \<open>The driver monad\<close>

abbreviation ret :: "'a \<Rightarrow> ('s, 'a) state" where
  "ret \<equiv> State_Monad.return"

definition gets :: "('s \<Rightarrow> 'a) \<Rightarrow> ('s, 'a) state" where
  "gets f = State (\<lambda>s. (f s, s))"

definition modify :: "('s \<Rightarrow> 's) \<Rightarrow> ('s, unit) state" where
  "modify f = State (\<lambda>s. ((), f s))"

definition perform :: "'d event \<Rightarrow> (('d, 'z) io_scheme, u32) state" where
  "perform e = State (\<lambda>s. (answer s (trace s) e, s\<lparr>trace := trace s @ [e]\<rparr>))"

definition set_fault :: "(('d, 'z) io_scheme, unit) state" where
  "set_fault = modify (\<lambda>s. s\<lparr>fault := True\<rparr>)"

definition kern :: "kcall \<Rightarrow> (('d, 'z) io_scheme, u32) state" where
  "kern c = perform (Kern c)"

definition kern_do :: "kcall \<Rightarrow> (('d, 'z) io_scheme, unit) state" where
  "kern_do c = do { _ \<leftarrow> perform (Kern c); ret () }"

definition dev :: "'d \<Rightarrow> (('d, 'z) io_scheme, u32) state" where
  "dev d = perform (Dev d)"

definition dev_do :: "'d \<Rightarrow> (('d, 'z) io_scheme, unit) state" where
  "dev_do d = do { _ \<leftarrow> perform (Dev d); ret () }"

definition when_do :: "bool \<Rightarrow> ('s, unit) state \<Rightarrow> ('s, unit) state" where
  "when_do b m = (if b then m else ret ())"

fun for_each :: "'a list \<Rightarrow> ('a \<Rightarrow> ('s, unit) state) \<Rightarrow> ('s, unit) state" where
  "for_each [] f = ret ()"
| "for_each (x # xs) f = do { f x; for_each xs f }"

text \<open>A loop whose body may leave the function early: it stops at the first \<open>False\<close>.\<close>

fun try_each :: "'a list \<Rightarrow> ('a \<Rightarrow> ('s, bool) state) \<Rightarrow> ('s, bool) state" where
  "try_each [] f = ret True"
| "try_each (x # xs) f = do { ok \<leftarrow> f x; if ok then try_each xs f else ret False }"

text \<open>A loop that fills a local array, one result per element.\<close>

fun collect :: "'a list \<Rightarrow> ('a \<Rightarrow> ('s, 'b) state) \<Rightarrow> ('s, 'b list) state" where
  "collect [] f = ret []"
| "collect (x # xs) f = do { y \<leftarrow> f x; ys \<leftarrow> collect xs f; ret (y # ys) }"

lemma run_gets [simp, run_simps]: "run_state (gets f) s = (f s, s)"
  by (simp add: gets_def)

lemma run_modify [simp, run_simps]: "run_state (modify f) s = ((), f s)"
  by (simp add: modify_def)

lemma run_perform [simp, run_simps]:
  "run_state (perform e) s = (answer s (trace s) e, s\<lparr>trace := trace s @ [e]\<rparr>)"
  by (simp add: perform_def)

lemma run_set_fault [simp, run_simps]: "run_state set_fault s = ((), s\<lparr>fault := True\<rparr>)"
  by (simp add: set_fault_def)

lemma run_kern [simp, run_simps]:
  "run_state (kern c) s = (answer s (trace s) (Kern c), s\<lparr>trace := trace s @ [Kern c]\<rparr>)"
  by (simp add: kern_def)

lemma run_kern_do [simp, run_simps]:
  "run_state (kern_do c) s = ((), s\<lparr>trace := trace s @ [Kern c]\<rparr>)"
  by (simp add: kern_do_def)

lemma run_dev [simp, run_simps]:
  "run_state (dev d) s = (answer s (trace s) (Dev d), s\<lparr>trace := trace s @ [Dev d]\<rparr>)"
  by (simp add: dev_def)

lemma run_dev_do [simp, run_simps]:
  "run_state (dev_do d) s = ((), s\<lparr>trace := trace s @ [Dev d]\<rparr>)"
  by (simp add: dev_do_def)

lemma run_when_do [simp, run_simps]:
  "run_state (when_do b m) s = (if b then run_state m s else ((), s))"
  by (simp add: when_do_def)

lemma run_bind: "run_state m s = (a, s') \<Longrightarrow> run_state (State_Monad.bind m f) s = run_state (f a) s'"
  by simp

text \<open>An optional access, without a case distinction on the state.\<close>

lemma run_when_dev:
  "run_state (when_do b (dev_do d)) s = ((), s\<lparr>trace := trace s @ (if b then [Dev d] else [])\<rparr>)"
  by simp

lemma for_each_append: "for_each (xs @ ys) f = do { for_each xs f; for_each ys f }"
  by (induction xs) simp_all

section \<open>Invariants of an operation\<close>

text \<open>
  \<open>keeps P m\<close>: the operation \<open>m\<close> preserves \<open>P\<close> from every state, whatever the
  outside world answers.  The rules below follow the structure of a \<open>do\<close> block, so the
  invariant of a handler is proved from the invariants of the steps it makes.
\<close>

definition keeps :: "('s \<Rightarrow> bool) \<Rightarrow> ('s, 'a) state \<Rightarrow> bool" where
  "keeps P m \<longleftrightarrow> (\<forall>s. P s \<longrightarrow> P (snd (run_state m s)))"

named_theorems keeps_intros \<open>rules for the preservation of an invariant\<close>

lemma keepsI: "(\<And>s. P s \<Longrightarrow> P (snd (run_state m s))) \<Longrightarrow> keeps P m"
  by (simp add: keeps_def)

lemma keepsD: "keeps P m \<Longrightarrow> P s \<Longrightarrow> P (snd (run_state m s))"
  by (simp add: keeps_def)

lemma keeps_run: "keeps P m \<Longrightarrow> P s \<Longrightarrow> run_state m s = (a, s') \<Longrightarrow> P s'"
  using keepsD [of P m s] by simp

lemma keeps_ret [keeps_intros]: "keeps P (ret a)"
  by (simp add: keeps_def)

lemma keeps_gets [keeps_intros]: "keeps P (gets f)"
  by (simp add: keeps_def)

lemma keeps_bind [keeps_intros]:
  "keeps P m \<Longrightarrow> (\<And>a. keeps P (f a)) \<Longrightarrow> keeps P (State_Monad.bind m f)"
  by (auto simp: keeps_def split: prod.splits)

lemma keeps_when_do [keeps_intros]: "(b \<Longrightarrow> keeps P m) \<Longrightarrow> keeps P (when_do b m)"
  by (simp add: keeps_def)

lemma keeps_if [keeps_intros]:
  "(b \<Longrightarrow> keeps P m) \<Longrightarrow> (\<not> b \<Longrightarrow> keeps P n) \<Longrightarrow> keeps P (if b then m else n)"
  by simp

lemma keeps_case_prod [keeps_intros]:
  "(\<And>a b. keeps P (f a b)) \<Longrightarrow> keeps P (case x of (a, b) \<Rightarrow> f a b)"
  by (cases x) simp

lemma keeps_for_each [keeps_intros]:
  "(\<And>x. x \<in> set xs \<Longrightarrow> keeps P (f x)) \<Longrightarrow> keeps P (for_each xs f)"
  by (induction xs) (auto intro!: keeps_intros)

lemma keeps_try_each [keeps_intros]:
  "(\<And>x. x \<in> set xs \<Longrightarrow> keeps P (f x)) \<Longrightarrow> keeps P (try_each xs f)"
  by (induction xs) (auto intro!: keeps_intros)

lemma keeps_collect [keeps_intros]:
  "(\<And>x. x \<in> set xs \<Longrightarrow> keeps P (f x)) \<Longrightarrow> keeps P (collect xs f)"
  by (induction xs) (auto intro!: keeps_intros)

lemma length_collect: "length (fst (run_state (collect xs f) s)) = length xs"
  by (induction xs arbitrary: s) (auto split: prod.splits, metis fst_conv)

lemma keeps_modify: "(\<And>s. P s \<Longrightarrow> P (f s)) \<Longrightarrow> keeps P (modify f)"
  by (simp add: keeps_def)

lemma keeps_perform:
  "(\<And>s. P s \<Longrightarrow> P (s\<lparr>trace := trace s @ [e]\<rparr>)) \<Longrightarrow> keeps P (perform e)"
  by (simp add: keeps_def)

lemma keeps_kern:
  "(\<And>s. P s \<Longrightarrow> P (s\<lparr>trace := trace s @ [Kern c]\<rparr>)) \<Longrightarrow> keeps P (kern c)"
  "(\<And>s. P s \<Longrightarrow> P (s\<lparr>trace := trace s @ [Kern c]\<rparr>)) \<Longrightarrow> keeps P (kern_do c)"
  by (simp_all add: keeps_def)

lemma keeps_dev:
  "(\<And>s. P s \<Longrightarrow> P (s\<lparr>trace := trace s @ [Dev d]\<rparr>)) \<Longrightarrow> keeps P (dev d)"
  "(\<And>s. P s \<Longrightarrow> P (s\<lparr>trace := trace s @ [Dev d]\<rparr>)) \<Longrightarrow> keeps P (dev_do d)"
  by (simp_all add: keeps_def)

section \<open>The interaction log only grows\<close>

definition grows :: "(('d, 'z) io_scheme, 'a) state \<Rightarrow> bool" where
  "grows m \<longleftrightarrow> (\<forall>s. \<exists>es. trace (snd (run_state m s)) = trace s @ es)"

named_theorems grows_intros \<open>operations that only append to the log\<close>

lemma growsD: "grows m \<Longrightarrow> run_state m s = (a, s') \<Longrightarrow> \<exists>es. trace s' = trace s @ es"
  unfolding grows_def by (metis snd_conv)

lemma growsI: "(\<And>s. \<exists>es. trace (snd (run_state m s)) = trace s @ es) \<Longrightarrow> grows m"
  by (simp add: grows_def)

lemma grows_basic [grows_intros]:
  "grows (ret a)" "grows (gets f)" "grows (kern c)" "grows (kern_do c)" "grows (dev d)"
  "grows (dev_do d)" "grows set_fault"
  by (auto simp: grows_def)

lemma grows_modify: "(\<And>s. trace (f s) = trace s) \<Longrightarrow> grows (modify f)"
  by (simp add: grows_def)

lemma grows_bind [grows_intros]:
  "grows m \<Longrightarrow> (\<And>a. grows (f a)) \<Longrightarrow> grows (State_Monad.bind m f)"
  unfolding grows_def run_state_bind
  by (simp add: case_prod_beta) (metis append.assoc)

lemma grows_if [grows_intros]: "grows m \<Longrightarrow> grows n \<Longrightarrow> grows (if b then m else n)"
  by simp

lemma grows_when_do [grows_intros]: "grows m \<Longrightarrow> grows (when_do b m)"
  by (auto simp: grows_def)

lemma grows_case_prod [grows_intros]: "(\<And>a b. grows (f a b)) \<Longrightarrow> grows (case x of (a, b) \<Rightarrow> f a b)"
  by (cases x) simp

lemma grows_for_each [grows_intros]: "(\<And>x. grows (f x)) \<Longrightarrow> grows (for_each xs f)"
  by (induction xs) (auto intro!: grows_intros)

text \<open>A loop whose turns only append known interactions to the log.\<close>

lemma run_for_each_emits:
  assumes "\<And>x st. x \<in> set xs \<Longrightarrow> P st \<Longrightarrow> run_state (f x) st = ((), st\<lparr>trace := trace st @ es x\<rparr>)"
    and "\<And>st t. P st \<Longrightarrow> P (st\<lparr>trace := t\<rparr>)" and "P st"
  shows "run_state (for_each xs f) st = ((), st\<lparr>trace := trace st @ concat (map es xs)\<rparr>)"
  using assms by (induction xs arbitrary: st) simp_all

section \<open>Counting interactions\<close>

definition count_ev :: "('a \<Rightarrow> bool) \<Rightarrow> 'a list \<Rightarrow> nat" where
  "count_ev P es = length (filter P es)"

lemma count_ev_simps [simp]:
  "count_ev P [] = 0" "count_ev P (e # es) = (if P e then 1 else 0) + count_ev P es"
  "count_ev P (es @ es') = count_ev P es + count_ev P es'"
  by (simp_all add: count_ev_def)

text \<open>\<open>emits P n m\<close>: whatever the outside world answers, \<open>m\<close> makes at most \<open>n\<close> interactions of kind \<open>P\<close>.\<close>

definition emits :: "('d event \<Rightarrow> bool) \<Rightarrow> nat \<Rightarrow> (('d, 'z) io_scheme, 'a) state \<Rightarrow> bool" where
  "emits P n m \<longleftrightarrow> (\<forall>s. \<exists>es. trace (snd (run_state m s)) = trace s @ es \<and> count_ev P es \<le> n)"

named_theorems emits_intros \<open>bounds on the number of interactions\<close>

lemma emits_weaken: "emits P k m \<Longrightarrow> k \<le> n \<Longrightarrow> emits P n m"
  unfolding emits_def by (meson le_trans)

lemma emits_bind [emits_intros]:
  assumes "emits P a m" "\<And>x. emits P b (f x)"
  shows "emits P (a + b) (State_Monad.bind m f)"
  unfolding emits_def
proof
  fix s
  obtain x s1 where m: "run_state m s = (x, s1)"
    by (cases "run_state m s")
  with assms(1) obtain es where es: "trace s1 = trace s @ es" "count_ev P es \<le> a"
    unfolding emits_def by (metis snd_conv)
  from assms(2) obtain es' where
    "trace (snd (run_state (f x) s1)) = trace s1 @ es'" "count_ev P es' \<le> b"
    unfolding emits_def by metis
  with m es show "\<exists>es. trace (snd (run_state (State_Monad.bind m f) s)) = trace s @ es \<and>
      count_ev P es \<le> a + b"
    by (intro exI [of _ "es @ es'"]) simp
qed

lemma emits_if [emits_intros]:
  "emits P a m \<Longrightarrow> emits P b n \<Longrightarrow> emits P (max a b) (if c then m else n)"
  by (auto intro: emits_weaken)

lemma emits_when_do [emits_intros]: "emits P a m \<Longrightarrow> emits P a (when_do c m)"
  by (auto simp: emits_def intro: exI [of _ "[]"])

lemma emits_case_prod [emits_intros]:
  "(\<And>a b. emits P n (f a b)) \<Longrightarrow> emits P n (case x of (a, b) \<Rightarrow> f a b)"
  by (cases x) simp

lemma emits_case_option [emits_intros]:
  "emits P a n \<Longrightarrow> (\<And>y. emits P b (f y)) \<Longrightarrow>
     emits P (max a b) (case x of None \<Rightarrow> n | Some y \<Rightarrow> f y)"
proof (cases x)
  case None
  assume "emits P a n"
  then show ?thesis
    using None by (simp add: emits_weaken [OF _ max.cobounded1])
next
  case (Some y)
  assume "\<And>y. emits P b (f y)"
  then show ?thesis
    using Some by (simp add: emits_weaken [OF _ max.cobounded2])
qed

lemma emits_for_each:
  "(\<And>x. emits P k (f x)) \<Longrightarrow> emits P (length xs * k) (for_each xs f)"
proof (induction xs)
  case (Cons x xs)
  have "emits P (k + length xs * k) (for_each (x # xs) f)"
    using Cons by (auto intro!: emits_bind)
  then show ?case by simp
qed (simp add: emits_def)

lemma emits_collect:
  "(\<And>x. emits P k (f x)) \<Longrightarrow> emits P (length xs * k) (collect xs f)"
proof (induction xs)
  case (Cons x xs)
  have "emits P (k + (length xs * k + 0)) (collect (x # xs) f)"
    unfolding collect.simps using Cons by (intro emits_bind) (auto simp: emits_def)
  then show ?case by simp
qed (simp add: emits_def)

lemma emits_silent: "(\<And>s. trace (snd (run_state m s)) = trace s) \<Longrightarrow> emits P 0 m"
  by (simp add: emits_def)

lemma emits_pure [emits_intros]:
  "emits P 0 (ret a)" "emits P 0 (gets f)" "emits P 0 set_fault"
  by (simp_all add: emits_def)

text \<open>Counting kernel calls, a device access is free; otherwise an interaction counts once.\<close>

lemma emits_dev_free [emits_intros]:
  "emits (\<lambda>e. e = Kern c) 0 (dev d)" "emits (\<lambda>e. e = Kern c) 0 (dev_do d)"
  by (simp_all add: emits_def)

lemma emits_one: "emits P 1 (kern c)" "emits P 1 (kern_do c)" "emits P 1 (dev d)" "emits P 1 (dev_do d)"
  by (simp_all add: emits_def)

section \<open>Triples\<close>

text \<open>
  \<open>triple P m Q\<close>: from every state in \<open>P\<close> the operation \<open>m\<close> returns an \<open>a\<close> and ends in a
  state \<open>s'\<close> with \<open>Q a s'\<close>.
\<close>

definition triple :: "('s \<Rightarrow> bool) \<Rightarrow> ('s, 'a) state \<Rightarrow> ('a \<Rightarrow> 's \<Rightarrow> bool) \<Rightarrow> bool" where
  "triple P m Q \<longleftrightarrow> (\<forall>s. P s \<longrightarrow> (case run_state m s of (a, s') \<Rightarrow> Q a s'))"

lemma tripleI: "(\<And>s a s'. P s \<Longrightarrow> run_state m s = (a, s') \<Longrightarrow> Q a s') \<Longrightarrow> triple P m Q"
  by (auto simp: triple_def split: prod.splits)

lemma tripleD: "triple P m Q \<Longrightarrow> P s \<Longrightarrow> run_state m s = (a, s') \<Longrightarrow> Q a s'"
  by (auto simp: triple_def)

lemma triple_fst: "triple P m (\<lambda>a s. Q a) \<Longrightarrow> P s \<Longrightarrow> Q (fst (run_state m s))"
  by (auto simp: triple_def case_prod_beta)

lemma triple_bind:
  "triple P m R \<Longrightarrow> (\<And>a. triple (R a) (f a) Q) \<Longrightarrow> triple P (State_Monad.bind m f) Q"
  by (fastforce simp: triple_def split: prod.splits)

lemma triple_ret: "(\<And>s. P s \<Longrightarrow> Q a s) \<Longrightarrow> triple P (ret a) Q"
  by (simp add: triple_def)

lemma triple_if:
  "(b \<Longrightarrow> triple P m Q) \<Longrightarrow> (\<not> b \<Longrightarrow> triple P n Q) \<Longrightarrow> triple P (if b then m else n) Q"
  by simp

lemma triple_case_prod:
  "(\<And>a b. x = (a, b) \<Longrightarrow> triple P (f a b) Q) \<Longrightarrow> triple P (case x of (a, b) \<Rightarrow> f a b) Q"
  by (cases x) simp

lemma triple_gets: "(\<And>s. P s \<Longrightarrow> Q (f s) s) \<Longrightarrow> triple P (gets f) Q"
  by (simp add: triple_def)

lemma triple_modify: "(\<And>s. P s \<Longrightarrow> Q () (f s)) \<Longrightarrow> triple P (modify f) Q"
  by (simp add: triple_def)

lemma triple_pre: "(b \<Longrightarrow> triple P m Q) \<Longrightarrow> triple (\<lambda>s. b \<and> P s) m Q"
  by (auto simp: triple_def)

lemma triple_ex: "(\<And>x. triple (P x) m Q) \<Longrightarrow> triple (\<lambda>s. \<exists>x. P x s) m Q"
  by (rule tripleI) (auto dest: tripleD)

lemma triple_keeps: "keeps P m \<Longrightarrow> triple P m (\<lambda>_. P)"
  by (auto simp: triple_def keeps_def split: prod.splits)

lemma triple_step: "keeps P m \<Longrightarrow> (\<And>a. triple P (f a) Q) \<Longrightarrow> triple P (State_Monad.bind m f) Q"
  by (rule triple_bind [OF triple_keeps])

lemma keeps_triple: "triple P m (\<lambda>_. P) \<Longrightarrow> keeps P m"
  by (auto simp: triple_def keeps_def case_prod_beta)

lemma triple_weaken:
  "triple P m Q \<Longrightarrow> (\<And>a s. Q a s \<Longrightarrow> Q' a s) \<Longrightarrow> (\<And>s. P' s \<Longrightarrow> P s) \<Longrightarrow> triple P' m Q'"
  by (fastforce simp: triple_def split: prod.splits)

text \<open>The loops: every turn starts and ends in the invariant.\<close>

lemma triple_for_each:
  "(\<And>x. x \<in> set xs \<Longrightarrow> triple I (f x) (\<lambda>_. I)) \<Longrightarrow> triple I (for_each xs f) (\<lambda>_. I)"
  by (induction xs) (auto intro!: triple_ret triple_bind)

lemma triple_collect_all:
  "(\<And>x. x \<in> set xs \<Longrightarrow> triple I (f x) (\<lambda>y s. Q x y \<and> I s)) \<Longrightarrow>
     triple I (collect xs f) (\<lambda>ys s. list_all2 Q xs ys \<and> I s)"
proof (induction xs)
  case (Cons x xs)
  have "triple I (f x) (\<lambda>y s. Q x y \<and> I s)"
    "triple I (collect xs f) (\<lambda>ys s. list_all2 Q xs ys \<and> I s)"
    using Cons by auto
  then show ?case
    by (auto intro!: triple_bind [where R = "\<lambda>y s. Q x y \<and> I s"] triple_pre
        triple_bind [where R = "\<lambda>ys s. list_all2 Q xs ys \<and> I s"] triple_ret)
qed (auto intro: triple_ret)

lemma triple_collect:
  "(\<And>x. x \<in> set xs \<Longrightarrow> triple I (f x) (\<lambda>y s. y = g x \<and> I s)) \<Longrightarrow>
     triple I (collect xs f) (\<lambda>ys s. ys = map g xs \<and> I s)"
  by (rule triple_weaken [OF triple_collect_all [where Q = "\<lambda>x y. y = g x" and I = I]])
     (auto simp: list_all2_conv_all_nth intro: nth_equalityI)

section \<open>Buffers\<close>

lemma take_take_append: "n \<le> length xs \<Longrightarrow> take n (take n xs @ ys) = take n xs"
  by simp

section \<open>Searching a table\<close>

text \<open>The first index of a table whose entry satisfies a test, as the scanning loops return it.\<close>

fun find_index :: "('a \<Rightarrow> bool) \<Rightarrow> 'a list \<Rightarrow> nat option" where
  "find_index P [] = None"
| "find_index P (x # xs) = (if P x then Some 0 else map_option Suc (find_index P xs))"

lemma find_index_None: "find_index P xs = None \<longleftrightarrow> (\<forall>x \<in> set xs. \<not> P x)"
  by (induction xs) auto

lemma find_index_Some:
  "find_index P xs = Some i \<longleftrightarrow> i < length xs \<and> P (xs ! i) \<and> (\<forall>j < i. \<not> P (xs ! j))"
proof (induction xs arbitrary: i)
  case (Cons x xs)
  then show ?case
    by (cases i) (auto simp: All_less_Suc2)
qed simp

lemma find_index_first:
  "find_index (\<lambda>x. \<not> P x) xs = (if dropWhile P xs = [] then None else Some (length (takeWhile P xs)))"
  by (induction xs) auto

text \<open>Appending to the leading block of entries that satisfy \<open>P\<close>.\<close>

lemma takeWhile_update:
  assumes "dropWhile P xs \<noteq> []" "P x" "\<forall>y \<in> set (dropWhile P xs). \<not> P y"
  shows "takeWhile P (xs[length (takeWhile P xs) := x]) = takeWhile P xs @ [x]"
    "\<forall>y \<in> set (dropWhile P (xs[length (takeWhile P xs) := x])). \<not> P y"
proof -
  obtain y ys where d: "dropWhile P xs = y # ys"
    using assms(1) by (cases "dropWhile P xs") auto
  have "xs[length (takeWhile P xs) := x] = takeWhile P xs @ x # ys"
    using takeWhile_dropWhile_id [of P xs] d by (metis list_update_length)
  moreover have "takeWhile P ys = []" "dropWhile P ys = ys"
    using assms(3) d by (cases ys; simp)+
  ultimately show "takeWhile P (xs[length (takeWhile P xs) := x]) = takeWhile P xs @ [x]"
    "\<forall>y \<in> set (dropWhile P (xs[length (takeWhile P xs) := x])). \<not> P y"
    using assms(2,3) d by (auto simp: takeWhile_append dropWhile_append dest: set_takeWhileD)
qed

lemma filter_takeWhile:
  "\<forall>y \<in> set (dropWhile P xs). \<not> P y \<Longrightarrow> filter P xs = takeWhile P xs"
  by (metis append_Nil2 filter_append filter_False filter_True set_takeWhileD takeWhile_dropWhile_id)

lemma concat_filter_nth:
  "concat (map (\<lambda>i. if Q (xs ! i) then [g (xs ! i)] else []) [0..<length xs]) = map g (filter Q xs)"
proof -
  have "map g (filter Q ys) = concat (map (\<lambda>x. if Q x then [g x] else []) ys)" for ys
    by (induction ys) auto
  from this [of "map ((!) xs) [0..<length xs]"] show ?thesis
    by (simp add: map_nth comp_def del: map_nth) (simp add: map_nth)
qed

section \<open>Components inside components\<close>

text \<open>
  \<open>zoom get put m\<close> runs an operation of a component on its part of a larger state, for a driver
  that calls another driver in its own address space.
\<close>

definition zoom :: "('s \<Rightarrow> 't) \<Rightarrow> ('t \<Rightarrow> 's \<Rightarrow> 's) \<Rightarrow> ('t, 'a) state \<Rightarrow> ('s, 'a) state" where
  "zoom get put m = State (\<lambda>s. case run_state m (get s) of (a, t) \<Rightarrow> (a, put t s))"

lemma run_zoom [simp, run_simps]:
  "run_state (zoom get put m) s = (case run_state m (get s) of (a, t) \<Rightarrow> (a, put t s))"
  by (simp add: zoom_def)

section \<open>Servers\<close>

text \<open>
  Every driver thread is the loop \<^verbatim>\<open>for (;;) { receive; handle; reply; }\<close>.  \<open>serve\<close> is the loop
  over a finite sequence of requests, with the replies in order.
\<close>

fun serve :: "(msg \<Rightarrow> ('s, msg) state) \<Rightarrow> msg list \<Rightarrow> ('s, msg list) state" where
  "serve handle [] = ret []"
| "serve handle (m # ms) = do { r \<leftarrow> handle m; rs \<leftarrow> serve handle ms; ret (r # rs) }"

lemma keeps_serve: "(\<And>m. keeps P (handle m)) \<Longrightarrow> keeps P (serve handle ms)"
  by (induction ms) (auto intro!: keeps_intros)

text \<open>
  The contract of a server: the handler keeps an invariant on every admissible request, and an
  abstract state follows a specification of one request.  Then the loop keeps the invariant,
  refines the specification of the whole sequence, and answers every request.
\<close>

locale rpc_server =
  fixes handle :: "msg \<Rightarrow> ('s, msg) state"
    and ok :: "msg \<Rightarrow> bool"
    and inv :: "'s \<Rightarrow> bool"
    and abs_st :: "'s \<Rightarrow> 'a"
    and spec :: "msg \<Rightarrow> 'a \<Rightarrow> 'a"
  assumes handle_inv: "inv s \<Longrightarrow> ok m \<Longrightarrow> inv (snd (run_state (handle m) s))"
    and handle_abs: "inv s \<Longrightarrow> ok m \<Longrightarrow> abs_st (snd (run_state (handle m) s)) = spec m (abs_st s)"
begin

lemma serve_inv: "inv s \<Longrightarrow> (\<And>m. m \<in> set ms \<Longrightarrow> ok m) \<Longrightarrow> inv (snd (run_state (serve handle ms) s))"
proof (induction ms arbitrary: s)
  case (Cons m ms)
  then show ?case
    using handle_inv [of s m] by (auto split: prod.splits) (metis snd_conv)
qed simp

lemma serve_abs:
  "inv s \<Longrightarrow> (\<And>m. m \<in> set ms \<Longrightarrow> ok m) \<Longrightarrow>
     abs_st (snd (run_state (serve handle ms) s)) = fold spec ms (abs_st s)"
proof (induction ms arbitrary: s)
  case (Cons m ms)
  obtain r s' where run: "run_state (handle m) s = (r, s')"
    by (cases "run_state (handle m) s")
  with Cons.prems handle_inv [of s m] handle_abs [of s m]
  have "inv s'" "abs_st s' = spec m (abs_st s)"
    by auto
  with Cons.IH [of s'] Cons.prems(2) run show ?case
    by (auto split: prod.splits)
qed simp

lemma serve_replies: "length (fst (run_state (serve handle ms) s)) = length ms"
  by (induction ms arbitrary: s) (auto split: prod.splits, metis fst_conv)

end

section \<open>Calls\<close>

text \<open>
  \<open>ulmk_ep_call\<close> sends a message and returns the status of the rendezvous with the message as the
  server left it; \<open>ipc\<close> is the rendezvous with a server that runs the given handler.
\<close>

type_synonym 's ep_call = "msg \<Rightarrow> ('s, cint \<times> msg) state"

definition ipc :: "ulmk_abi \<Rightarrow> (msg \<Rightarrow> ('s, msg) state) \<Rightarrow> 's ep_call" where
  "ipc K handle m = do { r \<leftarrow> handle m; ret (ULMK_OK K, r) }"

text \<open>A message from its label and leading words; the others are zero.\<close>

definition rpc :: "u32 \<Rightarrow> u32 list \<Rightarrow> msg" where
  "rpc lab ws = \<lparr>label = lab, words = (\<lambda>i. if i < length ws then ws ! i else 0)\<rparr>"

text \<open>A small result is not an error code.\<close>

lemma not_neg_small: "len \<le> 64 \<Longrightarrow> got \<le> len \<Longrightarrow> \<not> c_neg got"
proof -
  assume "len \<le> 64" "got \<le> len"
  then have "uint got < 2 ^ 31"
    by (simp add: word_le_def)
  then have "sint got = uint got"
    using uint_ge_0 [of got] by (simp add: sint_uint signed_take_bit_int_eq_self_iff order_trans [OF _ uint_ge_0])
  then show ?thesis
    by (simp add: c_neg_def)
qed

end
