(* ===== verification/Payload.thy ===== *)
theory Payload
  imports Ulmk_Base
begin

text \<open>
  Bytes inside message words.  Every driver of the repository moves byte payloads through the
  32-bit words of an IPC message with the same two C idioms,
  \<^verbatim>\<open>words[w0 + i/4] |= (uint32_t)b << ((i % 4) * 8)\<close> and
  \<^verbatim>\<open>(uint8_t)((words[w0 + i/4] >> ((i % 4) * 8)) & 0xFF)\<close>; the loops of the individual
  drivers are instances of \<open>pack_loop\<close> and \<open>unpack_loop\<close>.  The main fact is that
  unpacking what was packed gives the bytes back, and which words the loops touch.
\<close>

definition word_byte :: "u32 \<Rightarrow> nat \<Rightarrow> u8" where
  "word_byte w k = ucast (drop_bit (k * 8) w AND 0xFF)"

definition put_byte :: "u32 \<Rightarrow> nat \<Rightarrow> u8 \<Rightarrow> u32" where
  "put_byte w k b = w OR push_bit (k * 8) (ucast b)"

fun pack_loop :: "nat \<Rightarrow> nat \<Rightarrow> u8 list \<Rightarrow> (nat \<Rightarrow> u32) \<Rightarrow> (nat \<Rightarrow> u32)" where
  "pack_loop w0 i [] ws = ws"
| "pack_loop w0 i (b # bs) ws =
     pack_loop w0 (Suc i) bs
       (ws(w0 + i div 4 := put_byte (ws (w0 + i div 4)) (i mod 4) b))"

definition unpack_loop :: "nat \<Rightarrow> nat \<Rightarrow> (nat \<Rightarrow> u32) \<Rightarrow> u8 list" where
  "unpack_loop w0 n ws = map (\<lambda>i. word_byte (ws (w0 + i div 4)) (i mod 4)) [0..<n]"

text \<open>The index of every word that the loops read or write.\<close>

definition payload_indices :: "nat \<Rightarrow> nat \<Rightarrow> nat set" where
  "payload_indices w0 n = (\<lambda>i. w0 + i div 4) ` {0..<n}"

lemma bit_byte_mask: "bit (255 :: 'a::len word) n \<longleftrightarrow> n < 8 \<and> n < LENGTH('a)"
  using bit_mask_iff [of 8 n, where 'a = "'a word"] by (auto simp: mask_eq_exp_minus_1)

lemma bit_word_byte: "bit (word_byte w k) n \<longleftrightarrow> n < 8 \<and> bit w (k * 8 + n)"
proof -
  have "bit (word_byte w k) n \<longleftrightarrow> n < 8 \<and> bit (drop_bit (k * 8) w) n \<and> bit (255 :: u32) n"
    by (auto simp only: word_byte_def bit_unsigned_iff possible_bit_word bit_and_iff len_num1
        len_bit0 len_bit1 len_num0)
  then show ?thesis
    by (auto simp: bit_byte_mask bit_drop_bit_eq simp del: bit_numeral_word_iff)
qed

lemma word_byte_zero [simp]: "word_byte 0 k = 0"
  by (simp add: word_byte_def)

lemma bit_put_byte:
  "k < 4 \<Longrightarrow> bit (put_byte w k b) n \<longleftrightarrow> bit w n \<or> k * 8 \<le> n \<and> n < k * 8 + 8 \<and> bit b (n - k * 8)"
  by (auto simp: put_byte_def bit_simps dest: bit_imp_le_length)

lemma word_byte_put_same: "k < 4 \<Longrightarrow> word_byte (put_byte w k b) k = word_byte w k OR b"
  by (rule bit_eqI) (auto simp: bit_word_byte bit_put_byte bit_simps dest: bit_imp_le_length)

lemma word_byte_put_other:
  assumes "k < 4" "j < 4" "j \<noteq> k"
  shows "word_byte (put_byte w k b) j = word_byte w j"
proof (rule bit_eqI)
  fix n
  have "\<not> (k * 8 \<le> j * 8 + n \<and> j * 8 + n < k * 8 + 8)" if "n < 8"
    using assms that by (cases "j < k") auto
  then show "bit (word_byte (put_byte w k b) j) n = bit (word_byte w j) n"
    using assms(1) by (auto simp: bit_word_byte bit_put_byte)
qed

lemma put_byte_zero [simp]: "put_byte w k 0 = w"
  by (simp add: put_byte_def)

section \<open>What the packing loop leaves in the words\<close>

lemma pack_loop_outside:
  "m \<notin> (\<lambda>j. w0 + j div 4) ` {i..<i + length bs} \<Longrightarrow> pack_loop w0 i bs ws m = ws m"
proof (induction bs arbitrary: i ws)
  case Nil
  then show ?case by simp
next
  case (Cons b bs)
  from Cons.prems have "m \<noteq> w0 + i div 4"
    by auto
  moreover from Cons.prems have "m \<notin> (\<lambda>j. w0 + j div 4) ` {Suc i..<Suc i + length bs}"
    by auto
  ultimately show ?case
    by (simp add: Cons.IH)
qed

lemma pack_loop_below: "m < w0 \<Longrightarrow> pack_loop w0 i bs ws m = ws m"
  by (rule pack_loop_outside) auto

lemma pack_loop_above: "w0 + (i + length bs - 1) div 4 < m \<Longrightarrow> pack_loop w0 i bs ws m = ws m"
proof (rule pack_loop_outside, rule notI)
  assume above: "w0 + (i + length bs - 1) div 4 < m"
    and "m \<in> (\<lambda>j. w0 + j div 4) ` {i..<i + length bs}"
  then obtain j where "m = w0 + j div 4" "j \<le> i + length bs - 1"
    by auto
  with above div_le_mono [of j "i + length bs - 1" 4] show False
    by simp
qed

lemma pack_loop_byte:
  "r < 4 \<Longrightarrow> word_byte (pack_loop w0 i bs ws (w0 + q)) r =
     (if i \<le> 4 * q + r \<and> 4 * q + r < i + length bs
      then word_byte (ws (w0 + q)) r OR bs ! (4 * q + r - i)
      else word_byte (ws (w0 + q)) r)"
proof (induction bs arbitrary: i ws)
  case Nil
  then show ?case by auto
next
  case (Cons b bs)
  let ?ws = "ws(w0 + i div 4 := put_byte (ws (w0 + i div 4)) (i mod 4) b)"
  have here: "word_byte (?ws (w0 + q)) r =
     (if 4 * q + r = i then word_byte (ws (w0 + q)) r OR b else word_byte (ws (w0 + q)) r)"
  proof (cases "q = i div 4")
    case True
    then have split: "4 * q + r = i \<longleftrightarrow> r = i mod 4"
      by presburger
    show ?thesis
      using True Cons.prems split
      by (cases "r = i mod 4") (auto simp: word_byte_put_same word_byte_put_other)
  next
    case False
    with Cons.prems have "4 * q + r \<noteq> i"
      by auto
    with False show ?thesis by simp
  qed
  show ?case
  proof (cases "4 * q + r = i")
    case True
    with Cons.IH [OF Cons.prems, of "Suc i" ?ws] here show ?thesis
      by (simp del: fun_upd_apply)
  next
    case False
    then have "Suc i \<le> 4 * q + r \<longleftrightarrow> i \<le> 4 * q + r"
      by auto
    moreover have "(b # bs) ! (4 * q + r - i) = bs ! (4 * q + r - Suc i)" if "i < 4 * q + r"
      using that by (simp add: nth_Cons')
    ultimately show ?thesis
      using Cons.IH [OF Cons.prems, of "Suc i" ?ws] here False
      by (auto simp del: fun_upd_apply)
  qed
qed

section \<open>Round trip\<close>

lemma length_unpack_loop [simp]: "length (unpack_loop w0 n ws) = n"
  by (simp add: unpack_loop_def)

lemma nth_unpack_loop: "i < n \<Longrightarrow> unpack_loop w0 n ws ! i = word_byte (ws (w0 + i div 4)) (i mod 4)"
  by (simp add: unpack_loop_def)

lemma take_unpack_loop: "k \<le> n \<Longrightarrow> take k (unpack_loop w0 n ws) = unpack_loop w0 k ws"
  by (simp add: unpack_loop_def take_map)

lemma unpack_loop_cong:
  "(\<And>m. m \<in> payload_indices w0 n \<Longrightarrow> ws m = ws' m) \<Longrightarrow>
     unpack_loop w0 n ws = unpack_loop w0 n ws'"
  by (auto simp: unpack_loop_def payload_indices_def)

lemma unpack_pack:
  assumes "\<And>m. m \<in> payload_indices w0 n \<Longrightarrow> ws m = 0"
  shows "unpack_loop w0 n (pack_loop w0 0 bs ws) =
    map (\<lambda>i. if i < length bs then bs ! i else 0) [0..<n]"
proof (rule nth_equalityI)
  fix i
  assume "i < length (unpack_loop w0 n (pack_loop w0 0 bs ws))"
  then have i: "i < n" by simp
  have "ws (w0 + i div 4) = 0"
    using i by (intro assms) (auto simp: payload_indices_def)
  then show "unpack_loop w0 n (pack_loop w0 0 bs ws) ! i =
      map (\<lambda>i. if i < length bs then bs ! i else 0) [0..<n] ! i"
    using i pack_loop_byte [of "i mod 4" w0 0 bs ws "i div 4"]
    by (simp add: nth_unpack_loop)
qed simp

lemma unpack_pack_exact:
  assumes "\<And>m. m \<in> payload_indices w0 (length bs) \<Longrightarrow> ws m = 0"
  shows "unpack_loop w0 (length bs) (pack_loop w0 0 bs ws) = bs"
  using unpack_pack [OF assms]
  by (auto intro: nth_equalityI)

lemma payload_indices_bound:
  assumes "m \<in> payload_indices w0 n"
  shows "w0 \<le> m \<and> m \<le> w0 + (n - 1) div 4"
  using assms by (auto simp: payload_indices_def intro!: div_le_mono)

section \<open>The interface of a byte payload in a message\<close>

text \<open>
  A sender stores up to \<open>cap\<close> bytes in the message from word \<open>w0\<close>; the receiver reads as many
  bytes back.  The header words below \<open>w0\<close> are not touched.
\<close>

locale payload_codec =
  fixes store :: "(nat \<Rightarrow> u32) \<Rightarrow> u8 list \<Rightarrow> (nat \<Rightarrow> u32)"
    and fetch :: "(nat \<Rightarrow> u32) \<Rightarrow> nat \<Rightarrow> u8 list"
    and w0 :: nat
    and cap :: nat
  assumes fetch_store: "length bs \<le> cap \<Longrightarrow> fetch (store ws bs) (length bs) = bs"
    and store_header: "length bs \<le> cap \<Longrightarrow> m < w0 \<Longrightarrow> store ws bs m = ws m"
    and length_fetch: "length (fetch ws n) = n"
begin

lemma transfer_prefix:
  assumes "n \<le> length bs" "n \<le> cap"
  shows "fetch (store ws (take n bs)) n = take n bs"
  using fetch_store [of "take n bs" ws] assms by (simp add: min_absorb2)

text \<open>A receiver that overwrites the start of its buffer with the payload holds the sender's bytes.\<close>

lemma deliver:
  assumes "n \<le> length bs" "n \<le> cap"
  shows "take n (fetch (store ws (take n bs)) n @ rest) = take n bs"
  using transfer_prefix [OF assms] assms by simp

lemma deliver_nth:
  assumes "n \<le> length bs" "n \<le> cap" "i < n"
  shows "fetch (store ws (take n bs)) n ! i = bs ! i"
  using transfer_prefix [OF assms(1,2)] assms(3) by simp

end

text \<open>The layout all drivers share: clear the words, then pack from the lowest byte up.\<close>

fun clear_words :: "nat \<Rightarrow> nat \<Rightarrow> (nat \<Rightarrow> u32) \<Rightarrow> (nat \<Rightarrow> u32)" where
  "clear_words w0 0 ws = ws"
| "clear_words w0 (Suc k) ws = (clear_words w0 k ws)(w0 + k := 0)"

lemma clear_words_apply: "clear_words w0 k ws m = (if w0 \<le> m \<and> m < w0 + k then 0 else ws m)"
  by (induction k) auto

lemma unpack_pack_cleared:
  assumes "length bs \<le> 4 * k"
  shows "unpack_loop w0 (length bs) (pack_loop w0 0 bs (clear_words w0 k ws)) = bs"
proof (rule unpack_pack_exact)
  fix m
  assume "m \<in> payload_indices w0 (length bs)"
  then obtain i where "m = w0 + i div 4" "i < 4 * k"
    using assms by (auto simp: payload_indices_def)
  then show "clear_words w0 k ws m = 0"
    by (simp add: clear_words_apply less_mult_imp_div_less)
qed

lemma cleared_codec:
  assumes "cap \<le> 4 * k"
  shows "payload_codec (\<lambda>ws bs. pack_loop w0 0 bs (clear_words w0 k ws)) (\<lambda>ws n. unpack_loop w0 n ws) w0 cap"
  using assms by unfold_locales (auto simp: unpack_pack_cleared pack_loop_below clear_words_apply)

section \<open>Overwriting bytes in place\<close>

text \<open>
  A \<open>uint8_t\<close> pointer into the message array (\<^verbatim>\<open>dst[i] = buf[i]\<close>): the byte is replaced, the other
  bytes of its word are kept.  Both targets are little-endian.
\<close>

definition set_byte :: "u32 \<Rightarrow> nat \<Rightarrow> u8 \<Rightarrow> u32" where
  "set_byte w k b = (w AND NOT (push_bit (k * 8) 0xFF)) OR push_bit (k * 8) (ucast b)"

fun poke_loop :: "nat \<Rightarrow> nat \<Rightarrow> u8 list \<Rightarrow> (nat \<Rightarrow> u32) \<Rightarrow> (nat \<Rightarrow> u32)" where
  "poke_loop w0 i [] ws = ws"
| "poke_loop w0 i (b # bs) ws =
     poke_loop w0 (Suc i) bs (ws(w0 + i div 4 := set_byte (ws (w0 + i div 4)) (i mod 4) b))"

lemma word_byte_set_byte:
  assumes "k < 4" "j < 4"
  shows "word_byte (set_byte w k b) j = (if j = k then b else word_byte w j)"
proof (rule bit_eqI)
  fix n
  have other: "n < 8 \<Longrightarrow> j \<noteq> k \<Longrightarrow> \<not> (k * 8 \<le> j * 8 + n \<and> j * 8 + n - k * 8 < 8)"
    by presburger
  have "n < 8 \<Longrightarrow> j * 8 + n < 32"
    using assms by simp
  with other show "bit (word_byte (set_byte w k b) j) n = bit (if j = k then b else word_byte w j) n"
    by (cases "n < 8")
       (auto simp: bit_word_byte set_byte_def bit_simps bit_byte_mask simp del: bit_numeral_word_iff)
qed

lemma poke_loop_outside:
  "(\<And>k. i \<le> k \<Longrightarrow> k < i + length bs \<Longrightarrow> m \<noteq> w0 + k div 4) \<Longrightarrow> poke_loop w0 i bs ws m = ws m"
proof (induction bs arbitrary: i ws)
  case (Cons b bs)
  then have "m \<noteq> w0 + i div 4" by simp
  with Cons.IH [of "Suc i"] Cons.prems show ?case by simp
qed simp

text \<open>The byte at position \<open>j\<close> of the message payload, as the receiver's byte pointer reads it.\<close>

definition peek :: "nat \<Rightarrow> (nat \<Rightarrow> u32) \<Rightarrow> nat \<Rightarrow> u8" where
  "peek w0 ws j = word_byte (ws (w0 + j div 4)) (j mod 4)"

lemma peek_poke_loop:
  "peek w0 (poke_loop w0 i bs ws) j = (if i \<le> j \<and> j < i + length bs then bs ! (j - i) else peek w0 ws j)"
proof (induction bs arbitrary: i ws)
  case (Cons b bs)
  let ?ws = "ws(w0 + i div 4 := set_byte (ws (w0 + i div 4)) (i mod 4) b)"
  have "peek w0 ?ws j = (if j = i then b else peek w0 ws j)"
  proof (cases "j div 4 = i div 4")
    case True
    then have "j = i \<longleftrightarrow> j mod 4 = i mod 4"
      by (metis div_mult_mod_eq)
    with True show ?thesis
      by (simp add: peek_def word_byte_set_byte)
  qed (auto simp: peek_def)
  with Cons.IH [of "Suc i" ?ws] show ?case
    by (auto simp: nth_Cons' Suc_le_eq simp del: fun_upd_apply)
qed auto

lemma unpack_loop_peek: "unpack_loop w0 n ws = map (peek w0 ws) [0..<n]"
  by (simp add: unpack_loop_def peek_def)

lemma unpack_poke: "unpack_loop w0 (length bs) (poke_loop w0 0 bs ws) = bs"
  by (rule nth_equalityI) (simp_all add: unpack_loop_peek peek_poke_loop)

interpretation memcpy_codec: payload_codec
  "\<lambda>ws bs. poke_loop w0 0 bs ws" "\<lambda>ws n. unpack_loop w0 n ws" w0 cap
  for w0 cap
  by unfold_locales (auto simp: unpack_poke intro!: poke_loop_outside)

end
