(* ===== verification/Dma_Linum.thy ===== *)
theory Dma_Linum
  imports Payload
begin

text \<open>
  The DMA1 stream pool of the Linum board: \<^verbatim>\<open>witte_linum/drivers/dma/src/server.c\<close>.
  A dispatcher thread answers OPEN, CLOSE, LOAD, ARM and WAIT messages; one worker thread per
  slot programs the stream and waits for the transfer to complete.  Both sides share the
  table \<open>g_slots\<close>.

  The dispatcher blocks on the notification of a slot while the worker and the DMA engine
  write \<open>result\<close> and \<open>buf\<close> of that slot; the field \<open>others\<close> of the state is what they have
  left there, an arbitrary function of the history.  The worker itself is modelled below
  (\<open>dma_worker_iter\<close>), with the proof that it writes \<open>result\<close> only.
\<close>

section \<open>Constants and state\<close>

definition DMA_MAX_SLOTS :: nat where [const_defs]: "DMA_MAX_SLOTS = 3"
definition DMA_XFER_MAX :: nat where [const_defs]: "DMA_XFER_MAX = 16"
definition DMA_DEFAULT_WAIT_MS :: u32 where [const_defs]: "DMA_DEFAULT_WAIT_MS = 1000"

definition DMA_MSG_OPEN :: u32 where [const_defs]: "DMA_MSG_OPEN = 1"
definition DMA_MSG_CLOSE :: u32 where [const_defs]: "DMA_MSG_CLOSE = 2"
definition DMA_MSG_ARM :: u32 where [const_defs]: "DMA_MSG_ARM = 3"
definition DMA_MSG_WAIT :: u32 where [const_defs]: "DMA_MSG_WAIT = 4"
definition DMA_MSG_LOAD :: u32 where [const_defs]: "DMA_MSG_LOAD = 5"

definition DMA_JOB_ARM :: u32 where [const_defs]: "DMA_JOB_ARM = 1"

text \<open>Notification masks: \<open>1 << DMA_NOTIF_JOB\<close>, \<open>1 << DMA_NOTIF_ARMED\<close>, \<open>1 << DMA_NOTIF_DONE\<close>.\<close>

definition NOTIF_JOB :: u32 where [const_defs]: "NOTIF_JOB = push_bit 0 1"
definition NOTIF_ARMED :: u32 where [const_defs]: "NOTIF_ARMED = push_bit 0 1"
definition NOTIF_DONE :: u32 where [const_defs]: "NOTIF_DONE = push_bit 1 1"

definition DMA_FLAG_DIR_M2P :: u32 where [const_defs]: "DMA_FLAG_DIR_M2P = push_bit 0 1"
definition DMA_FLAG_MINC :: u32 where [const_defs]: "DMA_FLAG_MINC = push_bit 1 1"
definition DMA_FLAG_PSIZE_16 :: u32 where [const_defs]: "DMA_FLAG_PSIZE_16 = push_bit 2 1"
definition DMA_FLAG_MSIZE_16 :: u32 where [const_defs]: "DMA_FLAG_MSIZE_16 = push_bit 3 1"

definition DMA_CR_EN :: u32 where [const_defs]: "DMA_CR_EN = push_bit 0 1"
definition DMA_CR_TCIE :: u32 where [const_defs]: "DMA_CR_TCIE = push_bit 4 1"
definition DMA_CR_DIR_M2P :: u32 where [const_defs]: "DMA_CR_DIR_M2P = push_bit 6 1"
definition DMA_CR_MINC :: u32 where [const_defs]: "DMA_CR_MINC = push_bit 10 1"
definition DMA_CR_PSIZE_16 :: u32 where [const_defs]: "DMA_CR_PSIZE_16 = push_bit 11 1"
definition DMA_CR_MSIZE_16 :: u32 where [const_defs]: "DMA_CR_MSIZE_16 = push_bit 13 1"

text \<open>
  Registers of DMA1 and DMAMUX.  Stream \<open>n\<close> is at offset \<open>0x10 + n * 0x18\<close>, its mux channel
  at \<open>0x800 + n * 4\<close>; the register names are those of the vendor structures.
\<close>

datatype dma_reg =
    LISR | LIFCR
  | Stream_CR nat | Stream_NDTR nat | Stream_PAR nat | Stream_M0AR nat
  | Mux_CCR nat

datatype dma_act =
    Dma_rd dma_reg
  | Dma_wr dma_reg u32
  | Dma_dsb
  | Dcache_clean u32 u32
  | Dcache_invalidate u32 u32

record dma_slot =
  slot_open :: u8
  slot_mux_req :: u8
  slot_flags :: u32
  slot_buf :: "u8 list"
  slot_irq_notif :: u32
  slot_job_notif :: u32
  slot_done_notif :: u32
  slot_job :: u32
  slot_periph :: u32
  slot_len :: u32
  slot_timeout_ms :: u32
  slot_result :: cint
  slot_worker :: u32

record dma_st = "dma_act io" +
  g_slots :: "dma_slot list"
  g_dma_ep :: u32
  g_dma_ready :: u8
  buf_addr :: "nat \<Rightarrow> u32"
  others :: "dma_act event list \<Rightarrow> nat \<Rightarrow> cint \<times> (nat \<Rightarrow> u8)"
  disp_tmp :: "u8 list"

definition g_lifcr_mask :: "u32 list" where
  "g_lifcr_mask = [0x0000003D, 0x00000F40, 0x003D0000]"

definition g_tcif_mask :: "u32 list" where
  "g_tcif_mask = [push_bit 5 1, push_bit 11 1, push_bit 21 1]"

definition g_irq_slot :: "u32 list" where
  "g_irq_slot = [15, 1, 2]"

definition g_nvic :: "u32 list" where
  "g_nvic = [11, 12, 13]"

definition upd_slot :: "nat \<Rightarrow> (dma_slot \<Rightarrow> dma_slot) \<Rightarrow> (dma_st, unit) state" where
  "upd_slot i f = modify (\<lambda>st. st\<lparr>g_slots := (g_slots st)[i := f (g_slots st ! i)]\<rparr>)"

definition the_slot :: "nat \<Rightarrow> (dma_st, dma_slot) state" where
  "the_slot i = gets (\<lambda>st. g_slots st ! i)"

lemma run_upd_slot [simp, run_simps]:
  "run_state (upd_slot i f) st = ((), st\<lparr>g_slots := (g_slots st)[i := f (g_slots st ! i)]\<rparr>)"
  by (simp add: upd_slot_def)

lemma run_the_slot [simp, run_simps]: "run_state (the_slot i) st = (g_slots st ! i, st)"
  by (simp add: the_slot_def)

section \<open>The worker\<close>

definition flags_to_cr :: "u32 \<Rightarrow> u32" where
  "flags_to_cr flags =
     (let cr = DMA_CR_TCIE;
          cr = (if flags AND DMA_FLAG_MINC \<noteq> 0 then cr OR DMA_CR_MINC else cr);
          cr = (if flags AND DMA_FLAG_DIR_M2P \<noteq> 0 then cr OR DMA_CR_DIR_M2P else cr);
          cr = (if flags AND DMA_FLAG_PSIZE_16 \<noteq> 0 then cr OR DMA_CR_PSIZE_16 else cr);
          cr = (if flags AND DMA_FLAG_MSIZE_16 \<noteq> 0 then cr OR DMA_CR_MSIZE_16 else cr)
      in cr)"

definition slot_arm_hw :: "nat \<Rightarrow> (dma_st, unit) state" where
  "slot_arm_hw slot = do {
     s \<leftarrow> the_slot slot;
     addr \<leftarrow> gets (\<lambda>st. buf_addr st slot);
     dev_do (Dma_wr LIFCR (g_lifcr_mask ! slot));
     dev_do (Dma_wr (Stream_CR slot) 0);
     dev_do (Dma_wr (Stream_PAR slot) (slot_periph s));
     dev_do (Dma_wr (Stream_M0AR slot) addr);
     dev_do (Dma_wr (Stream_NDTR slot)
       (if slot_flags s AND DMA_FLAG_PSIZE_16 \<noteq> 0 \<or> slot_flags s AND DMA_FLAG_MSIZE_16 \<noteq> 0
        then slot_len s div 2 else slot_len s));
     dev_do (Dma_wr (Mux_CCR slot) (ucast (slot_mux_req s)));
     dev_do (Dma_wr (Stream_CR slot) (flags_to_cr (slot_flags s)));
     kern_do (Irq_ack (g_irq_slot ! slot));
     cr \<leftarrow> dev (Dma_rd (Stream_CR slot));
     dev_do (Dma_wr (Stream_CR slot) (cr OR DMA_CR_EN));
     dev_do Dma_dsb
   }"

text \<open>
  The polling loop, with fuel: \<open>None\<close> is "still polling".  \<open>slot_wait_tc_returns\<close> shows that
  the timeout in milliseconds, which bounds the number of one-millisecond sleeps, is enough.
\<close>

fun slot_wait_tc :: "ulmk_abi \<Rightarrow> nat \<Rightarrow> nat \<Rightarrow> u32 \<Rightarrow> u32 \<Rightarrow> (dma_st, cint option) state" where
  "slot_wait_tc K 0 slot timeout_ms elapsed = ret None"
| "slot_wait_tc K (Suc fuel) slot timeout_ms elapsed = do {
     isr \<leftarrow> dev (Dma_rd LISR);
     if isr AND g_tcif_mask ! slot \<noteq> 0 then do {
       dev_do (Dma_wr LIFCR (g_lifcr_mask ! slot));
       kern_do (Irq_ack (g_irq_slot ! slot));
       ret (Some (ULMK_OK K))
     } else if timeout_ms \<noteq> 0 \<and> timeout_ms \<le> elapsed then ret (Some (ULMK_ETIMEOUT K))
     else do {
       kern_do (Sleep_ms 1);
       slot_wait_tc K fuel slot timeout_ms (elapsed + 1)
     }
   }"

text \<open>The body of the worker for one job; the loop fuel is the timeout it has just chosen.\<close>

definition dma_worker_job :: "ulmk_abi \<Rightarrow> nat \<Rightarrow> (dma_st, unit) state" where
  "dma_worker_job K slot = do {
     s \<leftarrow> the_slot slot;
     addr \<leftarrow> gets (\<lambda>st. buf_addr st slot);
     if slot_job s = DMA_JOB_ARM then do {
       let tmo = (if slot_timeout_ms s \<noteq> 0 then slot_timeout_ms s else DMA_DEFAULT_WAIT_MS);
       (if slot_flags s AND DMA_FLAG_DIR_M2P \<noteq> 0 then dev_do (Dcache_clean addr (slot_len s))
        else dev_do (Dcache_invalidate addr (slot_len s)));
       slot_arm_hw slot;
       kern_do (Notif_signal (slot_done_notif s) NOTIF_ARMED);
       rc \<leftarrow> slot_wait_tc K (Suc (unat tmo)) slot tmo 0;
       upd_slot slot (\<lambda>s. s\<lparr>slot_result := the rc\<rparr>);
       when_do (slot_flags s AND DMA_FLAG_DIR_M2P = 0 \<and> the rc = ULMK_OK K)
         (dev_do (Dcache_invalidate addr (slot_len s)));
       kern_do (Notif_signal (slot_done_notif s) NOTIF_DONE)
     } else do {
       upd_slot slot (\<lambda>s. s\<lparr>slot_result := ULMK_EINVAL K\<rparr>);
       kern_do (Notif_signal (slot_done_notif s) NOTIF_DONE)
     }
   }"

definition dma_worker_iter :: "ulmk_abi \<Rightarrow> nat \<Rightarrow> (dma_st, unit) state" where
  "dma_worker_iter K slot = do {
     s \<leftarrow> the_slot slot;
     rc \<leftarrow> kern (Notif_wait (slot_job_notif s) NOTIF_JOB);
     if rc \<noteq> ULMK_OK K then ret () else dma_worker_job K slot
   }"

definition dma_worker_start :: "(dma_st, bool) state" where
  "dma_worker_start = do {
     dma \<leftarrow> kern (Mem_map 0x40020000 0xC00);
     ret (dma \<noteq> 0)
   }"

section \<open>The dispatcher's operations\<close>

definition slot_closed :: "dma_st \<Rightarrow> u8 \<Rightarrow> bool" where
  "slot_closed st slot \<longleftrightarrow> DMA_MAX_SLOTS \<le> unat slot \<or> slot_open (g_slots st ! unat slot) = 0"

definition do_open :: "ulmk_abi \<Rightarrow> u8 \<Rightarrow> u8 \<Rightarrow> u32 \<Rightarrow> (dma_st, cint) state" where
  "do_open K slot mux_req flags = do {
     st \<leftarrow> gets id;
     if DMA_MAX_SLOTS \<le> unat slot then ret (ULMK_EINVAL K)
     else if slot_open (g_slots st ! unat slot) \<noteq> 0 then ret (ULMK_ENOSPC K)
     else do {
       upd_slot (unat slot)
         (\<lambda>s. s\<lparr>slot_mux_req := mux_req, slot_flags := flags, slot_open := 1\<rparr>);
       ret (ULMK_OK K)
     }
   }"

definition do_close :: "ulmk_abi \<Rightarrow> u8 \<Rightarrow> (dma_st, cint) state" where
  "do_close K slot = do {
     st \<leftarrow> gets id;
     if slot_closed st slot then ret (ULMK_EINVAL K)
     else do {
       upd_slot (unat slot) (\<lambda>s. s\<lparr>slot_open := 0\<rparr>);
       ret (ULMK_OK K)
     }
   }"

text \<open>One iteration of the copy loop; both indices are checked against the arrays.\<close>

definition load_byte :: "nat \<Rightarrow> u32 \<Rightarrow> u8 list \<Rightarrow> nat \<Rightarrow> (dma_st, unit) state" where
  "load_byte slot offset data i =
     (let k = unat (offset + of_nat i) in
      if k < DMA_XFER_MAX \<and> i < length data
      then upd_slot slot (\<lambda>s. s\<lparr>slot_buf := (slot_buf s)[k := data ! i]\<rparr>)
      else set_fault)"

definition do_load :: "ulmk_abi \<Rightarrow> u8 \<Rightarrow> u32 \<Rightarrow> u8 list \<Rightarrow> u32 \<Rightarrow> (dma_st, cint) state" where
  "do_load K slot offset data len = do {
     st \<leftarrow> gets id;
     if slot_closed st slot then ret (ULMK_EINVAL K)
     else if len = 0 \<or> offset + len > of_nat DMA_XFER_MAX then ret (ULMK_EINVAL K)
     else do {
       for_each [0..<unat len] (load_byte (unat slot) offset data);
       ret (ULMK_OK K)
     }
   }"

definition do_arm :: "ulmk_abi \<Rightarrow> u8 \<Rightarrow> u32 \<Rightarrow> u32 \<Rightarrow> u32 \<Rightarrow> (dma_st, cint) state" where
  "do_arm K slot periph len timeout_ms = do {
     st \<leftarrow> gets id;
     if slot_closed st slot then ret (ULMK_EINVAL K)
     else if len = 0 \<or> len > of_nat DMA_XFER_MAX then ret (ULMK_EINVAL K)
     else do {
       upd_slot (unat slot) (\<lambda>s. s\<lparr>slot_periph := periph, slot_len := len,
         slot_timeout_ms := (if timeout_ms \<noteq> 0 then timeout_ms else DMA_DEFAULT_WAIT_MS),
         slot_job := DMA_JOB_ARM\<rparr>);
       s \<leftarrow> the_slot (unat slot);
       kern_do (Notif_signal (slot_job_notif s) NOTIF_JOB);
       kern (Notif_wait (slot_done_notif s) NOTIF_ARMED)
     }
   }"

text \<open>Back from a blocking wait: \<open>result\<close> and \<open>buf\<close> are what the other threads have left.\<close>

definition resume_slot :: "nat \<Rightarrow> (dma_st, unit) state" where
  "resume_slot slot = modify (\<lambda>st.
     let (r, b) = others st (trace st) slot
     in st\<lparr>g_slots := (g_slots st)[slot := (g_slots st ! slot)
          \<lparr>slot_result := r, slot_buf := map b [0..<DMA_XFER_MAX]\<rparr>]\<rparr>)"

text \<open>\<open>do_wait\<close> returns the status and the new contents of the caller's buffer \<open>out\<close>.\<close>

definition do_wait :: "ulmk_abi \<Rightarrow> u8 \<Rightarrow> u32 \<Rightarrow> u8 list \<Rightarrow> u32 \<Rightarrow> (dma_st, cint \<times> u8 list) state" where
  "do_wait K slot timeout_ms out len = do {
     st \<leftarrow> gets id;
     if slot_closed st slot then ret (ULMK_EINVAL K, out)
     else do {
       s \<leftarrow> the_slot (unat slot);
       rc \<leftarrow> kern (Notif_wait (slot_done_notif s) NOTIF_DONE);
       if rc \<noteq> ULMK_OK K then ret (rc, out)
       else do {
         resume_slot (unat slot);
         s \<leftarrow> the_slot (unat slot);
         if len > 0 \<and> slot_flags s AND DMA_FLAG_DIR_M2P = 0
         then (let n = min (unat len) (unat (slot_len s))
               in ret (slot_result s, take n (slot_buf s) @ drop n out))
         else ret (slot_result s, out)
       }
     }
   }"

definition unpack_payload :: "(nat \<Rightarrow> u32) \<Rightarrow> nat \<Rightarrow> u8 list \<Rightarrow> u32 \<Rightarrow> u8 list" where
  "unpack_payload ws w0 dst len =
     (let n = min (unat len) DMA_XFER_MAX in unpack_loop w0 n ws @ drop n dst)"

definition pack_payload :: "(nat \<Rightarrow> u32) \<Rightarrow> nat \<Rightarrow> u8 list \<Rightarrow> u32 \<Rightarrow> (nat \<Rightarrow> u32)" where
  "pack_payload ws w0 src len =
     pack_loop w0 0 (take (min (unat len) DMA_XFER_MAX) src)
       (ws(w0 := 0, w0 + 1 := 0, w0 + 2 := 0, w0 + 3 := 0))"

text \<open>One turn of the dispatcher's loop: the reply to a received message.\<close>

definition dma_dispatch :: "ulmk_abi \<Rightarrow> msg \<Rightarrow> (dma_st, msg) state" where
  "dma_dispatch K m = (
     let w = words m;
         reply = (\<lambda>rc. \<lparr>label = 0, words = (\<lambda>_. 0)(0 := rc)\<rparr>)
     in
     if label m = DMA_MSG_OPEN then do {
       rc \<leftarrow> do_open K (ucast (w 0)) (ucast (w 1)) (w 2);
       ret (reply rc)
     } else if label m = DMA_MSG_CLOSE then do {
       rc \<leftarrow> do_close K (ucast (w 0));
       ret (reply rc)
     } else if label m = DMA_MSG_LOAD then do {
       modify (\<lambda>st. st\<lparr>disp_tmp := unpack_payload w 3 (disp_tmp st) (w 2)\<rparr>);
       tmp \<leftarrow> gets disp_tmp;
       rc \<leftarrow> do_load K (ucast (w 0)) (w 1) tmp (w 2);
       ret (reply rc)
     } else if label m = DMA_MSG_ARM then do {
       rc \<leftarrow> do_arm K (ucast (w 0)) (w 1) (w 2) (w 3);
       ret (reply rc)
     } else if label m = DMA_MSG_WAIT then do {
       tmp \<leftarrow> gets disp_tmp;
       (rc, tmp) \<leftarrow> do_wait K (ucast (w 0)) (w 1) tmp (w 2);
       modify (\<lambda>st. st\<lparr>disp_tmp := tmp\<rparr>);
       ret (if rc = ULMK_OK K \<and> w 2 > 0
            then (reply rc)\<lparr>words := pack_payload (words (reply rc)) 2 tmp (w 2)\<rparr>
            else reply rc)
     } else ret (reply (ULMK_EINVAL K)))"

section \<open>Bring-up\<close>

definition wnames :: "string list" where
  "wnames = [''dmaw0'', ''dmaw1'', ''dmaw2'']"

definition nvic_src :: "u32 \<Rightarrow> u32" where
  "nvic_src irq = 0x8000 OR (irq AND 0x7FFF)"

definition dma_init_slot :: "ulmk_abi \<Rightarrow> nat \<Rightarrow> (dma_st, bool) state" where
  "dma_init_slot K i = do {
     a \<leftarrow> kern Notif_create;
     b \<leftarrow> kern Notif_create;
     c \<leftarrow> kern Notif_create;
     upd_slot i (\<lambda>s. s\<lparr>slot_irq_notif := a, slot_job_notif := b, slot_done_notif := c\<rparr>);
     if a = ULMK_NOTIF_INVALID K \<or> b = ULMK_NOTIF_INVALID K \<or> c = ULMK_NOTIF_INVALID K
     then ret False
     else do {
       rc \<leftarrow> kern (Irq_bind_hw (g_irq_slot ! i) a 0 (nvic_src (g_nvic ! i)));
       if rc \<noteq> ULMK_OK K then ret False
       else do {
         rc \<leftarrow> kern (Irq_enable (g_irq_slot ! i));
         if rc \<noteq> ULMK_OK K then ret False
         else do {
           wtid \<leftarrow> kern (Thread_create (wnames ! i) 2 1536);
           if wtid = ULMK_TID_INVALID K then ret False
           else do {
             upd_slot i (\<lambda>s. s\<lparr>slot_worker := wtid\<rparr>);
             kern_do (Cap_grant wtid ''MAP_PERIPH'');
             kern_do (Cap_grant wtid ''IRQ'');
             ret True
           }
         }
       }
     }
   }"

definition dma_init :: "ulmk_abi \<Rightarrow> (dma_st, u32) state" where
  "dma_init K = do {
     ready \<leftarrow> gets g_dma_ready;
     if ready \<noteq> 0 then ret 1
     else do {
       ep \<leftarrow> kern Ep_create;
       modify (\<lambda>st. st\<lparr>g_dma_ep := ep\<rparr>);
       if ep = ULMK_EP_INVALID K then ret (ULMK_TID_INVALID K)
       else do {
         ok \<leftarrow> try_each [0..<DMA_MAX_SLOTS] (dma_init_slot K);
         if \<not> ok then ret (ULMK_TID_INVALID K)
         else do {
           disp \<leftarrow> kern (Thread_create ''dma'' 2 2048);
           if disp = ULMK_TID_INVALID K then ret (ULMK_TID_INVALID K)
           else do {
             kern_do (Cap_grant disp ''IRQ'');
             modify (\<lambda>st. st\<lparr>g_dma_ready := 1\<rparr>);
             ret disp
           }
         }
       }
     }
   }"

section \<open>The well-formedness invariant\<close>

definition slot_wf :: "dma_slot \<Rightarrow> bool" where
  "slot_wf s \<longleftrightarrow> length (slot_buf s) = DMA_XFER_MAX \<and> unat (slot_len s) \<le> DMA_XFER_MAX \<and> slot_open s \<le> 1"

definition dma_inv :: "dma_st \<Rightarrow> bool" where
  "dma_inv st \<longleftrightarrow> length (g_slots st) = DMA_MAX_SLOTS \<and> (\<forall>s \<in> set (g_slots st). slot_wf s) \<and>
     length (disp_tmp st) = DMA_XFER_MAX"

lemma dma_inv_trace [simp]: "dma_inv (st\<lparr>trace := t\<rparr>) = dma_inv st"
  and dma_inv_fault [simp]: "dma_inv (st\<lparr>fault := b\<rparr>) = dma_inv st"
  and dma_inv_ep [simp]: "dma_inv (st\<lparr>g_dma_ep := e\<rparr>) = dma_inv st"
  and dma_inv_ready [simp]: "dma_inv (st\<lparr>g_dma_ready := r\<rparr>) = dma_inv st"
  by (simp_all add: dma_inv_def)

lemma dma_inv_slot:
  "dma_inv st \<Longrightarrow> (slot_wf (g_slots st ! i) \<Longrightarrow> slot_wf s) \<Longrightarrow>
     dma_inv (st\<lparr>g_slots := (g_slots st)[i := s]\<rparr>)"
  by (cases "i < length (g_slots st)")
     (auto simp: dma_inv_def list_update_beyond dest: set_update_subset_insert [THEN subsetD])

lemma keeps_upd_slot:
  "(\<And>s. slot_wf s \<Longrightarrow> slot_wf (f s)) \<Longrightarrow> keeps dma_inv (upd_slot i f)"
  by (auto intro!: keepsI dma_inv_slot)

lemma keeps_dma_io [keeps_intros]:
  "keeps dma_inv (kern c)" "keeps dma_inv (kern_do c)" "keeps dma_inv (dev d)"
  "keeps dma_inv (dev_do d)" "keeps dma_inv set_fault" "keeps dma_inv (the_slot i)"
  by (auto intro!: keepsI)

lemma keeps_resume_slot [keeps_intros]: "keeps dma_inv (resume_slot i)"
  by (auto intro!: keepsI dma_inv_slot simp: resume_slot_def slot_wf_def split: prod.splits)

lemma keeps_load_byte [keeps_intros]: "keeps dma_inv (load_byte i off data k)"
  by (auto simp: load_byte_def Let_def slot_wf_def intro!: keeps_intros keeps_upd_slot)

lemma keeps_do_open [keeps_intros]: "keeps dma_inv (do_open K slot mux flags)"
  by (auto simp: do_open_def slot_wf_def intro!: keeps_intros keeps_upd_slot)

lemma keeps_do_close [keeps_intros]: "keeps dma_inv (do_close K slot)"
  by (auto simp: do_close_def slot_wf_def intro!: keeps_intros keeps_upd_slot)

lemma keeps_do_load [keeps_intros]: "keeps dma_inv (do_load K slot off data len)"
  by (auto simp: do_load_def intro!: keeps_intros)

lemma keeps_do_arm [keeps_intros]: "keeps dma_inv (do_arm K slot periph len tmo)"
  by (auto simp: do_arm_def slot_wf_def const_defs word_le_nat_alt not_less
      intro!: keeps_intros keeps_upd_slot)

lemma length_do_wait_out:
  assumes "dma_inv st" "length out = DMA_XFER_MAX"
  shows "length (snd (fst (run_state (do_wait K slot tmo out len) st))) = DMA_XFER_MAX"
proof (cases "slot_closed st slot")
  case True
  with assms show ?thesis by (simp add: do_wait_def)
next
  case False
  with assms have "slot_wf (g_slots st ! unat slot)"
    by (auto simp: slot_closed_def dma_inv_def)
  with False assms show ?thesis
    by (auto simp: do_wait_def resume_slot_def Let_def slot_closed_def dma_inv_def slot_wf_def
        split: prod.splits)
qed

lemma keeps_do_wait: "keeps dma_inv (do_wait K slot tmo out len)"
  by (auto simp: do_wait_def Let_def intro!: keeps_intros)

lemma length_unpack_payload:
  "length dst = DMA_XFER_MAX \<Longrightarrow> length (unpack_payload ws w0 dst len) = DMA_XFER_MAX"
  by (simp add: unpack_payload_def Let_def)

lemma keeps_set_tmp:
  "(\<And>st. dma_inv st \<Longrightarrow> length (f st) = DMA_XFER_MAX) \<Longrightarrow>
     keeps dma_inv (modify (\<lambda>st. st\<lparr>disp_tmp := f st\<rparr>))"
  by (rule keeps_modify) (simp add: dma_inv_def)

lemma keeps_dispatch_wait:
  "keeps dma_inv (do {
     tmp \<leftarrow> gets disp_tmp;
     (rc, tmp) \<leftarrow> do_wait K slot tmo tmp len;
     modify (\<lambda>st. st\<lparr>disp_tmp := tmp\<rparr>);
     ret (f rc tmp) })"
proof (rule keepsI)
  fix st
  assume inv: "dma_inv st"
  obtain rc out st' where run: "run_state (do_wait K slot tmo (disp_tmp st) len) st = ((rc, out), st')"
    by (metis prod.collapse)
  have "dma_inv st'"
    using keeps_run [OF keeps_do_wait inv run] .
  moreover have "length out = DMA_XFER_MAX"
    using length_do_wait_out [OF inv, of "disp_tmp st" K slot tmo len] inv run
    by (simp add: dma_inv_def)
  ultimately show "dma_inv (snd (run_state (do {
     tmp \<leftarrow> gets disp_tmp;
     (rc, tmp) \<leftarrow> do_wait K slot tmo tmp len;
     modify (\<lambda>st. st\<lparr>disp_tmp := tmp\<rparr>);
     ret (f rc tmp) }) st))"
    using run by (simp add: dma_inv_def)
qed

lemma keeps_dma_dispatch [keeps_intros]: "keeps dma_inv (dma_dispatch K m)"
  unfolding dma_dispatch_def Let_def
  by (intro keeps_if keeps_dispatch_wait)
     (auto intro!: keeps_intros keeps_set_tmp simp: length_unpack_payload dma_inv_def)

section \<open>The worker keeps the invariant and writes nothing but the result\<close>

lemma keeps_slot_arm_hw [keeps_intros]: "keeps dma_inv (slot_arm_hw slot)"
  unfolding slot_arm_hw_def by (intro keeps_intros)

lemma keeps_slot_wait_tc [keeps_intros]: "keeps dma_inv (slot_wait_tc K fuel slot tmo el)"
  by (induction fuel arbitrary: el) (auto intro!: keeps_intros)

lemma keeps_worker_job [keeps_intros]: "keeps dma_inv (dma_worker_job K slot)"
  unfolding dma_worker_job_def Let_def
  by (intro keeps_intros keeps_upd_slot) (auto simp: slot_wf_def)

lemma keeps_worker_iter [keeps_intros]: "keeps dma_inv (dma_worker_iter K slot)"
  unfolding dma_worker_iter_def by (intro keeps_intros)

text \<open>What a slot is apart from its result.\<close>

definition but_result :: "dma_st \<Rightarrow> dma_slot list" where
  "but_result st = map (slot_result_update (\<lambda>_. 0)) (g_slots st)"

lemma but_result_upd [simp]:
  "but_result (st\<lparr>g_slots := (g_slots st)[i := (g_slots st ! i)\<lparr>slot_result := r\<rparr>]\<rparr>) = but_result st"
proof (cases "i < length (g_slots st)")
  case True
  then show ?thesis
    by (auto simp: but_result_def map_update intro!: nth_equalityI)
       (simp add: nth_list_update split: if_splits)
qed (simp add: but_result_def list_update_beyond)

lemma but_result_trace [simp]: "but_result (st\<lparr>trace := t\<rparr>) = but_result st"
  by (simp add: but_result_def)

lemma keeps_but_result_io [keeps_intros]:
  "keeps (\<lambda>st. but_result st = b) (kern c)" "keeps (\<lambda>st. but_result st = b) (kern_do c)"
  "keeps (\<lambda>st. but_result st = b) (dev d)" "keeps (\<lambda>st. but_result st = b) (dev_do d)"
  "keeps (\<lambda>st. but_result st = b) (the_slot i)"
  "keeps (\<lambda>st. but_result st = b) (upd_slot i (\<lambda>s. s\<lparr>slot_result := r\<rparr>))"
  by (auto intro!: keepsI)

lemma keeps_but_result_wait_tc [keeps_intros]:
  "keeps (\<lambda>st. but_result st = b) (slot_wait_tc K fuel slot tmo el)"
  by (induction fuel arbitrary: el) (auto intro!: keeps_intros)

lemma worker_writes_result_only:
  "but_result (snd (run_state (dma_worker_iter K slot) st)) = but_result st"
  by (rule keepsD [where P = "\<lambda>st'. but_result st' = but_result st"])
     (auto simp: dma_worker_iter_def dma_worker_job_def slot_arm_hw_def Let_def
       intro!: keeps_intros)

section \<open>LOAD: effect and memory safety\<close>

definition load_ok :: "u32 \<Rightarrow> u32 \<Rightarrow> bool" where
  "load_ok offset len \<longleftrightarrow> 0 < unat len \<and> unat offset + unat len \<le> DMA_XFER_MAX"

text \<open>Writing \<open>n\<close> bytes of \<open>data\<close> into \<open>buf\<close> from index \<open>off\<close>.\<close>

definition patch_at :: "nat \<Rightarrow> u8 list \<Rightarrow> u8 list \<Rightarrow> u8 list" where
  "patch_at off data buf = take off buf @ data @ drop (off + length data) buf"

lemma patch_at_snoc:
  assumes "off + length data < length buf"
  shows "(patch_at off data buf)[off + length data := x] = patch_at off (data @ [x]) buf"
proof -
  have "drop (off + length data) buf = buf ! (off + length data) # drop (Suc (off + length data)) buf"
    using assms by (simp add: Cons_nth_drop_Suc)
  then show ?thesis
    using assms by (simp add: patch_at_def list_update_append)
qed

lemma run_load_loop:
  assumes "dma_inv st" "slot < DMA_MAX_SLOTS" "unat offset + n \<le> DMA_XFER_MAX"
    "n \<le> length data"
  shows "run_state (for_each [0..<n] (load_byte slot offset data)) st =
    ((), st\<lparr>g_slots := (g_slots st)[slot := (g_slots st ! slot)
        \<lparr>slot_buf := patch_at (unat offset) (take n data) (slot_buf (g_slots st ! slot))\<rparr>]\<rparr>)"
  using assms
proof (induction n)
  case 0
  have "patch_at (unat offset) [] (slot_buf (g_slots st ! slot)) = slot_buf (g_slots st ! slot)"
    by (simp add: patch_at_def)
  then show ?case by simp
next
  case (Suc n)
  let ?buf = "slot_buf (g_slots st ! slot)"
  have inv: "slot < length (g_slots st)" "length ?buf = DMA_XFER_MAX"
    using Suc.prems by (auto simp: dma_inv_def slot_wf_def)
  have small: "unat offset + n < 16" "n < 16"
    using Suc.prems by (auto simp: DMA_XFER_MAX_def)
  have nn: "unat (of_nat n :: u32) = n"
    using small(2) by (simp add: unat_of_nat)
  have idx: "unat (offset + of_nat n) = unat offset + n"
    using small(1) nn by (subst unat_add_lem [THEN iffD1]) simp_all
  have "(patch_at (unat offset) (take n data) ?buf)[unat offset + n := data ! n] =
      patch_at (unat offset) (take (Suc n) data) ?buf"
    using patch_at_snoc [of "unat offset" "take n data" ?buf "data ! n"] Suc.prems small inv
    by (simp add: take_Suc_conv_app_nth DMA_XFER_MAX_def)
  then show ?case
    using Suc.IH Suc.prems small inv
    by (simp add: for_each_append load_byte_def Let_def idx DMA_XFER_MAX_def)
qed

lemma load_bound:
  fixes offset len :: u32
  assumes "unat offset + unat len < 2 ^ 32"
  shows "offset + len > of_nat DMA_XFER_MAX \<longleftrightarrow> DMA_XFER_MAX < unat offset + unat len"
proof -
  have "unat (offset + len) = unat offset + unat len"
    using assms by (subst unat_add_lem [THEN iffD1]) simp_all
  then show ?thesis
    by (simp add: word_less_nat_alt DMA_XFER_MAX_def)
qed

lemma run_do_load:
  assumes "dma_inv st" "unat offset + unat len < 2 ^ 32" "length data = DMA_XFER_MAX"
  shows "run_state (do_load K slot offset data len) st =
    (if slot_closed st slot \<or> \<not> load_ok offset len then (ULMK_EINVAL K, st)
     else (ULMK_OK K, st\<lparr>g_slots := (g_slots st)[unat slot := (g_slots st ! unat slot)
        \<lparr>slot_buf := patch_at (unat offset) (take (unat len) data)
            (slot_buf (g_slots st ! unat slot))\<rparr>]\<rparr>))"
proof -
  have zero: "len = 0 \<longleftrightarrow> \<not> 0 < unat len"
    by (simp add: unat_eq_0)
  show ?thesis
  proof (cases "slot_closed st slot \<or> \<not> load_ok offset len")
    case True
    then show ?thesis
      by (auto simp: do_load_def load_ok_def load_bound [OF assms(2)] zero)
  next
    case False
    then have "unat offset + unat len \<le> DMA_XFER_MAX" "unat slot < DMA_MAX_SLOTS" "0 < unat len"
      by (auto simp: slot_closed_def load_ok_def)
    with run_load_loop [OF assms(1), of "unat slot" offset "unat len" data] assms False
    show ?thesis
      by (simp add: do_load_def load_bound zero)
  qed
qed

lemma fault_do_open [simp]: "fault (snd (run_state (do_open K slot mux flags) st)) = fault st"
  by (simp add: do_open_def)

lemma fault_do_close [simp]: "fault (snd (run_state (do_close K slot) st)) = fault st"
  by (simp add: do_close_def)

lemma fault_do_arm [simp]: "fault (snd (run_state (do_arm K slot periph len tmo) st)) = fault st"
  by (simp add: do_arm_def)

lemma fault_do_wait [simp]: "fault (snd (run_state (do_wait K slot tmo out len) st)) = fault st"
  by (simp add: do_wait_def resume_slot_def Let_def split: prod.splits)

lemma keeps_fault_ops:
  "keeps (\<lambda>st. fault st = b) (do_open K slot mux flags)"
  "keeps (\<lambda>st. fault st = b) (do_close K slot)"
  "keeps (\<lambda>st. fault st = b) (do_arm K slot periph len tmo)"
  "keeps (\<lambda>st. fault st = b) (do_wait K slot tmo out len)"
  "keeps (\<lambda>st. fault st = b) (modify (\<lambda>st. st\<lparr>disp_tmp := f st\<rparr>))"
  by (simp_all add: keeps_def)

text \<open>The sum \<open>offset + len\<close> of a LOAD request is a C \<open>uint32_t\<close>; this is "it does not wrap".\<close>

definition load_fits :: "msg \<Rightarrow> bool" where
  "load_fits m \<longleftrightarrow> label m = DMA_MSG_LOAD \<longrightarrow> unat (words m 1) + unat (words m 2) < 2 ^ 32"

lemma fault_dispatch:
  assumes "dma_inv st" "load_fits m"
  shows "fault (snd (run_state (dma_dispatch K m) st)) = fault st"
proof (cases "label m = DMA_MSG_LOAD")
  case True
  let ?t = "unpack_payload (words m) 3 (disp_tmp st) (words m 2)"
  have "length ?t = DMA_XFER_MAX"
    using assms(1) by (simp add: length_unpack_payload dma_inv_def)
  moreover have "dma_inv (st\<lparr>disp_tmp := ?t\<rparr>)"
    using assms(1) calculation by (simp add: dma_inv_def)
  moreover have "unat (words m 1) + unat (words m 2) < 2 ^ 32"
    using assms(2) True by (simp add: load_fits_def)
  ultimately show ?thesis
    using True by (simp add: dma_dispatch_def Let_def const_defs run_do_load)
next
  case False
  have "keeps (\<lambda>st'. fault st' = fault st) (dma_dispatch K m)"
    using False unfolding dma_dispatch_def Let_def
    by (auto intro!: keeps_intros keeps_fault_ops)
  then show ?thesis
    by (rule keepsD) simp
qed

section \<open>OPEN and CLOSE: the abstract pool of channels\<close>

text \<open>
  What a client sees of the table: which slots are open, with which mux request and flags.
\<close>

definition pool :: "dma_st \<Rightarrow> nat \<Rightarrow> (u8 \<times> u32) option" where
  "pool st i =
     (if i < DMA_MAX_SLOTS \<and> slot_open (g_slots st ! i) \<noteq> 0
      then Some (slot_mux_req (g_slots st ! i), slot_flags (g_slots st ! i)) else None)"

definition pool_next :: "msg \<Rightarrow> (nat \<Rightarrow> (u8 \<times> u32) option) \<Rightarrow> nat \<Rightarrow> (u8 \<times> u32) option" where
  "pool_next m p =
     (let i = unat (ucast (words m 0) :: u8) in
      if label m = DMA_MSG_OPEN \<and> i < DMA_MAX_SLOTS \<and> p i = None
      then p(i := Some (ucast (words m 1), words m 2))
      else if label m = DMA_MSG_CLOSE then p(i := None) else p)"

text \<open>The status the pool gives to an OPEN or CLOSE request.\<close>

definition pool_status :: "ulmk_abi \<Rightarrow> msg \<Rightarrow> (nat \<Rightarrow> (u8 \<times> u32) option) \<Rightarrow> cint" where
  "pool_status K m p =
     (let i = unat (ucast (words m 0) :: u8) in
      if label m = DMA_MSG_OPEN
      then (if DMA_MAX_SLOTS \<le> i then ULMK_EINVAL K
            else if p i \<noteq> None then ULMK_ENOSPC K else ULMK_OK K)
      else if p i = None then ULMK_EINVAL K else ULMK_OK K)"

lemma pool_trace [simp]: "pool (st\<lparr>trace := t\<rparr>) = pool st"
  and pool_fault [simp]: "pool (st\<lparr>fault := b\<rparr>) = pool st"
  and pool_tmp [simp]: "pool (st\<lparr>disp_tmp := x\<rparr>) = pool st"
  by (simp_all add: pool_def fun_eq_iff)

lemma pool_upd:
  "slot_open (f (g_slots st ! i)) = slot_open (g_slots st ! i) \<Longrightarrow>
   slot_mux_req (f (g_slots st ! i)) = slot_mux_req (g_slots st ! i) \<Longrightarrow>
   slot_flags (f (g_slots st ! i)) = slot_flags (g_slots st ! i) \<Longrightarrow>
     pool (st\<lparr>g_slots := (g_slots st)[i := f (g_slots st ! i)]\<rparr>) = pool st"
  by (cases "i < length (g_slots st)")
     (auto simp: pool_def fun_eq_iff nth_list_update list_update_beyond)

lemma keeps_pool_upd_slot:
  "(\<And>s. slot_open (f s) = slot_open s \<and> slot_mux_req (f s) = slot_mux_req s
      \<and> slot_flags (f s) = slot_flags s) \<Longrightarrow> keeps (\<lambda>st. pool st = p) (upd_slot i f)"
  by (rule keepsI) (simp add: pool_upd)

lemma keeps_pool_io [keeps_intros]:
  "keeps (\<lambda>st. pool st = p) (kern c)" "keeps (\<lambda>st. pool st = p) (kern_do c)"
  "keeps (\<lambda>st. pool st = p) (dev d)" "keeps (\<lambda>st. pool st = p) (dev_do d)"
  "keeps (\<lambda>st. pool st = p) (the_slot i)" "keeps (\<lambda>st. pool st = p) set_fault"
  "keeps (\<lambda>st. pool st = p) (modify (\<lambda>st. st\<lparr>disp_tmp := x st\<rparr>))"
  by (auto intro!: keepsI)

lemma keeps_pool_resume [keeps_intros]: "keeps (\<lambda>st. pool st = p) (resume_slot i)"
proof (rule keepsI)
  fix st
  assume "pool st = p"
  then show "pool (snd (run_state (resume_slot i) st)) = p"
    using pool_upd [of "\<lambda>s. s\<lparr>slot_result := fst (others st (trace st) i),
        slot_buf := map (snd (others st (trace st) i)) [0..<DMA_XFER_MAX]\<rparr>" st i]
    by (auto simp: resume_slot_def split: prod.splits)
qed

lemma keeps_pool_ops [keeps_intros]:
  "keeps (\<lambda>st. pool st = p) (do_load K slot off data len)"
  "keeps (\<lambda>st. pool st = p) (do_arm K slot periph len tmo)"
  "keeps (\<lambda>st. pool st = p) (do_wait K slot tmo out len)"
  unfolding do_load_def do_arm_def do_wait_def load_byte_def Let_def
  by (auto intro!: keeps_intros keeps_pool_upd_slot)

lemma pool_do_open:
  assumes "dma_inv st"
  shows "pool (snd (run_state (do_open K slot mux flags) st)) =
      (if unat slot < DMA_MAX_SLOTS \<and> pool st (unat slot) = None
       then (pool st)(unat slot := Some (mux, flags)) else pool st)"
    and "fst (run_state (do_open K slot mux flags) st) =
      (if DMA_MAX_SLOTS \<le> unat slot then ULMK_EINVAL K
       else if pool st (unat slot) \<noteq> None then ULMK_ENOSPC K else ULMK_OK K)"
  using assms by (auto simp: do_open_def pool_def fun_eq_iff dma_inv_def nth_list_update)

lemma pool_do_close:
  assumes "dma_inv st"
  shows "pool (snd (run_state (do_close K slot) st)) = (pool st)(unat slot := None)"
    and "fst (run_state (do_close K slot) st) =
      (if pool st (unat slot) = None then ULMK_EINVAL K else ULMK_OK K)"
  using assms
  by (auto simp: do_close_def slot_closed_def pool_def fun_eq_iff dma_inv_def nth_list_update)

lemma slot_closed_pool: "slot_closed st slot \<longleftrightarrow> pool st (unat slot) = None"
  by (auto simp: slot_closed_def pool_def)

lemma snd_run_ret: "snd (run_state (State_Monad.bind m (\<lambda>x. ret (f x))) s) = snd (run_state m s)"
  by (simp split: prod.splits)

lemma fst_run_ret: "fst (run_state (State_Monad.bind m (\<lambda>x. ret (f x))) s) = f (fst (run_state m s))"
  by (simp split: prod.splits)

lemma pool_dispatch:
  assumes "dma_inv st"
  shows "pool (snd (run_state (dma_dispatch K m) st)) = pool_next m (pool st)"
proof (cases "label m = DMA_MSG_OPEN \<or> label m = DMA_MSG_CLOSE")
  case True
  with assms show ?thesis
    by (auto simp: dma_dispatch_def Let_def const_defs snd_run_ret pool_do_open pool_do_close
        pool_next_def simp del: run_state_bind)
next
  case False
  have "keeps (\<lambda>st'. pool st' = pool st) (dma_dispatch K m)"
    using False unfolding dma_dispatch_def Let_def
    by (auto intro!: keeps_intros)
  with False show ?thesis
    by (auto simp: pool_next_def dest!: keepsD)
qed

lemma status_dispatch:
  assumes "dma_inv st" "label m = DMA_MSG_OPEN \<or> label m = DMA_MSG_CLOSE"
  shows "words (fst (run_state (dma_dispatch K m) st)) 0 = pool_status K m (pool st)"
  using assms
  by (auto simp: dma_dispatch_def Let_def const_defs fst_run_ret pool_do_open pool_do_close
      pool_status_def simp del: run_state_bind)

section \<open>The wait for transfer completion is bounded\<close>

lemma slot_wait_tc_returns:
  assumes "timeout_ms \<noteq> 0" "elapsed \<le> timeout_ms"
    "unat timeout_ms - unat elapsed < fuel"
  shows "\<exists>rc \<in> {ULMK_OK K, ULMK_ETIMEOUT K}.
    fst (run_state (slot_wait_tc K fuel slot timeout_ms elapsed) st) = Some rc"
  using assms
proof (induction fuel arbitrary: elapsed st)
  case 0
  then show ?case by simp
next
  case (Suc fuel)
  let ?st = "st\<lparr>trace := trace st @ [Dev (Dma_rd LISR), Kern (Sleep_ms 1)]\<rparr>"
  have next_: "\<exists>rc \<in> {ULMK_OK K, ULMK_ETIMEOUT K}.
      fst (run_state (slot_wait_tc K fuel slot timeout_ms (elapsed + 1)) ?st) = Some rc"
    if "elapsed < timeout_ms"
  proof -
    have "unat (elapsed + 1) = unat elapsed + 1"
      using unat_plus_one [OF that] by simp
    with that Suc.prems show ?thesis
      by (intro Suc.IH) (auto simp: word_less_nat_alt word_le_nat_alt)
  qed
  show ?case
    using next_ Suc.prems by (auto simp: not_le)
qed

definition sleeps :: "dma_act event list \<Rightarrow> nat" where
  "sleeps evs = length (filter (\<lambda>e. e = Kern (Sleep_ms 1)) evs)"

lemma slot_wait_tc_trace:
  "\<exists>evs. trace (snd (run_state (slot_wait_tc K fuel slot tmo el) st)) = trace st @ evs
     \<and> sleeps evs \<le> fuel
     \<and> (\<forall>e \<in> set evs. e \<in> {Dev (Dma_rd LISR), Dev (Dma_wr LIFCR (g_lifcr_mask ! slot)),
          Kern (Irq_ack (g_irq_slot ! slot)), Kern (Sleep_ms 1)})"
proof (induction fuel arbitrary: el st)
  case 0
  then show ?case by (simp add: sleeps_def)
next
  case (Suc fuel)
  let ?st = "st\<lparr>trace := trace st @ [Dev (Dma_rd LISR), Kern (Sleep_ms 1)]\<rparr>"
  from Suc.IH [of "el + 1" ?st] obtain evs where
    "trace (snd (run_state (slot_wait_tc K fuel slot tmo (el + 1)) ?st)) =
       trace st @ Dev (Dma_rd LISR) # Kern (Sleep_ms 1) # evs"
    "sleeps evs \<le> fuel"
    "\<forall>e \<in> set evs. e \<in> {Dev (Dma_rd LISR), Dev (Dma_wr LIFCR (g_lifcr_mask ! slot)),
          Kern (Irq_ack (g_irq_slot ! slot)), Kern (Sleep_ms 1)}"
    by auto
  then show ?case
    by (auto simp: sleeps_def)
qed

end
