(* ===== verification/Dma_Linum_Hw.thy ===== *)
theory Dma_Linum_Hw
  imports Dma_Linum
begin

text \<open>
  The order in which the DMA worker of the Linum board touches its stream.  An automaton over
  the interactions of one slot tracks whether the stream is enabled: the address, length and
  request registers may be written only while it is disabled, and the ARMED notification (which lets the client start the
  peripheral) may be signalled only while it is enabled.
\<close>

section \<open>The stream automaton\<close>

datatype stream_state = Unknown | Disabled | Enabled

fun stream_step :: "nat \<Rightarrow> stream_state \<Rightarrow> dma_act event \<Rightarrow> stream_state option" where
  "stream_step n q (Dev (Dma_wr (Stream_CR k) v)) =
     (if k \<noteq> n then Some q else Some (if v AND DMA_CR_EN \<noteq> 0 then Enabled else Disabled))"
| "stream_step n q (Dev (Dma_wr (Stream_PAR k) v)) = (if k \<noteq> n \<or> q = Disabled then Some q else None)"
| "stream_step n q (Dev (Dma_wr (Stream_M0AR k) v)) = (if k \<noteq> n \<or> q = Disabled then Some q else None)"
| "stream_step n q (Dev (Dma_wr (Stream_NDTR k) v)) = (if k \<noteq> n \<or> q = Disabled then Some q else None)"
| "stream_step n q (Dev (Dma_wr (Mux_CCR k) v)) = (if k \<noteq> n \<or> q = Disabled then Some q else None)"
| "stream_step n q (Kern (Notif_signal d b)) =
     (if b AND NOTIF_ARMED \<noteq> 0 \<and> q \<noteq> Enabled then None else Some q)"
| "stream_step n q e = Some q"

fun stream_run :: "nat \<Rightarrow> stream_state \<Rightarrow> dma_act event list \<Rightarrow> stream_state option" where
  "stream_run n q [] = Some q"
| "stream_run n q (e # es) = Option.bind (stream_step n q e) (\<lambda>q'. stream_run n q' es)"

lemma stream_run_append:
  "stream_run n q (xs @ ys) = Option.bind (stream_run n q xs) (\<lambda>q'. stream_run n q' ys)"
  by (induction xs arbitrary: q) (auto split: Option.bind_splits)

lemma stream_run_neutral:
  "(\<And>e. e \<in> set es \<Longrightarrow> stream_step n q e = Some q) \<Longrightarrow> stream_run n q es = Some q"
  by (induction es) auto

text \<open>
  \<open>accepts n q m Q\<close>: from automaton state \<open>q\<close> the interactions of \<open>m\<close> are accepted for
  slot \<open>n\<close>, whatever the outside world answers, and lead to a state in \<open>Q\<close>.
\<close>

definition accepts ::
  "nat \<Rightarrow> stream_state \<Rightarrow> (dma_st, 'a) state \<Rightarrow> stream_state set \<Rightarrow> bool" where
  "accepts n q m Q \<longleftrightarrow> (\<forall>s. \<exists>es q'. trace (snd (run_state m s)) = trace s @ es \<and>
     stream_run n q es = Some q' \<and> q' \<in> Q)"

named_theorems accepts_intros \<open>structural rules of the stream automaton\<close>

lemma accepts_bind:
  assumes "accepts n q m R" "\<And>r a. r \<in> R \<Longrightarrow> accepts n r (f a) Q"
  shows "accepts n q (State_Monad.bind m f) Q"
  unfolding accepts_def
proof
  fix s
  obtain a s' where m: "run_state m s = (a, s')"
    by (cases "run_state m s")
  with assms(1) obtain es r where es: "trace s' = trace s @ es" "stream_run n q es = Some r" "r \<in> R"
    unfolding accepts_def by (metis snd_conv)
  with assms(2) obtain es' q' where
    "trace (snd (run_state (f a) s')) = trace s' @ es'" "stream_run n r es' = Some q'" "q' \<in> Q"
    unfolding accepts_def by metis
  with m es show "\<exists>es q'. trace (snd (run_state (State_Monad.bind m f) s)) = trace s @ es \<and>
     stream_run n q es = Some q' \<and> q' \<in> Q"
    by (intro exI [of _ "es @ es'"]) (simp add: stream_run_append)
qed

lemma accepts_bind1:
  "accepts n q m {r} \<Longrightarrow> (\<And>a. accepts n r (f a) Q) \<Longrightarrow> accepts n q (State_Monad.bind m f) Q"
  by (rule accepts_bind) auto

lemma accepts_if:
  "accepts n q m Q \<Longrightarrow> accepts n q m' Q \<Longrightarrow> accepts n q (if b then m else m') Q"
  by simp

lemma accepts_silent:
  "(\<And>s. trace (snd (run_state m s)) = trace s) \<Longrightarrow> q \<in> Q \<Longrightarrow> accepts n q m Q"
  by (auto simp: accepts_def)

lemma accepts_pure [accepts_intros]:
  "accepts n q (ret a) {q}" "accepts n q (gets f) {q}" "accepts n q (the_slot i) {q}"
  "accepts n q (upd_slot i g) {q}"
  by (auto intro!: accepts_silent)

lemma accepts_event:
  assumes "stream_step n q e = Some q'" "q' \<in> Q"
  shows "accepts n q (perform e) Q"
  using assms by (auto simp: accepts_def)

lemma accepts_kern_dev [accepts_intros]:
  "stream_step n q (Kern c) = Some q' \<Longrightarrow> accepts n q (kern c) {q'}"
  "stream_step n q (Kern c) = Some q' \<Longrightarrow> accepts n q (kern_do c) {q'}"
  "stream_step n q (Dev d) = Some q' \<Longrightarrow> accepts n q (dev d) {q'}"
  "stream_step n q (Dev d) = Some q' \<Longrightarrow> accepts n q (dev_do d) {q'}"
  by (auto simp: accepts_def)

lemma accepts_weaken: "accepts n q m R \<Longrightarrow> R \<subseteq> Q \<Longrightarrow> accepts n q m Q"
  unfolding accepts_def by blast

lemma or_EN: "(v OR DMA_CR_EN) AND DMA_CR_EN \<noteq> 0" "DMA_CR_EN \<noteq> 0"
proof -
  have "(v OR 1) AND 1 = (1 :: u32)"
    by (rule bit_eqI) (auto simp: bit_simps)
  then show "(v OR DMA_CR_EN) AND DMA_CR_EN \<noteq> 0" "DMA_CR_EN \<noteq> 0"
    by (simp_all add: DMA_CR_EN_def)
qed

lemma flags_to_cr_disabled: "flags_to_cr f AND DMA_CR_EN = 0"
  by (simp add: flags_to_cr_def Let_def const_defs)

lemma accepts_arm_hw: "accepts slot q (slot_arm_hw slot) {Enabled}"
  by (auto simp: accepts_def slot_arm_hw_def or_EN flags_to_cr_disabled)

lemma accepts_wait_tc: "accepts slot q (slot_wait_tc K fuel slot tmo el) {q}"
  unfolding accepts_def
proof
  fix st
  from slot_wait_tc_trace obtain evs where
    tr: "trace (snd (run_state (slot_wait_tc K fuel slot tmo el) st)) = trace st @ evs" and
    ev: "\<forall>e \<in> set evs. e \<in> {Dev (Dma_rd LISR), Dev (Dma_wr LIFCR (g_lifcr_mask ! slot)),
          Kern (Irq_ack (g_irq_slot ! slot)), Kern (Sleep_ms 1)}"
    by blast
  from ev have "stream_run slot q evs = Some q"
    by (intro stream_run_neutral) auto
  with tr show "\<exists>es q'. trace (snd (run_state (slot_wait_tc K fuel slot tmo el) st)) =
      trace st @ es \<and> stream_run slot q es = Some q' \<and> q' \<in> {q}"
    by blast
qed

lemma signal_steps:
  "stream_step n Enabled (Kern (Notif_signal d NOTIF_ARMED)) = Some Enabled"
  "stream_step n q (Kern (Notif_signal d NOTIF_DONE)) = Some q"
  by (simp_all add: const_defs)

lemma accepts_worker_tail:
  "q' \<in> {q, Enabled} \<Longrightarrow> accepts slot q' (do {
     upd_slot slot f; when_do b (dev_do (Dcache_invalidate x l));
     kern_do (Notif_signal d NOTIF_DONE) }) {q, Enabled}"
  by (auto simp: accepts_def const_defs)

lemma accepts_worker_job: "accepts slot q (dma_worker_job K slot) {q, Enabled}"
proof -
  have cache: "accepts slot q (if b then dev_do (Dcache_clean x l) else dev_do (Dcache_invalidate x l)) {q}"
    for b x l
    by (simp add: accepts_kern_dev)
  have arm: "accepts slot q (do {
       (if c then dev_do (Dcache_clean x l) else dev_do (Dcache_invalidate x l));
       slot_arm_hw slot; kern_do (Notif_signal d NOTIF_ARMED);
       rc \<leftarrow> slot_wait_tc K fu slot tmo 0; upd_slot slot (f rc);
       when_do (b rc) (dev_do (Dcache_invalidate x l));
       kern_do (Notif_signal d NOTIF_DONE) }) {q, Enabled}" for c d fu tmo f b x l
    by (rule accepts_bind1 [OF cache], rule accepts_bind1 [OF accepts_arm_hw],
        rule accepts_bind1 [OF accepts_kern_dev(2)], rule signal_steps,
        rule accepts_bind1 [OF accepts_wait_tc], rule accepts_worker_tail, simp)
  have other: "accepts slot q (do { upd_slot slot f; kern_do (Notif_signal d NOTIF_DONE) })
      {q, Enabled}" for f d
    by (simp add: accepts_def const_defs)
  show ?thesis
    unfolding dma_worker_job_def Let_def
    by (rule accepts_bind1 [OF accepts_pure(3)], rule accepts_bind1 [OF accepts_pure(2)],
        rule accepts_if, rule arm, rule other)
qed

lemma accepts_worker_iter: "accepts slot q (dma_worker_iter K slot) {q, Enabled}"
  unfolding dma_worker_iter_def
  by (rule accepts_bind1 [OF accepts_pure(3)], rule accepts_bind1 [OF accepts_kern_dev(1)],
      simp, rule accepts_if, rule accepts_weaken [OF accepts_pure(1)], simp,
      rule accepts_worker_job)

end
