(* ===== verification/Dma_Client_Linum.thy ===== *)
theory Dma_Client_Linum
  imports Dma_Linum_Hw
begin

text \<open>
  The client side of the Linum DMA driver: \<^verbatim>\<open>witte_linum/drivers/dma/src/client.c\<close>.  A client
  turns each call into messages; \<open>call\<close> stands for \<open>ulmk_ep_call\<close>, which sends the message
  and returns the status of the rendezvous with the message as the server left it.  \<open>ipc\<close> is
  the rendezvous with a server that runs the given handler.  A pointer argument that may be
  \<open>NULL\<close> is an \<open>option\<close>.
\<close>

section \<open>Calls\<close>

definition dma_call :: "ulmk_abi \<Rightarrow> u32 \<Rightarrow> 's ep_call \<Rightarrow> msg \<Rightarrow> ('s, cint \<times> msg) state" where
  "dma_call K ep call m =
     (if ep = ULMK_EP_INVALID K then ret (ULMK_ESRCH K, m)
      else do {
        (rc, m') \<leftarrow> call m;
        if rc \<noteq> ULMK_OK K then ret (rc, m') else ret (words m' 0, m')
      })"

definition pack_bytes :: "(nat \<Rightarrow> u32) \<Rightarrow> nat \<Rightarrow> u8 list option \<Rightarrow> nat \<Rightarrow> (nat \<Rightarrow> u32)" where
  "pack_bytes ws w0 data len =
     (let ws = ws(w0 := 0, w0 + 1 := 0, w0 + 2 := 0) in
      case data of None \<Rightarrow> ws
      | Some d \<Rightarrow> pack_loop w0 0 (take (min len 12) d) ws)"

text \<open>The new contents of the destination; bytes beyond \<open>len\<close> keep their value.\<close>

definition unpack_bytes :: "(nat \<Rightarrow> u32) \<Rightarrow> nat \<Rightarrow> u8 list \<Rightarrow> nat \<Rightarrow> u8 list" where
  "unpack_bytes ws w0 data len =
     (let n = min len DMA_XFER_MAX in unpack_loop w0 n ws @ drop n data)"

definition dma_load :: "ulmk_abi \<Rightarrow> u32 \<Rightarrow> 's ep_call \<Rightarrow> u8 \<Rightarrow> u32 \<Rightarrow> u8 list \<Rightarrow> nat \<Rightarrow> ('s, cint) state" where
  "dma_load K ep call slot offset data len = do {
     (rc, _) \<leftarrow> dma_call K ep call \<lparr>label = DMA_MSG_LOAD,
       words = pack_bytes ((\<lambda>_. 0)(0 := ucast slot, 1 := offset, 2 := of_nat len)) 3 (Some data) len\<rparr>;
     ret rc
   }"

definition dma_channel_open :: "ulmk_abi \<Rightarrow> u32 \<Rightarrow> 's ep_call \<Rightarrow> u8 \<Rightarrow> u8 \<Rightarrow> u32 \<Rightarrow> ('s, cint) state" where
  "dma_channel_open K ep call slot dmamux_req flags = do {
     (rc, _) \<leftarrow> dma_call K ep call \<lparr>label = DMA_MSG_OPEN,
       words = (\<lambda>_. 0)(0 := ucast slot, 1 := ucast dmamux_req, 2 := flags)\<rparr>;
     ret rc
   }"

definition dma_channel_close :: "ulmk_abi \<Rightarrow> u32 \<Rightarrow> 's ep_call \<Rightarrow> u8 \<Rightarrow> ('s, cint) state" where
  "dma_channel_close K ep call slot = do {
     (rc, _) \<leftarrow> dma_call K ep call \<lparr>label = DMA_MSG_CLOSE, words = (\<lambda>_. 0)(0 := ucast slot)\<rparr>;
     ret rc
   }"

text \<open>The loop \<^verbatim>\<open>for (off = 0; off < len; off += 12)\<close> over the chunks of the caller's buffer.\<close>

function dma_load_chunks ::
  "ulmk_abi \<Rightarrow> u32 \<Rightarrow> 's ep_call \<Rightarrow> u8 \<Rightarrow> u8 list \<Rightarrow> nat \<Rightarrow> nat \<Rightarrow> ('s, cint) state" where
  "dma_load_chunks K ep call slot p len off =
     (if off < len then do {
        rc \<leftarrow> dma_load K ep call slot (of_nat off) (drop off p) (min (len - off) 12);
        if rc \<noteq> ULMK_OK K then ret rc else dma_load_chunks K ep call slot p len (off + 12)
      } else ret (ULMK_OK K))"
  by pat_completeness auto
termination
  by (relation "measure (\<lambda>(K, ep, call, slot, p, len, off). len - off)") auto

declare dma_load_chunks.simps [simp del]

definition dma_arm ::
  "ulmk_abi \<Rightarrow> u32 \<Rightarrow> 's ep_call \<Rightarrow> u8 \<Rightarrow> u32 \<Rightarrow> u8 list option \<Rightarrow> nat \<Rightarrow> ('s, cint) state" where
  "dma_arm K ep call slot periph_addr buf len =
     (if len = 0 \<or> DMA_XFER_MAX < len then ret (ULMK_EINVAL K)
      else do {
        rc \<leftarrow> (case buf of None \<Rightarrow> ret (ULMK_OK K)
               | Some p \<Rightarrow> dma_load_chunks K ep call slot p len 0);
        if rc \<noteq> ULMK_OK K then ret rc
        else do {
          (rc, _) \<leftarrow> dma_call K ep call \<lparr>label = DMA_MSG_ARM,
            words = (\<lambda>_. 0)(0 := ucast slot, 1 := periph_addr, 2 := of_nat len, 3 := 1000)\<rparr>;
          ret rc
        }
      })"

definition dma_wait ::
  "ulmk_abi \<Rightarrow> u32 \<Rightarrow> 's ep_call \<Rightarrow> u8 \<Rightarrow> u8 list option \<Rightarrow> nat \<Rightarrow> u32 \<Rightarrow>
     ('s, cint \<times> u8 list option) state" where
  "dma_wait K ep call slot out len timeout_ms = do {
     (rc, m) \<leftarrow> dma_call K ep call \<lparr>label = DMA_MSG_WAIT,
       words = (\<lambda>_. 0)(0 := ucast slot, 1 := timeout_ms, 2 := of_nat len)\<rparr>;
     ret (rc, if rc = ULMK_OK K \<and> len > 0
              then map_option (\<lambda>d. unpack_bytes (words m) 2 d len) out else out)
   }"

definition dma_xfer ::
  "ulmk_abi \<Rightarrow> u32 \<Rightarrow> 's ep_call \<Rightarrow> u8 \<Rightarrow> u32 \<Rightarrow> u8 list option \<Rightarrow> nat \<Rightarrow> u32 \<Rightarrow> ('s, cint) state" where
  "dma_xfer K ep call slot periph_addr buf len timeout_ms = do {
     rc \<leftarrow> dma_arm K ep call slot periph_addr buf len;
     if rc \<noteq> ULMK_OK K then ret rc
     else do { (rc, _) \<leftarrow> dma_wait K ep call slot None 0 timeout_ms; ret rc }
   }"

definition dma_xfer_read ::
  "ulmk_abi \<Rightarrow> u32 \<Rightarrow> 's ep_call \<Rightarrow> u8 \<Rightarrow> u32 \<Rightarrow> u8 list option \<Rightarrow> nat \<Rightarrow> u32 \<Rightarrow>
     ('s, cint \<times> u8 list option) state" where
  "dma_xfer_read K ep call slot periph_addr buf len timeout_ms = do {
     rc \<leftarrow> dma_arm K ep call slot periph_addr None len;
     if rc \<noteq> ULMK_OK K then ret (rc, buf)
     else dma_wait K ep call slot buf len timeout_ms
   }"

section \<open>LOAD over the dispatcher\<close>

lemma run_dma_call_ipc:
  "ep \<noteq> ULMK_EP_INVALID K \<Longrightarrow>
   run_state (dma_call K ep (ipc K handle) m) s =
     (case run_state (handle m) s of (r, s') \<Rightarrow> ((words r 0, r), s'))"
  by (auto simp: dma_call_def ipc_def split: prod.splits)

text \<open>The words of a LOAD message, and what the dispatcher unpacks from them.\<close>

lemma unpack_packed_chunk:
  assumes "length data \<ge> len" "len \<le> 12" "length dst = DMA_XFER_MAX"
  shows "take len (unpack_payload (pack_bytes ws 3 (Some data) len) 3 dst (of_nat len)) = take len data"
proof -
  have len: "unat (of_nat len :: u32) = len"
    using assms(2) by (simp add: unat_of_nat)
  let ?z = "ws(3 := 0, 4 := 0, 5 := 0)"
  have "?z m = 0" if "m \<in> payload_indices 3 (length (take len data))" for m
    using payload_indices_bound [OF that] assms(2)
    by (cases "m = 3 \<or> m = 4 \<or> m = 5") auto
  then have "unpack_loop 3 (length (take len data)) (pack_loop 3 0 (take len data) ?z) = take len data"
    by (rule unpack_pack_exact)
  moreover have "length (take len data) = len"
    using assms(1) by simp
  ultimately show ?thesis
    using assms len
    by (simp add: unpack_payload_def pack_bytes_def Let_def DMA_XFER_MAX_def min_def)
qed

lemma pack_bytes_header: "m < w0 \<Longrightarrow> pack_bytes ws w0 data len m = ws m"
  by (auto simp: pack_bytes_def Let_def pack_loop_below split: option.splits)

lemma run_dma_load:
  assumes inv: "dma_inv st" and ep: "ep \<noteq> ULMK_EP_INVALID K"
    and opened: "\<not> slot_closed st slot"
    and len: "0 < len" "len \<le> 12" "len \<le> length data" "off + len \<le> DMA_XFER_MAX"
  shows "\<exists>t. length t = DMA_XFER_MAX \<and> take len t = take len data \<and>
    run_state (dma_load K ep (ipc K (dma_dispatch K)) slot (of_nat off) data len) st =
      (ULMK_OK K, st\<lparr>disp_tmp := t, g_slots := (g_slots st)[unat slot := (g_slots st ! unat slot)
        \<lparr>slot_buf := patch_at off (take len data) (slot_buf (g_slots st ! unat slot))\<rparr>]\<rparr>)"
proof -
  let ?m = "\<lparr>label = DMA_MSG_LOAD, words = pack_bytes
    ((\<lambda>_. 0)(0 := ucast slot, 1 := of_nat off, 2 := of_nat len)) 3 (Some data) len\<rparr>"
  let ?t = "unpack_payload (words ?m) 3 (disp_tmp st) (of_nat len)"
  let ?st = "st\<lparr>disp_tmp := ?t\<rparr>"
  have n: "unat (of_nat len :: u32) = len" "unat (of_nat off :: u32) = off"
    using len by (auto simp: unat_of_nat DMA_XFER_MAX_def)
  have w: "words ?m 0 = ucast slot" "words ?m 1 = of_nat off" "words ?m 2 = of_nat len"
    by (simp_all add: pack_bytes_header)
  have t: "length ?t = DMA_XFER_MAX" "take len ?t = take len data"
    using inv len by (auto simp: length_unpack_payload dma_inv_def intro: unpack_packed_chunk)
  have inv': "dma_inv ?st"
    using inv t(1) by (simp add: dma_inv_def)
  have opened': "\<not> slot_closed ?st slot"
    using opened by (simp add: slot_closed_pool)
  have fits: "load_ok (of_nat off) (of_nat len)" "off + len < 2 ^ 32"
    using len n by (auto simp: load_ok_def DMA_XFER_MAX_def)
  have slot8: "ucast (ucast slot :: u32) = slot"
    by (simp add: ucast_up_ucast_id is_up)
  have "run_state (do_load K slot (of_nat off) ?t (of_nat len)) ?st =
      (ULMK_OK K, ?st\<lparr>g_slots := (g_slots st)[unat slot := (g_slots st ! unat slot)
        \<lparr>slot_buf := patch_at off (take len data) (slot_buf (g_slots st ! unat slot))\<rparr>]\<rparr>)"
    using run_do_load [OF inv', of "of_nat off" "of_nat len" ?t K slot] opened' fits t n
    by simp
  then have "run_state (dma_dispatch K ?m) st = (\<lparr>label = 0, words = (\<lambda>_. 0)(0 := ULMK_OK K)\<rparr>,
      ?st\<lparr>g_slots := (g_slots st)[unat slot := (g_slots st ! unat slot)
        \<lparr>slot_buf := patch_at off (take len data) (slot_buf (g_slots st ! unat slot))\<rparr>]\<rparr>)"
    using w slot8 by (simp add: dma_dispatch_def Let_def const_defs)
  then show ?thesis
    using ep t by (auto simp: dma_load_def run_dma_call_ipc)
qed

lemma patch_at_patch_at:
  assumes "a + length xs + length ys \<le> length buf"
  shows "patch_at (a + length xs) ys (patch_at a xs buf) = patch_at a (xs @ ys) buf"
  using assms by (simp add: patch_at_def ac_simps)

lemma patch_at_nil [simp]: "patch_at a [] buf = buf"
  by (simp add: patch_at_def)

lemma dma_inv_load:
  assumes "dma_inv st" "length t = DMA_XFER_MAX" "off + length d \<le> DMA_XFER_MAX"
  shows "dma_inv (st\<lparr>disp_tmp := t, g_slots := (g_slots st)[i := (g_slots st ! i)
        \<lparr>slot_buf := patch_at off d (slot_buf (g_slots st ! i))\<rparr>]\<rparr>)"
proof -
  have "dma_inv (st\<lparr>disp_tmp := t\<rparr>)"
    using assms by (simp add: dma_inv_def)
  from dma_inv_slot [OF this, of i "(g_slots st ! i)\<lparr>slot_buf := patch_at off d (slot_buf (g_slots st ! i))\<rparr>"]
  show ?thesis
    using assms(3) by (auto simp: slot_wf_def patch_at_def)
qed

lemma run_load_chunks:
  assumes "dma_inv st" "ep \<noteq> ULMK_EP_INVALID K" "\<not> slot_closed st slot"
    "off \<le> len" "len \<le> length p" "len \<le> DMA_XFER_MAX"
  shows "\<exists>t. length t = DMA_XFER_MAX \<and>
    run_state (dma_load_chunks K ep (ipc K (dma_dispatch K)) slot p len off) st =
      (ULMK_OK K, st\<lparr>disp_tmp := t, g_slots := (g_slots st)[unat slot := (g_slots st ! unat slot)
        \<lparr>slot_buf := patch_at off (take (len - off) (drop off p))
            (slot_buf (g_slots st ! unat slot))\<rparr>]\<rparr>)"
  using assms
proof (induction K ep "ipc K (dma_dispatch K)" slot p len off arbitrary: st
    rule: dma_load_chunks.induct)
  case (1 K ep slot p len off)
  let ?buf = "slot_buf (g_slots st ! unat slot)"
  have slot: "unat slot < length (g_slots st)" and wf: "slot_wf (g_slots st ! unat slot)"
    using "1.prems" by (auto simp: slot_closed_def dma_inv_def)
  show ?case
  proof (cases "off < len")
    case False
    then show ?thesis
      using "1.prems" by (auto simp: dma_load_chunks.simps dma_inv_def intro!: exI [of _ "disp_tmp st"])
  next
    case True
    let ?n = "min (len - off) 12"
    have n: "0 < ?n" "?n \<le> 12" "?n \<le> length (drop off p)" "off + ?n \<le> DMA_XFER_MAX"
      using True "1.prems"(5,6) unfolding length_drop by linarith+
    obtain t where t: "length t = DMA_XFER_MAX"
      "run_state (dma_load K ep (ipc K (dma_dispatch K)) slot (of_nat off) (drop off p) ?n) st =
        (ULMK_OK K, st\<lparr>disp_tmp := t, g_slots := (g_slots st)[unat slot := (g_slots st ! unat slot)
          \<lparr>slot_buf := patch_at off (take ?n (drop off p)) ?buf\<rparr>]\<rparr>)" (is "_ = (_, ?st)")
      using run_dma_load [OF "1.prems"(1-3) n] by blast
    have inv: "dma_inv ?st"
      using n by (intro dma_inv_load [OF "1.prems"(1) t(1)]) simp
    have opened: "\<not> slot_closed ?st slot"
      using "1.prems"(3) slot by (auto simp: slot_closed_def)
    show ?thesis
    proof (cases "len - off \<le> 12")
      case last: True
      then have "\<not> off + 12 < len"
        by simp
      then have "dma_load_chunks K ep (ipc K (dma_dispatch K)) slot p len (off + 12) = ret (ULMK_OK K)"
        by (simp add: dma_load_chunks.simps)
      with t True last show ?thesis
        by (auto simp: dma_load_chunks.simps [of K ep _ slot p len off])
    next
      case more: False
      then have le: "off + 12 \<le> len"
        by simp
      have ok: "\<not> ULMK_OK K \<noteq> ULMK_OK K"
        by simp
      from "1.hyps" [OF True ok inv "1.prems"(2) opened le "1.prems"(5,6)] obtain t' where
        "length t' = DMA_XFER_MAX"
        "run_state (dma_load_chunks K ep (ipc K (dma_dispatch K)) slot p len (off + 12)) ?st =
          (ULMK_OK K, ?st\<lparr>disp_tmp := t', g_slots := (g_slots ?st)[unat slot := (g_slots ?st ! unat slot)
          \<lparr>slot_buf := patch_at (off + 12) (take (len - (off + 12)) (drop (off + 12) p))
              (slot_buf (g_slots ?st ! unat slot))\<rparr>]\<rparr>)"
        by blast
      moreover have "patch_at (off + 12) (take (len - (off + 12)) (drop (off + 12) p))
          (patch_at off (take ?n (drop off p)) ?buf) = patch_at off (take (len - off) (drop off p)) ?buf"
      proof -
        have "take (len - off) (drop off p) =
            take ?n (drop off p) @ take (len - (off + 12)) (drop (off + 12) p)"
          using more take_add [of 12 "len - (off + 12)" "drop off p"] by (simp add: add.commute)
        then show ?thesis
          using patch_at_patch_at [of off "take ?n (drop off p)" "take (len - (off + 12)) (drop (off + 12) p)" ?buf]
            more "1.prems"(5,6) wf by (simp add: slot_wf_def)
      qed
      ultimately show ?thesis
        using t True slot by (auto simp: dma_load_chunks.simps [of K ep _ slot p len off])
    qed
  qed
qed

section \<open>Arming a transfer from the client\<close>

lemma run_arm_call:
  assumes "dma_inv st" "ep \<noteq> ULMK_EP_INVALID K" "\<not> slot_closed st slot"
    "0 < len" "len \<le> DMA_XFER_MAX"
  shows "\<exists>rc st'. run_state (dma_call K ep (ipc K (dma_dispatch K)) \<lparr>label = DMA_MSG_ARM,
      words = (\<lambda>_. 0)(0 := ucast slot, 1 := periph, 2 := of_nat len, 3 := 1000)\<rparr>) st =
        ((rc, \<lparr>label = 0, words = (\<lambda>_. 0)(0 := rc)\<rparr>), st')
     \<and> g_slots st' = (g_slots st)[unat slot := (g_slots st ! unat slot)
          \<lparr>slot_periph := periph, slot_len := of_nat len, slot_timeout_ms := 1000,
           slot_job := DMA_JOB_ARM\<rparr>]
     \<and> trace st' = trace st @ [
          Kern (Notif_signal (slot_job_notif (g_slots st ! unat slot)) NOTIF_JOB),
          Kern (Notif_wait (slot_done_notif (g_slots st ! unat slot)) NOTIF_ARMED)]
     \<and> disp_tmp st' = disp_tmp st \<and> others st' = others st"
proof -
  have len: "(of_nat len :: u32) \<noteq> 0" "\<not> (of_nat DMA_XFER_MAX < (of_nat len :: u32))"
    using assms(4,5) by (auto simp: word_less_nat_alt unat_of_nat DMA_XFER_MAX_def
        simp flip: unat_eq_0)
  have slot8: "ucast (ucast slot :: u32) = slot"
    by (simp add: ucast_up_ucast_id is_up)
  have "unat slot < length (g_slots st)"
    using assms(1,3) by (auto simp: slot_closed_def dma_inv_def)
  with assms len slot8 show ?thesis
    by (simp add: run_dma_call_ipc dma_dispatch_def do_arm_def Let_def const_defs)
qed

text \<open>What the client's \<open>dma_arm\<close> leaves in the slot.\<close>

lemma run_dma_arm:
  assumes "dma_inv st" "ep \<noteq> ULMK_EP_INVALID K" "\<not> slot_closed st slot"
    "0 < len" "len \<le> DMA_XFER_MAX" "len \<le> length p"
  shows "\<exists>rc st'. run_state (dma_arm K ep (ipc K (dma_dispatch K)) slot periph (Some p) len) st = (rc, st')
     \<and> g_slots st' = (g_slots st)[unat slot := (g_slots st ! unat slot)
          \<lparr>slot_buf := patch_at 0 (take len p) (slot_buf (g_slots st ! unat slot)),
           slot_periph := periph, slot_len := of_nat len, slot_timeout_ms := 1000,
           slot_job := DMA_JOB_ARM\<rparr>]
     \<and> trace st' = trace st @ [
          Kern (Notif_signal (slot_job_notif (g_slots st ! unat slot)) NOTIF_JOB),
          Kern (Notif_wait (slot_done_notif (g_slots st ! unat slot)) NOTIF_ARMED)]"
proof -
  have slot: "unat slot < length (g_slots st)"
    using assms(1,3) by (auto simp: slot_closed_def dma_inv_def)
  obtain t st1 where t: "length t = DMA_XFER_MAX" and
    st1: "st1 = st\<lparr>disp_tmp := t, g_slots := (g_slots st)[unat slot := (g_slots st ! unat slot)
        \<lparr>slot_buf := patch_at 0 (take len p) (slot_buf (g_slots st ! unat slot))\<rparr>]\<rparr>" and
    load: "run_state (dma_load_chunks K ep (ipc K (dma_dispatch K)) slot p len 0) st = (ULMK_OK K, st1)"
    using run_load_chunks [OF assms(1-3), of 0 len p] assms(4-6) by auto
  have "dma_inv st1"
    unfolding st1 using t assms(5) by (intro dma_inv_load [OF assms(1)]) simp_all
  moreover have "\<not> slot_closed st1 slot"
    using assms(3) slot by (auto simp: slot_closed_def st1)
  ultimately obtain rc st' where
    "run_state (dma_call K ep (ipc K (dma_dispatch K)) \<lparr>label = DMA_MSG_ARM,
      words = (\<lambda>_. 0)(0 := ucast slot, 1 := periph, 2 := of_nat len, 3 := 1000)\<rparr>) st1 =
        ((rc, \<lparr>label = 0, words = (\<lambda>_. 0)(0 := rc)\<rparr>), st')"
    "g_slots st' = (g_slots st1)[unat slot := (g_slots st1 ! unat slot)
          \<lparr>slot_periph := periph, slot_len := of_nat len, slot_timeout_ms := 1000,
           slot_job := DMA_JOB_ARM\<rparr>]"
    "trace st' = trace st1 @ [
          Kern (Notif_signal (slot_job_notif (g_slots st1 ! unat slot)) NOTIF_JOB),
          Kern (Notif_wait (slot_done_notif (g_slots st1 ! unat slot)) NOTIF_ARMED)]"
    using run_arm_call [OF _ assms(2) _ assms(4,5), of st1 slot periph] by metis
  with load slot assms(4,5) show ?thesis
    by (auto simp: dma_arm_def st1)
qed

section \<open>Waiting for a transfer from the client\<close>

lemma run_do_wait:
  assumes "\<not> slot_closed st slot"
    "answer st (trace st) (Kern (Notif_wait (slot_done_notif (g_slots st ! unat slot)) NOTIF_DONE)) = ULMK_OK K"
    "others st (trace st @ [Kern (Notif_wait (slot_done_notif (g_slots st ! unat slot)) NOTIF_DONE)])
       (unat slot) = (r, b)"
    "dma_inv st"
  shows "fst (run_state (do_wait K slot tmo out len) st) =
      (r, if len > 0 \<and> slot_flags (g_slots st ! unat slot) AND DMA_FLAG_DIR_M2P = 0
          then (let n = min (unat len) (unat (slot_len (g_slots st ! unat slot)))
                in map b [0..<n] @ drop n out) else out)"
proof -
  have "unat slot < length (g_slots st)" "slot_wf (g_slots st ! unat slot)"
    using assms(1,4) by (auto simp: slot_closed_def dma_inv_def)
  with assms show ?thesis
    by (auto simp: do_wait_def resume_slot_def Let_def slot_wf_def take_map min_def)
qed

lemma unpack_pack_payload:
  assumes "length src = DMA_XFER_MAX" "unat len \<le> DMA_XFER_MAX"
  shows "unpack_loop 2 (unat len) (pack_payload ws 2 src len) = take (unat len) src"
proof -
  let ?z = "ws(2 := 0, 2 + 1 := 0, 2 + 2 := 0, 2 + 3 := 0)"
  have "?z m = 0" if "m \<in> payload_indices 2 (length (take (unat len) src))" for m
    using payload_indices_bound [OF that] assms
    by (cases "m = 2 \<or> m = 3 \<or> m = 4 \<or> m = 5") (auto simp: DMA_XFER_MAX_def)
  then have "unpack_loop 2 (length (take (unat len) src)) (pack_loop 2 0 (take (unat len) src) ?z) =
      take (unat len) src"
    by (rule unpack_pack_exact)
  then show ?thesis
    using assms by (auto simp: pack_payload_def min_def split: if_splits)
qed

lemma run_dispatch_wait:
  assumes "run_state (do_wait K slot tmo (disp_tmp st) len) st = ((rc, tmp), st')"
  shows "run_state (dma_dispatch K \<lparr>label = DMA_MSG_WAIT,
      words = (\<lambda>_. 0)(0 := ucast slot, 1 := tmo, 2 := len)\<rparr>) st =
    (\<lparr>label = 0, words = (let ws = (\<lambda>_. 0)(0 := rc) in
        if rc = ULMK_OK K \<and> len > 0 then pack_payload ws 2 tmp len else ws)\<rparr>,
     st'\<lparr>disp_tmp := tmp\<rparr>)"
proof -
  have "ucast (ucast slot :: u32) = slot"
    by (simp add: ucast_up_ucast_id is_up)
  with assms show ?thesis
    by (simp add: dma_dispatch_def Let_def const_defs)
qed

lemma pack_payload_header: "pack_payload ws 2 src len 0 = ws 0"
  by (simp add: pack_payload_def pack_loop_below)

text \<open>The client gets the status of \<open>do_wait\<close> and, on success, the dispatcher's buffer.\<close>

lemma run_dma_wait:
  assumes "ep \<noteq> ULMK_EP_INVALID K" "len \<le> DMA_XFER_MAX" "length tmp = DMA_XFER_MAX"
    "run_state (do_wait K slot tmo (disp_tmp st) (of_nat len)) st = ((rc, tmp), st')"
  shows "run_state (dma_wait K ep (ipc K (dma_dispatch K)) slot (Some d) len tmo) st =
    ((rc, Some (if rc = ULMK_OK K then take len tmp @ drop len d else d)), st'\<lparr>disp_tmp := tmp\<rparr>)"
proof -
  have len: "unat (of_nat len :: u32) = len" "(0 < (of_nat len :: u32)) \<longleftrightarrow> 0 < len"
    using assms(2) by (auto simp: unat_of_nat DMA_XFER_MAX_def word_less_nat_alt)
  have n: "min len DMA_XFER_MAX = len"
    using assms(2) by simp
  show ?thesis
    using assms(1-3) unpack_pack_payload [OF assms(3), of "of_nat len" "(\<lambda>_. 0)(0 := rc)"]
    by (auto simp: dma_wait_def run_dma_call_ipc run_dispatch_wait [OF assms(4)] len n Let_def
        pack_payload_header unpack_bytes_def simp del: One_nat_def)
qed

text \<open>A wait that reports OK returns the bytes that were left with result OK.\<close>

lemma dma_wait_ok:
  assumes "dma_inv st" "ep \<noteq> ULMK_EP_INVALID K" "\<not> slot_closed st slot"
    "slot_flags (g_slots st ! unat slot) AND DMA_FLAG_DIR_M2P = 0"
    "0 < len" "len \<le> unat (slot_len (g_slots st ! unat slot))"
    "run_state (dma_wait K ep (ipc K (dma_dispatch K)) slot (Some d) len tmo) st = ((ULMK_OK K, rx), st')"
  shows "\<exists>t b. others st t (unat slot) = (ULMK_OK K, b) \<and> rx = Some (map b [0..<len] @ drop len d)"
proof -
  have wf: "slot_wf (g_slots st ! unat slot)" "length (disp_tmp st) = DMA_XFER_MAX"
    using assms(1,3) by (auto simp: slot_closed_def dma_inv_def)
  then have len: "len \<le> DMA_XFER_MAX"
    using assms(6) by (simp add: slot_wf_def)
  then have n: "unat (of_nat len :: u32) = len" "(0 < (of_nat len :: u32))"
    using assms(5) by (auto simp: unat_of_nat DMA_XFER_MAX_def word_less_nat_alt)
  let ?e = "Kern (Notif_wait (slot_done_notif (g_slots st ! unat slot)) NOTIF_DONE)"
  obtain rc tmp st1 where run:
    "run_state (do_wait K slot tmo (disp_tmp st) (of_nat len)) st = ((rc, tmp), st1)"
    by (metis prod.collapse)
  have tmp: "length tmp = DMA_XFER_MAX"
    using length_do_wait_out [OF assms(1) wf(2), of K slot tmo "of_nat len"] run by simp
  have rc: "rc = ULMK_OK K" "rx = Some (take len tmp @ drop len d)"
    using run_dma_wait [OF assms(2) len tmp run, of d] assms(7) by auto
  have "answer st (trace st) ?e = ULMK_OK K"
    using run assms(3) rc(1) by (auto simp: do_wait_def split: if_splits)
  moreover obtain r b where oth: "others st (trace st @ [?e]) (unat slot) = (r, b)"
    by (metis prod.collapse)
  ultimately have "(rc, tmp) = (r, map b [0..<len] @ drop len (disp_tmp st))"
    using run_do_wait [OF assms(3) _ _ assms(1), of K r b tmo "disp_tmp st" "of_nat len"] run
      assms(4,6) n by (simp add: Let_def min_absorb1)
  with rc oth len show ?thesis
    by auto
qed

end
