(* ===== verification/Dma_Linum_Props.thy ===== *)
theory Dma_Linum_Props
  imports Dma_Client_Linum
begin

text \<open>
  Properties of the Linum DMA driver as a system: dispatcher, workers and DMA engine running
  against the same slot table, and the client's calls on top of the dispatcher.
\<close>

section \<open>Boot state and the steps of the system\<close>

text \<open>
  The state at boot: zero-initialised globals; \<open>tmp\<close> is the content of the dispatcher's
  uninitialised buffer; \<open>ans\<close>, \<open>oth\<close> and \<open>addr\<close> are the environment.
\<close>

definition zero_slot :: dma_slot where
  "zero_slot = \<lparr>slot_open = 0, slot_mux_req = 0, slot_flags = 0,
     slot_buf = replicate DMA_XFER_MAX 0, slot_irq_notif = 0, slot_job_notif = 0,
     slot_done_notif = 0, slot_job = 0, slot_periph = 0, slot_len = 0, slot_timeout_ms = 0,
     slot_result = 0, slot_worker = 0\<rparr>"

definition dma_boot ::
  "(dma_act event list \<Rightarrow> dma_act event \<Rightarrow> u32) \<Rightarrow>
   (dma_act event list \<Rightarrow> nat \<Rightarrow> cint \<times> (nat \<Rightarrow> u8)) \<Rightarrow> (nat \<Rightarrow> u32) \<Rightarrow> (nat \<Rightarrow> u8) \<Rightarrow> dma_st" where
  "dma_boot ans oth addr tmp = \<lparr>trace = [], answer = ans, fault = False,
     g_slots = replicate DMA_MAX_SLOTS zero_slot, g_dma_ep = 0, g_dma_ready = 0,
     buf_addr = addr, others = oth, disp_tmp = map tmp [0..<DMA_XFER_MAX]\<rparr>"

lemma dma_inv_boot: "dma_inv (dma_boot ans oth addr tmp)"
  by (auto simp: dma_inv_def dma_boot_def slot_wf_def zero_slot_def)

text \<open>
  The steps of the running system: bring-up, a message served by the dispatcher, an iteration
  of a worker, and the DMA engine storing a byte in the buffer of a slot.
\<close>

inductive dma_step :: "ulmk_abi \<Rightarrow> dma_st \<Rightarrow> dma_st \<Rightarrow> bool" for K where
  bring_up: "dma_step K st (snd (run_state (dma_init K) st))"
| request: "load_fits m \<Longrightarrow> dma_step K st (snd (run_state (dma_dispatch K m) st))"
| worker: "slot < DMA_MAX_SLOTS \<Longrightarrow> dma_step K st (snd (run_state (dma_worker_iter K slot) st))"
| engine: "k < DMA_XFER_MAX \<Longrightarrow>
    dma_step K st (snd (run_state (upd_slot slot (\<lambda>s. s\<lparr>slot_buf := (slot_buf s)[k := b]\<rparr>)) st))"

inductive dma_reach :: "ulmk_abi \<Rightarrow> dma_st \<Rightarrow> dma_st \<Rightarrow> bool" for K and st0 where
  start: "dma_reach K st0 st0"
| step: "dma_reach K st0 st \<Longrightarrow> dma_step K st st' \<Longrightarrow> dma_reach K st0 st'"

lemma keeps_dma_init [keeps_intros]: "keeps dma_inv (dma_init K)"
  unfolding dma_init_def dma_init_slot_def
  by (intro keeps_intros keeps_upd_slot keeps_modify) (auto simp: slot_wf_def)

lemma fault_wait_tc [simp]: "fault (snd (run_state (slot_wait_tc K fuel slot tmo el) st)) = fault st"
  by (induction fuel arbitrary: el st) auto

lemma keeps_fault_io [keeps_intros]:
  "keeps (\<lambda>st. fault st = b) (kern c)" "keeps (\<lambda>st. fault st = b) (kern_do c)"
  "keeps (\<lambda>st. fault st = b) (dev d)" "keeps (\<lambda>st. fault st = b) (dev_do d)"
  "keeps (\<lambda>st :: dma_st. fault st = b) (the_slot i)"
  "keeps (\<lambda>st :: dma_st. fault st = b) (upd_slot i f)"
  "keeps (\<lambda>st. fault st = b) (slot_wait_tc K fuel slot tmo el)"
  by (auto simp: keeps_def)

lemma keeps_fault_init [keeps_intros]: "keeps (\<lambda>st. fault st = b) (dma_init K)"
  unfolding dma_init_def dma_init_slot_def
  by (intro keeps_intros keeps_modify) auto

lemma keeps_fault_worker [keeps_intros]: "keeps (\<lambda>st. fault st = b) (dma_worker_iter K slot)"
  unfolding dma_worker_iter_def dma_worker_job_def slot_arm_hw_def Let_def
  by (intro keeps_intros)

lemma fault_init [simp]: "fault (snd (run_state (dma_init K) st)) = fault st"
  by (rule keepsD [OF keeps_fault_init [of "fault st"]]) simp

lemma fault_worker [simp]: "fault (snd (run_state (dma_worker_iter K slot) st)) = fault st"
  by (rule keepsD [OF keeps_fault_worker [of "fault st"]]) simp

lemma dma_step_safe:
  assumes "dma_step K st st'" "dma_inv st" "\<not> fault st"
  shows "dma_inv st' \<and> \<not> fault st'"
  using assms
proof cases
  case (request m)
  then show ?thesis
    using assms fault_dispatch [of st m K] keepsD [OF keeps_dma_dispatch, of st] by auto
next
  case (engine k slot b)
  then show ?thesis
    using assms by (auto intro: dma_inv_slot simp: slot_wf_def)
qed (use assms in \<open>auto dest: keepsD [OF keeps_dma_init] keepsD [OF keeps_worker_iter]\<close>)


definition dma_idle :: dma_st where
  "dma_idle = dma_boot (\<lambda>_ _. 0) (\<lambda>_ _. (0, \<lambda>_. 0)) (\<lambda>i. 0x20000000) (\<lambda>_. 0)"

definition open_msg :: msg where
  "open_msg = \<lparr>label = DMA_MSG_OPEN, words = (\<lambda>_. 0)(0 := 1, 1 := 74, 2 := 3)\<rparr>"


section \<open>The dispatcher as a server over the pool of channels\<close>

interpretation dma_srv: rpc_server "dma_dispatch K" load_fits "\<lambda>st. dma_inv st \<and> \<not> fault st" pool pool_next
  for K
  by unfold_locales (auto simp: fault_dispatch pool_dispatch keepsD [OF keeps_dma_dispatch])



text \<open>OPEN and CLOSE answer what the pool says: EINVAL for a slot that does not exist or is not
  open, ENOSPC for one that is taken, OK otherwise.\<close>

theorem dma_open_close_status:
  assumes "dma_inv st" "label m = DMA_MSG_OPEN \<or> label m = DMA_MSG_CLOSE"
  shows "words (fst (run_state (dma_dispatch K m) st)) 0 = pool_status K m (pool st)"
  using assms by (rule status_dispatch)

theorem dma_open_close_status_witness:
  "words (fst (run_state (dma_dispatch sample_abi open_msg) dma_idle)) 0 = 0"
  using dma_open_close_status [of dma_idle open_msg sample_abi]
  by (simp add: dma_idle_def dma_inv_boot)
     (simp add: open_msg_def const_defs pool_status_def pool_def dma_boot_def zero_slot_def sample_abi_def)

section \<open>LOAD requests that wrap\<close>

lemma fault_for_each:
  assumes "x \<in> set xs" "\<And>st. fault (snd (run_state (f x) st))"
    "\<And>y. keeps (\<lambda>st :: dma_st. fault st = True) (f y)"
  shows "fault (snd (run_state (for_each xs f) st))"
  using assms(1)
proof (induction xs arbitrary: st)
  case (Cons y ys)
  obtain u st1 where y: "run_state (f y) st = (u, st1)"
    by (cases "run_state (f y) st")
  show ?case
  proof (cases "x = y")
    case True
    then have "fault st1 = True"
      using assms(2) [of st] y by simp
    moreover have "keeps (\<lambda>st :: dma_st. fault st = True) (for_each ys f)"
      by (intro keeps_intros assms(3))
    ultimately show ?thesis
      using y keepsD by fastforce
  qed (use Cons y in auto)
qed simp

lemma keeps_fault_load_byte: "keeps (\<lambda>st. fault st = True) (load_byte i off data k)"
  by (auto simp: keeps_def load_byte_def Let_def)

lemma fault_load_wrap:
  assumes "\<not> slot_closed st slot" "2 ^ 32 \<le> unat offset + unat len"
    "offset + len \<le> of_nat DMA_XFER_MAX" "length data = DMA_XFER_MAX"
  shows "fst (run_state (do_load K slot offset data len) st) = ULMK_OK K"
    and "fault (snd (run_state (do_load K slot offset data len) st))"
proof -
  have len: "len \<noteq> 0"
    using assms(2) unat_u32 [of offset] by auto
  let ?f = "load_byte (unat slot) offset data"
  let ?i = "if DMA_XFER_MAX \<le> unat offset then 0 else DMA_XFER_MAX"
  have "?i \<in> set [0..<unat len]"
    using assms(2) len by (auto simp: DMA_XFER_MAX_def simp flip: unat_eq_0 split: if_splits)
  moreover have "fault (snd (run_state (?f ?i) st))" for st
    using assms(4) by (auto simp: load_byte_def Let_def)
  ultimately have "fault (snd (run_state (for_each [0..<unat len] ?f) st))"
    by (rule fault_for_each [OF _ _ keeps_fault_load_byte])
  then show "fst (run_state (do_load K slot offset data len) st) = ULMK_OK K"
    "fault (snd (run_state (do_load K slot offset data len) st))"
    using assms(1,3) len by (auto simp: do_load_def not_less split: prod.splits)
qed

text \<open>C7: The range check of LOAD compares \<open>offset + len\<close> as a 32-bit sum.  A request for an open slot
  whose sum wraps to at most 16 is answered with OK, and its copy loop leaves the buffer.\<close>

theorem dma_load_wrap_overflows:
  assumes "dma_inv st" "label m = DMA_MSG_LOAD" "\<not> slot_closed st (ucast (words m 0))"
    and wraps: "2 ^ 32 \<le> unat (words m 1) + unat (words m 2)"
    and small: "words m 1 + words m 2 \<le> of_nat DMA_XFER_MAX"
  shows "words (fst (run_state (dma_dispatch K m) st)) 0 = ULMK_OK K
    \<and> fault (snd (run_state (dma_dispatch K m) st))"
proof -
  let ?t = "unpack_payload (words m) 3 (disp_tmp st) (words m 2)"
  let ?st = "st\<lparr>disp_tmp := ?t\<rparr>"
  have t: "length ?t = DMA_XFER_MAX" and opened: "\<not> slot_closed ?st (ucast (words m 0))"
    using assms(1,3) by (auto simp: length_unpack_payload dma_inv_def slot_closed_def)
  obtain rc st' where run:
    "run_state (do_load K (ucast (words m 0)) (words m 1) ?t (words m 2)) ?st = (rc, st')"
    by (metis prod.collapse)
  have "rc = ULMK_OK K" "fault st'"
    using fault_load_wrap [OF opened wraps small t, of K] run by auto
  moreover have "run_state (dma_dispatch K m) st = (\<lparr>label = 0, words = (\<lambda>_. 0)(0 := rc)\<rparr>, st')"
    using run assms(2) by (simp add: dma_dispatch_def Let_def const_defs)
  ultimately show ?thesis by simp
qed

definition dma_opened :: "u32 \<Rightarrow> dma_st" where
  "dma_opened flags = dma_idle\<lparr>g_slots := (g_slots dma_idle)[1 := zero_slot\<lparr>slot_open := 1,
     slot_flags := flags, slot_job_notif := 5, slot_done_notif := 6, slot_len := 4\<rparr>]\<rparr>"

lemma dma_inv_opened: "dma_inv (dma_opened flags)" "\<not> slot_closed (dma_opened flags) 1"
  using dma_inv_boot
  by (auto simp: dma_opened_def dma_idle_def dma_inv_def dma_boot_def slot_wf_def zero_slot_def
      slot_closed_def const_defs dest: set_update_subset_insert [THEN subsetD])

theorem dma_load_wrap_overflows_witness:
  "fault (snd (run_state (dma_dispatch sample_abi \<lparr>label = DMA_MSG_LOAD,
     words = (\<lambda>_. 0)(0 := 1, 1 := 0xFFFFFFFF, 2 := 2)\<rparr>) (dma_opened 0)))"
  using dma_load_wrap_overflows [of "dma_opened 0" "\<lparr>label = DMA_MSG_LOAD,
     words = (\<lambda>_. 0)(0 := 1, 1 := 0xFFFFFFFF, 2 := 2)\<rparr>" sample_abi]
  by (simp add: dma_inv_opened) (simp add: const_defs)

section \<open>The worker\<close>

lemma slot_wait_tc_state:
  "\<exists>evs. snd (run_state (slot_wait_tc K fuel slot tmo el) st) = st\<lparr>trace := trace st @ evs\<rparr>"
proof (induction fuel arbitrary: el st)
  case 0
  show ?case by (rule exI [of _ "[]"]) simp
next
  case (Suc fuel)
  let ?st = "st\<lparr>trace := trace st @ [Dev (Dma_rd LISR), Kern (Sleep_ms 1)]\<rparr>"
  from Suc.IH [of "el + 1" ?st] obtain evs where
    "snd (run_state (slot_wait_tc K fuel slot tmo (el + 1)) ?st) =
       st\<lparr>trace := trace st @ Dev (Dma_rd LISR) # Kern (Sleep_ms 1) # evs\<rparr>"
    by auto
  then show ?case
    by (simp, blast)
qed

lemma slot_wait_tc_outcome:
  assumes "tmo \<noteq> 0"
  shows "\<exists>rc evs. run_state (slot_wait_tc K (Suc (unat tmo)) slot tmo 0) st =
    (Some rc, st\<lparr>trace := trace st @ evs\<rparr>) \<and> rc \<in> {ULMK_OK K, ULMK_ETIMEOUT K}"
proof -
  from slot_wait_tc_returns [of tmo 0 "Suc (unat tmo)" K slot st] assms
  obtain rc where "fst (run_state (slot_wait_tc K (Suc (unat tmo)) slot tmo 0) st) = Some rc"
    "rc \<in> {ULMK_OK K, ULMK_ETIMEOUT K}"
    by auto
  moreover obtain evs where
    "snd (run_state (slot_wait_tc K (Suc (unat tmo)) slot tmo 0) st) = st\<lparr>trace := trace st @ evs\<rparr>"
    using slot_wait_tc_state by blast
  ultimately show ?thesis
    by (metis prod.collapse)
qed



lemma accepts_worker_arm:
  assumes "slot_job (g_slots st ! slot) = DMA_JOB_ARM"
  shows "\<exists>es. trace (snd (run_state (dma_worker_job K slot) st)) = trace st @ es \<and>
    stream_run slot q es = Some Enabled"
proof -
  let ?s = "g_slots st ! slot"
  let ?tmo = "if slot_timeout_ms ?s \<noteq> 0 then slot_timeout_ms ?s else DMA_DEFAULT_WAIT_MS"
  let ?body = "do {
     (if slot_flags ?s AND DMA_FLAG_DIR_M2P \<noteq> 0 then dev_do (Dcache_clean (buf_addr st slot) (slot_len ?s))
      else dev_do (Dcache_invalidate (buf_addr st slot) (slot_len ?s)));
     slot_arm_hw slot;
     kern_do (Notif_signal (slot_done_notif ?s) NOTIF_ARMED);
     rc \<leftarrow> slot_wait_tc K (Suc (unat ?tmo)) slot ?tmo 0;
     upd_slot slot (\<lambda>s. s\<lparr>slot_result := the rc\<rparr>);
     when_do (slot_flags ?s AND DMA_FLAG_DIR_M2P = 0 \<and> the rc = ULMK_OK K)
       (dev_do (Dcache_invalidate (buf_addr st slot) (slot_len ?s)));
     kern_do (Notif_signal (slot_done_notif ?s) NOTIF_DONE) }"
  have cache: "accepts slot q (if b then dev_do (Dcache_clean x l) else dev_do (Dcache_invalidate x l)) {q}"
    for b x l
    by (simp add: accepts_kern_dev)
  have "accepts slot q ?body {Enabled}"
    by (rule accepts_bind1 [OF cache], rule accepts_bind1 [OF accepts_arm_hw],
        rule accepts_bind1 [OF accepts_kern_dev(2)], rule signal_steps,
        rule accepts_bind1 [OF accepts_wait_tc], rule accepts_weaken [OF accepts_worker_tail]) auto
  moreover have "run_state (dma_worker_job K slot) st = run_state ?body st"
    using assms by (simp add: dma_worker_job_def Let_def)
  ultimately show ?thesis
    unfolding accepts_def by simp
qed

text \<open>Every job programs its stream in the order the hardware asks for, from any stream state:
  address, length and request registers are written only while the stream is disabled, and the
  ARMED signal is given only while it is enabled.  An ARM job, timed out or not, leaves its
  stream enabled: nothing stops the engine after ETIMEOUT.\<close>

theorem dma_worker_stream_order:
  "\<exists>es q'. trace (snd (run_state (dma_worker_job K slot) st)) = trace st @ es
    \<and> stream_run slot q es = Some q'
    \<and> q' = (if slot_job (g_slots st ! slot) = DMA_JOB_ARM then Enabled else q)"
proof (cases "slot_job (g_slots st ! slot) = DMA_JOB_ARM")
  case True
  then show ?thesis
    using accepts_worker_arm [OF True] by simp
next
  case False
  then show ?thesis
    by (simp add: dma_worker_job_def const_defs)
qed

section \<open>The client's calls\<close>

text \<open>Every message the client library builds is admissible, so its calls keep the driver safe.\<close>

definition dma_safe :: "dma_st \<Rightarrow> bool" where
  "dma_safe d \<longleftrightarrow> dma_inv d \<and> \<not> fault d"

abbreviation "dma_ipc K \<equiv> ipc K (dma_dispatch K)"

lemma keeps_dma_call:
  "load_fits m \<Longrightarrow> keeps dma_safe (dma_call K ep (dma_ipc K) m)"
  using dma_srv.handle_inv [of _ m K]
  by (auto simp: keeps_def dma_call_def ipc_def dma_safe_def split: prod.splits)
     (metis snd_conv)+

lemma keeps_client_bind:
  "load_fits m \<Longrightarrow> keeps dma_safe (do { (rc, m') \<leftarrow> dma_call K ep (dma_ipc K) m; ret (f rc m') })"
  by (intro keeps_intros keeps_dma_call)

lemma keeps_dma_load:
  assumes "off + len < 2 ^ 32"
  shows "keeps dma_safe (dma_load K ep (dma_ipc K) slot (of_nat off) data len)"
proof -
  have "unat (of_nat off :: u32) = off" "unat (of_nat len :: u32) = len"
    using assms by (auto simp: unat_of_nat)
  then show ?thesis
    unfolding dma_load_def using assms
    by (intro keeps_client_bind) (simp add: load_fits_def pack_bytes_header)
qed

lemma keeps_dma_load_chunks:
  "len \<le> DMA_XFER_MAX \<Longrightarrow> keeps dma_safe (dma_load_chunks K ep (dma_ipc K) slot p len off)"
proof (induction K ep "dma_ipc K" slot p len off rule: dma_load_chunks.induct)
  case (1 K ep slot p len off)
  show ?case
  proof (cases "off < len")
    case True
    have "keeps dma_safe (dma_load K ep (dma_ipc K) slot (of_nat off) (drop off p) (min (len - off) 12))"
      using True "1.prems" by (intro keeps_dma_load) (simp add: DMA_XFER_MAX_def)
    then show ?thesis
      using True "1.hyps" "1.prems"
      by (subst dma_load_chunks.simps) (auto intro!: keeps_intros)
  qed (simp add: dma_load_chunks.simps keeps_intros)
qed

lemma keeps_dma_arm: "keeps dma_safe (dma_arm K ep (dma_ipc K) slot periph buf len)"
proof (cases "len = 0 \<or> DMA_XFER_MAX < len")
  case True
  then show ?thesis by (auto simp: dma_arm_def intro!: keeps_intros)
next
  case False
  have "keeps dma_safe (case buf of None \<Rightarrow> ret (ULMK_OK K)
      | Some p \<Rightarrow> dma_load_chunks K ep (dma_ipc K) slot p len 0)"
    using False by (auto split: option.splits intro: keeps_ret keeps_dma_load_chunks)
  moreover have "load_fits \<lparr>label = DMA_MSG_ARM, words = w\<rparr>" for w
    by (simp add: load_fits_def const_defs)
  ultimately show ?thesis
    using False unfolding dma_arm_def
    by (simp only: if_False) (intro keeps_intros keeps_client_bind)
qed

lemma keeps_dma_wait: "keeps dma_safe (dma_wait K ep (dma_ipc K) slot out len tmo)"
  unfolding dma_wait_def by (intro keeps_client_bind) (simp add: load_fits_def const_defs)

lemma keeps_dma_channel_open: "keeps dma_safe (dma_channel_open K ep (dma_ipc K) slot req flags)"
  unfolding dma_channel_open_def by (intro keeps_client_bind) (simp add: load_fits_def const_defs)

lemma keeps_dma_init_safe: "keeps dma_safe (dma_init K)"
  unfolding dma_safe_def keeps_def by (simp add: keepsD [OF keeps_dma_init])

lemma dma_wait_out:
  assumes "len \<le> length d" "length d = DMA_XFER_MAX"
  shows "\<exists>d'. snd (fst (run_state (dma_wait K ep call slot (Some d) len tmo) st)) = Some d' \<and>
    length d' = DMA_XFER_MAX"
  using assms by (auto simp: dma_wait_def unpack_bytes_def Let_def split: prod.splits)

text \<open>C2: A client's \<open>dma_arm\<close> with a buffer, served by the dispatcher, stores exactly the caller's
  bytes in the slot (in LOAD messages of at most 12 bytes), sets up the job, changes no other
  slot, and then signals the worker and waits for it to be armed.\<close>

theorem dma_arm_delivers:
  assumes "dma_inv st" "ep \<noteq> ULMK_EP_INVALID K" "\<not> slot_closed st slot"
    "0 < len" "len \<le> DMA_XFER_MAX" "len \<le> length p"
    "run_state (dma_arm K ep (ipc K (dma_dispatch K)) slot periph (Some p) len) st = (rc, st')"
  shows "take len (slot_buf (g_slots st' ! unat slot)) = take len p
    \<and> unat (slot_len (g_slots st' ! unat slot)) = len
    \<and> slot_periph (g_slots st' ! unat slot) = periph
    \<and> slot_job (g_slots st' ! unat slot) = DMA_JOB_ARM
    \<and> (\<forall>i. i \<noteq> unat slot \<longrightarrow> g_slots st' ! i = g_slots st ! i)
    \<and> trace st' = trace st @ [
          Kern (Notif_signal (slot_job_notif (g_slots st ! unat slot)) NOTIF_JOB),
          Kern (Notif_wait (slot_done_notif (g_slots st ! unat slot)) NOTIF_ARMED)]"
proof -
  have "unat slot < length (g_slots st)"
    using assms(1,3) by (auto simp: slot_closed_def dma_inv_def)
  moreover have "unat (of_nat len :: u32) = len"
    using assms(5) by (simp add: unat_of_nat DMA_XFER_MAX_def)
  moreover have "take len (patch_at 0 (take len p) buf) = take len p" for buf
    using assms(6) by (simp add: patch_at_def)
  ultimately show ?thesis
    using run_dma_arm [OF assms(1-6), of periph] assms(7) by auto
qed

theorem dma_arm_delivers_witness:
  "\<exists>rc st'. run_state (dma_arm sample_abi 7 (ipc sample_abi (dma_dispatch sample_abi)) 1 0x40005C28
       (Some [1, 2, 3, 4, 5, 6, 7, 8, 9, 10, 11, 12, 13, 14]) 14) (dma_opened 1) = (rc, st')
     \<and> take 14 (slot_buf (g_slots st' ! 1)) = [1, 2, 3, 4, 5, 6, 7, 8, 9, 10, 11, 12, 13, 14]"
proof -
  obtain rc st' where run: "run_state (dma_arm sample_abi 7 (ipc sample_abi (dma_dispatch sample_abi)) 1
      0x40005C28 (Some [1, 2, 3, 4, 5, 6, 7, 8, 9, 10, 11, 12, 13, 14]) 14) (dma_opened 1) = (rc, st')"
    by (metis prod.collapse)
  show ?thesis
    using dma_arm_delivers [OF dma_inv_opened(1) _ dma_inv_opened(2) _ _ _ run] run
    by (simp add: sample_abi_def DMA_XFER_MAX_def)
qed

text \<open>A client's \<open>dma_wait\<close> on a peripheral-to-memory slot blocks on the DONE notification of
  the slot, without a timeout whatever \<open>timeout_ms\<close> asks, and returns the worker's result with,
  on success, the bytes the engine left in the slot; on failure the caller's buffer is as before.\<close>

theorem dma_wait_delivers:
  assumes "dma_inv st" "ep \<noteq> ULMK_EP_INVALID K" "\<not> slot_closed st slot"
    "slot_flags (g_slots st ! unat slot) AND DMA_FLAG_DIR_M2P = 0"
    "0 < len" "len \<le> unat (slot_len (g_slots st ! unat slot))"
    and wait: "e = Kern (Notif_wait (slot_done_notif (g_slots st ! unat slot)) NOTIF_DONE)"
    and "answer st (trace st) e = ULMK_OK K"
    and "others st (trace st @ [e]) (unat slot) = (r, b)"
  shows "\<exists>st'. run_state (dma_wait K ep (ipc K (dma_dispatch K)) slot (Some d) len tmo) st =
      ((r, Some (if r = ULMK_OK K then map b [0..<len] @ drop len d else d)), st')
    \<and> trace st' = trace st @ [e]"
proof -
  have wf: "slot_wf (g_slots st ! unat slot)" "length (disp_tmp st) = DMA_XFER_MAX"
    using assms(1,3) by (auto simp: slot_closed_def dma_inv_def)
  then have len: "len \<le> DMA_XFER_MAX"
    using assms(6) by (simp add: slot_wf_def)
  then have n: "unat (of_nat len :: u32) = len" "(0 < (of_nat len :: u32))"
    using assms(5) by (auto simp: unat_of_nat DMA_XFER_MAX_def word_less_nat_alt)
  let ?tmp = "map b [0..<len] @ drop len (disp_tmp st)"
  obtain x st' where run: "run_state (do_wait K slot tmo (disp_tmp st) (of_nat len)) st = (x, st')"
    by (metis prod.collapse)
  then have "x = (r, ?tmp)"
    using run_do_wait [OF assms(3) _ _ assms(1), of K r b tmo "disp_tmp st" "of_nat len"]
      assms(4,6,8,9) n by (simp add: wait Let_def min_absorb1)
  moreover have "trace st' = trace st @ [e]"
    using run assms(3,8) by (auto simp: do_wait_def wait resume_slot_def Let_def split: prod.splits if_splits)
  ultimately show ?thesis
    using run_dma_wait [OF assms(2) len, of ?tmp slot tmo st r st' d] run wf(2) len by auto
qed

theorem dma_wait_delivers_witness:
  "\<exists>st'. run_state (dma_wait sample_abi 7 (ipc sample_abi (dma_dispatch sample_abi)) 1 (Some [9, 9, 9, 9]) 3 50)
      (dma_opened 0\<lparr>others := (\<lambda>_ _. (0, of_nat))\<rparr>) = ((0, Some [0, 1, 2, 9]), st')"
proof -
  let ?st = "dma_opened 0\<lparr>others := (\<lambda>_ _. (0, of_nat))\<rparr>"
  have "dma_inv ?st" "\<not> slot_closed ?st 1"
    using dma_inv_opened [of 0] by (simp_all add: dma_inv_def slot_closed_def)
  moreover have "g_slots ?st ! 1 = zero_slot\<lparr>slot_open := 1,
     slot_flags := 0, slot_job_notif := 5, slot_done_notif := 6, slot_len := 4\<rparr>"
    "others ?st = (\<lambda>_ _. (0, of_nat))" "answer ?st = (\<lambda>_ _. 0)"
    by (simp_all add: dma_opened_def dma_idle_def dma_boot_def DMA_MAX_SLOTS_def)
  ultimately show ?thesis
    using dma_wait_delivers [of ?st 7 sample_abi 1 3 _ 0 "of_nat" "[9, 9, 9, 9]" 50]
    by (auto simp: sample_abi_def upt_rec)
qed

text \<open>The dispatcher keeps one buffer for LOAD payloads and WAIT replies.  After a client has loaded
  bytes into one slot, any client that waits on a memory-to-peripheral slot with a length gets
  those bytes in its reply.\<close>

theorem dma_wait_leaks_load:
  assumes "dma_inv st" "ep \<noteq> ULMK_EP_INVALID K" "\<not> slot_closed st sa" "\<not> slot_closed st sb"
    "sa \<noteq> sb" "slot_flags (g_slots st ! unat sb) AND DMA_FLAG_DIR_M2P \<noteq> 0"
    "0 < len" "len \<le> 12" "len \<le> length secret"
    and wait: "e = Kern (Notif_wait (slot_done_notif (g_slots st ! unat sb)) NOTIF_DONE)"
    and "answer st (trace st) e = ULMK_OK K"
    and "others st (trace st @ [e]) (unat sb) = (ULMK_OK K, b)"
  shows "fst (run_state (do {
      _ \<leftarrow> dma_load K ep (ipc K (dma_dispatch K)) sa 0 secret len;
      dma_wait K ep (ipc K (dma_dispatch K)) sb (Some d) len tmo }) st) =
    (ULMK_OK K, Some (take len secret @ drop len d))"
proof -
  obtain t st1 where t: "length t = DMA_XFER_MAX" "take len t = take len secret" and
    st1: "st1 = st\<lparr>disp_tmp := t, g_slots := (g_slots st)[unat sa := (g_slots st ! unat sa)
        \<lparr>slot_buf := patch_at 0 (take len secret) (slot_buf (g_slots st ! unat sa))\<rparr>]\<rparr>" and
    load: "run_state (dma_load K ep (ipc K (dma_dispatch K)) sa 0 secret len) st = (ULMK_OK K, st1)"
    using run_dma_load [OF assms(1-3), of len secret 0] assms(7-9) by (auto simp: DMA_XFER_MAX_def)
  have "dma_inv st1"
    unfolding st1 using t assms(8) by (intro dma_inv_load [OF assms(1)]) (simp_all add: DMA_XFER_MAX_def)
  moreover have sb: "g_slots st1 ! unat sb = g_slots st ! unat sb"
    using assms(5) by (simp add: st1 word_unat_eq_iff)
  moreover have "\<not> slot_closed st1 sb"
    using assms(4) sb by (simp add: slot_closed_def)
  moreover have env: "answer st1 = answer st" "trace st1 = trace st" "others st1 = others st"
    by (simp_all add: st1)
  moreover obtain x st' where run: "run_state (do_wait K sb tmo (disp_tmp st1) (of_nat len)) st1 = (x, st')"
    by (metis prod.collapse)
  ultimately have "x = (ULMK_OK K, t)"
    using run_do_wait [of st1 sb K "ULMK_OK K" b tmo "disp_tmp st1" "of_nat len"]
      assms(6,11,12) by (simp add: wait st1)
  then show ?thesis
    using run_dma_wait [OF assms(2) _ t(1), of len sb tmo st1 "ULMK_OK K" st' d] run load assms(8) t(2)
    by (simp add: DMA_XFER_MAX_def)
qed

definition dma_two :: dma_st where
  "dma_two = (dma_opened 1)\<lparr>g_slots := (g_slots (dma_opened 1))[0 := zero_slot\<lparr>slot_open := 1\<rparr>]\<rparr>"

theorem dma_wait_leaks_load_witness:
  "fst (run_state (do {
      _ \<leftarrow> dma_load sample_abi 7 (ipc sample_abi (dma_dispatch sample_abi)) 0 0 [0xAA, 0xBB, 0xCC] 3;
      dma_wait sample_abi 7 (ipc sample_abi (dma_dispatch sample_abi)) 1 (Some [0, 0, 0]) 3 50 }) dma_two) =
    (0, Some [0xAA, 0xBB, 0xCC])"
proof -
  have "dma_inv dma_two"
    using dma_inv_slot [OF dma_inv_opened(1) [of 1], of 0 "zero_slot\<lparr>slot_open := 1\<rparr>"]
    by (simp add: dma_two_def slot_wf_def zero_slot_def)
  moreover have "g_slots dma_two ! 0 = zero_slot\<lparr>slot_open := 1\<rparr>"
    "g_slots dma_two ! 1 = zero_slot\<lparr>slot_open := 1,
     slot_flags := 1, slot_job_notif := 5, slot_done_notif := 6, slot_len := 4\<rparr>"
    "others dma_two = (\<lambda>_ _. (0, \<lambda>_. 0))" "answer dma_two = (\<lambda>_ _. 0)"
    by (simp_all add: dma_two_def dma_opened_def dma_idle_def dma_boot_def DMA_MAX_SLOTS_def)
  moreover from this have "\<not> slot_closed dma_two 0" "\<not> slot_closed dma_two 1"
    by (simp_all add: slot_closed_def DMA_MAX_SLOTS_def)
  ultimately show ?thesis
    using dma_wait_leaks_load [of dma_two 7 sample_abi 0 1 3 "[0xAA, 0xBB, 0xCC]" _ "\<lambda>_. 0" "[0, 0, 0]" 50]
    by (simp add: sample_abi_def DMA_FLAG_DIR_M2P_def)
qed

end
