(* ===== verification/Port_Cache.thy ===== *)
theory Port_Cache
  imports Ulmk_Base
begin

text \<open>
  What the pinmux servers of the Linum and TC275 boards have in common: the vocabulary of their
  public header and the design of the table of mapped GPIO ports, fixed slots, a scan for a port already mapped, a scan for a free slot.  The
  lemmas read the table as a map from ports to addresses; the locale \<open>resource_cache\<close> states
  what a user of such a cache may rely on.
\<close>

section \<open>The pad vocabulary\<close>

text \<open>The two boards have the same \<^verbatim>\<open>pinmux.h\<close>: constants, message label, configuration record.\<close>

definition PINMUX_DIR_IN :: u8 where [const_defs]: "PINMUX_DIR_IN = 0"
definition PINMUX_DIR_OUT :: u8 where [const_defs]: "PINMUX_DIR_OUT = 1"
definition PINMUX_PULL_NONE :: u8 where [const_defs]: "PINMUX_PULL_NONE = 0"
definition PINMUX_PULL_UP :: u8 where [const_defs]: "PINMUX_PULL_UP = 1"
definition PINMUX_PULL_DOWN :: u8 where [const_defs]: "PINMUX_PULL_DOWN = 2"
definition PINMUX_ALT_GPIO :: u8 where [const_defs]: "PINMUX_ALT_GPIO = 0"
definition PINMUX_F_OPENDRAIN :: u8 where [const_defs]: "PINMUX_F_OPENDRAIN = push_bit 0 1"
definition PINMUX_MSG_CONFIG :: u32 where [const_defs]: "PINMUX_MSG_CONFIG = 1"

record pinmux_cfg =
  cfg_port :: u8
  cfg_pin :: u8
  cfg_dir :: u8
  cfg_pull :: u8
  cfg_alt :: u8
  cfg_flags :: u8

section \<open>The table\<close>

record port_slot =
  ps_port :: u8
  ps_gpio :: u32
  ps_used :: bool

definition cache_find :: "port_slot list \<Rightarrow> u8 \<Rightarrow> nat option" where
  "cache_find ports port = find_index (\<lambda>p. ps_used p \<and> ps_port p = port) ports"

definition cache_add :: "port_slot list \<Rightarrow> u8 \<Rightarrow> u32 \<Rightarrow> port_slot list" where
  "cache_add ports port a =
     (case find_index (\<lambda>p. \<not> ps_used p) ports of
        Some i \<Rightarrow> ports[i := \<lparr>ps_port = port, ps_gpio = a, ps_used = True\<rparr>]
      | None \<Rightarrow> ports)"

definition cache_map :: "port_slot list \<Rightarrow> u8 \<Rightarrow> u32 option" where
  "cache_map ports port = map_option (\<lambda>i. ps_gpio (ports ! i)) (cache_find ports port)"

definition cache_wf :: "u8 set \<Rightarrow> port_slot list \<Rightarrow> bool" where
  "cache_wf V ports \<longleftrightarrow>
     (\<forall>i < length ports. ps_used (ports ! i) \<longrightarrow> ps_port (ports ! i) \<in> V \<and> ps_gpio (ports ! i) \<noteq> 0) \<and>
     inj_on (\<lambda>i. ps_port (ports ! i)) {i. i < length ports \<and> ps_used (ports ! i)}"

definition free_port :: port_slot where
  "free_port = \<lparr>ps_port = 0, ps_gpio = 0, ps_used = False\<rparr>"

lemma cache_wf_free: "cache_wf V (replicate n free_port)" "cache_map (replicate n free_port) = Map.empty"
  by (auto simp: cache_wf_def free_port_def cache_map_def cache_find_def find_index_None
      inj_on_def)

lemma cache_map_None: "cache_map ports port = None \<longleftrightarrow>
    (\<forall>i < length ports. ps_used (ports ! i) \<longrightarrow> ps_port (ports ! i) \<noteq> port)"
  by (auto simp: cache_map_def cache_find_def find_index_None all_set_conv_all_nth)

lemma cache_map_Some:
  assumes "cache_wf V ports"
  shows "cache_map ports port = Some a \<longleftrightarrow>
    (\<exists>i < length ports. ps_used (ports ! i) \<and> ps_port (ports ! i) = port \<and> ps_gpio (ports ! i) = a)"
proof
  assume "\<exists>i < length ports. ps_used (ports ! i) \<and> ps_port (ports ! i) = port \<and> ps_gpio (ports ! i) = a"
  then obtain i where i: "i < length ports" "ps_used (ports ! i)" "ps_port (ports ! i) = port"
    "ps_gpio (ports ! i) = a"
    by blast
  then have "\<not> (ps_used (ports ! j) \<and> ps_port (ports ! j) = port)" if "j < i" for j
    using assms that i inj_onD [of "\<lambda>i. ps_port (ports ! i)" "{i. i < length ports \<and> ps_used (ports ! i)}" j i] by (auto simp: cache_wf_def)
  with i show "cache_map ports port = Some a"
    by (auto simp: cache_map_def cache_find_def find_index_Some intro: exI [of _ i])
qed (auto simp: cache_map_def cache_find_def find_index_Some)

lemma cache_map_valid:
  assumes "cache_wf V ports" "cache_map ports port = Some a"
  shows "port \<in> V \<and> a \<noteq> 0"
  using assms(2) assms(1) unfolding cache_map_Some [OF assms(1)] by (auto simp: cache_wf_def)

text \<open>With at least as many slots as ports, a port that is not in the table finds a free slot.\<close>

lemma cache_free_slot:
  assumes "cache_wf V ports" "finite V" "card V \<le> length ports" "port \<in> V" "cache_map ports port = None"
  shows "\<exists>i. find_index (\<lambda>p. \<not> ps_used p) ports = Some i"
proof (rule ccontr)
  assume "\<not> ?thesis"
  then have used: "\<And>i. i < length ports \<Longrightarrow> ps_used (ports ! i)"
    by (auto simp: find_index_None)
  let ?P = "(\<lambda>i. ps_port (ports ! i)) ` {i. i < length ports \<and> ps_used (ports ! i)}"
  have "{i. i < length ports \<and> ps_used (ports ! i)} = {..<length ports}"
    using used by auto
  then have "card ?P = length ports"
    using assms(1) by (simp add: cache_wf_def card_image)
  moreover have "?P \<subseteq> V - {port}"
    using assms(1,5) by (auto simp: cache_wf_def cache_map_None)
  then have "card ?P \<le> card (V - {port})"
    using assms(2) by (simp add: card_mono)
  moreover have "card (V - {port}) < card V"
    using assms(2,4) by (rule card_Diff1_less)
  ultimately show False
    using assms(3) by simp
qed

lemma cache_add_wf:
  assumes "cache_wf V ports" "port \<in> V" "a \<noteq> 0" "cache_map ports port = None"
  shows "cache_wf V (cache_add ports port a)"
proof (cases "find_index (\<lambda>p. \<not> ps_used p) ports")
  case None
  then show ?thesis using assms(1) by (simp add: cache_add_def)
next
  case (Some i)
  let ?ps = "ports[i := \<lparr>ps_port = port, ps_gpio = a, ps_used = True\<rparr>]"
  have i: "i < length ports"
    using Some by (simp add: find_index_Some)
  have "inj_on (\<lambda>i. ps_port (?ps ! i)) {i. i < length ?ps \<and> ps_used (?ps ! i)}"
  proof (rule inj_onI)
    fix x y
    assume "x \<in> {i. i < length ?ps \<and> ps_used (?ps ! i)}" "y \<in> {i. i < length ?ps \<and> ps_used (?ps ! i)}"
      "ps_port (?ps ! x) = ps_port (?ps ! y)"
    with assms(1,4) i show "x = y"
      by (cases "x = i"; cases "y = i") (auto simp: cache_wf_def cache_map_None inj_on_def)
  qed
  moreover have "\<forall>j < length ?ps. ps_used (?ps ! j) \<longrightarrow> ps_port (?ps ! j) \<in> V \<and> ps_gpio (?ps ! j) \<noteq> 0"
    using assms i by (auto simp: cache_wf_def nth_list_update)
  ultimately have "cache_wf V ?ps"
    by (simp add: cache_wf_def)
  with Some show ?thesis by (simp add: cache_add_def)
qed

lemma cache_add_map:
  assumes wf: "cache_wf V ports" and "finite V" "card V \<le> length ports" "port \<in> V" "a \<noteq> 0"
    and none: "cache_map ports port = None"
  shows "cache_map (cache_add ports port a) = (cache_map ports)(port := Some a)"
proof
  fix q
  obtain i where i: "find_index (\<lambda>p. \<not> ps_used p) ports = Some i"
    using cache_free_slot [OF wf assms(2-4) none] by blast
  let ?ps = "ports[i := \<lparr>ps_port = port, ps_gpio = a, ps_used = True\<rparr>]"
  have free: "i < length ports" "\<not> ps_used (ports ! i)"
    using i by (simp_all add: find_index_Some)
  have add: "cache_add ports port a = ?ps"
    using i by (simp add: cache_add_def)
  have wf': "cache_wf V ?ps"
    using cache_add_wf [OF wf assms(4,5) none] add by simp
  have "cache_map ?ps q = Some b \<longleftrightarrow> ((cache_map ports)(port := Some a)) q = Some b" for b
    using free none unfolding cache_map_Some [OF wf'] fun_upd_apply
    by (cases "q = port")
       (auto simp: cache_map_None nth_list_update cache_map_Some [OF wf])
  then show "cache_map (cache_add ports port a) q = ((cache_map ports)(port := Some a)) q"
    unfolding add by (metis not_Some_eq)
qed

lemma length_cache_add [simp]: "length (cache_add ports port a) = length ports"
  by (simp add: cache_add_def split: option.splits)

section \<open>The interface of a cache\<close>

text \<open>
  \<open>fetch k\<close> returns the resource of \<open>k\<close>, 0 if there is none.  A resource obtained once is
  obtained again, whatever was fetched meanwhile, and costs no interaction.
\<close>

locale resource_cache =
  fixes fetch :: "'k \<Rightarrow> (('d, 'z) io_scheme, u32) state"
    and valid :: "'k \<Rightarrow> bool"
    and inv :: "('d, 'z) io_scheme \<Rightarrow> bool"
    and view :: "('d, 'z) io_scheme \<Rightarrow> 'k \<Rightarrow> u32 option"
  assumes fetch_inv: "inv s \<Longrightarrow> inv (snd (run_state (fetch k) s))"
    and fetch_invalid: "inv s \<Longrightarrow> \<not> valid k \<Longrightarrow> run_state (fetch k) s = (0, s)"
    and fetch_hit: "inv s \<Longrightarrow> view s k = Some a \<Longrightarrow> run_state (fetch k) s = (a, s)"
    and fetch_miss: "inv s \<Longrightarrow> valid k \<Longrightarrow> view s k = None \<Longrightarrow> run_state (fetch k) s = (a, s') \<Longrightarrow>
      view s' = (if a = 0 then view s else (view s)(k := Some a))"
begin

lemma fetch_keeps:
  assumes "inv s" "view s k = Some a"
  shows "view (snd (run_state (fetch k') s)) k = Some a"
proof (cases "view s k'")
  case None
  obtain b s' where run: "run_state (fetch k') s = (b, s')"
    by (cases "run_state (fetch k') s")
  show ?thesis
  proof (cases "valid k'")
    case True
    with fetch_miss [OF assms(1) True None run] run assms(2) None show ?thesis
      by auto
  qed (use fetch_invalid [OF assms(1)] assms(2) in auto)
qed (use fetch_hit [OF assms(1)] assms(2) in auto)

lemma fetch_records:
  assumes "inv s" "run_state (fetch k) s = (a, s1)" "a \<noteq> 0"
  shows "inv s1 \<and> view s1 k = Some a"
proof -
  have "inv s1"
    using fetch_inv [OF assms(1), of k] assms(2) by simp
  moreover have "view s1 k = Some a"
  proof (cases "view s k")
    case (Some b)
    then show ?thesis using fetch_hit [OF assms(1) Some] assms(2) by simp
  next
    case None
    have "valid k"
      using fetch_invalid [OF assms(1), of k] assms(2,3) by auto
    with fetch_miss [OF assms(1) _ None assms(2)] assms(3) show ?thesis by simp
  qed
  ultimately show ?thesis by simp
qed

lemma keeps_fetch: "keeps (\<lambda>s. inv s \<and> view s k = Some a) (fetch k')"
  by (rule keepsI) (simp add: fetch_inv fetch_keeps)

text \<open>A bring-up that fetches a list of resources and stops at the first failure.\<close>

lemma fetch_all:
  "triple inv (try_each ks (\<lambda>k. do { a \<leftarrow> fetch k; ret (a \<noteq> 0) }))
     (\<lambda>ok s. inv s \<and> (ok \<longrightarrow> (\<forall>k \<in> set ks. view s k \<noteq> None)))"
proof (induction ks)
  case (Cons k ks)
  show ?case
  proof (rule tripleI)
    fix s ok s'
    assume "inv s" and run: "run_state (try_each (k # ks) (\<lambda>k. do { a \<leftarrow> fetch k; ret (a \<noteq> 0) })) s = (ok, s')"
    obtain a s1 where a: "run_state (fetch k) s = (a, s1)"
      by (cases "run_state (fetch k) s")
    have inv: "inv s1"
      using fetch_inv [OF \<open>inv s\<close>, of k] a by simp
    show "inv s' \<and> (ok \<longrightarrow> (\<forall>k \<in> set (k # ks). view s' k \<noteq> None))"
    proof (cases "a = 0")
      case False
      with a run have rest: "run_state (try_each ks (\<lambda>k. do { a \<leftarrow> fetch k; ret (a \<noteq> 0) })) s1 = (ok, s')"
        by simp
      have "view s1 k = Some a"
        using fetch_records [OF \<open>inv s\<close> a False] by simp
      moreover have "keeps (\<lambda>s. inv s \<and> view s k = Some a)
          (try_each ks (\<lambda>k. do { a \<leftarrow> fetch k; ret (a \<noteq> 0) }))"
        by (intro keeps_intros keeps_fetch)
      ultimately have "view s' k = Some a"
        using inv keeps_run rest by fast
      with tripleD [OF Cons.IH inv rest] show ?thesis by auto
    qed (use a run inv in auto)
  qed
qed (auto intro: triple_ret)

lemma fetch_stable:
  assumes "inv s" "run_state (fetch k) s = (a, s1)" "a \<noteq> 0"
    "s2 = snd (run_state (for_each ks (\<lambda>k. do { _ \<leftarrow> fetch k; ret () })) s1)"
  shows "run_state (fetch k) s2 = (a, s2)"
proof -
  have "keeps (\<lambda>s. inv s \<and> view s k = Some a) (for_each ks (\<lambda>k. do { _ \<leftarrow> fetch k; ret () }))"
    by (intro keeps_intros keeps_fetch)
  then have "inv s2 \<and> view s2 k = Some a"
    unfolding assms(4) by (rule keepsD) (rule fetch_records [OF assms(1-3)])
  then show ?thesis
    using fetch_hit by blast
qed

end

end
