(* ===== verification/Pinmux_Linum.thy ===== *)
theory Pinmux_Linum
  imports Dma_Client_Linum Port_Cache
begin

text \<open>
  The pad multiplexer of the Linum board: \<^verbatim>\<open>witte_linum/drivers/pinmux/src/server.c\<close> and
  \<^verbatim>\<open>client.c\<close>.  The server owns the GPIO port mappings: \<open>map_port_once\<close> caches the address of
  each mapped port in a table of 11 slots, \<open>pinmux_apply\<close> programs one pad, and
  \<open>pinmux_config\<close> is the call of a client over IPC.
\<close>

section \<open>State\<close>

definition PINMUX_PORT_SLOTS :: nat where "PINMUX_PORT_SLOTS = 11"
datatype gpio_mode = LL_GPIO_MODE_INPUT | LL_GPIO_MODE_OUTPUT | LL_GPIO_MODE_ALTERNATE
datatype gpio_pull = LL_GPIO_PULL_NO | LL_GPIO_PULL_UP | LL_GPIO_PULL_DOWN
datatype gpio_otype = LL_GPIO_OUTPUT_PUSHPULL | LL_GPIO_OUTPUT_OPENDRAIN

text \<open>The vendor setters; each receives the mapped port and a pin mask.\<close>

datatype pin_act =
    LL_GPIO_SetPinMode u32 u32 gpio_mode
  | LL_GPIO_SetPinSpeed_high u32 u32
  | LL_GPIO_SetPinPull u32 u32 gpio_pull
  | LL_GPIO_SetPinOutputType u32 u32 gpio_otype
  | LL_GPIO_SetAFPin_0_7 u32 u32 u8
  | LL_GPIO_SetAFPin_8_15 u32 u32 u8

record pinmux_st = "pin_act io" +
  g_pinmux_ep :: u32
  g_ports :: "port_slot list"

definition g_board_ports :: "u8 list" where
  "g_board_ports = [0, 1, 4, 6, 7, 8, 9, 10]"

section \<open>The server\<close>

definition gpio_phys :: "u8 \<Rightarrow> u32" where
  "gpio_phys port = 0x58020000 + ucast port * 0x400"

definition pin_mask :: "u8 \<Rightarrow> u32" where
  "pin_mask pin = push_bit (unat (pin AND 15)) 1"

text \<open>The result is the mapped address, 0 for \<open>NULL\<close>.\<close>

definition map_port_once :: "u8 \<Rightarrow> (pinmux_st, u32) state" where
  "map_port_once port =
     (if port > 10 then ret 0
      else do {
        ports \<leftarrow> gets g_ports;
        case cache_find ports port of
          Some i \<Rightarrow> ret (ps_gpio (ports ! i))
        | None \<Rightarrow> do {
            mapped \<leftarrow> kern (Mem_map (gpio_phys port) 0x400);
            if mapped = 0 then ret 0
            else do {
              modify (\<lambda>st. st\<lparr>g_ports := cache_add (g_ports st) port mapped\<rparr>);
              ret mapped
            }
          }
      })"

definition pinmux_gpio :: "u8 \<Rightarrow> (pinmux_st, u32) state" where
  "pinmux_gpio port = map_port_once port"

definition pinmux_apply :: "ulmk_abi \<Rightarrow> pinmux_cfg \<Rightarrow> (pinmux_st, cint) state" where
  "pinmux_apply K cfg =
     (if cfg_pin cfg > 15 then ret (ULMK_EINVAL K)
      else do {
        gpio \<leftarrow> map_port_once (cfg_port cfg);
        if gpio = 0 then ret (ULMK_EINVAL K)
        else do {
          let pin = pin_mask (cfg_pin cfg);
          let pull = (if cfg_pull cfg = PINMUX_PULL_UP then LL_GPIO_PULL_UP
                      else if cfg_pull cfg = PINMUX_PULL_DOWN then LL_GPIO_PULL_DOWN
                      else LL_GPIO_PULL_NO);
          let ot = (if cfg_flags cfg AND PINMUX_F_OPENDRAIN \<noteq> 0
                    then LL_GPIO_OUTPUT_OPENDRAIN else LL_GPIO_OUTPUT_PUSHPULL);
          if cfg_alt cfg \<noteq> PINMUX_ALT_GPIO then do {
            dev_do (LL_GPIO_SetPinMode gpio pin LL_GPIO_MODE_ALTERNATE);
            dev_do (LL_GPIO_SetPinSpeed_high gpio pin);
            dev_do (LL_GPIO_SetPinPull gpio pin pull);
            dev_do (LL_GPIO_SetPinOutputType gpio pin ot);
            (if cfg_pin cfg < 8 then dev_do (LL_GPIO_SetAFPin_0_7 gpio pin (cfg_alt cfg))
             else dev_do (LL_GPIO_SetAFPin_8_15 gpio pin (cfg_alt cfg)));
            ret (ULMK_OK K)
          } else if cfg_dir cfg = PINMUX_DIR_IN then do {
            dev_do (LL_GPIO_SetPinMode gpio pin LL_GPIO_MODE_INPUT);
            dev_do (LL_GPIO_SetPinPull gpio pin pull);
            ret (ULMK_OK K)
          } else do {
            dev_do (LL_GPIO_SetPinMode gpio pin LL_GPIO_MODE_OUTPUT);
            dev_do (LL_GPIO_SetPinOutputType gpio pin ot);
            dev_do (LL_GPIO_SetPinSpeed_high gpio pin);
            dev_do (LL_GPIO_SetPinPull gpio pin pull);
            ret (ULMK_OK K)
          }
        }
      })"

definition decode_cfg :: "(nat \<Rightarrow> u32) \<Rightarrow> pinmux_cfg" where
  "decode_cfg w = \<lparr>cfg_port = ucast (drop_bit 24 (w 0)), cfg_pin = ucast (drop_bit 16 (w 0)),
     cfg_dir = ucast (drop_bit 8 (w 0)), cfg_pull = ucast (w 0),
     cfg_alt = ucast (drop_bit 8 (w 1)), cfg_flags = ucast (w 1)\<rparr>"

definition pinmux_dispatch :: "ulmk_abi \<Rightarrow> msg \<Rightarrow> (pinmux_st, msg) state" where
  "pinmux_dispatch K m =
     (if label m = PINMUX_MSG_CONFIG then do {
        rc \<leftarrow> pinmux_apply K (decode_cfg (words m));
        ret \<lparr>label = 0, words = (\<lambda>_. 0)(0 := rc)\<rparr>
      } else ret \<lparr>label = 0, words = (\<lambda>_. 0)(0 := ULMK_EINVAL K)\<rparr>)"

definition pinmux_init :: "ulmk_abi \<Rightarrow> u8 \<Rightarrow> (pinmux_st, u32) state" where
  "pinmux_init K n = do {
     cur \<leftarrow> gets g_pinmux_ep;
     if n \<ge> 1 then ret (ULMK_TID_INVALID K)
     else if cur \<noteq> ULMK_EP_INVALID K then ret (ULMK_TID_INVALID K)
     else do {
       ep \<leftarrow> kern Ep_create;
       if ep = ULMK_EP_INVALID K then ret (ULMK_TID_INVALID K)
       else do {
         tid \<leftarrow> kern (Thread_create ''pinmux'' 1 1024);
         if tid = ULMK_TID_INVALID K then do {
           kern_do (Ep_destroy ep);
           ret (ULMK_TID_INVALID K)
         } else do {
           kern_do (Cap_grant tid ''MAP_PERIPH'');
           modify (\<lambda>st. st\<lparr>g_pinmux_ep := ep\<rparr>);
           for_each g_board_ports (\<lambda>p. do { _ \<leftarrow> map_port_once p; ret () });
           ret tid
         }
       }
     }
   }"

section \<open>The client\<close>

definition pinmux_call :: "ulmk_abi \<Rightarrow> u32 \<Rightarrow> 's ep_call \<Rightarrow> u8 \<Rightarrow> msg \<Rightarrow> ('s, cint \<times> msg) state" where
  "pinmux_call K ep call n m =
     (if n \<ge> 1 \<or> ep = ULMK_EP_INVALID K then ret (ULMK_ESRCH K, m) else call m)"

definition encode_cfg :: "pinmux_cfg \<Rightarrow> nat \<Rightarrow> u32" where
  "encode_cfg cfg = (\<lambda>_. 0)
     (0 := push_bit 24 (ucast (cfg_port cfg)) OR push_bit 16 (ucast (cfg_pin cfg)) OR
           push_bit 8 (ucast (cfg_dir cfg)) OR ucast (cfg_pull cfg),
      1 := push_bit 8 (ucast (cfg_alt cfg)) OR ucast (cfg_flags cfg), 2 := 0, 3 := 0)"

definition pinmux_config :: "ulmk_abi \<Rightarrow> u32 \<Rightarrow> 's ep_call \<Rightarrow> u8 \<Rightarrow> pinmux_cfg option \<Rightarrow> ('s, cint) state" where
  "pinmux_config K ep call n cfg =
     (case cfg of None \<Rightarrow> ret (ULMK_EINVAL K)
      | Some cfg \<Rightarrow> do {
          (rc, m) \<leftarrow> pinmux_call K ep call n \<lparr>label = PINMUX_MSG_CONFIG, words = encode_cfg cfg\<rparr>;
          if rc \<noteq> ULMK_OK K then ret rc else ret (words m 0)
        })"

section \<open>The port cache\<close>

definition pinmux_inv :: "pinmux_st \<Rightarrow> bool" where
  "pinmux_inv st \<longleftrightarrow> length (g_ports st) = PINMUX_PORT_SLOTS \<and> cache_wf {..10} (g_ports st)"

abbreviation port_map :: "pinmux_st \<Rightarrow> u8 \<Rightarrow> u32 option" where
  "port_map st \<equiv> cache_map (g_ports st)"

lemma card_ports: "finite {..10 :: u8}" "card {..10 :: u8} = 11"
proof -
  have "unat ` {..10 :: u8} = {..10}"
  proof
    show "{..10} \<subseteq> unat ` {..10 :: u8}"
    proof
      fix x :: nat
      assume "x \<in> {..10}"
      then have "unat (of_nat x :: u8) = x" "(of_nat x :: u8) \<le> 10"
        by (simp_all add: unat_of_nat word_le_nat_alt)
      then show "x \<in> unat ` {..10 :: u8}"
        by (metis atMost_iff imageI)
    qed
  qed (auto simp: word_le_nat_alt)
  moreover have "card (unat ` {..10 :: u8}) = card {..10 :: u8}"
    by (intro card_image inj_onI) (simp add: word_unat_eq_iff)
  ultimately show "card {..10 :: u8} = 11"
    by simp
qed simp

interpretation port_cache: resource_cache map_port_once "\<lambda>p. p \<le> 10" pinmux_inv port_map
proof unfold_locales
  fix s :: pinmux_st and k
  assume inv: "pinmux_inv s"
  show "pinmux_inv (snd (run_state (map_port_once k) s))"
    using inv cache_add_wf [of "{..10}" "g_ports s" k]
    by (auto simp: map_port_once_def pinmux_inv_def cache_map_def split: option.splits)
  show "\<not> k \<le> 10 \<Longrightarrow> run_state (map_port_once k) s = (0, s)"
    by (simp add: map_port_once_def not_le)
  show "run_state (map_port_once k) s = (a, s)" if "port_map s k = Some a" for a
    using that inv cache_map_valid [of "{..10}" "g_ports s" k a]
    by (auto simp: map_port_once_def pinmux_inv_def cache_map_def split: option.splits)
  show "port_map s' = (if a = 0 then port_map s else (port_map s)(k := Some a))"
    if "k \<le> 10" "port_map s k = None" "run_state (map_port_once k) s = (a, s')" for a s'
    using that inv cache_add_map [of "{..10}" "g_ports s" k]
    by (auto simp: map_port_once_def pinmux_inv_def cache_map_def [of _ k] card_ports
        PINMUX_PORT_SLOTS_def split: option.splits if_splits)
qed

section \<open>Properties\<close>

lemma decode_encode: "decode_cfg (encode_cfg cfg) = cfg"
  unfolding decode_cfg_def encode_cfg_def
  by (cases cfg) (auto intro!: bit_eqI simp: bit_simps)

text \<open>A client's \<open>pinmux_config\<close> on a running server is the server's \<open>pinmux_apply\<close> of the very
  record the client passed: all six fields survive the packing into two message words, and the
  client gets the status of the pad programming.\<close>

theorem pinmux_config_is_apply:
  assumes "ep \<noteq> ULMK_EP_INVALID K"
  shows "run_state (pinmux_config K ep (ipc K (pinmux_dispatch K)) 0 (Some cfg)) st =
    run_state (pinmux_apply K cfg) st"
  using assms
  by (simp add: pinmux_config_def pinmux_call_def ipc_def pinmux_dispatch_def decode_encode
      const_defs split: prod.splits)

definition pinmux_boot :: "(pin_act event list \<Rightarrow> pin_act event \<Rightarrow> u32) \<Rightarrow> pinmux_st" where
  "pinmux_boot ans = \<lparr>trace = [], answer = ans, fault = False, g_pinmux_ep = 0,
     g_ports = replicate PINMUX_PORT_SLOTS free_port\<rparr>"

lemma pinmux_inv_boot: "pinmux_inv (pinmux_boot ans)"
  by (simp add: pinmux_inv_def pinmux_boot_def cache_wf_free)

theorem pinmux_config_is_apply_witness:
  "run_state (pinmux_config sample_abi 7 (ipc sample_abi (pinmux_dispatch sample_abi)) 0
     (Some \<lparr>cfg_port = 7, cfg_pin = 8, cfg_dir = 1, cfg_pull = 1, cfg_alt = 4, cfg_flags = 1\<rparr>))
     (pinmux_boot (\<lambda>_ _. 0x5802))
   = run_state (pinmux_apply sample_abi
     \<lparr>cfg_port = 7, cfg_pin = 8, cfg_dir = 1, cfg_pull = 1, cfg_alt = 4, cfg_flags = 1\<rparr>)
     (pinmux_boot (\<lambda>_ _. 0x5802))"
  by (rule pinmux_config_is_apply) (simp add: sample_abi_def)

lemma keeps_pinmux_dispatch:
  "keeps (\<lambda>st. pinmux_inv st \<and> port_map st p = Some a) (pinmux_dispatch K m)"
proof -
  have io: "keeps (\<lambda>st :: pinmux_st. pinmux_inv st \<and> port_map st p = Some a) (dev_do d)" for d
    by (auto intro!: keepsI simp: pinmux_inv_def)
  show ?thesis
    unfolding pinmux_dispatch_def pinmux_apply_def Let_def
    by (intro keeps_intros port_cache.keeps_fetch io)
qed

text \<open>Once \<open>map_port_once\<close> has mapped a port, \<open>pinmux_gpio\<close> returns the same address without any
  further interaction, whatever requests the server handles in between: the table of
  eleven slots never runs out, so no port is mapped twice.\<close>

theorem pinmux_mapping_permanent:
  assumes "pinmux_inv st" "run_state (map_port_once p) st = (a, s1)" "a \<noteq> 0"
    "s2 = snd (run_state (serve (pinmux_dispatch K) ms) s1)"
  shows "run_state (pinmux_gpio p) s2 = (a, s2)"
proof -
  have "pinmux_inv s2 \<and> port_map s2 p = Some a"
    unfolding assms(4) using keeps_serve [OF keeps_pinmux_dispatch]
    by (rule keepsD) (rule port_cache.fetch_records [OF assms(1-3)])
  then show ?thesis
    unfolding pinmux_gpio_def using port_cache.fetch_hit by blast
qed

theorem pinmux_mapping_permanent_witness:
  "\<exists>s2. run_state (pinmux_gpio 7) s2 = (0x5802, s2) \<and> port_map s2 7 = Some 0x5802"
proof -
  let ?s1 = "snd (run_state (map_port_once 7) (pinmux_boot (\<lambda>_ _. 0x5802)))"
  have run: "run_state (map_port_once 7) (pinmux_boot (\<lambda>_ _. 0x5802)) = (0x5802, ?s1)"
    using cache_wf_free(2) [of PINMUX_PORT_SLOTS]
    by (simp add: map_port_once_def pinmux_boot_def cache_map_def fun_eq_iff)
  have "run_state (pinmux_gpio 7) ?s1 = (0x5802, ?s1)"
    using pinmux_mapping_permanent [OF pinmux_inv_boot run, of ?s1 sample_abi "[]"] by simp
  moreover have "port_map ?s1 7 = Some 0x5802"
    using port_cache.fetch_records [OF pinmux_inv_boot run] by simp
  ultimately show ?thesis by blast
qed

end
