(* ===== verification/I2c_Linum.thy ===== *)
theory I2c_Linum
  imports Dma_Linum_Props Pinmux_Linum
begin

text \<open>
  The I2C3 master of the Linum board: \<^verbatim>\<open>witte_linum/drivers/i2c/src/server.c\<close>.  The server moves
  data through the DMA driver and programs its pads through the pinmux driver; both are part of
  its state here (\<open>i2c_dma\<close>, \<open>i2c_pinmux_st\<close>), and the calls \<open>dma_arm\<close>, \<open>dma_wait\<close>,
  \<open>dma_channel_open\<close>, \<open>dma_init\<close> and \<open>pinmux_apply\<close> run the models of those drivers.  The trace of
  the I2C server has a \<open>Call_\<close> entry at each such call, which orders them with its own register
  accesses.

  The wait for STOP or NACK may last forever; it has fuel, and \<open>None\<close> stands for "still
  waiting".
\<close>

section \<open>State\<close>

definition I2C_XFER_MAX :: nat where "I2C_XFER_MAX = 16"
definition I2C_DMA_WAIT_MS :: u32 where "I2C_DMA_WAIT_MS = 500"
definition I2C_TIMING_400K :: u32 where "I2C_TIMING_400K = 0x10C0ECFF"
definition I2C3_BASE :: u32 where "I2C3_BASE = 0x40005C00"
definition I2C_TXDR_PHYS :: u32 where "I2C_TXDR_PHYS = I2C3_BASE + 0x28"
definition I2C_RXDR_PHYS :: u32 where "I2C_RXDR_PHYS = I2C3_BASE + 0x24"
definition DMA_SLOT_I2C_TX :: u8 where [const_defs]: "DMA_SLOT_I2C_TX = 1"
definition DMA_SLOT_I2C_RX :: u8 where [const_defs]: "DMA_SLOT_I2C_RX = 2"
definition IRQ_I2C3_EV :: u32 where "IRQ_I2C3_EV = 3"

definition I2C_MSG_WRITE :: u32 where [const_defs]: "I2C_MSG_WRITE = 1"
definition I2C_MSG_READ :: u32 where [const_defs]: "I2C_MSG_READ = 2"
definition I2C_MSG_WRITEREAD :: u32 where [const_defs]: "I2C_MSG_WRITEREAD = 3"
definition I2C_MSG_PROBE :: u32 where [const_defs]: "I2C_MSG_PROBE = 4"

text \<open>Register bits of the STM32H7 I2C peripheral (vendor header).\<close>

definition I2C_CR1_PE :: u32 where "I2C_CR1_PE = push_bit 0 1"
definition I2C_CR1_NACKIE :: u32 where "I2C_CR1_NACKIE = push_bit 4 1"
definition I2C_CR1_STOPIE :: u32 where "I2C_CR1_STOPIE = push_bit 5 1"
definition I2C_CR1_TCIE :: u32 where "I2C_CR1_TCIE = push_bit 6 1"
definition I2C_CR1_ERRIE :: u32 where "I2C_CR1_ERRIE = push_bit 7 1"
definition I2C_CR1_TXDMAEN :: u32 where "I2C_CR1_TXDMAEN = push_bit 14 1"
definition I2C_CR1_RXDMAEN :: u32 where "I2C_CR1_RXDMAEN = push_bit 15 1"
definition I2C_CR2_RD_WRN :: u32 where "I2C_CR2_RD_WRN = push_bit 10 1"
definition I2C_CR2_START :: u32 where "I2C_CR2_START = push_bit 13 1"
definition I2C_CR2_STOP :: u32 where "I2C_CR2_STOP = push_bit 14 1"
definition I2C_CR2_NBYTES :: u32 where "I2C_CR2_NBYTES = 0x00FF0000"
definition I2C_CR2_AUTOEND :: u32 where "I2C_CR2_AUTOEND = push_bit 25 1"
definition I2C_ISR_NACKF :: u32 where "I2C_ISR_NACKF = push_bit 4 1"
definition I2C_ISR_STOPF :: u32 where "I2C_ISR_STOPF = push_bit 5 1"
definition I2C_ISR_BUSY :: u32 where "I2C_ISR_BUSY = push_bit 15 1"
definition I2C_ICR_NACKCF :: u32 where "I2C_ICR_NACKCF = push_bit 4 1"
definition I2C_ICR_STOPCF :: u32 where "I2C_ICR_STOPCF = push_bit 5 1"

datatype i2c_reg = I2C_CR1 | I2C_CR2 | I2C_TIMINGR | I2C_ISR | I2C_ICR

datatype i2c_act =
    I2c_rd i2c_reg
  | I2c_wr i2c_reg u32
  | Call_dma_arm u8 u32 "u8 list option" nat
  | Call_dma_wait u8 nat u32
  | Call_dma_open u8 u8 u32
  | Call_dma_init
  | Call_pinmux_apply pinmux_cfg

record i2c_st = "i2c_act io" +
  g_i2c_ep :: u32
  g_i2c_notif :: u32
  g_tx_buf :: "u8 list"
  g_rx_buf :: "u8 list"
  g_bitrate :: u32
  srv_wbuf :: "u8 list"
  srv_rbuf :: "u8 list"
  i2c_dma :: dma_st
  i2c_pinmux_st :: pinmux_st

lemma i2c_dma_io [simp]:
  "i2c_dma (st\<lparr>trace := t\<rparr>) = i2c_dma st" "i2c_dma (st\<lparr>fault := b\<rparr>) = i2c_dma st"
  "i2c_pinmux_st (st\<lparr>trace := t\<rparr>) = i2c_pinmux_st st"
  "i2c_pinmux_st (st\<lparr>fault := b\<rparr>) = i2c_pinmux_st st"
  "trace (st\<lparr>i2c_dma := d\<rparr>) = trace st" "trace (st\<lparr>i2c_pinmux_st := p\<rparr>) = trace st"
  "answer (st\<lparr>i2c_dma := d\<rparr>) = answer st" "answer (st\<lparr>i2c_pinmux_st := p\<rparr>) = answer st"
  by (cases st; simp)+

section \<open>Calls of the other drivers\<close>

definition on_dma :: "(dma_st, 'a) state \<Rightarrow> (i2c_st, 'a) state" where
  "on_dma m = zoom i2c_dma (\<lambda>d st. st\<lparr>i2c_dma := d\<rparr>) m"

definition on_pinmux :: "(pinmux_st, 'a) state \<Rightarrow> (i2c_st, 'a) state" where
  "on_pinmux m = zoom i2c_pinmux_st (\<lambda>p st. st\<lparr>i2c_pinmux_st := p\<rparr>) m"

definition call_dma_arm :: "ulmk_abi \<Rightarrow> u8 \<Rightarrow> u32 \<Rightarrow> u8 list option \<Rightarrow> nat \<Rightarrow> (i2c_st, cint) state" where
  "call_dma_arm K slot periph buf len = do {
     dev_do (Call_dma_arm slot periph buf len);
     ep \<leftarrow> gets (\<lambda>st. g_dma_ep (i2c_dma st));
     on_dma (dma_arm K ep (ipc K (dma_dispatch K)) slot periph buf len)
   }"

definition call_dma_wait ::
  "ulmk_abi \<Rightarrow> u8 \<Rightarrow> u8 list option \<Rightarrow> nat \<Rightarrow> u32 \<Rightarrow> (i2c_st, cint \<times> u8 list option) state" where
  "call_dma_wait K slot out len timeout_ms = do {
     dev_do (Call_dma_wait slot len timeout_ms);
     ep \<leftarrow> gets (\<lambda>st. g_dma_ep (i2c_dma st));
     on_dma (dma_wait K ep (ipc K (dma_dispatch K)) slot out len timeout_ms)
   }"

section \<open>Hardware helpers\<close>

definition i2c_pinmux :: "ulmk_abi \<Rightarrow> (i2c_st, unit) state" where
  "i2c_pinmux K = do {
     let cfg = \<lparr>cfg_port = 7, cfg_pin = 7, cfg_dir = PINMUX_DIR_OUT, cfg_pull = PINMUX_PULL_UP,
                cfg_alt = 4, cfg_flags = PINMUX_F_OPENDRAIN\<rparr>;
     dev_do (Call_pinmux_apply cfg);
     _ \<leftarrow> on_pinmux (pinmux_apply K cfg);
     let cfg = cfg\<lparr>cfg_port := 7, cfg_pin := 8\<rparr>;
     dev_do (Call_pinmux_apply cfg);
     _ \<leftarrow> on_pinmux (pinmux_apply K cfg);
     ret ()
   }"

definition I2C_CR1_RUN :: u32 where
  "I2C_CR1_RUN = I2C_CR1_PE OR I2C_CR1_TXDMAEN OR I2C_CR1_RXDMAEN OR I2C_CR1_TCIE OR
     I2C_CR1_STOPIE OR I2C_CR1_NACKIE OR I2C_CR1_ERRIE"

definition i2c_hw_init :: "(i2c_st, unit) state" where
  "i2c_hw_init = do {
     rate \<leftarrow> gets g_bitrate;
     dev_do (I2c_wr I2C_CR1 0);
     dev_do (I2c_wr I2C_TIMINGR (if rate = 400000 then I2C_TIMING_400K else I2C_TIMING_400K));
     dev_do (I2c_wr I2C_CR1 I2C_CR1_RUN)
   }"

text \<open>The polling loop of the recovery: at most \<open>n\<close> one-millisecond sleeps, left at STOPF.\<close>

fun recover_poll :: "nat \<Rightarrow> (i2c_st, unit) state" where
  "recover_poll 0 = ret ()"
| "recover_poll (Suc n) = do {
     isr \<leftarrow> dev (I2c_rd I2C_ISR);
     if isr AND I2C_ISR_STOPF \<noteq> 0 then ret ()
     else do { kern_do (Sleep_ms 1); recover_poll n }
   }"

definition i2c_bus_recover :: "(i2c_st, unit) state" where
  "i2c_bus_recover = do {
     isr \<leftarrow> dev (I2c_rd I2C_ISR);
     if isr AND I2C_ISR_BUSY = 0 then dev_do (I2c_wr I2C_ICR 0x3F38)
     else do {
       cr2 \<leftarrow> dev (I2c_rd I2C_CR2);
       dev_do (I2c_wr I2C_CR2 (cr2 OR I2C_CR2_STOP));
       recover_poll 50;
       dev_do (I2c_wr I2C_ICR 0x3F38);
       isr \<leftarrow> dev (I2c_rd I2C_ISR);
       when_do (isr AND I2C_ISR_BUSY \<noteq> 0) (do {
         cr1 \<leftarrow> dev (I2c_rd I2C_CR1);
         dev_do (I2c_wr I2C_CR1 (cr1 AND NOT I2C_CR1_PE));
         kern_do (Sleep_ms 1);
         cr1 \<leftarrow> dev (I2c_rd I2C_CR1);
         dev_do (I2c_wr I2C_CR1 (cr1 OR I2C_CR1_RUN))
       })
     }
   }"

definition wait_ev :: "(i2c_st, cint) state" where
  "wait_ev = do {
     n \<leftarrow> gets g_i2c_notif;
     kern_do (Irq_ack IRQ_I2C3_EV);
     r \<leftarrow> kern (Notif_wait n 1);
     kern_do (Irq_ack IRQ_I2C3_EV);
     ret r
   }"

definition check_nack :: "ulmk_abi \<Rightarrow> (i2c_st, cint) state" where
  "check_nack K = do {
     isr \<leftarrow> dev (I2c_rd I2C_ISR);
     if isr AND I2C_ISR_NACKF \<noteq> 0 then do {
       dev_do (I2c_wr I2C_ICR (I2C_ICR_NACKCF OR I2C_ICR_STOPCF));
       ret (ULMK_ESRCH K)
     } else ret (ULMK_OK K)
   }"

fun wait_stop_or_nack :: "ulmk_abi \<Rightarrow> nat \<Rightarrow> (i2c_st, cint option) state" where
  "wait_stop_or_nack K 0 = ret None"
| "wait_stop_or_nack K (Suc fuel) = do {
     isr \<leftarrow> dev (I2c_rd I2C_ISR);
     if isr AND I2C_ISR_NACKF \<noteq> 0 then do { r \<leftarrow> check_nack K; ret (Some r) }
     else do {
       isr \<leftarrow> dev (I2c_rd I2C_ISR);
       if isr AND I2C_ISR_STOPF \<noteq> 0 then do {
         dev_do (I2c_wr I2C_ICR I2C_ICR_STOPCF);
         ret (Some (ULMK_OK K))
       } else do {
         r \<leftarrow> wait_ev;
         if r \<noteq> ULMK_OK K then ret (Some r) else wait_stop_or_nack K fuel
       }
     }
   }"

section \<open>Transfers\<close>

definition nbytes :: "nat \<Rightarrow> u32" where
  "nbytes len = push_bit 16 (of_nat len) AND I2C_CR2_NBYTES"

text \<open>Recovery after a failed wait, keeping the status; \<open>None\<close> is passed on.\<close>

definition recover_on_error :: "ulmk_abi \<Rightarrow> cint option \<Rightarrow> (i2c_st, cint option) state" where
  "recover_on_error K r = do {
     when_do (r \<noteq> None \<and> r \<noteq> Some (ULMK_OK K)) i2c_bus_recover;
     ret r
   }"

definition i2c_do_write ::
  "ulmk_abi \<Rightarrow> nat \<Rightarrow> u8 \<Rightarrow> u8 list option \<Rightarrow> nat \<Rightarrow> (i2c_st, cint option) state" where
  "i2c_do_write K fuel addr7 data len =
     (if len > I2C_XFER_MAX then ret (Some (ULMK_EINVAL K))
      else do {
        modify (\<lambda>st. st\<lparr>g_tx_buf := (case data of Some d \<Rightarrow> take len d | None \<Rightarrow> replicate len 0)
                                     @ drop len (g_tx_buf st)\<rparr>);
        dev_do (I2c_wr I2C_ICR 0x3F38);
        if len = 0 then do {
          dev_do (I2c_wr I2C_CR2 (push_bit 1 (ucast addr7) OR I2C_CR2_START OR I2C_CR2_AUTOEND));
          r \<leftarrow> wait_stop_or_nack K fuel;
          recover_on_error K r
        } else do {
          tx \<leftarrow> gets g_tx_buf;
          r \<leftarrow> call_dma_arm K DMA_SLOT_I2C_TX I2C_TXDR_PHYS (Some tx) len;
          if r \<noteq> ULMK_OK K then ret (Some r)
          else do {
            dev_do (I2c_wr I2C_CR2 (push_bit 1 (ucast addr7) OR nbytes len OR I2C_CR2_START
              OR I2C_CR2_AUTOEND));
            (r, _) \<leftarrow> call_dma_wait K DMA_SLOT_I2C_TX None 0 I2C_DMA_WAIT_MS;
            if r \<noteq> ULMK_OK K then recover_on_error K (Some r)
            else do {
              r \<leftarrow> wait_stop_or_nack K fuel;
              recover_on_error K r
            }
          }
        }
      })"

text \<open>The reading operations return the status and the new contents of the caller's buffer.\<close>

definition i2c_do_read ::
  "ulmk_abi \<Rightarrow> nat \<Rightarrow> u8 \<Rightarrow> u8 list \<Rightarrow> nat \<Rightarrow> (i2c_st, cint option \<times> u8 list) state" where
  "i2c_do_read K fuel addr7 data len =
     (if len = 0 \<or> len > I2C_XFER_MAX then ret (Some (ULMK_EINVAL K), data)
      else do {
        dev_do (I2c_wr I2C_ICR 0x3F38);
        r \<leftarrow> call_dma_arm K DMA_SLOT_I2C_RX I2C_RXDR_PHYS None len;
        if r \<noteq> ULMK_OK K then ret (Some r, data)
        else do {
          dev_do (I2c_wr I2C_CR2 (push_bit 1 (ucast addr7) OR I2C_CR2_RD_WRN OR nbytes len
            OR I2C_CR2_START OR I2C_CR2_AUTOEND));
          rx \<leftarrow> gets g_rx_buf;
          (r, rx) \<leftarrow> call_dma_wait K DMA_SLOT_I2C_RX (Some rx) len I2C_DMA_WAIT_MS;
          modify (\<lambda>st. st\<lparr>g_rx_buf := the rx\<rparr>);
          if r \<noteq> ULMK_OK K then do {
            r \<leftarrow> recover_on_error K (Some r);
            ret (r, data)
          } else do {
            r \<leftarrow> wait_stop_or_nack K fuel;
            r \<leftarrow> recover_on_error K r;
            rx \<leftarrow> gets g_rx_buf;
            ret (r, if r = Some (ULMK_OK K) then take len rx @ drop len data else data)
          }
        }
      })"

definition i2c_do_writeread ::
  "ulmk_abi \<Rightarrow> nat \<Rightarrow> u8 \<Rightarrow> u8 list \<Rightarrow> nat \<Rightarrow> u8 list \<Rightarrow> nat \<Rightarrow>
     (i2c_st, cint option \<times> u8 list) state" where
  "i2c_do_writeread K fuel addr7 w wlen r rlen =
     (if wlen = 0 \<or> rlen = 0 \<or> wlen > I2C_XFER_MAX \<or> rlen > I2C_XFER_MAX
      then ret (Some (ULMK_EINVAL K), r)
      else do {
        rc \<leftarrow> i2c_do_write K fuel addr7 (Some w) wlen;
        if rc \<noteq> Some (ULMK_OK K) then ret (rc, r)
        else i2c_do_read K fuel addr7 r rlen
      })"

section \<open>The server loop and bring-up\<close>

definition pack_reply :: "(nat \<Rightarrow> u32) \<Rightarrow> nat \<Rightarrow> u8 list \<Rightarrow> nat \<Rightarrow> u32" where
  "pack_reply ws len data =
     pack_loop 2 0 (take (min len I2C_XFER_MAX) data) (clear_words 2 4 ws)"

definition i2c_reply :: "cint \<Rightarrow> msg" where
  "i2c_reply rc = \<lparr>label = 0, words = (\<lambda>_. 0)(0 := rc)\<rparr>"

text \<open>The reply of a read: the bytes only when the status is OK; \<open>None\<close> if it never comes.\<close>

definition read_reply :: "ulmk_abi \<Rightarrow> cint option \<Rightarrow> u8 list \<Rightarrow> nat \<Rightarrow> msg option" where
  "read_reply K rc data len =
     map_option (\<lambda>rc. if rc = ULMK_OK K then (i2c_reply rc)\<lparr>words := pack_reply (words (i2c_reply rc)) len data\<rparr>
                     else i2c_reply rc) rc"

text \<open>One turn of the server's loop.\<close>

definition i2c_dispatch :: "ulmk_abi \<Rightarrow> nat \<Rightarrow> msg \<Rightarrow> (i2c_st, msg option) state" where
  "i2c_dispatch K fuel m = (
     let w = words m in
     if label m = I2C_MSG_PROBE then do {
       rc \<leftarrow> i2c_do_write K fuel (ucast (w 0)) None 0;
       ret (map_option i2c_reply rc)
     } else if label m = I2C_MSG_WRITE then do {
       let wlen = unat (w 1);
       let n = min wlen I2C_XFER_MAX;
       modify (\<lambda>st. st\<lparr>srv_wbuf := unpack_loop 2 n w @ drop n (srv_wbuf st)\<rparr>);
       wbuf \<leftarrow> gets srv_wbuf;
       rc \<leftarrow> i2c_do_write K fuel (ucast (w 0)) (Some wbuf) wlen;
       ret (map_option i2c_reply rc)
     } else if label m = I2C_MSG_READ then do {
       let rlen = unat (w 1);
       rbuf \<leftarrow> gets srv_rbuf;
       (rc, rbuf) \<leftarrow> i2c_do_read K fuel (ucast (w 0)) rbuf rlen;
       modify (\<lambda>st. st\<lparr>srv_rbuf := rbuf\<rparr>);
       ret (read_reply K rc rbuf rlen)
     } else if label m = I2C_MSG_WRITEREAD then do {
       let wlen = unat (w 1 AND 0xFF);
       let rlen = unat (drop_bit 8 (w 1) AND 0xFF);
       let n = min wlen 4;
       modify (\<lambda>st. st\<lparr>srv_wbuf := unpack_loop 2 n w @ drop n (srv_wbuf st)\<rparr>);
       wbuf \<leftarrow> gets srv_wbuf;
       rbuf \<leftarrow> gets srv_rbuf;
       (rc, rbuf) \<leftarrow> i2c_do_writeread K fuel (ucast (w 0)) wbuf wlen rbuf rlen;
       modify (\<lambda>st. st\<lparr>srv_rbuf := rbuf\<rparr>);
       ret (read_reply K rc rbuf rlen)
     } else ret (Some (i2c_reply (ULMK_EINVAL K))))"

definition i2c_server_start :: "ulmk_abi \<Rightarrow> (i2c_st, bool) state" where
  "i2c_server_start K = do {
     a \<leftarrow> kern (Mem_map I2C3_BASE 0x400);
     if a = 0 then ret False
     else do { i2c_pinmux K; i2c_hw_init; ret True }
   }"

definition call_dma_open :: "ulmk_abi \<Rightarrow> u8 \<Rightarrow> u8 \<Rightarrow> u32 \<Rightarrow> (i2c_st, cint) state" where
  "call_dma_open K slot req flags = do {
     dev_do (Call_dma_open slot req flags);
     ep \<leftarrow> gets (\<lambda>st. g_dma_ep (i2c_dma st));
     on_dma (dma_channel_open K ep (ipc K (dma_dispatch K)) slot req flags)
   }"

definition i2c_init :: "ulmk_abi \<Rightarrow> u8 \<Rightarrow> u32 \<Rightarrow> (i2c_st, u32) state" where
  "i2c_init K n bitrate_hz = do {
     cur \<leftarrow> gets g_i2c_ep;
     if n \<noteq> 0 \<or> cur \<noteq> ULMK_EP_INVALID K then ret (ULMK_TID_INVALID K)
     else do {
       dev_do Call_dma_init;
       d \<leftarrow> on_dma (dma_init K);
       if d = ULMK_TID_INVALID K then ret (ULMK_TID_INVALID K)
       else do {
         r \<leftarrow> call_dma_open K DMA_SLOT_I2C_TX 74 (DMA_FLAG_DIR_M2P OR DMA_FLAG_MINC);
         if r \<noteq> ULMK_OK K then ret (ULMK_TID_INVALID K)
         else do {
           r \<leftarrow> call_dma_open K DMA_SLOT_I2C_RX 73 DMA_FLAG_MINC;
           if r \<noteq> ULMK_OK K then ret (ULMK_TID_INVALID K)
           else do {
             modify (\<lambda>st. st\<lparr>g_bitrate := if bitrate_hz \<noteq> 0 then bitrate_hz else 400000\<rparr>);
             ep \<leftarrow> kern Ep_create;
             modify (\<lambda>st. st\<lparr>g_i2c_ep := ep\<rparr>);
             nt \<leftarrow> kern Notif_create;
             modify (\<lambda>st. st\<lparr>g_i2c_notif := nt\<rparr>);
             if ep = ULMK_EP_INVALID K \<or> nt = ULMK_NOTIF_INVALID K then ret (ULMK_TID_INVALID K)
             else do {
               r \<leftarrow> kern (Irq_bind_hw IRQ_I2C3_EV nt 0 (nvic_src 72));
               if r \<noteq> ULMK_OK K then ret (ULMK_TID_INVALID K)
               else do {
                 r \<leftarrow> kern (Irq_enable IRQ_I2C3_EV);
                 if r \<noteq> ULMK_OK K then ret (ULMK_TID_INVALID K)
                 else do {
                   tid \<leftarrow> kern (Thread_create ''i2c'' 2 2048);
                   if tid = ULMK_TID_INVALID K then ret (ULMK_TID_INVALID K)
                   else do {
                     kern_do (Cap_grant tid ''MAP_PERIPH'');
                     kern_do (Cap_grant tid ''IRQ'');
                     ret tid
                   }
                 }
               }
             }
           }
         }
       }
     }
   }"

section \<open>Well-formedness\<close>

text \<open>
  Every buffer has its C length and the DMA part is well formed and has not faulted: no
  access of the I2C server or of the DMA driver it calls leaves an array.
\<close>

definition i2c_inv :: "i2c_st \<Rightarrow> bool" where
  "i2c_inv st \<longleftrightarrow> length (g_tx_buf st) = I2C_XFER_MAX \<and> length (g_rx_buf st) = I2C_XFER_MAX \<and>
     length (srv_wbuf st) = I2C_XFER_MAX \<and> length (srv_rbuf st) = I2C_XFER_MAX \<and>
     dma_safe (i2c_dma st)"

lemma i2c_inv_trace [simp]: "i2c_inv (st\<lparr>trace := t\<rparr>) = i2c_inv st"
  by (simp add: i2c_inv_def)

lemma keeps_i2c_io [keeps_intros]:
  "keeps i2c_inv (kern c)" "keeps i2c_inv (kern_do c)" "keeps i2c_inv (dev d)"
  "keeps i2c_inv (dev_do d)"
  by (auto intro!: keepsI)

lemma keeps_on_dma: "keeps dma_safe m \<Longrightarrow> keeps i2c_inv (on_dma m)"
  by (auto simp: keeps_def on_dma_def i2c_inv_def split: prod.splits)

lemma keeps_on_pinmux [keeps_intros]: "keeps i2c_inv (on_pinmux m)"
  by (auto simp: keeps_def on_pinmux_def i2c_inv_def split: prod.splits)

lemma keeps_i2c_modify:
  "(\<And>b :: u8 list. length (f b) = length b) \<Longrightarrow>
     keeps i2c_inv (modify (\<lambda>st. st\<lparr>g_tx_buf := f (g_tx_buf st)\<rparr>))"
  "keeps i2c_inv (modify (\<lambda>st. st\<lparr>g_bitrate := r st\<rparr>))"
  "keeps i2c_inv (modify (\<lambda>st. st\<lparr>g_i2c_ep := e st\<rparr>))"
  "keeps i2c_inv (modify (\<lambda>st. st\<lparr>g_i2c_notif := n st\<rparr>))"
  by (auto simp: keeps_def i2c_inv_def)

lemma keeps_recover_poll [keeps_intros]: "keeps i2c_inv (recover_poll n)"
  by (induction n) (auto intro!: keeps_intros)

lemma keeps_bus_recover [keeps_intros]: "keeps i2c_inv i2c_bus_recover"
  unfolding i2c_bus_recover_def by (intro keeps_intros)

lemma keeps_recover_on_error [keeps_intros]: "keeps i2c_inv (recover_on_error K r)"
  unfolding recover_on_error_def by (intro keeps_intros)

lemma keeps_wait_stop [keeps_intros]: "keeps i2c_inv (wait_stop_or_nack K fuel)"
  by (induction fuel) (auto simp: check_nack_def wait_ev_def intro!: keeps_intros)

lemma keeps_call_dma [keeps_intros]:
  "keeps i2c_inv (call_dma_arm K slot periph buf len)"
  "keeps i2c_inv (call_dma_wait K slot out len tmo)"
  "keeps i2c_inv (call_dma_open K slot req flags)"
  "keeps i2c_inv (on_dma (dma_init K))"
  unfolding call_dma_arm_def call_dma_wait_def call_dma_open_def
  by (intro keeps_intros keeps_on_dma keeps_dma_arm keeps_dma_wait keeps_dma_channel_open
      keeps_dma_init_safe)+

lemma keeps_do_write:
  assumes "data = None \<or> (\<exists>d. data = Some d \<and> length d = I2C_XFER_MAX)"
  shows "keeps i2c_inv (i2c_do_write K fuel addr data len)"
proof -
  have set_tx: "len \<le> I2C_XFER_MAX \<Longrightarrow> keeps i2c_inv (modify (\<lambda>st. st\<lparr>g_tx_buf :=
      (case data of Some d \<Rightarrow> take len d | None \<Rightarrow> replicate len 0) @ drop len (g_tx_buf st)\<rparr>))"
    using assms by (auto intro!: keeps_modify simp: i2c_inv_def)
  show ?thesis
    unfolding i2c_do_write_def by (intro keeps_intros set_tx) simp
qed

text \<open>A read keeps the invariant and the length of the caller's buffer.\<close>

lemma triple_call_dma_wait:
  assumes "len \<le> I2C_XFER_MAX" "length rx = I2C_XFER_MAX"
  shows "triple i2c_inv (call_dma_wait K slot (Some rx) len tmo)
    (\<lambda>a st. length (the (snd a)) = I2C_XFER_MAX \<and> i2c_inv st)"
proof (rule tripleI)
  fix st a st'
  assume inv: "i2c_inv st" and run: "run_state (call_dma_wait K slot (Some rx) len tmo) st = (a, st')"
  have "i2c_inv st'"
    using keeps_run [OF keeps_call_dma(2) inv run] .
  moreover from dma_wait_out [of len rx K "g_dma_ep (i2c_dma st)" "dma_ipc K" slot tmo "i2c_dma st"]
  obtain d' where "snd (fst (run_state (dma_wait K (g_dma_ep (i2c_dma st)) (dma_ipc K) slot
      (Some rx) len tmo) (i2c_dma st))) = Some d'" "length d' = DMA_XFER_MAX"
    using assms by (auto simp: I2C_XFER_MAX_def DMA_XFER_MAX_def)
  ultimately show "length (the (snd a)) = I2C_XFER_MAX \<and> i2c_inv st'"
    using run
    by (auto simp: call_dma_wait_def on_dma_def I2C_XFER_MAX_def DMA_XFER_MAX_def split: prod.splits)
qed

lemma triple_do_read:
  assumes "length data = I2C_XFER_MAX"
  shows "triple i2c_inv (i2c_do_read K fuel addr data len)
    (\<lambda>a st. length (snd a) = I2C_XFER_MAX \<and> i2c_inv st)"
proof -
  let ?Q = "\<lambda>a st. length (snd a) = I2C_XFER_MAX \<and> i2c_inv st"
  have store: "length rx = I2C_XFER_MAX \<Longrightarrow>
      triple i2c_inv (modify (\<lambda>st. st\<lparr>g_rx_buf := rx\<rparr>)) (\<lambda>_. i2c_inv)" for rx
    by (rule triple_modify) (simp add: i2c_inv_def)
  have rx: "triple i2c_inv (gets g_rx_buf) (\<lambda>rx st. length rx = I2C_XFER_MAX \<and> i2c_inv st)"
    by (rule triple_gets) (simp add: i2c_inv_def)
  have final: "len \<le> I2C_XFER_MAX \<Longrightarrow> length rx = I2C_XFER_MAX \<Longrightarrow>
      triple i2c_inv (ret (r, if b then take len rx @ drop len data else data)) ?Q" for r b rx
    using assms by (intro triple_ret) auto
  have failed: "triple i2c_inv (ret (r, data)) ?Q" for r
    using assms by (intro triple_ret) auto
  have tail: "len \<le> I2C_XFER_MAX \<Longrightarrow> length rx = I2C_XFER_MAX \<Longrightarrow> triple i2c_inv (do {
        modify (\<lambda>st. st\<lparr>g_rx_buf := rx\<rparr>);
        if r \<noteq> ULMK_OK K then do { r \<leftarrow> recover_on_error K (Some r); ret (r, data) }
        else do {
          r \<leftarrow> wait_stop_or_nack K fuel;
          r \<leftarrow> recover_on_error K r;
          rx \<leftarrow> gets g_rx_buf;
          ret (r, if r = Some (ULMK_OK K) then take len rx @ drop len data else data)
        } }) ?Q" for r rx
    by (intro triple_if triple_bind [OF store] triple_bind [OF triple_keeps [OF keeps_recover_on_error]]
        triple_bind [OF triple_keeps [OF keeps_wait_stop]] triple_bind [OF rx] triple_pre final failed)
  show ?thesis
    unfolding i2c_do_read_def
    by (intro triple_if failed triple_bind [OF triple_keeps [OF keeps_i2c_io(4)]]
        triple_bind [OF triple_keeps [OF keeps_call_dma(1)]] triple_bind [OF rx] triple_pre
        triple_bind [OF triple_call_dma_wait] triple_case_prod tail) auto
qed

lemma keeps_dispatch_read:
  assumes "\<And>rbuf. length rbuf = I2C_XFER_MAX \<Longrightarrow> triple i2c_inv (f rbuf)
    (\<lambda>a st. length (snd a) = I2C_XFER_MAX \<and> i2c_inv st)"
  shows "keeps i2c_inv (do {
    rbuf \<leftarrow> gets srv_rbuf;
    (rc, rbuf) \<leftarrow> f rbuf;
    modify (\<lambda>st. st\<lparr>srv_rbuf := rbuf\<rparr>);
    ret (g rc rbuf) })"
proof (rule keeps_triple, rule triple_bind)
  show "triple i2c_inv (gets srv_rbuf) (\<lambda>rbuf st. length rbuf = I2C_XFER_MAX \<and> i2c_inv st)"
    by (rule triple_gets) (simp add: i2c_inv_def)
  fix rbuf
  have "length rbuf = I2C_XFER_MAX \<Longrightarrow>
      triple i2c_inv (modify (\<lambda>st. st\<lparr>srv_rbuf := rbuf\<rparr>)) (\<lambda>_. i2c_inv)" for rbuf
    by (rule triple_modify) (simp add: i2c_inv_def)
  then show "triple (\<lambda>st. length rbuf = I2C_XFER_MAX \<and> i2c_inv st) (do {
      (rc, rbuf) \<leftarrow> f rbuf;
      modify (\<lambda>st. st\<lparr>srv_rbuf := rbuf\<rparr>);
      ret (g rc rbuf) }) (\<lambda>_. i2c_inv)"
    by (intro triple_pre triple_bind [OF assms] triple_case_prod)
       (auto intro!: triple_pre triple_bind triple_ret)
qed

lemma keeps_do_writeread:
  assumes "length w = I2C_XFER_MAX" "length r = I2C_XFER_MAX"
  shows "triple i2c_inv (i2c_do_writeread K fuel addr w wlen r rlen)
    (\<lambda>a st. length (snd a) = I2C_XFER_MAX \<and> i2c_inv st)"
  unfolding i2c_do_writeread_def
  using assms
  by (intro triple_if triple_ret triple_bind [OF triple_keeps [OF keeps_do_write]] triple_do_read) auto

lemma keeps_set_wbuf:
  "n \<le> I2C_XFER_MAX \<Longrightarrow> triple i2c_inv (modify (\<lambda>st. st\<lparr>srv_wbuf := unpack_loop 2 n w @ drop n (srv_wbuf st)\<rparr>))
    (\<lambda>_. i2c_inv)"
  by (rule triple_modify) (simp add: i2c_inv_def)

lemma triple_get_wbuf:
  "triple i2c_inv (gets srv_wbuf) (\<lambda>b st. length b = I2C_XFER_MAX \<and> i2c_inv st)"
  by (rule triple_gets) (simp add: i2c_inv_def)

lemma keeps_i2c_dispatch: "keeps i2c_inv (i2c_dispatch K fuel m)"
proof -
  have probe: "keeps i2c_inv (do { rc \<leftarrow> i2c_do_write K fuel a None 0; ret (map_option i2c_reply rc) })"
    for a
    by (intro keeps_intros keeps_do_write) simp
  have wr: "n \<le> I2C_XFER_MAX \<Longrightarrow> keeps i2c_inv (do {
      modify (\<lambda>st. st\<lparr>srv_wbuf := unpack_loop 2 n w @ drop n (srv_wbuf st)\<rparr>);
      wbuf \<leftarrow> gets srv_wbuf;
      rc \<leftarrow> i2c_do_write K fuel a (Some wbuf) l;
      ret (map_option i2c_reply rc) })" for n w a l
    by (rule keeps_triple, rule triple_bind [OF keeps_set_wbuf], assumption,
        rule triple_bind [OF triple_get_wbuf], rule triple_pre,
        rule triple_bind [OF triple_keeps [OF keeps_do_write]], simp, rule triple_ret)
  have rd: "keeps i2c_inv (do {
      rbuf \<leftarrow> gets srv_rbuf;
      (rc, rbuf) \<leftarrow> i2c_do_read K fuel a rbuf l;
      modify (\<lambda>st. st\<lparr>srv_rbuf := rbuf\<rparr>);
      ret (read_reply K rc rbuf l) })" for a l
    by (rule keeps_dispatch_read, rule triple_do_read)
  have wrrd: "n \<le> I2C_XFER_MAX \<Longrightarrow> keeps i2c_inv (do {
      modify (\<lambda>st. st\<lparr>srv_wbuf := unpack_loop 2 n w @ drop n (srv_wbuf st)\<rparr>);
      wbuf \<leftarrow> gets srv_wbuf;
      rbuf \<leftarrow> gets srv_rbuf;
      (rc, rbuf) \<leftarrow> i2c_do_writeread K fuel a wbuf wl rbuf rl;
      modify (\<lambda>st. st\<lparr>srv_rbuf := rbuf\<rparr>);
      ret (read_reply K rc rbuf rl) })" for n w a wl rl
    by (rule keeps_triple, rule triple_bind [OF keeps_set_wbuf], assumption,
        rule triple_bind [OF triple_get_wbuf], rule triple_pre, rule triple_keeps,
        rule keeps_dispatch_read, rule keeps_do_writeread)
  show ?thesis
    unfolding i2c_dispatch_def Let_def
    by (intro keeps_if probe wr rd wrrd keeps_ret) (simp_all add: I2C_XFER_MAX_def)
qed

section \<open>Interaction logs\<close>

lemma grows_i2c [grows_intros]:
  "grows (on_dma m)" "grows (on_pinmux m')"
  "grows (modify (\<lambda>st. st\<lparr>g_tx_buf := f st\<rparr>))" "grows (modify (\<lambda>st. st\<lparr>g_rx_buf := g st\<rparr>))"
  by (auto simp: grows_def on_dma_def on_pinmux_def split: prod.splits)

lemma grows_recover_poll [grows_intros]: "grows (recover_poll n)"
  by (induction n) (auto intro!: grows_intros)

lemma grows_recover [grows_intros]: "grows i2c_bus_recover" "grows (recover_on_error K r)"
  unfolding i2c_bus_recover_def recover_on_error_def by (intro grows_intros)+

lemma grows_wait_stop [grows_intros]: "grows (wait_stop_or_nack K fuel)"
  by (induction fuel) (auto simp: check_nack_def wait_ev_def intro!: grows_intros)

lemma grows_call_dma [grows_intros]:
  "grows (call_dma_arm K slot periph buf len)" "grows (call_dma_wait K slot out len tmo)"
  unfolding call_dma_arm_def call_dma_wait_def by (intro grows_intros)+

lemma call_dma_arm_trace:
  "trace (snd (run_state (call_dma_arm K slot periph buf len) st)) =
     trace st @ [Dev (Call_dma_arm slot periph buf len)]"
  by (simp add: call_dma_arm_def on_dma_def split: prod.splits)

text \<open>
  What a non-empty write does on the wire: flags cleared, DMA armed with the caller's bytes, and
  the START condition set only when arming has succeeded.
\<close>

definition start_write :: "u8 \<Rightarrow> nat \<Rightarrow> u32" where
  "start_write addr7 len = push_bit 1 (ucast addr7) OR nbytes len OR I2C_CR2_START OR I2C_CR2_AUTOEND"

lemma do_write_trace:
  assumes "0 < len" "len \<le> I2C_XFER_MAX"
    "run_state (i2c_do_write K fuel addr (Some d) len) st = (rc, st')"
  shows "\<exists>tl. trace st' = trace st @ Dev (I2c_wr I2C_ICR 0x3F38)
      # Dev (Call_dma_arm DMA_SLOT_I2C_TX I2C_TXDR_PHYS (Some (take len d @ drop len (g_tx_buf st))) len)
      # tl \<and>
    (if tl = [] then rc \<noteq> Some (ULMK_OK K)
     else \<exists>tl'. tl = Dev (I2c_wr I2C_CR2 (start_write addr len)) # tl')"
proof -
  let ?tx = "take len d @ drop len (g_tx_buf st)"
  let ?st = "st\<lparr>g_tx_buf := ?tx, trace := trace st @ [Dev (I2c_wr I2C_ICR 0x3F38)]\<rparr>"
  obtain r st1 where arm: "run_state (call_dma_arm K DMA_SLOT_I2C_TX I2C_TXDR_PHYS (Some ?tx) len) ?st = (r, st1)"
    by (metis prod.collapse)
  have tr1: "trace st1 = trace st @ [Dev (I2c_wr I2C_ICR 0x3F38),
      Dev (Call_dma_arm DMA_SLOT_I2C_TX I2C_TXDR_PHYS (Some ?tx) len)]"
    using call_dma_arm_trace [of K DMA_SLOT_I2C_TX I2C_TXDR_PHYS "Some ?tx" len ?st] arm by simp
  let ?rest = "do {
            dev_do (I2c_wr I2C_CR2 (start_write addr len));
            (r, _) \<leftarrow> call_dma_wait K DMA_SLOT_I2C_TX None 0 I2C_DMA_WAIT_MS;
            if r \<noteq> ULMK_OK K then recover_on_error K (Some r)
            else do {
              r \<leftarrow> wait_stop_or_nack K fuel;
              recover_on_error K r
            } }"
  have run: "run_state (i2c_do_write K fuel addr (Some d) len) st =
      (if r \<noteq> ULMK_OK K then (Some r, st1) else run_state ?rest st1)"
    using assms(1,2) arm by (simp add: i2c_do_write_def start_write_def)
  show ?thesis
  proof (cases "r = ULMK_OK K")
    case False
    with run tr1 assms(3) show ?thesis
      by (intro exI [of _ "[]"]) auto
  next
    case True
    have "grows (do {
            (r, _) \<leftarrow> call_dma_wait K DMA_SLOT_I2C_TX None 0 I2C_DMA_WAIT_MS;
            if r \<noteq> ULMK_OK K then recover_on_error K (Some r)
            else do { r \<leftarrow> wait_stop_or_nack K fuel; recover_on_error K r } })"
      by (intro grows_intros)
    from growsD [OF this, of "st1\<lparr>trace := trace st1 @ [Dev (I2c_wr I2C_CR2 (start_write addr len))]\<rparr>" rc st']
    obtain es where
      "trace st' = trace st1 @ Dev (I2c_wr I2C_CR2 (start_write addr len)) # es"
      using True run assms(3) by auto
    with tr1 show ?thesis
      by (intro exI [of _ "Dev (I2c_wr I2C_CR2 (start_write addr len)) # es"]) simp
  qed
qed

section \<open>Reading: from the engine to the caller\<close>

text \<open>The RX channel as \<open>i2c_init\<close> opens it: peripheral to memory.\<close>

definition rx_ready :: "ulmk_abi \<Rightarrow> dma_st \<Rightarrow> bool" where
  "rx_ready K d \<longleftrightarrow> g_dma_ep d \<noteq> ULMK_EP_INVALID K \<and> \<not> slot_closed d DMA_SLOT_I2C_RX \<and>
     slot_flags (g_slots d ! unat DMA_SLOT_I2C_RX) AND DMA_FLAG_DIR_M2P = 0"

lemma rx_slot: "unat DMA_SLOT_I2C_RX = 2"
  by (simp add: DMA_SLOT_I2C_RX_def)

lemma keeps_dma_ep:
  "keeps (\<lambda>d. g_dma_ep d = e) (dma_call K ep (dma_ipc K) \<lparr>label = DMA_MSG_ARM, words = w\<rparr>)"
  by (auto simp: keeps_def dma_call_def ipc_def dma_dispatch_def Let_def const_defs do_arm_def)

lemma arm_rx:
  assumes "dma_safe d" "rx_ready K d" "0 < len" "len \<le> I2C_XFER_MAX"
    "run_state (dma_arm K (g_dma_ep d) (dma_ipc K) DMA_SLOT_I2C_RX periph None len) d = (rc, d')"
  shows "dma_safe d' \<and> rx_ready K d' \<and> others d' = others d \<and>
    unat (slot_len (g_slots d' ! unat DMA_SLOT_I2C_RX)) = len"
proof -
  have inv: "dma_inv d" and ep: "g_dma_ep d \<noteq> ULMK_EP_INVALID K"
    and opened: "\<not> slot_closed d DMA_SLOT_I2C_RX" and len: "len \<le> DMA_XFER_MAX"
    using assms by (auto simp: dma_safe_def rx_ready_def I2C_XFER_MAX_def DMA_XFER_MAX_def)
  let ?m = "\<lparr>label = DMA_MSG_ARM,
      words = (\<lambda>_. 0)(0 := ucast DMA_SLOT_I2C_RX, 1 := periph, 2 := of_nat len, 3 := 1000)\<rparr>"
  obtain m where call: "run_state (dma_call K (g_dma_ep d) (dma_ipc K) ?m) d = ((rc, m), d')"
    using assms(3,5) len by (auto simp: dma_arm_def split: prod.splits)
  with run_arm_call [OF inv ep opened assms(3) len, of periph]
  have "g_slots d' = (g_slots d)[unat DMA_SLOT_I2C_RX := (g_slots d ! unat DMA_SLOT_I2C_RX)
          \<lparr>slot_periph := periph, slot_len := of_nat len, slot_timeout_ms := 1000,
           slot_job := DMA_JOB_ARM\<rparr>]" "others d' = others d"
    by auto
  moreover have "g_dma_ep d' = g_dma_ep d"
    using keeps_run [OF keeps_dma_ep _ call] by blast
  moreover have "dma_safe d'"
    using keeps_run [OF keeps_dma_arm assms(1,5)] .
  moreover have "unat DMA_SLOT_I2C_RX < length (g_slots d)"
    using inv opened by (auto simp: slot_closed_def dma_inv_def)
  moreover have "unat (of_nat len :: u32) = len"
    using len by (simp add: unat_of_nat DMA_XFER_MAX_def)
  ultimately show ?thesis
    using assms(2) by (auto simp: rx_ready_def slot_closed_def)
qed

lemma keeps_rx_buf [keeps_intros]:
  "keeps (\<lambda>st. g_rx_buf st = x) (kern c)" "keeps (\<lambda>st. g_rx_buf st = x) (kern_do c)"
  "keeps (\<lambda>st. g_rx_buf st = x) (dev d)" "keeps (\<lambda>st. g_rx_buf st = x) (dev_do d)"
  by (auto simp: keeps_def)

lemma keeps_rx_poll [keeps_intros]: "keeps (\<lambda>st. g_rx_buf st = x) (recover_poll n)"
  by (induction n) (auto intro!: keeps_intros)

lemma keeps_rx_recover [keeps_intros]:
  "keeps (\<lambda>st. g_rx_buf st = x) (recover_on_error K r)"
  unfolding recover_on_error_def i2c_bus_recover_def by (intro keeps_intros)

lemma keeps_rx_wait_stop [keeps_intros]:
  "keeps (\<lambda>st. g_rx_buf st = x) (wait_stop_or_nack K fuel)"
  by (induction fuel) (auto simp: check_nack_def wait_ev_def intro!: keeps_intros)

lemma do_read_ok:
  assumes "i2c_inv st" "rx_ready K (i2c_dma st)" "0 < len" "len \<le> I2C_XFER_MAX"
    "run_state (i2c_do_read K fuel addr data len) st = ((Some (ULMK_OK K), d'), st')"
  shows "\<exists>t b. others (i2c_dma st) t 2 = (ULMK_OK K, b) \<and> take len d' = map b [0..<len]"
proof -
  let ?ep = "g_dma_ep (i2c_dma st)"
  define tail :: "cint \<Rightarrow> (i2c_st, cint option \<times> u8 list) state" where
    "tail rc = (if rc \<noteq> ULMK_OK K then do { r \<leftarrow> recover_on_error K (Some rc); ret (r, data) }
      else do {
        r \<leftarrow> wait_stop_or_nack K fuel;
        r \<leftarrow> recover_on_error K r;
        rx \<leftarrow> gets g_rx_buf;
        ret (r, if r = Some (ULMK_OK K) then take len rx @ drop len data else data)
      })" for rc
  obtain r d1 where arm:
    "run_state (dma_arm K ?ep (dma_ipc K) DMA_SLOT_I2C_RX I2C_RXDR_PHYS None len) (i2c_dma st) = (r, d1)"
    by (metis prod.collapse)
  have d1: "dma_safe d1" "rx_ready K d1" "others d1 = others (i2c_dma st)"
    "unat (slot_len (g_slots d1 ! unat DMA_SLOT_I2C_RX)) = len"
    using arm_rx [OF _ assms(2-4) arm] assms(1) by (auto simp: i2c_inv_def)
  obtain rc rx d2 where wait: "run_state (dma_wait K (g_dma_ep d1) (dma_ipc K) DMA_SLOT_I2C_RX
      (Some (g_rx_buf st)) len I2C_DMA_WAIT_MS) d1 = ((rc, rx), d2)"
    by (metis prod.collapse)
  let ?st2 = "st\<lparr>trace := trace st @ [Dev (I2c_wr I2C_ICR 0x3F38),
      Dev (Call_dma_arm DMA_SLOT_I2C_RX I2C_RXDR_PHYS None len),
      Dev (I2c_wr I2C_CR2 (push_bit 1 (ucast addr) OR I2C_CR2_RD_WRN OR nbytes len
            OR I2C_CR2_START OR I2C_CR2_AUTOEND)),
      Dev (Call_dma_wait DMA_SLOT_I2C_RX len I2C_DMA_WAIT_MS)], i2c_dma := d2, g_rx_buf := the rx\<rparr>"
  have "run_state (tail rc) ?st2 = ((Some (ULMK_OK K), d'), st')"
    using assms(5) unfolding i2c_do_read_def tail_def [symmetric] using assms(3,4) arm wait
    by (auto simp: call_dma_arm_def call_dma_wait_def on_dma_def split: if_splits)
  then obtain st2 where st2: "g_rx_buf st2 = the rx"
      "run_state (tail rc) st2 = ((Some (ULMK_OK K), d'), st')"
    by (rule that [of ?st2, rotated]) simp
  have rc: "rc = ULMK_OK K"
    using st2(2) by (auto simp: tail_def recover_on_error_def split: if_splits prod.splits)
  obtain st3 :: i2c_st where "g_rx_buf st3 = the rx" "d' = take len (g_rx_buf st3) @ drop len data"
  proof -
    obtain r1 s1 where w1: "run_state (wait_stop_or_nack K fuel) st2 = (r1, s1)"
      by (metis prod.collapse)
    obtain r2 s2 where w2: "run_state (recover_on_error K r1) s1 = (r2, s2)"
      by (metis prod.collapse)
    have "g_rx_buf s2 = the rx"
      using keeps_run [OF keeps_rx_recover keeps_run [OF keeps_rx_wait_stop st2(1) w1] w2] .
    moreover have "d' = take len (g_rx_buf s2) @ drop len data"
      using st2(2) w1 w2 rc by (auto simp: tail_def)
    ultimately show ?thesis by (rule that)
  qed
  moreover obtain t b where "others d1 t (unat DMA_SLOT_I2C_RX) = (ULMK_OK K, b)"
    "rx = Some (map b [0..<len] @ drop len (g_rx_buf st))"
    using dma_wait_ok [of d1 "g_dma_ep d1" K DMA_SLOT_I2C_RX len "g_rx_buf st" I2C_DMA_WAIT_MS rx d2]
      d1 wait rc assms(3) by (auto simp: dma_safe_def rx_ready_def)
  ultimately show ?thesis
    using d1(3) rx_slot by auto
qed

end
