(* ===== verification/I2c_Client_Linum.thy ===== *)
theory I2c_Client_Linum
  imports I2c_Linum
begin

text \<open>
  The client side of the Linum I2C driver, \<^verbatim>\<open>witte_linum/drivers/i2c/src/client.c\<close>, and the
  properties of the whole path: client, server, DMA driver.  A call that the server has not
  answered yet is \<open>None\<close>.
\<close>

section \<open>Calls\<close>

type_synonym 's ep_call_opt = "msg \<Rightarrow> ('s, (cint \<times> msg) option) state"

definition i2c_ipc :: "ulmk_abi \<Rightarrow> nat \<Rightarrow> i2c_st ep_call_opt" where
  "i2c_ipc K fuel m = do { r \<leftarrow> i2c_dispatch K fuel m; ret (map_option (\<lambda>r. (ULMK_OK K, r)) r) }"

definition i2c_call ::
  "ulmk_abi \<Rightarrow> u32 \<Rightarrow> 's ep_call_opt \<Rightarrow> u8 \<Rightarrow> msg \<Rightarrow> ('s, (cint \<times> msg) option) state" where
  "i2c_call K ep call n m =
     (if n \<ge> 1 \<or> ep = ULMK_EP_INVALID K then ret (Some (ULMK_ESRCH K, m))
      else do {
        r \<leftarrow> call m;
        ret (map_option (\<lambda>(rc, m'). if rc \<noteq> ULMK_OK K then (rc, m') else (words m' 0, m')) r)
      })"

definition i2c_pack_bytes :: "(nat \<Rightarrow> u32) \<Rightarrow> nat \<Rightarrow> u8 list option \<Rightarrow> nat \<Rightarrow> (nat \<Rightarrow> u32)" where
  "i2c_pack_bytes ws w0 data len =
     (let ws = clear_words w0 4 ws in
      case data of None \<Rightarrow> ws
      | Some d \<Rightarrow> pack_loop w0 0 (take (min len I2C_XFER_MAX) d) ws)"

definition i2c_unpack_bytes :: "(nat \<Rightarrow> u32) \<Rightarrow> nat \<Rightarrow> u8 list \<Rightarrow> nat \<Rightarrow> u8 list" where
  "i2c_unpack_bytes ws w0 data len =
     (let n = min len I2C_XFER_MAX in unpack_loop w0 n ws @ drop n data)"

definition i2c_write ::
  "ulmk_abi \<Rightarrow> u32 \<Rightarrow> 's ep_call_opt \<Rightarrow> u8 \<Rightarrow> u8 \<Rightarrow> u8 list option \<Rightarrow> nat \<Rightarrow> ('s, cint option) state" where
  "i2c_write K ep call n addr7 data len =
     (if len > I2C_XFER_MAX then ret (Some (ULMK_EINVAL K))
      else do {
        r \<leftarrow> i2c_call K ep call n \<lparr>label = I2C_MSG_WRITE,
          words = i2c_pack_bytes ((\<lambda>_. 0)(0 := ucast (addr7 AND 0x7F), 1 := of_nat len)) 2 data len\<rparr>;
        ret (map_option fst r)
      })"

definition i2c_read ::
  "ulmk_abi \<Rightarrow> u32 \<Rightarrow> 's ep_call_opt \<Rightarrow> u8 \<Rightarrow> u8 \<Rightarrow> u8 list option \<Rightarrow> nat \<Rightarrow>
     ('s, cint option \<times> u8 list option) state" where
  "i2c_read K ep call n addr7 data len =
     (if data = None \<or> len > I2C_XFER_MAX then ret (Some (ULMK_EINVAL K), data)
      else do {
        r \<leftarrow> i2c_call K ep call n \<lparr>label = I2C_MSG_READ,
          words = (\<lambda>_. 0)(0 := ucast (addr7 AND 0x7F), 1 := of_nat len)\<rparr>;
        ret (case r of None \<Rightarrow> (None, data)
             | Some (rc, m) \<Rightarrow> (Some rc, if rc = ULMK_OK K
                 then map_option (\<lambda>d. i2c_unpack_bytes (words m) 2 d len) data else data))
      })"

definition i2c_writeread ::
  "ulmk_abi \<Rightarrow> u32 \<Rightarrow> 's ep_call_opt \<Rightarrow> u8 \<Rightarrow> u8 \<Rightarrow> u8 list option \<Rightarrow> nat \<Rightarrow> u8 list option \<Rightarrow> nat \<Rightarrow>
     ('s, cint option \<times> u8 list option) state" where
  "i2c_writeread K ep call n addr7 w wlen r rlen =
     (if (w = None \<and> wlen \<noteq> 0) \<or> (r = None \<and> rlen \<noteq> 0) \<or> wlen > 4 \<or> rlen > I2C_XFER_MAX
      then ret (Some (ULMK_EINVAL K), r)
      else do {
        x \<leftarrow> i2c_call K ep call n \<lparr>label = I2C_MSG_WRITEREAD,
          words = i2c_pack_bytes ((\<lambda>_. 0)(0 := ucast (addr7 AND 0x7F),
            1 := (of_nat wlen AND 0xFF) OR push_bit 8 (of_nat rlen AND 0xFF))) 2 w wlen\<rparr>;
        ret (case x of None \<Rightarrow> (None, r)
             | Some (rc, m) \<Rightarrow> (Some rc, if rc = ULMK_OK K
                 then map_option (\<lambda>d. i2c_unpack_bytes (words m) 2 d rlen) r else r))
      })"

definition i2c_probe ::
  "ulmk_abi \<Rightarrow> u32 \<Rightarrow> 's ep_call_opt \<Rightarrow> u8 \<Rightarrow> u8 \<Rightarrow> ('s, cint option) state" where
  "i2c_probe K ep call n addr7 = do {
     r \<leftarrow> i2c_call K ep call n \<lparr>label = I2C_MSG_PROBE, words = (\<lambda>_. 0)(0 := ucast (addr7 AND 0x7F))\<rparr>;
     ret (map_option fst r)
   }"

section \<open>The payload channels\<close>

text \<open>Client to server (WRITE) and server to client (READ): both are the shared byte layout.\<close>

interpretation i2c_request: payload_codec
  "\<lambda>ws bs. i2c_pack_bytes ws 2 (Some bs) (length bs)" "\<lambda>ws n. unpack_loop 2 n ws" 2 I2C_XFER_MAX
  by unfold_locales
     (simp_all add: i2c_pack_bytes_def Let_def min_absorb1 unpack_pack_cleared pack_loop_below
       clear_words_apply I2C_XFER_MAX_def)

interpretation i2c_answer: payload_codec
  "\<lambda>ws bs. pack_reply ws (length bs) bs" "\<lambda>ws n. unpack_loop 2 n ws" 2 I2C_XFER_MAX
  by unfold_locales
     (simp_all add: pack_reply_def min_absorb1 unpack_pack_cleared pack_loop_below
       clear_words_apply I2C_XFER_MAX_def)

lemma i2c_pack_header: "m < 2 \<Longrightarrow> i2c_pack_bytes ws 2 data len m = ws m"
  by (auto simp: i2c_pack_bytes_def Let_def pack_loop_below clear_words_apply split: option.splits)

lemma i2c_pack_take:
  "len \<le> I2C_XFER_MAX \<Longrightarrow> len \<le> length d \<Longrightarrow>
     i2c_pack_bytes ws 2 (Some d) len = i2c_pack_bytes ws 2 (Some (take len d)) (length (take len d))"
  by (simp add: i2c_pack_bytes_def Let_def min_def)

lemma addr7_ucast: "ucast (ucast (a AND 0x7F :: u8) :: u32) = (a AND 0x7F :: u8)"
  by (simp add: ucast_up_ucast_id is_up)

section \<open>Writing: from the client's buffer to the wire\<close>


section \<open>Reading: from the engine to the client's buffer\<close>

lemma pack_reply_take:
  "len \<le> I2C_XFER_MAX \<Longrightarrow> len \<le> length d \<Longrightarrow>
     pack_reply ws len d = pack_reply ws (length (take len d)) (take len d)"
  by (simp add: pack_reply_def min_def)

text \<open>What the client stores from the reply of a successful read is the server's buffer.\<close>

lemma client_unpacks_reply:
  assumes "len \<le> I2C_XFER_MAX" "len \<le> length rb"
  shows "i2c_unpack_bytes (pack_reply ws len rb) 2 data len = take len rb @ drop len data"
  using i2c_answer.fetch_store [of "take len rb" ws] pack_reply_take [OF assms, of ws] assms
  by (simp add: i2c_unpack_bytes_def Let_def min_absorb1 min_absorb2)

text \<open>C3: When \<open>i2c_read\<close> reports OK, the bytes in the client's buffer are the ones the DMA engine left in
  the RX slot of a transfer whose worker reported OK, and the rest of the buffer is untouched.\<close>

theorem i2c_read_end_to_end:
  assumes "i2c_inv st" "rx_ready K (i2c_dma st)" "ep \<noteq> ULMK_EP_INVALID K" "0 < len"
    "run_state (i2c_read K ep (i2c_ipc K fuel) 0 addr (Some data) len) st =
       ((Some (ULMK_OK K), Some d'), st')" "ULMK_EINVAL K \<noteq> ULMK_OK K"
  shows "\<exists>t b. others (i2c_dma st) t 2 = (ULMK_OK K, b) \<and> d' = map b [0..<len] @ drop len data"
proof -
  have len: "len \<le> I2C_XFER_MAX"
    using assms(5,6) by (auto simp: i2c_read_def split: if_splits)
  then have n: "unat (of_nat len :: u32) = len"
    by (simp add: unat_of_nat I2C_XFER_MAX_def)
  let ?m = "\<lparr>label = I2C_MSG_READ, words = (\<lambda>_. 0)(0 := ucast (addr AND 0x7F), 1 := of_nat len)\<rparr>"
  obtain rc rb st1 where run:
    "run_state (i2c_do_read K fuel (addr AND 0x7F) (srv_rbuf st) len) st = ((rc, rb), st1)"
    by (metis prod.collapse)
  then have disp: "run_state (i2c_dispatch K fuel ?m) st = (read_reply K rc rb len, st1\<lparr>srv_rbuf := rb\<rparr>)"
    by (simp add: i2c_dispatch_def Let_def const_defs n addr7_ucast)
  have rb: "length rb = I2C_XFER_MAX"
    using tripleD [OF triple_do_read assms(1) run] assms(1) by (simp add: i2c_inv_def)
  have reply0: "words (the (read_reply K (Some r) rb len)) 0 = r" for r
    by (simp add: read_reply_def i2c_reply_def pack_reply_def pack_loop_below clear_words_apply)
  have rc: "rc = Some (ULMK_OK K)"
    using assms(3,5) len disp reply0
    by (cases rc) (auto simp: i2c_read_def i2c_call_def i2c_ipc_def read_reply_def simp del: One_nat_def
        split: if_splits)
  then have "d' = i2c_unpack_bytes (words (the (read_reply K rc rb len))) 2 data len"
    using assms(3,5) len disp reply0 [of "ULMK_OK K"]
    by (auto simp: i2c_read_def i2c_call_def i2c_ipc_def read_reply_def simp del: One_nat_def)
  then have "d' = take len rb @ drop len data"
    using rc rb len by (simp add: read_reply_def client_unpacks_reply)
  moreover obtain t b where "others (i2c_dma st) t 2 = (ULMK_OK K, b)" "take len rb = map b [0..<len]"
    using do_read_ok [OF assms(1,2,4) len] run rc by blast
  ultimately show ?thesis
    by auto
qed

definition i2c_boot ::
  "(i2c_act event list \<Rightarrow> i2c_act event \<Rightarrow> u32) \<Rightarrow> dma_st \<Rightarrow> pinmux_st \<Rightarrow> (nat \<Rightarrow> u8) \<Rightarrow> i2c_st" where
  "i2c_boot ans d p stack = \<lparr>trace = [], answer = ans, fault = False, g_i2c_ep = 0, g_i2c_notif = 0,
     g_tx_buf = replicate I2C_XFER_MAX 0, g_rx_buf = replicate I2C_XFER_MAX 0, g_bitrate = 0,
     srv_wbuf = map stack [0..<I2C_XFER_MAX], srv_rbuf = map stack [0..<I2C_XFER_MAX],
     i2c_dma = d, i2c_pinmux_st = p\<rparr>"

text \<open>A state after bring-up for the examples: the RX slot is open, the engine leaves the bytes
  0, 1, 2, ..., and the status register always shows STOPF.\<close>

definition rx_dma :: dma_st where
  "rx_dma = dma_idle\<lparr>g_dma_ep := 7, g_slots := (g_slots dma_idle)[1 := zero_slot\<lparr>slot_open := 1, slot_flags := 3\<rparr>,
     2 := zero_slot\<lparr>slot_open := 1, slot_flags := 2\<rparr>],
     others := (\<lambda>_ _. (0, \<lambda>i. of_nat i))\<rparr>"

definition i2c_idle :: i2c_st where
  "i2c_idle = i2c_boot (\<lambda>_ e. if e = Dev (I2c_rd I2C_ISR) then 0x20 else 0) rx_dma
     (pinmux_boot (\<lambda>_ _. 0)) (\<lambda>_. 0)"

lemma rx_dma_slots: "g_slots rx_dma = [zero_slot, zero_slot\<lparr>slot_open := 1, slot_flags := 3\<rparr>,
    zero_slot\<lparr>slot_open := 1, slot_flags := 2\<rparr>]"
  by (simp add: rx_dma_def dma_idle_def dma_boot_def DMA_MAX_SLOTS_def numeral_2_eq_2 numeral_3_eq_3)

lemma rx_dma_fields: "g_dma_ep rx_dma = 7" "others rx_dma = (\<lambda>_ _. (0, \<lambda>i. of_nat i))"
  "answer rx_dma = (\<lambda>_ _. 0)" "trace rx_dma = []" "length (disp_tmp rx_dma) = DMA_XFER_MAX" "fault rx_dma = False"
  by (simp_all add: rx_dma_def dma_idle_def dma_boot_def)

lemma i2c_idle_ok: "i2c_inv i2c_idle" "rx_ready sample_abi (i2c_dma i2c_idle)"
  by (simp_all add: i2c_inv_def i2c_idle_def i2c_boot_def dma_safe_def dma_inv_def rx_dma_slots rx_dma_fields
      DMA_MAX_SLOTS_def slot_wf_def zero_slot_def rx_ready_def sample_abi_def slot_closed_def const_defs)

lemma pack_reply_header: "m < 2 \<Longrightarrow> pack_reply ws len d m = ws m"
  by (simp add: pack_reply_def pack_loop_below clear_words_apply)

lemma rx_dma_bytes: "unpack_loop 2 3 (pack_payload ws 2 (0 # 1 # 2 # drop 3 (disp_tmp rx_dma)) 3) = [0, 1, 2]"
  using unpack_pack_payload [of "0 # 1 # 2 # drop 3 (disp_tmp rx_dma)" 3 ws]
  by (simp add: rx_dma_fields DMA_XFER_MAX_def)

lemma i2c_idle_read:
  "\<exists>st'. run_state (i2c_read sample_abi 9 (i2c_ipc sample_abi 1) 0 0x38 (Some [9, 9, 9, 9]) 3) i2c_idle =
     ((Some 0, Some [0, 1, 2, 9]), st')"
  by (simp add: i2c_read_def i2c_call_def i2c_ipc_def i2c_dispatch_def Let_def const_defs
    i2c_do_read_def I2C_XFER_MAX_def sample_abi_def i2c_idle_def i2c_boot_def
    call_dma_arm_def call_dma_wait_def on_dma_def rx_dma_fields dma_arm_def dma_wait_def dma_call_def
    ipc_def dma_dispatch_def do_arm_def do_wait_def slot_closed_def rx_dma_slots
    resume_slot_def I2C_ISR_STOPF_def I2C_ISR_NACKF_def pack_payload_header recover_on_error_def
    read_reply_def i2c_reply_def pack_reply_header client_unpacks_reply upt_rec unpack_bytes_def
    DMA_XFER_MAX_def rx_dma_bytes)


theorem i2c_read_end_to_end_witness:
  "\<exists>t b st'. run_state (i2c_read sample_abi 9 (i2c_ipc sample_abi 1) 0 0x38 (Some [9, 9, 9, 9]) 3) i2c_idle =
      ((Some 0, Some [0, 1, 2, 9]), st') \<and> others (i2c_dma i2c_idle) t 2 = (0, b) \<and>
      [0, 1, 2, 9] = map b [0..<3] @ drop 3 [9, 9, 9, 9]"
proof -
  obtain st' where run: "run_state (i2c_read sample_abi 9 (i2c_ipc sample_abi 1) 0 0x38 (Some [9, 9, 9, 9]) 3)
      i2c_idle = ((Some 0, Some [0, 1, 2, 9]), st')"
    using i2c_idle_read by blast
  have ok: "ULMK_OK sample_abi = 0" "ULMK_EINVAL sample_abi \<noteq> 0" "(9 :: u32) \<noteq> ULMK_EP_INVALID sample_abi"
    by (simp_all add: sample_abi_def)
  from i2c_read_end_to_end [OF i2c_idle_ok ok(3), of 3 1 "0x38" "[9, 9, 9, 9]" "[0, 1, 2, 9]" st'] run ok
  show ?thesis by auto
qed

section \<open>Safety from boot\<close>

lemma keeps_i2c_init: "keeps i2c_inv (i2c_init K n rate)"
  unfolding i2c_init_def by (intro keeps_intros keeps_i2c_modify)

lemma keeps_i2c_start: "keeps i2c_inv (i2c_server_start K)"
  unfolding i2c_server_start_def i2c_pinmux_def i2c_hw_init_def Let_def by (intro keeps_intros)


section \<open>Waiting\<close>

lemma emits_recover_poll:
  "emits (\<lambda>e. e = Kern (Sleep_ms 1)) n (recover_poll n)" "emits (\<lambda>_. True) (2 * n) (recover_poll n)"
proof (induction n)
  case 0
  show "emits (\<lambda>e. e = Kern (Sleep_ms 1)) 0 (recover_poll 0)" "emits (\<lambda>_. True) (2 * 0) (recover_poll 0)"
    by (simp_all add: emits_pure)
next
  case (Suc n)
  show "emits (\<lambda>e. e = Kern (Sleep_ms 1)) (Suc n) (recover_poll (Suc n))"
    by (simp, rule emits_weaken, (rule emits_intros Suc.IH | rule emits_one)+, simp)
  show "emits (\<lambda>_. True) (2 * Suc n) (recover_poll (Suc n))"
    by (simp, rule emits_weaken, (rule emits_intros Suc.IH | rule emits_one)+, simp)
qed

text \<open>The bus recovery always comes to an end: at most 51 one-millisecond sleeps and 110
  interactions, whatever the status register shows.\<close>

theorem i2c_recovery_bounded:
  "emits (\<lambda>e. e = Kern (Sleep_ms 1)) 51 i2c_bus_recover \<and> emits (\<lambda>_. True) 110 i2c_bus_recover"
proof
  show "emits (\<lambda>e. e = Kern (Sleep_ms 1)) 51 i2c_bus_recover"
    unfolding i2c_bus_recover_def
    by (rule emits_weaken, (rule emits_intros emits_recover_poll | rule emits_one)+) simp
  show "emits (\<lambda>_. True) 110 i2c_bus_recover"
    unfolding i2c_bus_recover_def
    by (rule emits_weaken, (rule emits_intros emits_recover_poll | rule emits_one)+) simp
qed

text \<open>The wait for STOP or NACK is still pending after \<open>fuel\<close> rounds only if every round has
  blocked once on the interrupt notification: the server never spins without an interrupt, and a
  flag raised by the hardware ends the wait at the next one.\<close>

theorem i2c_wait_pending:
  assumes "run_state (wait_stop_or_nack K fuel) st = (None, st')"
  shows "\<exists>es. trace st' = trace st @ es \<and>
    count_ev (\<lambda>e. e = Kern (Notif_wait (g_i2c_notif st) 1)) es = fuel"
  using assms
proof (induction fuel arbitrary: st)
  case 0
  then show ?case by (simp add: count_ev_def)
next
  case (Suc fuel)
  let ?n = "g_i2c_notif st"
  let ?st = "st\<lparr>trace := trace st @ [Dev (I2c_rd I2C_ISR), Dev (I2c_rd I2C_ISR),
     Kern (Irq_ack IRQ_I2C3_EV), Kern (Notif_wait ?n 1), Kern (Irq_ack IRQ_I2C3_EV)]\<rparr>"
  have "run_state (wait_stop_or_nack K fuel) ?st = (None, st')"
    using Suc.prems by (auto simp: check_nack_def wait_ev_def split: if_splits)
  from Suc.IH [OF this] obtain es where
    "trace st' = trace ?st @ es" "count_ev (\<lambda>e. e = Kern (Notif_wait ?n 1)) es = fuel"
    by auto
  then show ?case
    by (intro exI [of _ "[Dev (I2c_rd I2C_ISR), Dev (I2c_rd I2C_ISR),
     Kern (Irq_ack IRQ_I2C3_EV), Kern (Notif_wait ?n 1), Kern (Irq_ack IRQ_I2C3_EV)] @ es"])
       (simp add: count_ev_def)
qed

theorem i2c_wait_pending_witness:
  "\<exists>es. trace (snd (run_state (wait_stop_or_nack sample_abi 1) (i2c_boot (\<lambda>_ _. 0) rx_dma (pinmux_boot (\<lambda>_ _. 0)) (\<lambda>_. 0))))
     = es \<and> count_ev (\<lambda>e. e = Kern (Notif_wait 0 1)) es = 1"
proof -
  let ?st = "i2c_boot (\<lambda>_ _. 0) rx_dma (pinmux_boot (\<lambda>_ _. 0)) (\<lambda>_. 0)"
  obtain st' where "run_state (wait_stop_or_nack sample_abi 1) ?st = (None, st')"
    by (simp add: i2c_boot_def wait_ev_def sample_abi_def)
  with i2c_wait_pending [OF this] show ?thesis
    by (simp add: i2c_boot_def)
qed

section \<open>WRITEREAD\<close>

lemma grows_do_read: "grows (i2c_do_read K fuel addr data len)"
  unfolding i2c_do_read_def by (intro grows_intros)

lemma do_writeread_log:
  assumes "0 < wlen" "wlen \<le> I2C_XFER_MAX" "0 < rlen" "rlen \<le> I2C_XFER_MAX"
    "run_state (i2c_do_writeread K fuel addr w wlen r rlen) st = (x, st')"
  shows "\<exists>tl. trace st' = trace st @ Dev (I2c_wr I2C_ICR 0x3F38)
      # Dev (Call_dma_arm DMA_SLOT_I2C_TX I2C_TXDR_PHYS (Some (take wlen w @ drop wlen (g_tx_buf st))) wlen) # tl"
proof -
  obtain rc st1 where wr: "run_state (i2c_do_write K fuel addr (Some w) wlen) st = (rc, st1)"
    by (metis prod.collapse)
  have "run_state (i2c_do_writeread K fuel addr w wlen r rlen) st =
      (if rc \<noteq> Some (ULMK_OK K) then ((rc, r), st1) else run_state (i2c_do_read K fuel addr r rlen) st1)"
    using assms(1-4) wr by (simp add: i2c_do_writeread_def)
  then have "\<exists>es. trace st' = trace st1 @ es"
    using assms(5) growsD [OF grows_do_read, of K fuel addr r rlen st1 x st']
    by (cases "rc = Some (ULMK_OK K)") auto
  with do_write_trace [OF assms(1,2) wr] show ?thesis
    by auto
qed

text \<open>C9: A WRITEREAD request whose write length is 5 to 16 unpacks only four bytes, and the server
  transmits the bytes an earlier request left in its buffer for the rest.\<close>

theorem i2c_writeread_sends_stale:
  assumes "label m = I2C_MSG_WRITEREAD" "wlen = unat (words m 1 AND 0xFF)"
    "4 < wlen" "wlen \<le> I2C_XFER_MAX" "length (srv_wbuf st) = I2C_XFER_MAX"
    "rlen = unat (drop_bit 8 (words m 1) AND 0xFF)" "0 < rlen" "rlen \<le> I2C_XFER_MAX"
    "run_state (i2c_dispatch K fuel m) st = (r, st')"
  shows "\<exists>tx tl. trace st' = trace st @ Dev (I2c_wr I2C_ICR 0x3F38)
      # Dev (Call_dma_arm DMA_SLOT_I2C_TX I2C_TXDR_PHYS (Some tx) wlen) # tl \<and>
    take (wlen - 4) (drop 4 tx) = take (wlen - 4) (drop 4 (srv_wbuf st))"
proof -
  let ?wbuf = "unpack_loop 2 4 (words m) @ drop 4 (srv_wbuf st)"
  let ?st = "st\<lparr>srv_wbuf := ?wbuf\<rparr>"
  obtain rc rb st1 where run: "run_state (i2c_do_writeread K fuel (ucast (words m 0)) ?wbuf wlen
      (srv_rbuf st) rlen) ?st = ((rc, rb), st1)"
    by (metis prod.collapse)
  have "st' = st1\<lparr>srv_rbuf := rb\<rparr>"
    using assms(1,3,9) run unfolding assms(2,6) by (simp add: i2c_dispatch_def Let_def const_defs)
  moreover have "take (wlen - 4) (drop 4 (take wlen ?wbuf @ drop wlen (g_tx_buf st))) =
      take (wlen - 4) (drop 4 (srv_wbuf st))"
    using assms(3-5) by (simp add: drop_take)
  moreover have "0 < wlen"
    using assms(3) by simp
  from do_writeread_log [OF this assms(4,7,8) run] obtain tl where
    "trace st1 = trace st @ Dev (I2c_wr I2C_ICR 0x3F38)
      # Dev (Call_dma_arm DMA_SLOT_I2C_TX I2C_TXDR_PHYS (Some (take wlen ?wbuf @ drop wlen (g_tx_buf st))) wlen) # tl"
    by auto
  ultimately show ?thesis
    by (intro exI [of _ "take wlen ?wbuf @ drop wlen (g_tx_buf st)"] exI [of _ tl]) simp
qed

theorem i2c_writeread_sends_stale_witness:
  "\<exists>tx tl r st'. run_state (i2c_dispatch sample_abi 1 \<lparr>label = I2C_MSG_WRITEREAD,
       words = (\<lambda>_. 0)(0 := 0x38, 1 := 0x0106, 2 := 0x04030201)\<rparr>)
       (i2c_idle\<lparr>srv_wbuf := replicate I2C_XFER_MAX 0xEE\<rparr>) = (r, st') \<and>
     trace st' = Dev (I2c_wr I2C_ICR 0x3F38)
      # Dev (Call_dma_arm DMA_SLOT_I2C_TX I2C_TXDR_PHYS (Some tx) 6) # tl \<and>
     take 2 (drop 4 tx) = [0xEE, 0xEE]"
proof -
  let ?m = "\<lparr>label = I2C_MSG_WRITEREAD, words = (\<lambda>_. 0)(0 := 0x38, 1 := 0x0106, 2 := 0x04030201)\<rparr> :: msg"
  let ?st = "i2c_idle\<lparr>srv_wbuf := replicate I2C_XFER_MAX 0xEE\<rparr>"
  obtain r st' where run: "run_state (i2c_dispatch sample_abi 1 ?m) ?st = (r, st')"
    by (metis prod.collapse)
  have "trace ?st = []"
    by (simp add: i2c_idle_def i2c_boot_def)
  moreover have "6 = unat (words ?m 1 AND 0xFF)" "1 = unat (drop_bit 8 (words ?m 1) AND 0xFF)"
    by simp_all
  moreover have "take 2 (drop 4 (replicate I2C_XFER_MAX (0xEE :: u8))) = [0xEE, 0xEE]"
    by (simp add: I2C_XFER_MAX_def numeral_2_eq_2)
  ultimately show ?thesis
    using i2c_writeread_sends_stale [OF _ _ _ _ _ _ _ _ run, of 6 1] run
    by (auto simp: I2C_XFER_MAX_def)
qed

end
