(* ===== verification/Console_Tc275.thy ===== *)
theory Console_Tc275
  imports Payload
begin

text \<open>
  The board console of the TC275 board: \<^verbatim>\<open>tc275_lite/board_console.c\<close>.  The first part is the
  formatter of \<open>board_console_printf\<close>, the second the server with its RAM log, the third the
  client calls.  Characters are bytes.  A C string is the memory from the pointer on, as a byte
  list; reading past the end of the list is an access outside the object (a fault).
  \<open>W\<close> is \<open>ULMK_MSG_WORDS\<close>, the number of words of a message.
\<close>

section \<open>Number formatting\<close>

definition CONSOLE_LOG_SIZE :: nat where "CONSOLE_LOG_SIZE = 2048"
definition CONSOLE_WRITE_MAX :: nat where "CONSOLE_WRITE_MAX = 256"
definition CONSOLE_FMT_BUF :: nat where "CONSOLE_FMT_BUF = 160"
definition CONSOLE_MSG_PUTC :: u32 where [const_defs]: "CONSOLE_MSG_PUTC = 1"
definition CONSOLE_MSG_WRITE :: u32 where [const_defs]: "CONSOLE_MSG_WRITE = 2"

definition CONSOLE_CHUNK_MAX :: "nat \<Rightarrow> nat" where
  "CONSOLE_CHUNK_MAX W = (W - 1) * 4"

text \<open>\<open>if (*pos < cap) out[(*pos)++] = c\<close>: the output so far is the list, \<open>pos\<close> its length.\<close>

definition put_char :: "nat \<Rightarrow> u8 list \<Rightarrow> u8 \<Rightarrow> u8 list" where
  "put_char cap out c = (if length out < cap then out @ [c] else out)"

text \<open>The loop \<open>while (n > 0u)\<close> that empties \<open>tmp\<close> from the top; the argument is \<open>tmp\<close> reversed.\<close>

fun put_digits :: "nat \<Rightarrow> u8 list \<Rightarrow> u8 list \<Rightarrow> u8 list" where
  "put_digits cap out [] = out"
| "put_digits cap out (c # cs) = (if cap \<le> length out then out else put_digits cap (out @ [c]) cs)"

text \<open>The loops that fill \<open>tmp\<close>, least significant digit first; \<open>n\<close> is the room left in \<open>tmp\<close>.\<close>

fun dec_loop :: "nat \<Rightarrow> u32 \<Rightarrow> u8 list" where
  "dec_loop 0 v = []"
| "dec_loop (Suc n) v = (if v = 0 then [] else (0x30 + ucast (v mod 10)) # dec_loop n (v div 10))"

definition hex_digits :: "bool \<Rightarrow> u8 list" where
  "hex_digits upper = map (\<lambda>i. if i < 10 then 0x30 + of_nat i
     else (if upper then 0x41 else 0x61) + of_nat (i - 10)) [0..<16]"

fun hex_loop :: "nat \<Rightarrow> bool \<Rightarrow> u32 \<Rightarrow> u8 list" where
  "hex_loop 0 upper v = []"
| "hex_loop (Suc n) upper v =
     (if v = 0 then [] else hex_digits upper ! unat (v AND 0xF) # hex_loop n upper (drop_bit 4 v))"

definition fmt_u32 :: "u8 list \<Rightarrow> nat \<Rightarrow> u32 \<Rightarrow> u8 list" where
  "fmt_u32 out cap v =
     (if v = 0 then put_char cap out 0x30 else put_digits cap out (rev (dec_loop 10 v)))"

definition fmt_i32 :: "u8 list \<Rightarrow> nat \<Rightarrow> u32 \<Rightarrow> u8 list" where
  "fmt_i32 out cap v =
     (if c_neg v then fmt_u32 (put_char cap out 0x2D) cap (- (v + 1) + 1) else fmt_u32 out cap v)"

text \<open>\<open>unsigned long\<close> has 32 bits on TriCore.\<close>

definition fmt_ulong :: "u8 list \<Rightarrow> nat \<Rightarrow> u32 \<Rightarrow> u8 list" where
  "fmt_ulong out cap v =
     (if v = 0 then put_char cap out 0x30 else put_digits cap out (rev (dec_loop 20 v)))"

definition fmt_hex :: "u8 list \<Rightarrow> nat \<Rightarrow> u32 \<Rightarrow> bool \<Rightarrow> u8 list" where
  "fmt_hex out cap v upper =
     (if v = 0 then put_char cap out 0x30 else put_digits cap out (rev (hex_loop 16 upper v)))"

text \<open>The loop over a string: \<open>None\<close> when it reads past the end of the memory.\<close>

fun fmt_str_loop :: "nat \<Rightarrow> u8 list \<Rightarrow> u8 list \<Rightarrow> u8 list option" where
  "fmt_str_loop cap out [] = None"
| "fmt_str_loop cap out (c # cs) =
     (if c = 0 then Some out
      else if cap \<le> length out then Some out
      else fmt_str_loop cap (out @ [c]) cs)"

definition null_text :: "u8 list" where
  "null_text = [0x28, 0x6E, 0x75, 0x6C, 0x6C, 0x29, 0]"

definition fmt_str :: "u8 list \<Rightarrow> nat \<Rightarrow> u8 list option \<Rightarrow> u8 list option" where
  "fmt_str out cap s = fmt_str_loop cap out (case s of None \<Rightarrow> null_text | Some s \<Rightarrow> s)"

section \<open>The format interpreter\<close>

text \<open>
  A variadic argument is a number or a string pointer.  Reading an argument that was not passed,
  or one of the wrong kind, is undefined: \<open>None\<close>, like a read outside a string.
\<close>

datatype varg = Num u32 | Ptr "u8 list option"

definition next_num :: "varg list \<Rightarrow> (u32 \<times> varg list) option" where
  "next_num args = (case args of Num v # rest \<Rightarrow> Some (v, rest) | _ \<Rightarrow> None)"

definition next_str :: "varg list \<Rightarrow> (u8 list option \<times> varg list) option" where
  "next_str args = (case args of Ptr s # rest \<Rightarrow> Some (s, rest) | _ \<Rightarrow> None)"

text \<open>The switch on the conversion character.\<close>

definition conversion ::
  "bool \<Rightarrow> u8 \<Rightarrow> varg list \<Rightarrow> nat \<Rightarrow> u8 list \<Rightarrow> (u8 list \<times> varg list) option" where
  "conversion is_long c args cap out =
     (if c = 0x63 then map_option (\<lambda>(v, r). (put_char cap out (ucast v), r)) (next_num args)
      else if c = 0x73 then Option.bind (next_str args)
        (\<lambda>(s, r). map_option (\<lambda>out. (out, r)) (fmt_str out cap s))
      else if c = 0x64 \<or> c = 0x69 then map_option (\<lambda>(v, r). (fmt_i32 out cap v, r)) (next_num args)
      else if c = 0x75 then map_option (\<lambda>(v, r). (if is_long then fmt_ulong out cap v
        else fmt_u32 out cap v, r)) (next_num args)
      else if c = 0x78 then map_option (\<lambda>(v, r). (fmt_hex out cap v False, r)) (next_num args)
      else if c = 0x58 then map_option (\<lambda>(v, r). (fmt_hex out cap v True, r)) (next_num args)
      else if c = 0x70 then map_option (\<lambda>(v, r).
        (fmt_hex (put_char cap (put_char cap out 0x30) 0x78) cap v False, r)) (next_num args)
      else if c = 0x25 then Some (put_char cap out 0x25, args)
      else Some (put_char cap out 0x3F, args))"

text \<open>Flags, width and length modifier: the rest of the format and whether it is long.\<close>

definition skip_flags :: "u8 list \<Rightarrow> u8 list" where
  "skip_flags fs = dropWhile (\<lambda>c. 0x31 \<le> c \<and> c \<le> 0x39) (dropWhile (\<lambda>c. c = 0x30) fs)"

definition length_mod :: "u8 list \<Rightarrow> bool \<times> u8 list" where
  "length_mod fs =
     (case fs of [] \<Rightarrow> (False, [])
      | c # cs \<Rightarrow> if c = 0x6C then (True, cs) else if c = 0x7A then (False, cs) else (False, c # cs))"

lemma length_skip_flags: "length (skip_flags fs) \<le> length fs"
  unfolding skip_flags_def by (meson length_dropWhile_le le_trans)

lemma length_length_mod: "length (snd (length_mod fs)) \<le> length fs"
  by (auto simp: length_mod_def split: list.splits)

text \<open>
  The loop over the format.  \<open>None\<close> is undefined behaviour: the format or a string is read
  past its end, or an argument is missing.
\<close>

function printf_loop :: "u8 list \<Rightarrow> varg list \<Rightarrow> u8 list \<Rightarrow> u8 list option" where
  "printf_loop [] args out = None"
| "printf_loop (c # fs) args out =
     (if c = 0 \<or> CONSOLE_FMT_BUF \<le> length out then Some out
      else if c \<noteq> 0x25 then printf_loop fs args (out @ [c])
      else case length_mod (skip_flags fs) of
          (is_long, []) \<Rightarrow> None
        | (is_long, conv # fs') \<Rightarrow>
            (case conversion is_long conv args CONSOLE_FMT_BUF out of
               None \<Rightarrow> None
             | Some (out', args') \<Rightarrow> printf_loop fs' args' out'))"
  by pat_completeness auto
termination
proof (relation "measure (\<lambda>(fs, args, out). length fs)")
  fix c :: u8 and fs fs' :: "u8 list" and out args x is_long conv x2 out' args'
  assume "(is_long, x2) = length_mod (skip_flags fs)" "x2 = conv # fs'"
  then have "Suc (length fs') \<le> length fs"
    using length_length_mod [of "skip_flags fs"] length_skip_flags [of fs] by (metis le_trans length_Cons snd_conv)
  then show "((fs', args', out'), c # fs, args, out) \<in> measure (\<lambda>(fs, args, out). length fs)"
    by simp
qed auto

definition printf_text :: "u8 list \<Rightarrow> varg list \<Rightarrow> u8 list option" where
  "printf_text fmt args = printf_loop fmt args []"

section \<open>What the formatter prints\<close>

text \<open>The texts of the conversions, without the bound of the output buffer.\<close>

definition dec_text :: "nat \<Rightarrow> u32 \<Rightarrow> u8 list" where
  "dec_text room v = (if v = 0 then [0x30] else rev (dec_loop room v))"

definition int_text :: "u32 \<Rightarrow> u8 list" where
  "int_text v = (if c_neg v then 0x2D # dec_text 10 (- v) else dec_text 10 v)"

definition hex_text :: "bool \<Rightarrow> u32 \<Rightarrow> u8 list" where
  "hex_text upper v = (if v = 0 then [0x30] else rev (hex_loop 16 upper v))"

definition str_text :: "u8 list option \<Rightarrow> u8 list" where
  "str_text s = (case s of None \<Rightarrow> butlast null_text | Some s \<Rightarrow> takeWhile (\<lambda>c. c \<noteq> 0) s)"

text \<open>Every output operation appends and truncates at the capacity.\<close>

definition clip :: "nat \<Rightarrow> u8 list \<Rightarrow> u8 list" where
  "clip n xs = take n xs"

lemma clip_clip [simp]: "clip n (clip n xs @ ys) = clip n (xs @ ys)"
  by (simp add: clip_def min_def)

lemma clip_short [simp]: "length xs \<le> n \<Longrightarrow> clip n xs = xs"
  by (simp add: clip_def)

lemma clip_full [simp]: "n \<le> length xs \<Longrightarrow> clip n (xs @ ys) = clip n xs"
  by (simp add: clip_def)

lemma length_clip [simp]: "length (clip n xs) \<le> n"
  by (simp add: clip_def)

lemma put_char_clip: "length out \<le> cap \<Longrightarrow> put_char cap out c = clip cap (out @ [c])"
  by (auto simp: put_char_def)

lemma put_digits_clip: "length out \<le> cap \<Longrightarrow> put_digits cap out cs = clip cap (out @ cs)"
proof (induction cs arbitrary: out)
  case (Cons c cs)
  then show ?case
    by (cases "cap \<le> length out") (auto simp: not_le)
qed simp

lemma fmt_number_clip:
  assumes "length out \<le> cap"
  shows "fmt_u32 out cap v = clip cap (out @ dec_text 10 v)"
    and "fmt_i32 out cap v = clip cap (out @ int_text v)"
    and "fmt_ulong out cap v = clip cap (out @ dec_text 20 v)"
    and "fmt_hex out cap v upper = clip cap (out @ hex_text upper v)"
proof -
  have u: "fmt_u32 out cap v = clip cap (out @ dec_text 10 v)" if "length out \<le> cap" for out v
    using that by (simp add: fmt_u32_def dec_text_def put_char_clip put_digits_clip)
  have "clip cap (clip cap (out @ [0x2D]) @ dec_text 10 w) = clip cap (out @ 0x2D # dec_text 10 w)" for w
    by simp
  with assms show "fmt_i32 out cap v = clip cap (out @ int_text v)"
    by (simp add: fmt_i32_def int_text_def put_char_clip u)
  show "fmt_u32 out cap v = clip cap (out @ dec_text 10 v)"
    using assms by (rule u)
  show "fmt_ulong out cap v = clip cap (out @ dec_text 20 v)"
    "fmt_hex out cap v upper = clip cap (out @ hex_text upper v)"
    using assms by (simp_all add: fmt_ulong_def fmt_hex_def dec_text_def hex_text_def
        put_char_clip put_digits_clip)
qed

lemma fmt_str_loop_clip:
  assumes "length out \<le> cap" "0 \<in> set s"
  shows "fmt_str_loop cap out s = Some (clip cap (out @ takeWhile (\<lambda>c. c \<noteq> 0) s))"
  using assms
proof (induction s arbitrary: out)
  case (Cons c cs)
  then show ?case
    by (cases "cap \<le> length out") (auto simp: not_le)
qed simp

lemma fmt_str_clip:
  assumes "length out \<le> cap" "s = None \<or> 0 \<in> set (the s)"
  shows "fmt_str out cap s = Some (clip cap (out @ str_text s))"
proof (cases s)
  case None
  then show ?thesis
    using fmt_str_loop_clip [OF assms(1), of null_text]
    by (simp add: fmt_str_def str_text_def null_text_def)
next
  case (Some x)
  then show ?thesis
    using fmt_str_loop_clip [OF assms(1), of x] assms(2) by (simp add: fmt_str_def str_text_def)
qed

text \<open>The conversions as texts; the argument of \<^verbatim>\<open>%s\<close> must be \<open>NULL\<close> or a terminated string.\<close>

definition conv_text :: "bool \<Rightarrow> u8 \<Rightarrow> varg list \<Rightarrow> (u8 list \<times> varg list) option" where
  "conv_text is_long c args =
     (if c = 0 then None
      else if c = 0x63 then map_option (\<lambda>(v, r). ([ucast v], r)) (next_num args)
      else if c = 0x73 then Option.bind (next_str args)
        (\<lambda>(s, r). if s = None \<or> 0 \<in> set (the s) then Some (str_text s, r) else None)
      else if c = 0x64 \<or> c = 0x69 then map_option (\<lambda>(v, r). (int_text v, r)) (next_num args)
      else if c = 0x75 then map_option (\<lambda>(v, r). (dec_text (if is_long then 20 else 10) v, r)) (next_num args)
      else if c = 0x78 then map_option (\<lambda>(v, r). (hex_text False v, r)) (next_num args)
      else if c = 0x58 then map_option (\<lambda>(v, r). (hex_text True v, r)) (next_num args)
      else if c = 0x70 then map_option (\<lambda>(v, r). ([0x30, 0x78] @ hex_text False v, r)) (next_num args)
      else if c = 0x25 then Some ([0x25], args)
      else Some ([0x3F], args))"

lemma conversion_clip:
  assumes "length out \<le> cap" "conv_text is_long c args = Some (t, args')"
  shows "conversion is_long c args cap out = Some (clip cap (out @ t), args')"
proof -
  have "clip cap (clip cap (clip cap (out @ [0x30]) @ [0x78]) @ x) = clip cap (out @ 0x30 # 0x78 # x)" for x
    by simp
  with assms show ?thesis
    by (auto simp: conversion_def conv_text_def fmt_number_clip put_char_clip fmt_str_clip
        split: if_splits Option.bind_splits simp del: clip_clip)
qed

text \<open>\<open>renders fmt args t\<close>: the meaning of a complete format and its arguments is the text \<open>t\<close>.\<close>

inductive renders :: "u8 list \<Rightarrow> varg list \<Rightarrow> u8 list \<Rightarrow> bool" where
  finish: "renders (0 # rest) args []"
| literal: "c \<noteq> 0 \<Longrightarrow> c \<noteq> 0x25 \<Longrightarrow> renders fs args t \<Longrightarrow> renders (c # fs) args (c # t)"
| directive: "length_mod (skip_flags fs) = (is_long, conv # fs') \<Longrightarrow>
    conv_text is_long conv args = Some (p, args') \<Longrightarrow> renders fs' args' t \<Longrightarrow>
    renders (0x25 # fs) args (p @ t)"

lemma printf_loop_renders:
  "renders fs args t \<Longrightarrow> length out \<le> CONSOLE_FMT_BUF \<Longrightarrow>
     printf_loop fs args out = Some (clip CONSOLE_FMT_BUF (out @ t))"
proof (induction arbitrary: out rule: renders.induct)
  case (literal c fs args t)
  then show ?case
    by (cases "CONSOLE_FMT_BUF \<le> length out") auto
next
  case (directive fs is_long conv fs' args p args' t)
  show ?case
  proof (cases "CONSOLE_FMT_BUF \<le> length out")
    case False
    then have "length out \<le> CONSOLE_FMT_BUF" by simp
    from conversion_clip [OF this directive.hyps(2)] False directive.hyps(1) directive.IH show ?thesis
      by simp
  qed (use directive.prems in simp)
qed simp

section \<open>Numbers read back\<close>

definition digit_value :: "u8 \<Rightarrow> nat" where
  "digit_value c = (if c \<le> 0x39 then unat c - 0x30
     else if c \<le> 0x5A then unat c - 0x41 + 10 else unat c - 0x61 + 10)"

definition read_base :: "nat \<Rightarrow> u8 list \<Rightarrow> nat" where
  "read_base b cs = foldl (\<lambda>a c. a * b + digit_value c) 0 cs"

definition read_int :: "u8 list \<Rightarrow> int" where
  "read_int cs = (if cs \<noteq> [] \<and> hd cs = 0x2D then - int (read_base 10 (tl cs)) else int (read_base 10 cs))"

lemma read_base_rev: "read_base b (rev cs) = foldr (\<lambda>c a. a * b + digit_value c) cs 0"
  by (simp add: read_base_def foldl_conv_foldr)

lemma digit_value_dec:
  assumes "d < (10 :: u32)"
  shows "digit_value (0x30 + ucast d) = unat d" "0x30 + ucast d \<noteq> (0x2D :: u8)"
proof -
  have d: "unat d < 10"
    using assms by (simp add: word_less_nat_alt)
  then have "unat (0x30 + ucast d :: u8) = 48 + unat d"
    by (simp add: unat_word_ariths unsigned_ucast_eq take_bit_eq_mod)
  with d show "digit_value (0x30 + ucast d) = unat d" "0x30 + ucast d \<noteq> (0x2D :: u8)"
    by (auto simp: digit_value_def word_le_nat_alt word_unat_eq_iff)
qed

lemma dec_loop_value:
  "unat v < 10 ^ n \<Longrightarrow> foldr (\<lambda>c a. a * 10 + digit_value c) (dec_loop n v) 0 = unat v"
proof (induction n arbitrary: v)
  case (Suc n)
  have "v mod 10 < 10"
    by (simp add: word_less_nat_alt unat_mod)
  moreover have "unat (v div 10) = unat v div 10" "unat (v mod 10) = unat v mod 10"
    by (simp_all add: unat_div unat_mod)
  moreover have "unat v div 10 < 10 ^ n"
    using Suc.prems by (simp add: less_mult_imp_div_less mult.commute)
  ultimately show ?case
    using Suc.IH [of "v div 10"] by (auto simp: digit_value_dec)
qed (simp add: unat_eq_0)

lemma dec_text_value:
  assumes "10 \<le> room"
  shows "read_base 10 (dec_text room v) = unat v"
proof -
  have "unat v < 10 ^ 10"
    using unat_u32 [of v] by simp
  also have "\<dots> \<le> 10 ^ room"
    using assms by (intro power_increasing) simp_all
  finally show ?thesis
    by (auto simp: dec_text_def read_base_rev dec_loop_value)
       (simp add: read_base_def digit_value_def)
qed

lemma hex_digit_value: "k < 16 \<Longrightarrow> digit_value (hex_digits upper ! k) = k"
proof -
  assume k: "k < 16"
  show ?thesis
  proof (cases "k < 10")
    case True
    then have "unat (0x30 + of_nat k :: u8) = 48 + k"
      by (simp add: unat_word_ariths unat_of_nat)
    with True k show ?thesis
      by (simp add: hex_digits_def digit_value_def word_le_nat_alt)
  next
    case False
    then have "10 \<le> k" by simp
    then obtain j where j0: "k = 10 + j"
      using le_Suc_ex by blast
    with k have j: "k = 10 + j" "j < 6"
      by simp_all
    from j have "unat (0x41 + of_nat j :: u8) = 65 + j" "unat (0x61 + of_nat j :: u8) = 97 + j"
      by (simp_all add: unat_word_ariths unat_of_nat)
    with j show ?thesis
      by (cases upper) (simp_all add: hex_digits_def digit_value_def word_le_nat_alt)
  qed
qed

lemma unat_nibble: "unat (v AND 0xF :: u32) = unat v mod 16" "unat (drop_bit 4 v :: u32) = unat v div 16"
proof -
  have "v AND 0xF = take_bit 4 v"
    by (simp add: take_bit_eq_mask mask_eq_exp_minus_1)
  then show "unat (v AND 0xF) = unat v mod 16"
    by (simp add: unsigned_take_bit_eq take_bit_eq_mod unat_mod)
  show "unat (drop_bit 4 v) = unat v div 16"
    by (simp add: unsigned_drop_bit_eq drop_bit_eq_div unat_div)
qed

lemma hex_loop_value:
  "unat v < 16 ^ n \<Longrightarrow> foldr (\<lambda>c a. a * 16 + digit_value c) (hex_loop n upper v) 0 = unat v"
proof (induction n arbitrary: v)
  case (Suc n)
  have "unat v div 16 < 16 ^ n"
    using Suc.prems by (simp add: less_mult_imp_div_less mult.commute)
  then show ?case
    using Suc.IH [of "drop_bit 4 v"] by (auto simp: hex_digit_value unat_nibble)
qed (simp add: unat_eq_0)

lemma hex_text_value: "read_base 16 (hex_text upper v) = unat v"
proof -
  have "unat v < 16 ^ 16"
    using unat_u32 [of v] by simp
  then show ?thesis
    by (auto simp: hex_text_def read_base_rev hex_loop_value)
       (simp add: read_base_def digit_value_def)
qed

lemma dec_loop_chars: "c \<in> set (dec_loop n v) \<Longrightarrow> c \<noteq> 0x2D"
proof (induction n arbitrary: v)
  case (Suc n)
  have "v mod 10 < 10"
    by (simp add: word_less_nat_alt unat_mod)
  with Suc show ?case
    by (auto simp: digit_value_dec(2) split: if_splits)
qed simp

lemma dec_text_chars: "c \<in> set (dec_text room v) \<Longrightarrow> c \<noteq> 0x2D"
  by (auto simp: dec_text_def dest: dec_loop_chars split: if_splits)

lemma sint_by_unat:
  "sint (v :: u32) = (if c_neg v then - int (unat (- v)) else int (unat v))"
proof -
  have range: "- (2 ^ 31) \<le> sint v" "sint v < 2 ^ 31"
    using sint_greater_eq [of v] sint_less [of v] by simp_all
  have u: "uint v = sint v mod 2 ^ 32"
    using uint_sint [of v] by (simp add: take_bit_eq_mod)
  show ?thesis
  proof (cases "sint v < 0")
    case True
    have "uint (- v) = (- uint v) mod 2 ^ 32"
      by (simp add: uint_word_ariths)
    also have "\<dots> = (- sint v) mod 2 ^ 32"
      unfolding u by (rule mod_minus_eq)
    also have "\<dots> = - sint v"
      using True range by (intro mod_pos_pos_trivial) simp_all
    finally show ?thesis
      using True by (simp add: c_neg_def)
  next
    case False
    then have "uint v = sint v"
      unfolding u using range by (intro mod_pos_pos_trivial) simp_all
    then show ?thesis
      using False by (simp add: c_neg_def)
  qed
qed

lemma int_text_value: "read_int (int_text v) = sint v"
proof (cases "c_neg v")
  case True
  then show ?thesis
    by (simp add: read_int_def int_text_def dec_text_value sint_by_unat)
next
  case False
  have "hd (dec_text 10 v) \<noteq> 0x2D" if "dec_text 10 v \<noteq> []"
    using dec_text_chars hd_in_set [OF that] by blast
  with False show ?thesis
    by (auto simp: read_int_def int_text_def dec_text_value sint_by_unat)
qed

section \<open>Properties of the formatter\<close>


lemma dec_12: "dec_loop 10 12 = [0x32, 0x31]"
proof -
  have "dec_loop (Suc (Suc (Suc n))) 12 = [0x32, 0x31]" for n
    by simp
  from this [of 7] show ?thesis
    by (simp add: numeral_eq_Suc)
qed


text \<open>The numbers printed read back: \<^verbatim>\<open>%d\<close> as the signed value (the most negative one included),
  \<^verbatim>\<open>%u\<close> as the unsigned value in base ten, \<^verbatim>\<open>%x\<close> and \<^verbatim>\<open>%X\<close> in base sixteen, whenever the text fits.\<close>

theorem printed_numbers_read_back:
  assumes "length out + 21 \<le> cap"
  shows "\<exists>d u l x. fmt_i32 out cap v = out @ d \<and> read_int d = sint v
    \<and> fmt_u32 out cap v = out @ u \<and> read_base 10 u = unat v
    \<and> fmt_ulong out cap v = out @ l \<and> read_base 10 l = unat v
    \<and> fmt_hex out cap v upper = out @ x \<and> read_base 16 x = unat v"
proof -
  have loops: "length (dec_loop n w) \<le> n" "length (hex_loop n upper w) \<le> n" for n w
    by (induction n arbitrary: w) auto
  then have len: "length (dec_text 10 w) \<le> 10" "length (dec_text 20 w) \<le> 20" "length (hex_text upper w) \<le> 16" for w
    by (simp_all add: dec_text_def hex_text_def)
  have "length (int_text v) \<le> 11"
    using len(1) [of v] len(1) [of "- v"] by (simp add: int_text_def)
  then have "length (out @ int_text v) \<le> cap" "length (out @ dec_text 10 v) \<le> cap"
    "length (out @ dec_text 20 v) \<le> cap" "length (out @ hex_text upper v) \<le> cap"
    using assms len [of v] by simp_all
  then have "fmt_i32 out cap v = out @ int_text v" "fmt_u32 out cap v = out @ dec_text 10 v"
    "fmt_ulong out cap v = out @ dec_text 20 v" "fmt_hex out cap v upper = out @ hex_text upper v"
    by (simp_all add: fmt_number_clip)
  moreover have "read_base 10 (dec_text 10 v) = unat v" "read_base 10 (dec_text 20 v) = unat v"
    by (simp_all add: dec_text_value)
  ultimately show ?thesis
    using int_text_value hex_text_value by blast
qed

theorem printed_numbers_read_back_witness:
  "\<exists>d. fmt_i32 [] 160 0x80000000 = d \<and> read_int d = - 2147483648"
  using printed_numbers_read_back [of "[]" 160 "0x80000000"] by auto

text \<open>A format that ends in a lone percent sign makes the interpreter step over the terminating
  NUL and read past the end of the format.\<close>

theorem printf_lone_percent_overreads:
  assumes "\<forall>c \<in> set s. c \<noteq> 0 \<and> c \<noteq> 0x25" "length s + 1 < CONSOLE_FMT_BUF"
  shows "printf_text (s @ [0x25, 0]) args = None"
proof -
  have pct: "printf_loop [0x25, 0] args out = None" if "length out < CONSOLE_FMT_BUF" for out
    using that by (simp add: skip_flags_def length_mod_def conversion_def)
  have "printf_loop (s @ [0x25, 0]) args out = None" if "length out + length s < CONSOLE_FMT_BUF" for out
    using assms(1) that
  proof (induction s arbitrary: out)
    case Nil
    then show ?case using pct [of out] by simp
  qed auto
  with assms(2) show ?thesis
    by (simp add: printf_text_def)
qed

theorem printf_lone_percent_overreads_witness: "printf_text [0x35, 0x30, 0x25, 0] [] = None"
  using printf_lone_percent_overreads [of "[0x35, 0x30]" "[]"] by (simp add: CONSOLE_FMT_BUF_def)

section \<open>The server and its log\<close>

datatype con_act =
    Asclin_tx_byte u8
  | Asclin_rx_byte_nb
  | Asclin_rx_value
  | Asclin_init u32

record console_st = "con_act io" +
  g_console_log_len :: u32
  g_console_log :: "u8 list"
  g_console_ep :: u32

definition console_log_putc :: "u8 \<Rightarrow> (console_st, unit) state" where
  "console_log_putc c = do {
     n \<leftarrow> gets g_console_log_len;
     if n \<ge> of_nat (CONSOLE_LOG_SIZE - 1) then ret ()
     else modify (\<lambda>st. st\<lparr>g_console_log := (g_console_log st)[unat n := c],
                        g_console_log_len := n + 1\<rparr>)
   }"

definition console_emit_byte :: "u8 \<Rightarrow> (console_st, unit) state" where
  "console_emit_byte c = do { console_log_putc c; dev_do (Asclin_tx_byte c) }"

definition console_emit_buf :: "u8 list \<Rightarrow> nat \<Rightarrow> (console_st, unit) state" where
  "console_emit_buf buf len = for_each (take (min len CONSOLE_WRITE_MAX) buf) console_emit_byte"

definition console_reply :: msg where
  "console_reply = \<lparr>label = 0, words = (\<lambda>_. 0)\<rparr>"

text \<open>One turn of the server; a WRITE carries its bytes from word 1 on.\<close>

definition console_dispatch :: "nat \<Rightarrow> msg \<Rightarrow> (console_st, msg) state" where
  "console_dispatch W m =
     (if label m = CONSOLE_MSG_PUTC then do {
        console_emit_byte (ucast (words m 0));
        ret console_reply
      } else if label m = CONSOLE_MSG_WRITE then do {
        let len = min (unat (words m 0)) (CONSOLE_CHUNK_MAX W);
        console_emit_buf (unpack_loop 1 len (words m)) len;
        ret console_reply
      } else ret console_reply)"

section \<open>The client\<close>

text \<open>
  The loop \<^verbatim>\<open>while (len > 0u)\<close>; \<open>ws\<close> is the message on the client's stack.  Every turn sends at
  least one byte (\<open>W > 1\<close>), so the length is fuel enough.
\<close>

fun console_write_loop ::
  "nat \<Rightarrow> 's ep_call \<Rightarrow> nat \<Rightarrow> (nat \<Rightarrow> u32) \<Rightarrow> u8 list \<Rightarrow> nat \<Rightarrow> ('s, unit) state" where
  "console_write_loop W call 0 ws buf len = ret ()"
| "console_write_loop W call (Suc fuel) ws buf len =
     (if len = 0 then ret ()
      else do {
        let n = (if len < CONSOLE_CHUNK_MAX W then len else CONSOLE_CHUNK_MAX W);
        (_, m) \<leftarrow> call \<lparr>label = CONSOLE_MSG_WRITE,
          words = (poke_loop 1 0 (take n buf) ws)(0 := of_nat n)\<rparr>;
        console_write_loop W call fuel (words m) (drop n buf) (len - n)
      })"

definition console_write ::
  "ulmk_abi \<Rightarrow> nat \<Rightarrow> u32 \<Rightarrow> 's ep_call \<Rightarrow> (nat \<Rightarrow> u32) \<Rightarrow> u8 list option \<Rightarrow> nat \<Rightarrow> ('s, unit) state" where
  "console_write K W ep call ws buf len =
     (case buf of None \<Rightarrow> ret ()
      | Some b \<Rightarrow>
          if len = 0 \<or> ep = ULMK_EP_INVALID K then ret ()
          else (let n = min len CONSOLE_WRITE_MAX in console_write_loop W call n ws b n))"

definition board_console_putc ::
  "ulmk_abi \<Rightarrow> u32 \<Rightarrow> 's ep_call \<Rightarrow> (nat \<Rightarrow> u32) \<Rightarrow> u8 \<Rightarrow> ('s, unit) state" where
  "board_console_putc K ep call ws c =
     (if ep = ULMK_EP_INVALID K then ret ()
      else do {
        _ \<leftarrow> call \<lparr>label = CONSOLE_MSG_PUTC, words = ws(0 := ucast c)\<rparr>;
        ret ()
      })"

definition board_console_puts ::
  "ulmk_abi \<Rightarrow> nat \<Rightarrow> u32 \<Rightarrow> 's ep_call \<Rightarrow> (nat \<Rightarrow> u32) \<Rightarrow> u8 list option \<Rightarrow> ('s, unit) state" where
  "board_console_puts K W ep call ws s =
     (case s of None \<Rightarrow> ret ()
      | Some b \<Rightarrow> console_write K W ep call ws (Some b)
          (length (takeWhile (\<lambda>c. c \<noteq> 0) (take CONSOLE_WRITE_MAX b))))"

text \<open>\<open>None\<close> is the undefined behaviour of the formatter.\<close>

definition board_console_printf ::
  "ulmk_abi \<Rightarrow> nat \<Rightarrow> u32 \<Rightarrow> 's ep_call \<Rightarrow> (nat \<Rightarrow> u32) \<Rightarrow> u8 list option \<Rightarrow> varg list \<Rightarrow>
     ('s, unit) state option" where
  "board_console_printf K W ep call ws fmt args =
     (case fmt of None \<Rightarrow> Some (ret ())
      | Some f \<Rightarrow> map_option (\<lambda>t. console_write K W ep call ws (Some t) (length t)) (printf_text f args))"

definition board_console_getc :: "ulmk_abi \<Rightarrow> u8 option \<Rightarrow> (console_st, cint \<times> u8 option) state" where
  "board_console_getc K out = do {
     rc \<leftarrow> dev Asclin_rx_byte_nb;
     if rc \<noteq> ULMK_OK K then ret (rc, out)
     else do {
       b \<leftarrow> dev Asclin_rx_value;
       ret (ULMK_OK K, map_option (\<lambda>_. ucast b) out)
     }
   }"

definition board_console_start :: "ulmk_abi \<Rightarrow> (console_st, u32) state" where
  "board_console_start K = do {
     modify (\<lambda>st. st\<lparr>g_console_log_len := 0, g_console_ep := ULMK_EP_INVALID K\<rparr>);
     t \<leftarrow> dev (Asclin_init 115200);
     if t = ULMK_TID_INVALID K then ret (ULMK_TID_INVALID K)
     else do {
       ep \<leftarrow> kern Ep_create;
       modify (\<lambda>st. st\<lparr>g_console_ep := ep\<rparr>);
       if ep = ULMK_EP_INVALID K then ret (ULMK_TID_INVALID K)
       else do {
         tid \<leftarrow> kern (Thread_create ''bcon'' 1 2048);
         if tid = ULMK_TID_INVALID K then do {
           modify (\<lambda>st. st\<lparr>g_console_ep := ULMK_EP_INVALID K\<rparr>);
           ret (ULMK_TID_INVALID K)
         } else ret tid
       }
     }
   }"

section \<open>What reaches the log and the wire\<close>

definition console_inv :: "console_st \<Rightarrow> bool" where
  "console_inv st \<longleftrightarrow> length (g_console_log st) = CONSOLE_LOG_SIZE \<and>
     unat (g_console_log_len st) < CONSOLE_LOG_SIZE"

definition log_text :: "console_st \<Rightarrow> u8 list" where
  "log_text st = take (unat (g_console_log_len st)) (g_console_log st)"

text \<open>The effect of sending the bytes \<open>bs\<close> to the console.\<close>

definition printed :: "u8 list \<Rightarrow> console_st \<Rightarrow> console_st \<Rightarrow> bool" where
  "printed bs st st' \<longleftrightarrow> console_inv st' \<and> log_text st' = take (CONSOLE_LOG_SIZE - 1) (log_text st @ bs) \<and>
     trace st' = trace st @ map (\<lambda>b. Dev (Asclin_tx_byte b)) bs"

lemma length_log_text: "console_inv st \<Longrightarrow> length (log_text st) = unat (g_console_log_len st)"
  by (simp add: console_inv_def log_text_def)

lemma printed_nil: "console_inv st \<Longrightarrow> printed [] st st"
  using length_log_text [of st] by (simp add: printed_def console_inv_def CONSOLE_LOG_SIZE_def)

lemma printed_append: "printed bs st st1 \<Longrightarrow> printed cs st1 st2 \<Longrightarrow> printed (bs @ cs) st st2"
  by (simp add: printed_def min_def)

lemma emit_byte_printed:
  assumes "console_inv st"
  shows "printed [c] st (snd (run_state (console_emit_byte c) st))"
proof (cases "unat (g_console_log_len st) = CONSOLE_LOG_SIZE - 1")
  case True
  then have "g_console_log_len st \<ge> of_nat (CONSOLE_LOG_SIZE - 1)"
    by (simp add: word_le_nat_alt CONSOLE_LOG_SIZE_def)
  with True assms show ?thesis
    by (simp add: printed_def console_emit_byte_def console_log_putc_def)
       (simp add: console_inv_def log_text_def)
next
  case False
  let ?n = "g_console_log_len st"
  have n: "unat ?n < CONSOLE_LOG_SIZE - 1"
    using False assms by (simp add: console_inv_def CONSOLE_LOG_SIZE_def)
  then have "\<not> ?n \<ge> of_nat (CONSOLE_LOG_SIZE - 1)" "unat (?n + 1) = Suc (unat ?n)"
    using unat_plus_one [of ?n 2047]
    by (simp_all add: word_le_nat_alt word_less_nat_alt CONSOLE_LOG_SIZE_def)
  moreover have "take (Suc (unat ?n)) ((g_console_log st)[unat ?n := c]) = take (unat ?n) (g_console_log st) @ [c]"
    using n assms by (simp add: console_inv_def take_Suc_conv_app_nth)
  ultimately show ?thesis
    using n assms
    by (simp add: printed_def console_emit_byte_def console_log_putc_def console_inv_def log_text_def)
qed

lemma emit_all_printed:
  "console_inv st \<Longrightarrow> printed bs st (snd (run_state (for_each bs console_emit_byte) st))"
proof (induction bs arbitrary: st)
  case Nil
  then show ?case by (simp add: printed_nil)
next
  case (Cons b bs)
  obtain u st1 where run: "run_state (console_emit_byte b) st = (u, st1)"
    by (cases "run_state (console_emit_byte b) st")
  have "printed [b] st st1"
    using emit_byte_printed [OF Cons.prems, of b] run by simp
  moreover from this have "console_inv st1"
    by (simp add: printed_def)
  ultimately show ?case
    using printed_append [of "[b]" st st1 bs] Cons.IH [of st1] run by simp
qed

lemma dispatch_write_printed:
  assumes "console_inv st" "n \<le> CONSOLE_CHUNK_MAX W" "n \<le> CONSOLE_WRITE_MAX" "n \<le> length buf"
    "m = \<lparr>label = CONSOLE_MSG_WRITE, words = (poke_loop 1 0 (take n buf) ws)(0 := of_nat n)\<rparr>"
  shows "printed (take n buf) st (snd (run_state (console_dispatch W m) st))"
    and "fst (run_state (console_dispatch W m) st) = console_reply"
proof -
  have n: "unat (of_nat n :: u32) = n" "min n (CONSOLE_CHUNK_MAX W) = n" "min n CONSOLE_WRITE_MAX = n"
    using assms(2,3) by (simp_all add: unat_of_nat CONSOLE_WRITE_MAX_def)
  have "unpack_loop 1 n ((poke_loop 1 0 (take n buf) ws)(0 := of_nat n)) =
      unpack_loop 1 n (poke_loop 1 0 (take n buf) ws)"
    by (rule unpack_loop_cong) (use payload_indices_bound in fastforce)
  then have "unpack_loop 1 n (words m) = take n buf"
    using memcpy_codec.transfer_prefix [of n buf n 1 ws] assms(4,5) by simp
  then have run: "run_state (console_dispatch W m) st =
      (console_reply, snd (run_state (for_each (take n buf) console_emit_byte) st))"
    using n by (simp add: console_dispatch_def assms(5) const_defs console_emit_buf_def Let_def
        split: prod.splits)
  show "printed (take n buf) st (snd (run_state (console_dispatch W m) st))"
    "fst (run_state (console_dispatch W m) st) = console_reply"
    unfolding run using emit_all_printed [OF assms(1)] by simp_all
qed

lemma write_loop_printed:
  assumes "console_inv st" "1 < W" "len \<le> fuel" "len \<le> CONSOLE_WRITE_MAX" "len \<le> length buf"
  shows "printed (take len buf) st (snd (run_state
    (console_write_loop W (ipc K (console_dispatch W)) fuel ws buf len) st))"
  using assms
proof (induction W "ipc K (console_dispatch W)" fuel ws buf len arbitrary: st rule: console_write_loop.induct)
  case (1 W ws buf len)
  then show ?case by (simp add: printed_nil)
next
  case (2 W fuel ws buf len)
  show ?case
  proof (cases "len = 0")
    case True
    with "2.prems" show ?thesis by (simp add: printed_nil)
  next
    case False
    let ?n = "if len < CONSOLE_CHUNK_MAX W then len else CONSOLE_CHUNK_MAX W"
    let ?m = "\<lparr>label = CONSOLE_MSG_WRITE, words = (poke_loop 1 0 (take ?n buf) ws)(0 := of_nat ?n)\<rparr>"
    have n: "?n \<le> CONSOLE_CHUNK_MAX W" "?n \<le> CONSOLE_WRITE_MAX" "?n \<le> length buf" "?n \<le> len" "0 < ?n"
      using "2.prems" False by (auto simp: CONSOLE_CHUNK_MAX_def)
    obtain st1 where run: "run_state (console_dispatch W ?m) st = (console_reply, st1)"
      using dispatch_write_printed(2) [OF "2.prems"(1) n(1-3) refl] by (metis prod.collapse)
    have p1: "printed (take ?n buf) st st1"
      using dispatch_write_printed(1) [OF "2.prems"(1) n(1-3) refl, of ws] run by simp
    then have inv1: "console_inv st1"
      by (simp add: printed_def)
    have "len - ?n \<le> fuel" "len - ?n \<le> CONSOLE_WRITE_MAX" "len - ?n \<le> length (drop ?n buf)"
      using "2.prems" n by auto
    then have p2: "printed (take (len - ?n) (drop ?n buf)) st1 (snd (run_state
        (console_write_loop W (ipc K (console_dispatch W)) fuel (words console_reply) (drop ?n buf) (len - ?n)) st1))"
      using "2.hyps" [OF False refl inv1 "2.prems"(2)] by blast
    have "take len buf = take ?n buf @ take (len - ?n) (drop ?n buf)"
      using take_add [of ?n "len - ?n" buf] n(4) by simp
    with printed_append [OF p1 p2] False run show ?thesis
      by (simp add: ipc_def Let_def del: One_nat_def)
  qed
qed

section \<open>Properties of the console\<close>

text \<open>A client's \<open>console_write\<close> through the server sends exactly the first 256 bytes of its buffer
  to the serial line, in order and once, whatever the message size, and the RAM log is the old
  log followed by those bytes, cut at 2047: the log never overflows.\<close>

theorem console_write_delivers:
  assumes "console_inv st" "1 < W" "ep \<noteq> ULMK_EP_INVALID K" "len \<le> length buf"
  shows "printed (take (min len CONSOLE_WRITE_MAX) buf) st
    (snd (run_state (console_write K W ep (ipc K (console_dispatch W)) ws (Some buf) len) st))"
proof (cases "len = 0")
  case True
  with assms show ?thesis by (simp add: console_write_def printed_nil)
next
  case False
  with assms write_loop_printed [OF assms(1,2), of "min len CONSOLE_WRITE_MAX" "min len CONSOLE_WRITE_MAX" buf K ws]
  show ?thesis by (simp add: console_write_def Let_def)
qed

definition console_boot :: "(con_act event list \<Rightarrow> con_act event \<Rightarrow> u32) \<Rightarrow> console_st" where
  "console_boot ans = \<lparr>trace = [], answer = ans, fault = False, g_console_log_len = 0,
     g_console_log = replicate CONSOLE_LOG_SIZE 0, g_console_ep = 0\<rparr>"

lemma console_inv_boot: "console_inv (console_boot ans)" "log_text (console_boot ans) = []"
  by (simp_all add: console_inv_def console_boot_def log_text_def CONSOLE_LOG_SIZE_def)

theorem console_write_delivers_witness:
  "log_text (snd (run_state (console_write sample_abi 2 7 (ipc sample_abi (console_dispatch 2)) (\<lambda>_. 0)
     (Some [0x68, 0x65, 0x6C, 0x6C, 0x6F]) 5) (console_boot (\<lambda>_ _. 0)))) = [0x68, 0x65, 0x6C, 0x6C, 0x6F]"
  using console_write_delivers [OF console_inv_boot(1), of 2 7 sample_abi 5 "[0x68, 0x65, 0x6C, 0x6C, 0x6F]"]
  by (simp add: sample_abi_def printed_def console_inv_boot(2) CONSOLE_WRITE_MAX_def CONSOLE_LOG_SIZE_def)

text \<open>A rendezvous that only counts the calls.\<close>

definition counting_call :: "cint \<Rightarrow> nat ep_call" where
  "counting_call rc m = do { modify Suc; ret (rc, m) }"

lemma write_loop_calls:
  assumes "1 < W" "len \<le> fuel"
  shows "snd (run_state (console_write_loop W (counting_call rc) fuel ws buf len) k) =
    k + (len + CONSOLE_CHUNK_MAX W - 1) div CONSOLE_CHUNK_MAX W"
  using assms
proof (induction W "counting_call rc" fuel ws buf len arbitrary: k rule: console_write_loop.induct)
  case (1 W ws buf len)
  then show ?case by (simp add: CONSOLE_CHUNK_MAX_def)
next
  case (2 W fuel ws buf len)
  have c: "0 < CONSOLE_CHUNK_MAX W"
    using "2.prems" by (simp add: CONSOLE_CHUNK_MAX_def)
  show ?case
  proof (cases "len = 0")
    case True
    with c show ?thesis by simp
  next
    case False
    let ?c = "CONSOLE_CHUNK_MAX W"
    let ?n = "if len < ?c then len else ?c"
    have fuel: "len - ?n \<le> fuel"
      using "2.prems" c False by auto
    have "Suc ((len - ?n + ?c - 1) div ?c) = (len + ?c - 1) div ?c"
    proof (cases "len < ?c")
      case True
      have "(len + ?c - 1) div ?c = ((len - 1) + ?c) div ?c"
        using False by simp
      also have "\<dots> = (len - 1) div ?c + 1"
        using c by (intro div_add_self2) simp
      also have "(len - 1) div ?c = 0"
        using True by simp
      finally show ?thesis
        using True c by simp
    next
      case ge: False
      then have "len + ?c - 1 = (len - ?c + ?c - 1) + ?c"
        using c by simp
      with ge c show ?thesis
        by (simp only: if_False) (metis Suc_eq_plus1 div_add_self2 not_gr0)
    qed
    note calc = this
    let ?ws = "(poke_loop 1 0 (take ?n buf) ws)(0 := of_nat ?n)"
    have step: "run_state (console_write_loop W (counting_call rc) (Suc fuel) ws buf len) k =
        run_state (console_write_loop W (counting_call rc) fuel ?ws (drop ?n buf) (len - ?n)) (Suc k)"
      using False by (simp add: counting_call_def Let_def del: One_nat_def)
    have IH: "snd (run_state (console_write_loop W (counting_call rc) fuel ?ws (drop ?n buf) (len - ?n)) (Suc k)) =
        Suc k + (len - ?n + ?c - 1) div ?c"
      using "2.hyps" [OF False refl "2.prems"(1) fuel, of "\<lparr>label = CONSOLE_MSG_WRITE, words = ?ws\<rparr>" "Suc k"]
      by (simp only: msg.select_convs)
    show ?thesis
      unfolding step IH calc [symmetric] by (rule add_Suc_shift)
  qed
qed

text \<open>One \<open>console_write\<close> is as many calls as its chunks: a text longer than a message's payload
  is sent in several calls, between which another client's output can be served.\<close>

theorem console_write_calls:
  assumes "1 < W" "ep \<noteq> ULMK_EP_INVALID K" "0 < len"
  shows "snd (run_state (console_write K W ep (counting_call rc) ws (Some buf) len) k) =
    k + (min len CONSOLE_WRITE_MAX + CONSOLE_CHUNK_MAX W - 1) div CONSOLE_CHUNK_MAX W"
  using write_loop_calls [OF assms(1), of "min len CONSOLE_WRITE_MAX" "min len CONSOLE_WRITE_MAX" rc ws buf k] assms
  by (simp add: console_write_def Let_def)

theorem console_write_calls_witness:
  "snd (run_state (console_write sample_abi 8 7 (counting_call 0) (\<lambda>_. 0) (Some (replicate 80 0x61)) 80) 0) = 3"
  using console_write_calls [of 8 7 sample_abi 80 0 "\<lambda>_. 0" "replicate 80 0x61" 0]
  by (simp add: sample_abi_def CONSOLE_WRITE_MAX_def CONSOLE_CHUNK_MAX_def)

end
