(* ===== verification/Psram_Tune.thy ===== *)
theory Psram_Tune
  imports Payload
begin

text \<open>
  Timing calibration of the PSRAM of the ESP32-P4 board
  (\<^verbatim>\<open>esp32p4_ev_function/board_psram_tune.c\<close> and the transaction primitive
  \<^verbatim>\<open>board_psram_hex_xact\<close> of \<^verbatim>\<open>board_psram.c\<close>): register helpers, the reference
  pattern, the sweeps over the strobe phase and the delay lines, and the search for the longest
  good window.  Register accesses, the calls of the boot ROM, the console and the cache
  maintenance are actions; the state extends the interaction log with the three tuning results,
  and is itself extended by the rest of the PSRAM bring-up.
\<close>

section \<open>Registers and actions\<close>

datatype psram_act =
    Rd u32
  | Wr u32 u32
  | Spin nat
  | Print string "u32 list"
  | Rom_op_mode u32
  | Rom_config u32 u32 u32 "u8 list" u32 u32
  | Rom_start u32 bool
  | Rom_rx nat
  | Mmu_init
  | Mmu_set u32 u32 u32 u32
  | Fence
  | Dcache_clean u32 u32
  | Dcache_invalidate u32 u32
  | Dcache_clean_invalidate u32 u32

record tune_st = "psram_act io" +
  g_best_phase :: u8
  g_best_data_dl :: u8
  g_best_dqs_dl :: u8

type_synonym 'z tune_state = "(psram_act, 'z) io_scheme"

definition SPIMEM2 :: u32 where [const_defs]: "SPIMEM2 = 0x5008E000"
definition SPIMEM3 :: u32 where [const_defs]: "SPIMEM3 = 0x5008F000"
definition SRAM_CLK :: u32 where [const_defs]: "SRAM_CLK = SPIMEM2 + 0x50"
definition SPI1_CLOCK :: u32 where [const_defs]: "SPI1_CLOCK = SPIMEM3 + 0x14"
definition IOMUX_MSPI :: u32 where [const_defs]: "IOMUX_MSPI = 0x500E1200"
definition PSRAM_PIN_BASE :: u32 where [const_defs]: "PSRAM_PIN_BASE = IOMUX_MSPI + 0x1c"
definition PSRAM_DQS0_REG :: u32 where [const_defs]: "PSRAM_DQS0_REG = IOMUX_MSPI + 0x3c"
definition PSRAM_DQS1_REG :: u32 where [const_defs]: "PSRAM_DQS1_REG = IOMUX_MSPI + 0x68"
definition DQS_PHASE_S :: nat where "DQS_PHASE_S = 1"
definition DQS_PHASE_M :: u32 where "DQS_PHASE_M = push_bit DQS_PHASE_S 3"
definition DQS_DELAY90_S :: nat where "DQS_DELAY90_S = 7"
definition DQS_DELAY90_M :: u32 where "DQS_DELAY90_M = push_bit DQS_DELAY90_S 0xF"
definition DQS_DELAY270_S :: nat where "DQS_DELAY270_S = 17"
definition DQS_DELAY270_M :: u32 where "DQS_DELAY270_M = push_bit DQS_DELAY270_S 0xF"
definition PIN_DLC_S :: nat where "PIN_DLC_S = 4"
definition PIN_DLC_M :: u32 where "PIN_DLC_M = push_bit PIN_DLC_S 0xF"

lemmas field_defs = DQS_PHASE_S_def DQS_PHASE_M_def DQS_DELAY90_S_def DQS_DELAY90_M_def
  DQS_DELAY270_S_def DQS_DELAY270_M_def PIN_DLC_S_def PIN_DLC_M_def

definition HEX_SYNC_READ :: u32 where [const_defs]: "HEX_SYNC_READ = 0x0000"
definition HEX_SYNC_WRITE :: u32 where [const_defs]: "HEX_SYNC_WRITE = 0x8080"
definition RD_DUMMY :: u32 where "RD_DUMMY = 2 * (14 - 1)"
definition WR_DUMMY :: u32 where "WR_DUMMY = 2 * (7 - 1)"

definition TUNE_ADDR :: u32 where "TUNE_ADDR = 0x80"
definition TUNE_LEN :: nat where "TUNE_LEN = 128"
definition CHUNK :: nat where "CHUNK = 64"
definition PHASE_NUM :: nat where "PHASE_NUM = 4"
definition DELAY_NUM :: nat where "DELAY_NUM = 31"
definition DELAY_SWEEPS :: nat where "DELAY_SWEEPS = 100"
definition MPLL_MHZ :: u32 where "MPLL_MHZ = 400"

definition s_ref :: "u32 list" where
  "s_ref = [
    0x7f786655, 0xa5ff005a, 0x3f3c33aa, 0xa5ff5a00,
    0x1f1e9955, 0xa5005aff, 0x0f0fccaa, 0xa55a00ff,
    0x07876655, 0xffa55a00, 0x03c333aa, 0xff00a55a,
    0x01e19955, 0xff005aa5, 0x00f0ccaa, 0xff5a00a5,
    0x80786655, 0x00a5ff5a, 0xc03c33aa, 0x00a55aff,
    0xe01e9355, 0x00ff5aa5, 0xf00fccaa, 0x005affa5,
    0xf8876655, 0x5aa5ff00, 0xfcc333aa, 0x5affa500,
    0xfee19955, 0x5a00a5ff, 0x11f0ccaa, 0x5a00ffa5]"

definition s_delay_tbl :: "(u8 \<times> u8) list" where
  "s_delay_tbl = [
    (0, 15), (0, 14), (0, 13), (0, 12), (0, 11), (0, 10), (0, 9),
    (0, 8), (0, 7), (0, 6), (0, 5), (0, 4), (0, 3), (0, 2), (0, 1),
    (0, 0), (1, 0), (2, 0), (3, 0), (4, 0), (5, 0), (6, 0), (7, 0),
    (8, 0), (9, 0), (10, 0), (11, 0), (12, 0), (13, 0), (14, 0),
    (15, 0)]"

definition wr :: "u32 \<Rightarrow> u32 \<Rightarrow> ('z tune_state, unit) state" where
  "wr a v = dev_do (Wr a v)"

definition rd :: "u32 \<Rightarrow> ('z tune_state, u32) state" where
  "rd a = dev (Rd a)"

definition printf :: "string \<Rightarrow> u32 list \<Rightarrow> ('z tune_state, unit) state" where
  "printf fmt args = dev_do (Print fmt args)"

definition pattern_word :: "u32 \<Rightarrow> u32 \<Rightarrow> u32" where
  "pattern_word salt idx =
     0xA5000000 XOR (salt * 0x11111111) XOR (idx * 0x00010001) XOR (push_bit 16 idx)"

definition set_bus_mhz :: "u32 \<Rightarrow> ('z tune_state, unit) state" where
  "set_bus_mhz mhz =
     (let dv = MPLL_MHZ div mhz;
          bits = push_bit 0 (dv - 1) OR push_bit 8 (dv div 2 - 1) OR push_bit 16 (dv - 1)
      in do { wr SRAM_CLK bits; wr SPI1_CLOCK bits })"

section \<open>Field updates\<close>

definition dlc_bits :: "u32 \<Rightarrow> u8 \<Rightarrow> u32" where
  "dlc_bits v dl = (v AND NOT PIN_DLC_M) OR push_bit PIN_DLC_S (ucast dl AND 0xF)"

definition phase_bits :: "u32 \<Rightarrow> u8 \<Rightarrow> u32" where
  "phase_bits v phase = (v AND NOT DQS_PHASE_M) OR push_bit DQS_PHASE_S (ucast phase AND 3)"

definition delay_bits :: "u32 \<Rightarrow> u8 \<Rightarrow> u32" where
  "delay_bits v dl = (v AND NOT (DQS_DELAY90_M OR DQS_DELAY270_M)) OR
     (push_bit DQS_DELAY90_S (ucast dl AND 0xF) OR push_bit DQS_DELAY270_S (ucast dl AND 0xF))"

definition pin_set_dlc :: "u32 \<Rightarrow> u8 \<Rightarrow> ('z tune_state, unit) state" where
  "pin_set_dlc reg dl = do { v \<leftarrow> rd reg; wr reg (dlc_bits v dl) }"

definition dqs_set_phase :: "u32 \<Rightarrow> u8 \<Rightarrow> ('z tune_state, unit) state" where
  "dqs_set_phase reg phase = do { v \<leftarrow> rd reg; wr reg (phase_bits v phase) }"

definition dqs_set_delay :: "u32 \<Rightarrow> u8 \<Rightarrow> ('z tune_state, unit) state" where
  "dqs_set_delay reg dl = do { v \<leftarrow> rd reg; wr reg (delay_bits v dl) }"

definition apply_phase :: "u8 \<Rightarrow> ('z tune_state, unit) state" where
  "apply_phase phase = do { dqs_set_phase PSRAM_DQS0_REG phase; dqs_set_phase PSRAM_DQS1_REG phase }"

definition apply_delayline :: "u8 \<Rightarrow> u8 \<Rightarrow> ('z tune_state, unit) state" where
  "apply_delayline data_dl dqs_dl = do {
     for_each [0..<8] (\<lambda>i. pin_set_dlc (PSRAM_PIN_BASE + of_nat i * 4) data_dl);
     for_each [0..<10] (\<lambda>i. pin_set_dlc (IOMUX_MSPI + 0x40 + of_nat i * 4) data_dl);
     dqs_set_delay PSRAM_DQS0_REG dqs_dl;
     dqs_set_delay PSRAM_DQS1_REG dqs_dl
   }"

definition clear_tuning :: "('z tune_state, unit) state" where
  "clear_tuning = do { apply_phase 0; apply_delayline 0 0 }"

section \<open>Transactions\<close>

text \<open>The bytes of a word array in memory, least significant first.\<close>

definition word_bytes :: "u32 list \<Rightarrow> u8 list" where
  "word_bytes ws = unpack_loop 0 (4 * length ws) (\<lambda>i. ws ! i)"

definition copy_bytes :: "u8 list \<Rightarrow> nat \<Rightarrow> u8 list \<Rightarrow> nat \<Rightarrow> u8 list" where
  "copy_bytes d off s n = fold (\<lambda>i d. d[off + i := s ! i]) [0..<n] d"

definition zero_bytes :: "u8 list \<Rightarrow> nat \<Rightarrow> u8 list" where
  "zero_bytes d n = fold (\<lambda>i d. d[i := 0]) [0..<n] d"

fun bytes_eq :: "u8 list \<Rightarrow> u8 list \<Rightarrow> nat \<Rightarrow> bool" where
  "bytes_eq a b 0 = True"
| "bytes_eq (x # a) (y # b) (Suc n) = (if x \<noteq> y then False else bytes_eq a b n)"
| "bytes_eq a b (Suc n) = False"

text \<open>
  A transaction with the memory chip.  The ROM copies \<open>rx_bits\<close> bits into the receive buffer
  \<open>rx\<close>; each word it stores is an interaction.
\<close>

definition board_psram_hex_xact ::
  "u32 \<Rightarrow> u32 \<Rightarrow> u32 \<Rightarrow> u8 list \<Rightarrow> u32 \<Rightarrow> u8 list \<Rightarrow> u32 \<Rightarrow> ('z tune_state, u8 list) state" where
  "board_psram_hex_xact cmd addr dummy tx tx_bits rx rx_bits = do {
     dev_do (Rom_op_mode 7);
     dev_do (Rom_config (ucast (ucast cmd :: u16)) addr dummy tx tx_bits rx_bits);
     dev_do (Rom_start (rx_bits div 8) False);
     ws \<leftarrow> collect [0..<unat rx_bits div 32] (\<lambda>i. dev (Rom_rx i));
     ret (copy_bytes rx 0 (word_bytes ws) (unat rx_bits div 32 * 4))
   }"

definition write_ref :: "('z tune_state, unit) state" where
  "write_ref = for_each [0, CHUNK] (\<lambda>off. do {
     let n = (if TUNE_LEN - off > CHUNK then CHUNK else TUNE_LEN - off);
     let buf = copy_bytes (replicate CHUNK 0) 0 (drop off (word_bytes s_ref)) n;
     _ \<leftarrow> board_psram_hex_xact HEX_SYNC_WRITE (TUNE_ADDR + of_nat off) WR_DUMMY buf (of_nat n * 8) [] 0;
     ret ()
   })"

text \<open>The loop over the chunks; \<open>got\<close> is the local array.\<close>

fun read_chunks :: "nat list \<Rightarrow> u8 list \<Rightarrow> ('z tune_state, u8 list) state" where
  "read_chunks [] got = ret got"
| "read_chunks (off # offs) got = do {
     let n = (if TUNE_LEN - off > CHUNK then CHUNK else TUNE_LEN - off);
     buf \<leftarrow> board_psram_hex_xact HEX_SYNC_READ (TUNE_ADDR + of_nat off) RD_DUMMY [] 0
       (zero_bytes (replicate CHUNK 0) CHUNK) (of_nat n * 8);
     read_chunks offs (copy_bytes got off buf n)
   }"

definition read_matches :: "('z tune_state, bool) state" where
  "read_matches = do {
     got \<leftarrow> read_chunks [0, CHUNK] (zero_bytes (replicate TUNE_LEN 0) TUNE_LEN);
     ret (bytes_eq got (word_bytes s_ref) TUNE_LEN)
   }"

section \<open>The search for the longest window\<close>

fun window_loop :: "u32 list \<Rightarrow> u32 \<Rightarrow> u32 \<Rightarrow> u32 \<times> u32 \<times> u32 \<Rightarrow> u32 \<times> u32 \<times> u32" where
  "window_loop [] need i (mx, run, end_i) = (mx, run, end_i)"
| "window_loop (g # gs) need i (mx, run, end_i) =
     (if g = need then window_loop gs need (i + 1) (mx, run + 1, end_i)
      else if run > mx then window_loop gs need (i + 1) (run, 0, i - 1)
      else window_loop gs need (i + 1) (mx, 0, end_i))"

text \<open>The result is the pair \<open>(len_out, end_out)\<close>.\<close>

definition find_window :: "u32 list \<Rightarrow> u32 \<Rightarrow> u32 \<times> u32" where
  "find_window good need =
     (case window_loop good need 0 (0, 0, 0) of (mx, run, end_i) \<Rightarrow>
        if run > mx then (run, of_nat (length good) - 1) else (mx, end_i))"

section \<open>The sweeps\<close>

fun count_hits :: "nat \<Rightarrow> ('z tune_state, bool) state \<Rightarrow> u32 \<Rightarrow> ('z tune_state, u32) state" where
  "count_hits 0 trial hits = ret hits"
| "count_hits (Suc n) trial hits = do {
     ok \<leftarrow> trial;
     count_hits n trial (if ok then hits + 1 else hits)
   }"

text \<open>Reading the table of delay lines: an index past its end is a fault.\<close>

definition delay_entry :: "u32 \<Rightarrow> ('z tune_state, u8 \<times> u8) state" where
  "delay_entry best =
     (if unat best < length s_delay_tbl then ret (s_delay_tbl ! unat best)
      else do { set_fault; ret (0, 0) })"

definition sweep_phase :: "('z tune_st_scheme, unit) state" where
  "sweep_phase = do {
     good \<leftarrow> collect [0..<PHASE_NUM] (\<lambda>i. do {
       apply_phase (of_nat i);
       ok \<leftarrow> read_matches;
       ret (if ok then 1 else 0)
     });
     let (len, end_i) = find_window good 1;
     let best = (if len = 0 then 0 else end_i - len + 1);
     modify (\<lambda>s. s\<lparr>g_best_phase := ucast best\<rparr>);
     p \<leftarrow> gets g_best_phase;
     apply_phase p;
     printf ''ulmk: psram tune phase=%u win=%u'' [ucast p, len]
   }"

definition set_best :: "u8 \<times> u8 \<Rightarrow> ('z tune_st_scheme, unit) state" where
  "set_best e = modify (\<lambda>s. s\<lparr>g_best_data_dl := fst e, g_best_dqs_dl := snd e\<rparr>)"

definition sweep_delayline :: "('z tune_st_scheme, unit) state" where
  "sweep_delayline = do {
     p \<leftarrow> gets g_best_phase;
     apply_phase p;
     good \<leftarrow> collect s_delay_tbl (\<lambda>(data_dl, dqs_dl). do {
       apply_delayline data_dl dqs_dl;
       count_hits DELAY_SWEEPS read_matches 0
     });
     let (len, end_i) = find_window good (of_nat DELAY_SWEEPS);
     let best = (if len \<le> 1 then 0 else end_i - len div 2);
     e \<leftarrow> delay_entry best;
     set_best e;
     apply_delayline (fst e) (snd e);
     printf ''ulmk: psram tune dl data=%u dqs=%u win=%u'' [ucast (fst e), ucast (snd e), len]
   }"

definition board_psram_timing_apply :: "('z tune_st_scheme, unit) state" where
  "board_psram_timing_apply = do {
     p \<leftarrow> gets g_best_phase;
     apply_phase p;
     d \<leftarrow> gets g_best_data_dl;
     q \<leftarrow> gets g_best_dqs_dl;
     apply_delayline d q
   }"

definition board_psram_timing_tune :: "('z tune_st_scheme, cint) state" where
  "board_psram_timing_tune = do {
     printf ''ulmk: psram timing tune'' [];
     clear_tuning;
     set_bus_mhz 20;
     write_ref;
     set_bus_mhz 200;
     sweep_phase;
     sweep_delayline;
     p \<leftarrow> gets g_best_phase;
     apply_phase p;
     d \<leftarrow> gets g_best_data_dl;
     q \<leftarrow> gets g_best_dqs_dl;
     apply_delayline d q;
     ok \<leftarrow> read_matches;
     if \<not> ok then do { printf ''ulmk: psram tune verify FAIL'' []; ret (- 1) }
     else do { printf ''ulmk: psram tune ok'' []; ret 0 }
   }"

text \<open>The comparison loop stops at the first word that differs.\<close>

fun axi_check :: "u32 \<Rightarrow> nat list \<Rightarrow> (u32 \<Rightarrow> u32) \<Rightarrow> ('z tune_state, bool) state" where
  "axi_check base [] expect = ret True"
| "axi_check base (w # ws) expect = do {
     got \<leftarrow> rd (base + of_nat w * 4);
     if got \<noteq> expect (of_nat w) then ret False else axi_check base ws expect
   }"

definition axi_trial :: "u32 \<Rightarrow> u32 \<Rightarrow> u32 \<Rightarrow> u32 \<Rightarrow> ('z tune_state, bool) state" where
  "axi_trial base nbytes i t = do {
     let nwords = unat (nbytes div 4);
     for_each [0..<nwords] (\<lambda>w. wr (base + of_nat w * 4) (pattern_word i (of_nat w) XOR (t * 0x01010101)));
     dev_do Fence;
     dev_do (Dcache_clean base nbytes);
     dev_do (Dcache_invalidate base nbytes);
     axi_check base [0..<nwords] (\<lambda>w. pattern_word i w XOR (t * 0x01010101))
   }"

fun axi_hits :: "u32 \<Rightarrow> u32 \<Rightarrow> u32 \<Rightarrow> nat list \<Rightarrow> u32 \<Rightarrow> ('z tune_state, u32) state" where
  "axi_hits base nbytes i [] hits = ret hits"
| "axi_hits base nbytes i (t # ts) hits = do {
     ok \<leftarrow> axi_trial base nbytes i (of_nat t);
     axi_hits base nbytes i ts (if ok then hits + 1 else hits)
   }"

definition board_psram_timing_refine_axi :: "u32 \<Rightarrow> u32 \<Rightarrow> ('z tune_st_scheme, cint) state" where
  "board_psram_timing_refine_axi base nbytes =
     (if base = 0 \<or> nbytes < 64 then ret (- 1)
      else do {
        p \<leftarrow> gets g_best_phase;
        apply_phase p;
        printf ''ulmk: psram axi refine @%08x %uB'' [base, nbytes];
        good \<leftarrow> collect [0..<DELAY_NUM] (\<lambda>i. do {
          apply_delayline (fst (s_delay_tbl ! i)) (snd (s_delay_tbl ! i));
          axi_hits base nbytes (of_nat i) [0..<8] 0
        });
        let (len, end_i) = find_window good 8;
        if len \<le> 1 then do {
          printf ''ulmk: psram axi refine FAIL win=%u'' [len];
          board_psram_timing_apply;
          ret (- 1)
        } else do {
          e \<leftarrow> delay_entry (end_i - len div 2);
          set_best e;
          board_psram_timing_apply;
          printf ''ulmk: psram axi refine dl data=%u dqs=%u win=%u'' [ucast (fst e), ucast (snd e), len];
          ret 0
        }
      })"


section \<open>The window found is a longest one\<close>

definition run_at :: "'a list \<Rightarrow> 'a \<Rightarrow> nat \<Rightarrow> nat \<Rightarrow> bool" where
  "run_at xs x a n \<longleftrightarrow> a + n \<le> length xs \<and> (\<forall>k < n. xs ! (a + k) = x)"

lemma run_at_app: "run_at xs x a n \<Longrightarrow> run_at (xs @ ys) x a n"
  by (simp add: run_at_def nth_append)

lemma run_at_Suc: "run_at xs x a (Suc n) \<longleftrightarrow> run_at xs x a n \<and> a + n < length xs \<and> xs ! (a + n) = x"
  by (auto simp: run_at_def less_Suc_eq)

lemma run_at_snoc: "a + n \<le> length xs \<Longrightarrow> run_at (xs @ [y]) x a n \<longleftrightarrow> run_at xs x a n"
  by (simp add: run_at_def nth_append)

text \<open>
  The loop invariant over the processed prefix: the current run is the longest one that ends the
  prefix, the best closed run is a run, and every run lies in the current one or is not longer
  than the best.
\<close>

definition window_inv :: "u32 list \<Rightarrow> u32 \<Rightarrow> nat \<Rightarrow> nat \<Rightarrow> nat \<Rightarrow> bool" where
  "window_inv xs x mx run e \<longleftrightarrow>
     run \<le> length xs \<and> run_at xs x (length xs - run) run \<and>
     (run < length xs \<longrightarrow> xs ! (length xs - Suc run) \<noteq> x) \<and>
     (mx \<noteq> 0 \<longrightarrow> e < length xs \<and> mx \<le> Suc e \<and> run_at xs x (Suc e - mx) mx) \<and>
     (\<forall>a n. run_at xs x a n \<longrightarrow> n \<le> mx \<or> length xs \<le> a + run)"

lemma window_inv_run:
  assumes "window_inv xs x mx run e" "run_at xs x a n" "a + n = length xs"
  shows "n \<le> run"
proof (rule ccontr)
  assume "\<not> n \<le> run"
  then have "run < length xs" "a \<le> length xs - Suc run" "length xs - Suc run - a < n"
    using assms(3) by auto
  with assms(1,2) show False
    unfolding window_inv_def run_at_def by (metis le_add_diff_inverse)
qed

lemma window_inv_hit:
  assumes inv: "window_inv xs x mx run e"
  shows "window_inv (xs @ [x]) x mx (Suc run) e"
proof -
  have "n \<le> mx \<or> Suc (length xs) \<le> a + Suc run" if r: "run_at (xs @ [x]) x a n" for a n
  proof (cases "a + n \<le> length xs")
    case True
    with r inv show ?thesis
      by (auto simp: run_at_snoc window_inv_def)
  next
    case False
    with r have an: "a + n = Suc (length xs)"
      by (auto simp: run_at_def)
    show ?thesis
    proof (cases n)
      case (Suc m)
      with r an have "run_at xs x a m"
        by (auto simp: run_at_Suc run_at_snoc)
      with inv an Suc show ?thesis
        using window_inv_run [OF inv, of a m] by auto
    qed simp
  qed
  moreover have "run_at (xs @ [x]) x (length xs - run) (Suc run)"
    using inv by (auto simp: window_inv_def run_at_Suc run_at_app)
  ultimately show ?thesis
    using inv by (auto simp: window_inv_def run_at_app nth_append Suc_diff_Suc)
qed

lemma window_inv_miss:
  assumes inv: "window_inv xs x mx run e" and y: "y \<noteq> x"
  shows "window_inv (xs @ [y]) x (if run > mx then run else mx) 0 (if run > mx then length xs - 1 else e)"
proof -
  have "n \<le> (if run > mx then run else mx)" if r: "run_at (xs @ [y]) x a n" for a n
  proof (cases n)
    case (Suc m)
    have "a + n \<le> length xs"
    proof (rule ccontr)
      assume "\<not> a + n \<le> length xs"
      with r Suc have "a + m = length xs"
        by (auto simp: run_at_def)
      with r y Suc show False
        by (auto simp: run_at_def)
    qed
    with r inv show ?thesis
      by (fastforce simp: run_at_snoc window_inv_def)
  qed simp
  moreover have "run_at (xs @ [y]) x (Suc (length xs)) 0"
    by (simp add: run_at_def)
  ultimately show ?thesis
    using inv y unfolding window_inv_def by (auto simp: run_at_app)
qed

lemma window_inv_empty: "window_inv [] x 0 0 0"
  by (simp add: window_inv_def run_at_def)

lemma window_loop_inv:
  assumes "window_inv xs x (unat mx) (unat run) (unat e)"
    "length xs + length gs < 2 ^ 32" "unat i = length xs" "unat mx \<le> length xs"
    "window_loop gs x i (mx, run, e) = (mx', run', e')"
  shows "window_inv (xs @ gs) x (unat mx') (unat run') (unat e')"
  using assms
proof (induction gs arbitrary: xs i mx run e)
  case Nil
  then show ?case by simp
next
  case (Cons g gs)
  have i: "unat (i + 1) = Suc (length xs)"
    using Cons.prems by (simp add: unat_word_ariths)
  have run: "unat run \<le> length xs"
    using Cons.prems(1) by (simp add: window_inv_def)
  show ?case
  proof (cases "g = x")
    case True
    have "unat (run + 1) = Suc (unat run)"
      using run Cons.prems(2) by (simp add: unat_word_ariths)
    with window_inv_hit [OF Cons.prems(1)] True i Cons.prems show ?thesis
      using Cons.IH [of "xs @ [x]" mx "run + 1" e "i + 1"] by simp
  next
    case False
    note step = window_inv_miss [OF Cons.prems(1) False]
    show ?thesis
    proof (cases "run > mx")
      case gt: True
      then have "unat mx < unat run"
        by (simp add: word_less_nat_alt)
      moreover from this run have "unat (i - 1) = length xs - 1"
        using Cons.prems(3) by (subst unat_minus_one) (auto simp: unat_eq_zero)
      ultimately show ?thesis
        using step gt False i run Cons.prems Cons.IH [of "xs @ [g]" run 0 "i - 1" "i + 1"] by simp
    next
      case le: False
      then have "\<not> unat mx < unat run"
        by (simp add: word_less_nat_alt)
      with step le False i Cons.prems show ?thesis
        using Cons.IH [of "xs @ [g]" mx 0 e "i + 1"] by simp
    qed
  qed
qed


lemma find_window_run:
  assumes "length good < 2 ^ 32" "find_window good x = (len, e)"
  shows "len \<noteq> 0 \<Longrightarrow> unat e < length good"
    and "len \<noteq> 0 \<Longrightarrow> unat len \<le> Suc (unat e)"
    and "len \<noteq> 0 \<Longrightarrow> run_at good x (Suc (unat e) - unat len) (unat len)"
    and "run_at good x a n \<Longrightarrow> n \<le> unat len"
proof -
  obtain mx run e' where w: "window_loop good x 0 (0, 0, 0) = (mx, run, e')"
    by (cases "window_loop good x 0 (0, 0, 0)")
  from window_loop_inv [OF _ _ _ _ w, of "[]"] assms(1)
  have inv: "window_inv good x (unat mx) (unat run) (unat e')"
    by (simp add: window_inv_empty)
  have res: "(len, e) = (if run > mx then (run, of_nat (length good) - 1) else (mx, e'))"
    using assms(2) w by (simp add: find_window_def split: if_splits)
  have last: "unat (of_nat (length good) - 1 :: u32) = length good - 1" if "run > mx"
  proof -
    have "unat (of_nat (length good) :: u32) = length good"
      using assms(1) by (simp add: unat_of_nat)
    moreover have "good \<noteq> []"
      using inv that by (auto simp: window_inv_def word_less_nat_alt)
    ultimately show ?thesis
      by (subst unat_minus_one) (auto simp: unat_eq_zero)
  qed
  from res last inv show "len \<noteq> 0 \<Longrightarrow> unat e < length good"
    "len \<noteq> 0 \<Longrightarrow> unat len \<le> Suc (unat e)"
    "len \<noteq> 0 \<Longrightarrow> run_at good x (Suc (unat e) - unat len) (unat len)"
    by (auto simp: window_inv_def word_less_nat_alt unat_eq_zero split: if_splits)
  have "n \<le> max (unat mx) (unat run)" if r: "run_at good x a n"
  proof -
    from inv r have "n \<le> unat mx \<or> length good \<le> a + unat run"
      by (simp add: window_inv_def)
    moreover from r have "a + n \<le> length good"
      by (simp add: run_at_def)
    ultimately show ?thesis by auto
  qed
  with res show "run_at good x a n \<Longrightarrow> n \<le> unat len"
    by (auto simp: word_less_nat_alt split: if_splits)
qed

text \<open>C14: The window that \<open>find_window\<close> returns is a run of good points inside the array, and no run
  of good points is longer; the length is zero only when no point is good.\<close>

theorem find_window_longest:
  assumes "length good < 2 ^ 32" "find_window good need = (len, end_i)"
  shows "(len \<noteq> 0 \<longrightarrow> unat end_i < length good \<and> unat len \<le> unat end_i + 1 \<and>
      (\<forall>k \<in> {unat end_i + 1 - unat len..unat end_i}. good ! k = need)) \<and>
    (\<forall>a n. a + n \<le> length good \<and> (\<forall>k < n. good ! (a + k) = need) \<longrightarrow> n \<le> unat len) \<and>
    (len = 0 \<longleftrightarrow> need \<notin> set good)"
proof -
  note f = find_window_run [OF assms]
  have "good ! k = need" if "len \<noteq> 0" "unat end_i + 1 - unat len \<le> k" "k \<le> unat end_i" for k
    using f(1-3) [OF that(1)] that(2,3) unfolding run_at_def
    by (auto dest: spec [of _ "k - (Suc (unat end_i) - unat len)"])
  moreover have "n \<le> unat len" if "a + n \<le> length good" "\<forall>k < n. good ! (a + k) = need" for a n
    using f(4) [of a n] that by (simp add: run_at_def)
  moreover from this [of _ 1] have "len = 0 \<longrightarrow> need \<notin> set good"
    by (fastforce simp: in_set_conv_nth Suc_le_eq)
  moreover have "len \<noteq> 0 \<longrightarrow> need \<in> set good"
  proof
    assume len: "len \<noteq> 0"
    then have "unat len \<noteq> 0"
      by (simp add: unat_eq_zero)
    with calculation(1) [OF len, of "unat end_i"] f(1) [OF len] show "need \<in> set good"
      using nth_mem by force
  qed
  ultimately show ?thesis
    using f(1,2) by auto
qed

theorem find_window_longest_witness:
  "find_window [100, 3, 100, 100, 7, 100] 100 = (2, 3) \<and>
   [100, 3, 100, 100, 7, 100 :: u32] ! 2 = 100 \<and> [100, 3, 100, 100, 7, 100 :: u32] ! 3 = 100"
proof -
  have "find_window [100, 3, 100, 100, 7, 100] 100 = (2, 3)"
    by (simp add: find_window_def)
  with find_window_longest [of "[100, 3, 100, 100, 7, 100]" 100 2 3] show ?thesis
    by simp
qed


text \<open>The two indices that the sweeps take from a window stay inside it.\<close>

lemma window_start:
  fixes e len :: u32
  assumes "len \<noteq> 0" "unat len \<le> Suc (unat e)" "unat e < 2 ^ 31"
  shows "unat (e - len + 1) = Suc (unat e) - unat len"
proof -
  have e1: "unat (e + 1) = Suc (unat e)"
    using assms(3) by (simp add: unat_word_ariths)
  have "e - len + 1 = (e + 1) - len"
    by simp
  moreover have "len \<le> e + 1"
    using assms(2) e1 by (simp add: word_le_nat_alt)
  ultimately show ?thesis
    using e1 by (simp only: unat_sub)
qed

lemma window_middle:
  fixes e len :: u32
  assumes "\<not> len \<le> 1" "unat len \<le> Suc (unat e)"
  shows "unat (e - len div 2) = unat e - unat len div 2"
proof -
  have "1 < unat len"
    using assms(1) by (simp add: word_le_nat_alt)
  with assms(2) have "unat len div 2 \<le> unat e"
    by simp
  then have "len div 2 \<le> e"
    by (simp add: word_le_nat_alt unat_div)
  then show ?thesis
    by (simp add: unat_sub unat_div)
qed

end
