(* ===== verification/Psram_Tune_Props.thy ===== *)
theory Psram_Tune_Props
  imports Psram_Tune
begin

text \<open>
  What the calibration achieves on a chip whose transactions succeed exactly inside an \<open>eye\<close> of
  tuning points.  The registers are read back from the interaction log; \<open>reg_effect f m\<close> says
  that an operation changes the register file by \<open>f\<close> and makes no memory transaction, and the
  rules for it follow the structure of the code.
\<close>

section \<open>The register file\<close>

definition reg_step :: "u32 \<Rightarrow> psram_act event \<Rightarrow> u32 \<Rightarrow> u32" where
  "reg_step a e v = (case e of Dev (Wr b w) \<Rightarrow> if b = a then w else v | _ \<Rightarrow> v)"

definition reg_val :: "psram_act event list \<Rightarrow> u32 \<Rightarrow> u32" where
  "reg_val tr a = fold (reg_step a) tr 0"

lemma reg_val_snoc [simp]: "reg_val (tr @ [e]) a = reg_step a e (reg_val tr a)"
  by (simp add: reg_val_def)

definition mmio :: "(psram_act event list \<Rightarrow> psram_act event \<Rightarrow> u32) \<Rightarrow> bool" where
  "mmio ans \<longleftrightarrow> (\<forall>tr a. ans tr (Dev (Rd a)) = reg_val tr a)"

text \<open>Interactions that are not transactions with the memory chip.\<close>

definition calm :: "psram_act event \<Rightarrow> bool" where
  "calm e = (case e of Dev d \<Rightarrow> (case d of Rd _ \<Rightarrow> True | Wr _ _ \<Rightarrow> True | Spin _ \<Rightarrow> True
     | Print _ _ \<Rightarrow> True | _ \<Rightarrow> False) | Kern _ \<Rightarrow> False)"

definition reg_effect :: "((u32 \<Rightarrow> u32) \<Rightarrow> u32 \<Rightarrow> u32) \<Rightarrow> ('z tune_state, 'a) state \<Rightarrow> bool" where
  "reg_effect f m \<longleftrightarrow> (\<forall>s. mmio (answer s) \<longrightarrow> (\<exists>es a. run_state m s = (a, s\<lparr>trace := trace s @ es\<rparr>) \<and>
     reg_val (trace s @ es) = f (reg_val (trace s)) \<and> (\<forall>e \<in> set es. calm e)))"

named_theorems reg_effects \<open>effects on the register file\<close>

lemma reg_effectI:
  "(\<And>s. mmio (answer s) \<Longrightarrow> \<exists>es a. run_state m s = (a, s\<lparr>trace := trace s @ es\<rparr>) \<and>
     reg_val (trace s @ es) = f (reg_val (trace s)) \<and> (\<forall>e \<in> set es. calm e)) \<Longrightarrow> reg_effect f m"
  by (simp add: reg_effect_def)

lemma reg_effectD:
  assumes "reg_effect f m" "mmio (answer s)"
  obtains es a where "run_state m s = (a, s\<lparr>trace := trace s @ es\<rparr>)"
    "reg_val (trace s @ es) = f (reg_val (trace s))" "\<forall>e \<in> set es. calm e"
  using assms unfolding reg_effect_def by blast

lemma reg_effect_ret [reg_effects]: "reg_effect (\<lambda>R. R) (ret a)"
  by (rule reg_effectI) (auto intro!: exI [of _ "[]"])

lemma reg_effect_wr [reg_effects]: "reg_effect (\<lambda>R. R(a := v)) (wr a v)"
  by (rule reg_effectI) (auto simp: wr_def reg_step_def calm_def intro!: exI [of _ "[Dev (Wr a v)]"])

lemma reg_effect_print [reg_effects]: "reg_effect (\<lambda>R. R) (printf f xs)"
  by (rule reg_effectI) (auto simp: printf_def reg_step_def calm_def intro!: exI [of _ "[Dev (Print f xs)]"])

lemma reg_effect_rd:
  assumes "\<And>v. reg_effect (f v) (k v)"
  shows "reg_effect (\<lambda>R. f (R a) R) (State_Monad.bind (rd a) k)"
proof (rule reg_effectI)
  fix s :: "'a tune_state"
  assume env: "mmio (answer s)"
  let ?v = "reg_val (trace s) a"
  let ?s = "s\<lparr>trace := trace s @ [Dev (Rd a)]\<rparr>"
  have "mmio (answer ?s)"
    using env by simp
  from reg_effectD [OF assms [of ?v] this] obtain es b where
    "run_state (k ?v) ?s = (b, ?s\<lparr>trace := trace ?s @ es\<rparr>)"
    "reg_val (trace ?s @ es) = f ?v (reg_val (trace ?s))" "\<forall>e \<in> set es. calm e" .
  moreover have "reg_val (trace ?s) = reg_val (trace s)"
    by (rule ext) (simp add: reg_step_def)
  ultimately show "\<exists>es a'. run_state (State_Monad.bind (rd a) k) s = (a', s\<lparr>trace := trace s @ es\<rparr>) \<and>
      reg_val (trace s @ es) = f ?v (reg_val (trace s)) \<and> (\<forall>e \<in> set es. calm e)"
    using env by (intro exI [of _ "Dev (Rd a) # es"] exI [of _ b]) (simp add: rd_def mmio_def calm_def)
qed

lemma reg_effect_seq:
  assumes "reg_effect f m" "\<And>x. reg_effect g (k x)"
  shows "reg_effect (\<lambda>R. g (f R)) (State_Monad.bind m k)"
proof (rule reg_effectI)
  fix s :: "'a tune_state"
  assume env: "mmio (answer s)"
  with assms(1) obtain es x where m: "run_state m s = (x, s\<lparr>trace := trace s @ es\<rparr>)"
    "reg_val (trace s @ es) = f (reg_val (trace s))" "\<forall>e \<in> set es. calm e"
    unfolding reg_effect_def by blast
  let ?s = "s\<lparr>trace := trace s @ es\<rparr>"
  have "mmio (answer ?s)"
    using env by simp
  from reg_effectD [OF assms(2) [of x] this] obtain es' y where
    "run_state (k x) ?s = (y, ?s\<lparr>trace := trace ?s @ es'\<rparr>)"
    "reg_val (trace ?s @ es') = g (reg_val (trace ?s))" "\<forall>e \<in> set es'. calm e" .
  with m show "\<exists>es a. run_state (State_Monad.bind m k) s = (a, s\<lparr>trace := trace s @ es\<rparr>) \<and>
      reg_val (trace s @ es) = g (f (reg_val (trace s))) \<and> (\<forall>e \<in> set es. calm e)"
    by (intro exI [of _ "es @ es'"] exI [of _ y]) auto
qed

lemma reg_effect_for_each:
  "(\<And>x. x \<in> set xs \<Longrightarrow> reg_effect (f x) (k x)) \<Longrightarrow> reg_effect (fold f xs) (for_each xs k)"
proof (induction xs)
  case Nil
  have "reg_effect (\<lambda>R. R) (ret () :: ('b tune_state, unit) state)"
    by (rule reg_effect_ret)
  then show ?case by (simp add: id_def)
next
  case (Cons x xs)
  have "reg_effect (f x) (k x)" "reg_effect (fold f xs) (for_each xs k)"
    using Cons by auto
  from reg_effect_seq [OF this] have "reg_effect (\<lambda>R. fold f xs (f x R)) (for_each (x # xs) k)"
    by (simp only: for_each.simps)
  moreover have "fold f (x # xs) = (\<lambda>R. fold f xs (f x R))"
    by (rule ext) simp
  ultimately show ?case by simp
qed

text \<open>Updating a set of registers by one function, in any order.\<close>

lemma fold_updates:
  "distinct (map g xs) \<Longrightarrow>
     fold (\<lambda>x R. R(g x := u (R (g x)))) xs R = (\<lambda>a. if a \<in> g ` set xs then u (R a) else R a)"
proof (induction xs arbitrary: R)
  case (Cons x xs)
  have "distinct (map g xs)"
    using Cons.prems by simp
  note IH = Cons.IH [OF this]
  show ?case
    using Cons.prems by (simp only: fold_Cons o_apply IH) auto
qed simp

section \<open>The fields of a tuning point\<close>

definition pin_low :: "nat \<Rightarrow> u32" where
  "pin_low i = PSRAM_PIN_BASE + of_nat i * 4"

definition pin_high :: "nat \<Rightarrow> u32" where
  "pin_high i = IOMUX_MSPI + 0x40 + of_nat i * 4"

definition tune_pins :: "u32 set" where
  "tune_pins = pin_low ` set [0..<8] \<union> pin_high ` set [0..<10]"

definition tune_dqs :: "u32 set" where
  "tune_dqs = {PSRAM_DQS0_REG, PSRAM_DQS1_REG}"

definition at_phase :: "(u32 \<Rightarrow> u32) \<Rightarrow> u8 \<Rightarrow> bool" where
  "at_phase R p \<longleftrightarrow> (\<forall>a \<in> tune_dqs. field 1 2 (R a) = ucast p)"

definition at_delay :: "(u32 \<Rightarrow> u32) \<Rightarrow> u8 \<Rightarrow> u8 \<Rightarrow> bool" where
  "at_delay R d q \<longleftrightarrow> (\<forall>a \<in> tune_pins. field 4 4 (R a) = ucast d) \<and>
     (\<forall>a \<in> tune_dqs. field 7 4 (R a) = ucast q \<and> field 17 4 (R a) = ucast q)"

lemma mask_numerals: "(3 :: u32) = mask 2" "(0xF :: u32) = mask 4"
  by (simp_all add: mask_eq_exp_minus_1)

lemma dlc_bits_field: "dlc_bits v d = set_field 4 4 (ucast d) v"
  by (simp add: dlc_bits_def set_field_def field_defs mask_numerals)

lemma phase_bits_field: "phase_bits v p = set_field 1 2 (ucast p) v"
  by (simp add: phase_bits_def set_field_def field_defs mask_numerals)

lemma delay_bits_field: "delay_bits v q = set_field 17 4 (ucast q) (set_field 7 4 (ucast q) v)"
  unfolding delay_bits_def field_defs mask_numerals
  by (rule bit_eqI) (auto simp: bit_set_field bit_simps)

lemma uint_ucast_u8: "uint (ucast (x :: u8) :: u32) = uint x"
  using uint_lt2p [of x] by (simp add: unsigned_ucast_eq take_bit_int_eq_self_iff)

lemma small_field: "(x :: u8) < 4 \<Longrightarrow> (ucast x :: u32) AND mask 2 = ucast x"
  "(x :: u8) < 16 \<Longrightarrow> (ucast x :: u32) AND mask 4 = ucast x"
  by (simp_all add: mask_eq_iff uint_ucast_u8 word_less_def)

text \<open>The register file after the two helpers.\<close>

definition phase_regs :: "u8 \<Rightarrow> (u32 \<Rightarrow> u32) \<Rightarrow> u32 \<Rightarrow> u32" where
  "phase_regs p R a = (if a \<in> tune_dqs then phase_bits (R a) p else R a)"

definition delay_regs :: "u8 \<Rightarrow> u8 \<Rightarrow> (u32 \<Rightarrow> u32) \<Rightarrow> u32 \<Rightarrow> u32" where
  "delay_regs d q R a =
     (if a \<in> tune_pins then dlc_bits (R a) d else if a \<in> tune_dqs then delay_bits (R a) q else R a)"

lemma pin_lists:
  "map pin_low [0..<8] = [0x500E121C, 0x500E1220, 0x500E1224, 0x500E1228, 0x500E122C, 0x500E1230,
     0x500E1234, 0x500E1238]"
  "map pin_high [0..<10] = [0x500E1240, 0x500E1244, 0x500E1248, 0x500E124C, 0x500E1250, 0x500E1254,
     0x500E1258, 0x500E125C, 0x500E1260, 0x500E1264]"
  by (simp_all add: pin_low_def pin_high_def const_defs upt_rec)

lemma dqs_regs: "PSRAM_DQS0_REG = 0x500E123C" "PSRAM_DQS1_REG = 0x500E1268"
  by (simp_all add: const_defs)

lemma pin_sets_disjoint:
  "pin_low ` set [0..<8] \<inter> pin_high ` set [0..<10] = {}"
  "PSRAM_DQS0_REG \<notin> tune_pins" "PSRAM_DQS1_REG \<notin> tune_pins" "PSRAM_DQS0_REG \<noteq> PSRAM_DQS1_REG"
  by (simp_all only: tune_pins_def set_map [symmetric] pin_lists dqs_regs) simp_all

lemma pins_distinct: "distinct (map pin_low [0..<8])" "distinct (map pin_high [0..<10])"
  by (simp_all only: pin_lists) simp_all

lemma pins_dqs_disjoint: "a \<in> tune_pins \<Longrightarrow> a \<notin> tune_dqs"
  using pin_sets_disjoint by (auto simp: tune_dqs_def)

lemma reg_effect_rmw: "reg_effect (\<lambda>R. R(a := u (R a))) (do { v \<leftarrow> rd a; wr a (u v) })"
  using reg_effect_rd [of "\<lambda>v R. R(a := u v)" "\<lambda>v. wr a (u v)" a] reg_effect_wr by blast

lemma apply_phase_effect: "reg_effect (phase_regs p) (apply_phase p)"
proof -
  have "reg_effect (\<lambda>R. R(PSRAM_DQS0_REG := phase_bits (R PSRAM_DQS0_REG) p)) (dqs_set_phase PSRAM_DQS0_REG p)"
    "reg_effect (\<lambda>R. R(PSRAM_DQS1_REG := phase_bits (R PSRAM_DQS1_REG) p)) (dqs_set_phase PSRAM_DQS1_REG p)"
    using reg_effect_rmw [where u = "\<lambda>v. phase_bits v p"] by (simp_all add: dqs_set_phase_def)
  note reg_effect_seq [OF this]
  moreover have "phase_regs p = (\<lambda>R. (R(PSRAM_DQS0_REG := phase_bits (R PSRAM_DQS0_REG) p))
      (PSRAM_DQS1_REG := phase_bits ((R(PSRAM_DQS0_REG := phase_bits (R PSRAM_DQS0_REG) p)) PSRAM_DQS1_REG) p))"
    by (intro ext) (auto simp: phase_regs_def tune_dqs_def const_defs)
  ultimately show ?thesis
    by (simp only: apply_phase_def)
qed

lemma pin_loop_effect:
  assumes "distinct (map g xs)"
  shows "reg_effect (\<lambda>R a. if a \<in> g ` set xs then dlc_bits (R a) d else R a)
    (for_each xs (\<lambda>i. pin_set_dlc (g i) d))"
proof -
  have "reg_effect (fold (\<lambda>i R. R(g i := dlc_bits (R (g i)) d)) xs) (for_each xs (\<lambda>i. pin_set_dlc (g i) d))"
    unfolding pin_set_dlc_def by (intro reg_effect_for_each reg_effect_rmw)
  moreover have "fold (\<lambda>i R. R(g i := dlc_bits (R (g i)) d)) xs =
      (\<lambda>R a. if a \<in> g ` set xs then dlc_bits (R a) d else R a)"
    by (rule ext) (rule fold_updates [OF assms])
  ultimately show ?thesis
    by simp
qed

lemma dqs_delay_effect:
  "reg_effect (\<lambda>R. R(a := delay_bits (R a) q)) (dqs_set_delay a q)"
  unfolding dqs_set_delay_def by (rule reg_effect_rmw)

lemma delay_regs_split:
  "delay_regs d q R = (\<lambda>R. R(PSRAM_DQS1_REG := delay_bits (R PSRAM_DQS1_REG) q))
    ((\<lambda>R. R(PSRAM_DQS0_REG := delay_bits (R PSRAM_DQS0_REG) q))
    (\<lambda>a. if a \<in> tune_pins then dlc_bits (R a) d else R a))"
  using pin_sets_disjoint by (intro ext) (auto simp: delay_regs_def tune_dqs_def)

lemma pins_split:
  "(if a \<in> pin_high ` set [0..<10] then dlc_bits (if a \<in> pin_low ` set [0..<8] then dlc_bits v d else v) d
    else if a \<in> pin_low ` set [0..<8] then dlc_bits v d else v) =
   (if a \<in> tune_pins then dlc_bits v d else v)"
  using pin_sets_disjoint(1) unfolding tune_pins_def by (simp del: set_upt) blast

lemma apply_delayline_effect: "reg_effect (delay_regs d q) (apply_delayline d q)"
proof -
  note reg_effect_seq [OF pin_loop_effect [OF pins_distinct(1), of d]
    reg_effect_seq [OF pin_loop_effect [OF pins_distinct(2), of d]
    reg_effect_seq [OF dqs_delay_effect [of PSRAM_DQS0_REG q] dqs_delay_effect [of PSRAM_DQS1_REG q]]]]
  then show ?thesis
    by (simp only: pins_split delay_regs_split [symmetric] apply_delayline_def pin_low_def [symmetric]
        pin_high_def [symmetric])
qed


lemma at_phase_apply: "p < 4 \<Longrightarrow> at_phase (phase_regs p R) p"
  by (simp add: at_phase_def phase_regs_def phase_bits_field field_set_same small_field)

lemma at_delay_phase: "at_delay R d q \<Longrightarrow> at_delay (phase_regs p R) d q"
  by (auto simp: at_delay_def phase_regs_def phase_bits_field field_set_other pins_dqs_disjoint)

lemma at_delay_apply: "d < 16 \<Longrightarrow> q < 16 \<Longrightarrow> at_delay (delay_regs d q R) d q"
  by (auto simp: at_delay_def delay_regs_def dlc_bits_field delay_bits_field field_set_same
      field_set_other small_field dest: pins_dqs_disjoint)

lemma at_phase_delay: "at_phase R p \<Longrightarrow> at_phase (delay_regs d q R) p"
  by (auto simp: at_phase_def delay_regs_def dlc_bits_field delay_bits_field field_set_other
      dest: pins_dqs_disjoint)

text \<open>C17: Programming a tuning point reads back as that point in every pad and strobe register, and
  leaves every other bit of those registers and every other register as it was.\<close>

theorem tuning_changes_only_its_fields:
  assumes "mmio (answer st)" "p < 4" "d < 16" "q < 16"
    "run_state (do { apply_phase p; apply_delayline d q }) st = (u, st')"
  defines "R \<equiv> reg_val (trace st)" and "R' \<equiv> reg_val (trace st')"
  shows "(\<forall>a \<in> tune_pins. field 4 4 (R' a) = ucast d \<and> (\<forall>i. i \<notin> {4..<8} \<longrightarrow> bit (R' a) i = bit (R a) i)) \<and>
    (\<forall>a \<in> tune_dqs. field 1 2 (R' a) = ucast p \<and> field 7 4 (R' a) = ucast q \<and> field 17 4 (R' a) = ucast q \<and>
      (\<forall>i. i \<notin> {1..<3} \<union> {7..<11} \<union> {17..<21} \<longrightarrow> bit (R' a) i = bit (R a) i)) \<and>
    (\<forall>a. a \<notin> tune_pins \<union> tune_dqs \<longrightarrow> R' a = R a)"
proof -
  from reg_effectD [OF reg_effect_seq [OF apply_phase_effect apply_delayline_effect] assms(1)] assms(5)
  have R': "R' = delay_regs d q (phase_regs p R)"
    unfolding R_def R'_def by (metis Pair_inject io.select_convs(1) io.surjective io.update_convs(1))
  have "at_phase R' p" "at_delay R' d q"
    unfolding R' using assms(2-4) by (simp_all add: at_phase_delay at_phase_apply at_delay_apply)
  moreover have "bit (R' a) i = bit (R a) i" if "a \<in> tune_pins" "i \<notin> {4..<8}" for a i
    using that by (auto simp: R' delay_regs_def phase_regs_def dlc_bits_field bit_set_field
        dest: pins_dqs_disjoint bit_imp_le_length)
  moreover have "bit (R' a) i = bit (R a) i" if "a \<in> tune_dqs" "i \<notin> {1..<3} \<union> {7..<11} \<union> {17..<21}" for a i
    using that by (auto simp: R' delay_regs_def phase_regs_def delay_bits_field phase_bits_field
        bit_set_field dest: pins_dqs_disjoint bit_imp_le_length)
  moreover have "R' a = R a" if "a \<notin> tune_pins \<union> tune_dqs" for a
    using that by (simp add: R' delay_regs_def phase_regs_def)
  ultimately show ?thesis
    by (simp add: at_phase_def at_delay_def)
qed


section \<open>Bytes of a transaction\<close>

lemma length_word_bytes [simp]: "length (word_bytes ws) = 4 * length ws"
  by (simp add: word_bytes_def unpack_loop_def)

lemma nth_word_bytes: "j < 4 * length ws \<Longrightarrow> word_bytes ws ! j = word_byte (ws ! (j div 4)) (j mod 4)"
  by (simp add: word_bytes_def unpack_loop_def)

lemma take_word_bytes: "ws \<noteq> [] \<Longrightarrow> take 4 (word_bytes ws) = map (word_byte (ws ! 0)) [0..<4]"
  by (cases ws) (auto intro!: nth_equalityI simp: nth_word_bytes)

lemma copy_bytes_eq:
  "off + n \<le> length d \<Longrightarrow> n \<le> length s \<Longrightarrow> copy_bytes d off s n = take off d @ take n s @ drop (off + n) d"
  unfolding copy_bytes_def
proof (induction n)
  case (Suc n)
  then have "fold (\<lambda>i d. d[off + i := s ! i]) [0..<Suc n] d = (take off d @ take n s @ drop (off + n) d)[off + n := s ! n]"
    by simp
  also have "\<dots> = take off d @ take n s @ (drop (off + n) d)[0 := s ! n]"
    using Suc.prems by (simp add: list_update_append)
  also have "(drop (off + n) d)[0 := s ! n] = s ! n # drop (off + Suc n) d"
    using Suc.prems by (simp add: Cons_nth_drop_Suc [symmetric])
  finally show ?case
    using Suc.prems by (simp add: take_Suc_conv_app_nth)
qed simp

lemma zero_bytes_length [simp]: "length (zero_bytes d n) = length d"
  unfolding zero_bytes_def by (induction n) simp_all

lemma bytes_eq_take: "n \<le> length a \<Longrightarrow> n \<le> length b \<Longrightarrow> bytes_eq a b n \<longleftrightarrow> take n a = take n b"
  by (induction a b n rule: bytes_eq.induct) auto

text \<open>The words received make up the bytes expected exactly when each of them does, or none.\<close>

lemma words_match:
  assumes "list_all2 (\<lambda>i w. (map (word_byte w) [0..<4] = take 4 (drop (4 * i) bs)) = e) [0..<n] ws"
    "length bs = 4 * n" "0 < n"
  shows "(word_bytes ws = bs) = e"
proof -
  have len: "length ws = n"
    using assms(1) by (auto dest: list_all2_lengthD)
  have w: "(map (word_byte (ws ! i)) [0..<4] = take 4 (drop (4 * i) bs)) = e" if "i < n" for i
    using list_all2_nthD [OF assms(1), of i] that by simp
  show ?thesis
  proof
    assume "word_bytes ws = bs"
    then show e
      using w [of 0] take_word_bytes [of ws] assms(3) len by force
  next
    assume e: e
    show "word_bytes ws = bs"
    proof (rule nth_equalityI)
      fix j assume j: "j < length (word_bytes ws)"
      then have "j div 4 < n" "j mod 4 < 4"
        using len by auto
      with w [of "j div 4"] e have "map (word_byte (ws ! (j div 4))) [0..<4] ! (j mod 4) = take 4 (drop (4 * (j div 4)) bs) ! (j mod 4)"
        by simp
      with j len assms(2) show "word_bytes ws ! j = bs ! j"
        by (simp add: nth_word_bytes)
    qed (simp add: len assms(2))
  qed
qed

section \<open>The chip\<close>

definition last_config :: "psram_act event list \<Rightarrow> (u32 \<times> u32) option" where
  "last_config tr = fold (\<lambda>e c. case e of Dev (Rom_config cmd addr _ _ _ _) \<Rightarrow> Some (cmd, addr) | _ \<Rightarrow> c) tr None"

definition stored :: "psram_act event list \<Rightarrow> u32 \<Rightarrow> u8 list option" where
  "stored tr a = fold (\<lambda>e m. case e of Dev (Rom_config cmd addr _ tx _ _) \<Rightarrow>
     (if cmd = HEX_SYNC_WRITE \<and> addr = a then Some tx else m) | _ \<Rightarrow> m) tr None"

text \<open>
  The environment of the calibration: registers hold what was written, and a word received in a
  read transaction is the word last written at that address exactly when the programmed point
  lies in the eye.
\<close>

definition psram_link :: "(u8 \<Rightarrow> u8 \<Rightarrow> u8 \<Rightarrow> bool) \<Rightarrow> (psram_act event list \<Rightarrow> psram_act event \<Rightarrow> u32) \<Rightarrow> bool" where
  "psram_link eye ans \<longleftrightarrow> mmio ans \<and> (\<forall>tr p d q addr bs i.
     at_phase (reg_val tr) p \<and> at_delay (reg_val tr) d q \<and> last_config tr = Some (HEX_SYNC_READ, addr) \<and>
     stored tr addr = Some bs \<and> 4 * i + 4 \<le> length bs \<longrightarrow>
     (map (word_byte (ans tr (Dev (Rom_rx i)))) [0..<4] = take 4 (drop (4 * i) bs)) = eye p d q)"

lemma stored_calm: "\<forall>e \<in> set es. calm e \<Longrightarrow> stored (tr @ es) = stored tr"
  unfolding stored_def
  by (rule ext) (induction es rule: rev_induct, auto simp: calm_def split: event.splits psram_act.splits)

definition ref_slice :: "nat \<Rightarrow> u8 list" where
  "ref_slice off = take CHUNK (drop off (word_bytes s_ref))"

lemma length_s_ref: "length s_ref = 32"
  by (simp add: s_ref_def)

lemma length_ref_slice: "off \<in> {0, 64} \<Longrightarrow> length (ref_slice off) = 64"
  by (auto simp: ref_slice_def CHUNK_def length_s_ref)

definition ref_written :: "psram_act event list \<Rightarrow> bool" where
  "ref_written tr \<longleftrightarrow> (\<forall>off \<in> {0, 64}. stored tr (TUNE_ADDR + of_nat off) = Some (ref_slice off))"

definition cal :: "(u8 \<Rightarrow> u8 \<Rightarrow> u8 \<Rightarrow> bool) \<Rightarrow> 'z \<Rightarrow> u8 \<Rightarrow> u8 \<Rightarrow> u8 \<Rightarrow> 'z tune_state \<Rightarrow> bool" where
  "cal eye z p d q s \<longleftrightarrow> psram_link eye (answer s) \<and> ref_written (trace s) \<and> io.more s = z \<and>
     at_phase (reg_val (trace s)) p \<and> at_delay (reg_val (trace s)) d q"

lemma cal_reg_effect:
  assumes "reg_effect f m" "\<And>R. at_phase R p \<Longrightarrow> at_delay R d q \<Longrightarrow> at_phase (f R) p' \<and> at_delay (f R) d' q'"
  shows "triple (cal eye z p d q) m (\<lambda>_. cal eye z p' d' q')"
proof (rule tripleI)
  fix s a s'
  assume s: "cal eye z p d q s" and run: "run_state m s = (a, s')"
  then have "mmio (answer s)"
    by (simp add: cal_def psram_link_def)
  from reg_effectD [OF assms(1) this] run obtain es where
    "s' = s\<lparr>trace := trace s @ es\<rparr>" "reg_val (trace s @ es) = f (reg_val (trace s))" "\<forall>e \<in> set es. calm e"
    by (metis Pair_inject)
  with s assms(2) show "cal eye z p' d' q' s'"
    by (simp add: cal_def ref_written_def stored_calm)
qed

lemma cal_apply_phase: "p' < 4 \<Longrightarrow> triple (cal eye z p d q) (apply_phase p') (\<lambda>_. cal eye z p' d q)"
  by (rule cal_reg_effect [OF apply_phase_effect]) (simp add: at_phase_apply at_delay_phase)

lemma cal_apply_delayline:
  "d' < 16 \<Longrightarrow> q' < 16 \<Longrightarrow> triple (cal eye z p d q) (apply_delayline d' q') (\<lambda>_. cal eye z p d' q')"
  by (rule cal_reg_effect [OF apply_delayline_effect]) (simp add: at_delay_apply at_phase_delay)

lemma cal_printf: "triple (cal eye z p d q) (printf f xs) (\<lambda>_. cal eye z p d q)"
  by (rule cal_reg_effect [OF reg_effect_print]) simp


section \<open>A read of the pattern\<close>

definition reading :: "u32 \<Rightarrow> 'z tune_state \<Rightarrow> bool" where
  "reading addr s \<longleftrightarrow> last_config (trace s) = Some (HEX_SYNC_READ, addr)"

lemma cal_rx_word:
  assumes "off \<in> {0, 64}" "i < 16"
  shows "triple (\<lambda>s. cal eye z p d q s \<and> reading (TUNE_ADDR + of_nat off) s) (dev (Rom_rx i))
    (\<lambda>w s. (map (word_byte w) [0..<4] = take 4 (drop (4 * i) (ref_slice off))) = eye p d q \<and>
       (cal eye z p d q s \<and> reading (TUNE_ADDR + of_nat off) s))"
proof (rule tripleI)
  fix s w s'
  assume s: "cal eye z p d q s \<and> reading (TUNE_ADDR + of_nat off) s"
    and run: "run_state (dev (Rom_rx i)) s = (w, s')"
  have len: "4 * i + 4 \<le> length (ref_slice off)"
    using assms by (simp add: length_ref_slice)
  have bs: "stored (trace s) (TUNE_ADDR + of_nat off) = Some (ref_slice off)"
    using s assms(1) by (auto simp: cal_def ref_written_def)
  have "(map (word_byte (answer s (trace s) (Dev (Rom_rx i)))) [0..<4] = take 4 (drop (4 * i) (ref_slice off))) = eye p d q"
    using s len bs unfolding cal_def psram_link_def reading_def by blast
  moreover have "stored (trace s @ [Dev (Rom_rx i)]) = stored (trace s)"
    "last_config (trace s @ [Dev (Rom_rx i)]) = last_config (trace s)"
    "reg_val (trace s @ [Dev (Rom_rx i)]) = reg_val (trace s)"
    by (auto simp: stored_def last_config_def reg_step_def)
  ultimately show "(map (word_byte w) [0..<4] = take 4 (drop (4 * i) (ref_slice off))) = eye p d q \<and>
       cal eye z p d q s' \<and> reading (TUNE_ADDR + of_nat off) s'"
    using s run by (auto simp: cal_def ref_written_def reading_def)
qed

lemma cal_start_read:
  "triple (cal eye z p d q) (do {
     dev_do (Rom_op_mode 7);
     dev_do (Rom_config (ucast (ucast HEX_SYNC_READ :: u16)) addr dummy [] tb rb);
     dev_do (Rom_start n False)
   }) (\<lambda>_ s. cal eye z p d q s \<and> reading addr s)"
proof (rule tripleI)
  fix s a s'
  assume s: "cal eye z p d q s" and run: "run_state (do {
     dev_do (Rom_op_mode 7);
     dev_do (Rom_config (ucast (ucast HEX_SYNC_READ :: u16)) addr dummy [] tb rb);
     dev_do (Rom_start n False)
   }) s = (a, s')"
  let ?es = "[Dev (Rom_op_mode 7), Dev (Rom_config (ucast (ucast HEX_SYNC_READ :: u16)) addr dummy [] tb rb),
    Dev (Rom_start n False)]"
  have "(ucast (ucast HEX_SYNC_READ :: u16) :: u32) = HEX_SYNC_READ" "HEX_SYNC_READ \<noteq> HEX_SYNC_WRITE"
    by (simp_all add: const_defs)
  then have "stored (trace s @ ?es) = stored (trace s)" "last_config (trace s @ ?es) = Some (HEX_SYNC_READ, addr)"
    "reg_val (trace s @ ?es) = reg_val (trace s)"
    by (auto simp: stored_def last_config_def reg_val_def reg_step_def)
  with s run show "cal eye z p d q s' \<and> reading addr s'"
    by (auto simp: cal_def reading_def ref_written_def)
qed

lemma cal_read_chunk:
  assumes "off \<in> {0, 64}" "length rx = 64"
  shows "triple (cal eye z p d q)
    (board_psram_hex_xact HEX_SYNC_READ (TUNE_ADDR + of_nat off) dummy [] tb rx 512)
    (\<lambda>buf s. (length buf = 64 \<and> (buf = ref_slice off) = eye p d q) \<and> cal eye z p d q s)"
proof -
  let ?I = "\<lambda>s. cal eye z p d q s \<and> reading (TUNE_ADDR + of_nat off) s"
  let ?Q = "\<lambda>i w. (map (word_byte w) [0..<4] = take 4 (drop (4 * i) (ref_slice off))) = eye p d q"
  have "triple ?I (collect [0..<16] (\<lambda>i. dev (Rom_rx i))) (\<lambda>ws s. list_all2 ?Q [0..<16] ws \<and> ?I s)"
    by (rule triple_collect_all) (use cal_rx_word [OF assms(1)] in auto)
  moreover have "length buf = 64 \<and> (buf = ref_slice off) = eye p d q"
    if "list_all2 ?Q [0..<16] ws" "buf = copy_bytes rx 0 (word_bytes ws) 64" for ws buf
  proof -
    have "length ws = 16"
      using that(1) by (auto dest: list_all2_lengthD)
    then have "buf = word_bytes ws"
      using that(2) assms(2) by (simp add: copy_bytes_eq)
    with words_match [OF that(1)] \<open>length ws = 16\<close> assms(1) show ?thesis
      by (simp add: length_ref_slice)
  qed
  ultimately have tail: "triple ?I (do {
      ws \<leftarrow> collect [0..<16] (\<lambda>i. dev (Rom_rx i));
      ret (copy_bytes rx 0 (word_bytes ws) 64) })
    (\<lambda>buf s. (length buf = 64 \<and> (buf = ref_slice off) = eye p d q) \<and> cal eye z p d q s)"
    by (fast intro: triple_bind triple_ret)
  have "unat (512 :: u32) div 32 = 16"
    by simp
  with triple_bind [OF cal_start_read tail] show ?thesis
    unfolding board_psram_hex_xact_def by simp
qed

lemma ref_slices: "take 128 (word_bytes s_ref) = ref_slice 0 @ ref_slice 64"
  using take_add [of 64 64 "word_bytes s_ref"] by (simp add: ref_slice_def CHUNK_def)

lemma got_matches:
  assumes "length b0 = 64" "length b1 = 64" "length got = 128"
  shows "bytes_eq (copy_bytes (copy_bytes got 0 b0 64) 64 b1 64) (word_bytes s_ref) 128 \<longleftrightarrow>
    b0 = ref_slice 0 \<and> b1 = ref_slice 64"
proof -
  have "copy_bytes (copy_bytes got 0 b0 64) 64 b1 64 = b0 @ b1"
    using assms by (simp add: copy_bytes_eq)
  with assms(1,2) show ?thesis
    by (subst bytes_eq_take) (simp_all add: length_s_ref ref_slices length_ref_slice)
qed

lemma read_matches_unfold: "read_matches = do {
    b0 \<leftarrow> board_psram_hex_xact HEX_SYNC_READ (TUNE_ADDR + of_nat 0) RD_DUMMY [] 0 (zero_bytes (replicate 64 0) 64) 512;
    b1 \<leftarrow> board_psram_hex_xact HEX_SYNC_READ (TUNE_ADDR + of_nat 64) RD_DUMMY [] 0 (zero_bytes (replicate 64 0) 64) 512;
    ret (bytes_eq (copy_bytes (copy_bytes (zero_bytes (replicate 128 0) 128) 0 b0 64) 64 b1 64) (word_bytes s_ref) 128)
  }"
  by (simp add: read_matches_def TUNE_LEN_def CHUNK_def)

lemma cal_read_matches: "triple (cal eye z p d q) read_matches (\<lambda>ok s. ok = eye p d q \<and> cal eye z p d q s)"
  unfolding read_matches_unfold
proof (rule triple_bind [OF cal_read_chunk], simp, simp, rule triple_pre,
    rule triple_bind [OF cal_read_chunk], simp, simp, rule triple_pre, rule triple_ret)
  fix b0 b1 :: "u8 list" and s :: "'a tune_state"
  assume "length b0 = 64 \<and> (b0 = ref_slice 0) = eye p d q" "length b1 = 64 \<and> (b1 = ref_slice 64) = eye p d q"
    "cal eye z p d q s"
  then show "bytes_eq (copy_bytes (copy_bytes (zero_bytes (replicate 128 0) 128) 0 b0 64) 64 b1 64) (word_bytes s_ref) 128
      = eye p d q \<and> cal eye z p d q s"
    by (subst got_matches) auto
qed

lemma triple_count_hits:
  assumes "triple I trial (\<lambda>ok s. ok = e \<and> I s)"
  shows "triple I (count_hits n trial h) (\<lambda>r s. r = (if e then h + of_nat n else h) \<and> I s)"
proof (induction n arbitrary: h)
  case 0
  then show ?case by (simp add: triple_ret)
next
  case (Suc n)
  have "triple (\<lambda>s. ok = e \<and> I s) (count_hits n trial (if ok then h + 1 else h))
      (\<lambda>r s. r = (if e then h + of_nat (Suc n) else h) \<and> I s)" for ok
    by (rule triple_pre) (use Suc [of "h + 1"] Suc [of h] in \<open>auto simp: add_ac\<close>)
  then show ?case
    by (auto intro: triple_bind [OF assms])
qed

section \<open>The sweeps\<close>

text \<open>The results of the two searches on an eye.\<close>

definition phase_scores :: "(u8 \<Rightarrow> u8 \<Rightarrow> u8 \<Rightarrow> bool) \<Rightarrow> u32 list" where
  "phase_scores eye = map (\<lambda>i. if eye (of_nat i) 0 0 then 1 else 0) [0..<4]"

definition delay_scores :: "(u8 \<Rightarrow> u8 \<Rightarrow> u8 \<Rightarrow> bool) \<Rightarrow> u8 \<Rightarrow> u32 list" where
  "delay_scores eye p = map (\<lambda>(d, q). if eye p d q then 100 else 0) s_delay_tbl"

definition phase_choice :: "(u8 \<Rightarrow> u8 \<Rightarrow> u8 \<Rightarrow> bool) \<Rightarrow> u32" where
  "phase_choice eye = (case find_window (phase_scores eye) 1 of (len, e) \<Rightarrow> if len = 0 then 0 else e - len + 1)"

definition delay_choice :: "(u8 \<Rightarrow> u8 \<Rightarrow> u8 \<Rightarrow> bool) \<Rightarrow> u8 \<Rightarrow> u32" where
  "delay_choice eye p = (case find_window (delay_scores eye p) 100 of (len, e) \<Rightarrow> if len \<le> 1 then 0 else e - len div 2)"

lemma cal_phase_sweep:
  "triple (\<lambda>s. \<exists>p. cal eye z p 0 0 s)
    (collect [0..<4] (\<lambda>i. do { apply_phase (of_nat i); ok \<leftarrow> read_matches; ret (if ok then 1 else 0) }))
    (\<lambda>good s. good = phase_scores eye \<and> (\<exists>p. cal eye z p 0 0 s))"
  unfolding phase_scores_def
proof (rule triple_collect)
  fix i assume i: "i \<in> set [0..<4]"
  then have "(of_nat i :: u8) < 4"
    by (auto simp: word_less_nat_alt unat_of_nat)
  then have "triple (\<lambda>s. \<exists>p. cal eye z p 0 0 s) (apply_phase (of_nat i)) (\<lambda>_. cal eye z (of_nat i) 0 0)"
    by (intro triple_ex cal_apply_phase)
  then show "triple (\<lambda>s. \<exists>p. cal eye z p 0 0 s)
      (do { apply_phase (of_nat i); ok \<leftarrow> read_matches; ret (if ok then 1 else 0) })
      (\<lambda>y s. y = (if eye (of_nat i) 0 0 then 1 else 0) \<and> (\<exists>p. cal eye z p 0 0 s))"
    by (rule triple_bind) (rule triple_bind [OF cal_read_matches], rule triple_ret, auto)
qed

lemma delay_tbl_small: "(d, q) \<in> set s_delay_tbl \<Longrightarrow> d < 16 \<and> q < 16"
  unfolding s_delay_tbl_def by (simp, elim disjE, simp_all)

lemma length_delay_tbl: "length s_delay_tbl = 31"
  by (simp add: s_delay_tbl_def)

lemma cal_delay_sweep:
  "triple (\<lambda>s. \<exists>d q. cal eye z p d q s)
    (collect s_delay_tbl (\<lambda>(d, q). do { apply_delayline d q; count_hits 100 read_matches 0 }))
    (\<lambda>good s. good = delay_scores eye p \<and> (\<exists>d q. cal eye z p d q s))"
  unfolding delay_scores_def
proof (rule triple_collect)
  fix x assume x: "x \<in> set s_delay_tbl"
  obtain d q where dq: "x = (d, q)"
    by (cases x)
  with x delay_tbl_small have "d < 16" "q < 16"
    by auto
  then have "triple (\<lambda>s. \<exists>d q. cal eye z p d q s) (apply_delayline d q) (\<lambda>_. cal eye z p d q)"
    by (intro triple_ex cal_apply_delayline)
  moreover have "triple (cal eye z p d q) (count_hits 100 read_matches 0)
      (\<lambda>y s. y = (if eye p d q then 100 else 0) \<and> (\<exists>d q. cal eye z p d q s))"
    using triple_count_hits [OF cal_read_matches, of eye z p d q 100 0]
    by (rule triple_weaken) auto
  ultimately show "triple (\<lambda>s. \<exists>d q. cal eye z p d q s)
      (case x of (d, q) \<Rightarrow> do { apply_delayline d q; count_hits 100 read_matches 0 })
      (\<lambda>y s. y = (case x of (d, q) \<Rightarrow> if eye p d q then 100 else 0) \<and> (\<exists>d q. cal eye z p d q s))"
    unfolding dq prod.case by (rule triple_bind)
qed


text \<open>The state of the calibration with its recorded results.\<close>

definition best :: "(u8 \<Rightarrow> u8 \<Rightarrow> u8 \<Rightarrow> bool) \<Rightarrow> u8 \<times> u8 \<times> u8 \<Rightarrow> u8 \<Rightarrow> u8 \<Rightarrow> u8 \<Rightarrow> 'z tune_st_scheme \<Rightarrow> bool" where
  "best eye g p d q s \<longleftrightarrow> cal eye (io.more s) p d q s \<and> (g_best_phase s, g_best_data_dl s, g_best_dqs_dl s) = g"

lemma more_best: "io.more s' = io.more s \<Longrightarrow> g_best_phase s' = g_best_phase s \<and>
    g_best_data_dl s' = g_best_data_dl s \<and> g_best_dqs_dl s' = g_best_dqs_dl s"
  for s s' :: "'z tune_st_scheme"
  by (cases s, cases s') simp

lemma best_lift_gen:
  assumes "\<And>z. triple (C z) m (\<lambda>a s. Q a \<and> D z s)" "\<And>z s. D z s \<Longrightarrow> io.more s = z"
  shows "triple (\<lambda>s. C (io.more s) s \<and> (g_best_phase s, g_best_data_dl s, g_best_dqs_dl s) = g) m
    (\<lambda>a s. Q a \<and> D (io.more s) s \<and> (g_best_phase s, g_best_data_dl s, g_best_dqs_dl s) = g)"
proof (rule tripleI)
  fix s :: "'a tune_st_scheme" and a s'
  assume s: "C (io.more s) s \<and> (g_best_phase s, g_best_data_dl s, g_best_dqs_dl s) = g"
    and run: "run_state m s = (a, s')"
  then have "Q a \<and> D (io.more s) s'"
    using tripleD [OF assms(1) [of "io.more s"] _ run] by simp
  moreover from this assms(2) have "io.more s' = io.more s"
    by simp
  ultimately show "Q a \<and> D (io.more s') s' \<and> (g_best_phase s', g_best_data_dl s', g_best_dqs_dl s') = g"
    using s more_best [of s' s] by simp
qed

lemma best_lift:
  assumes "\<And>z. triple (cal eye z p d q) m (\<lambda>a s. Q a \<and> cal eye z p' d' q' s)"
  shows "triple (best eye g p d q) m (\<lambda>a s. Q a \<and> best eye g p' d' q' s)"
  using best_lift_gen [where C = "\<lambda>z. cal eye z p d q" and D = "\<lambda>z. cal eye z p' d' q'" and Q = Q and g = g, OF assms]
  by (simp add: best_def [abs_def] cal_def)

lemma best_lift_unit:
  "(\<And>z. triple (cal eye z p d q) m (\<lambda>_. cal eye z p' d' q')) \<Longrightarrow>
    triple (best eye g p d q) m (\<lambda>_. best eye g p' d' q')"
  using best_lift [of eye p d q m "\<lambda>_. True" p' d' q' g] by simp

lemma best_set:
  assumes "\<And>s. trace (f s) = trace s \<and> answer (f s) = answer s"
    "\<And>s. best eye g p d q s \<Longrightarrow> (g_best_phase (f s), g_best_data_dl (f s), g_best_dqs_dl (f s)) = g'"
  shows "triple (best eye g p d q) (modify f) (\<lambda>_. best eye g' p d q)"
  using assms by (auto intro!: triple_modify simp: best_def cal_def)

lemma phase_choice_small: "unat (phase_choice eye) < 4"
proof -
  obtain len e where w: "find_window (phase_scores eye) 1 = (len, e)"
    by (cases "find_window (phase_scores eye) 1")
  show ?thesis
  proof (cases "len = 0")
    case False
    then have "unat e < 4" "unat len \<le> Suc (unat e)" "0 < unat len"
      using find_window_run [OF _ w] by (auto simp: phase_scores_def unat_gt_0)
    with False w show ?thesis
      by (simp add: phase_choice_def window_start)
  qed (simp add: phase_choice_def w)
qed

lemma delay_choice_bound: "unat (delay_choice eye p) < 31"
proof -
  obtain len e where w: "find_window (delay_scores eye p) 100 = (len, e)"
    by (cases "find_window (delay_scores eye p) 100")
  show ?thesis
  proof (cases "len \<le> 1")
    case False
    then have "len \<noteq> 0"
      by auto
    then have "unat e < 31" "unat len \<le> Suc (unat e)"
      using find_window_run [OF _ w] by (auto simp: delay_scores_def length_delay_tbl)
    with False w show ?thesis
      by (simp add: delay_choice_def window_middle)
  qed (simp add: delay_choice_def w)
qed

abbreviation (input) chosen :: "(u8 \<Rightarrow> u8 \<Rightarrow> u8 \<Rightarrow> bool) \<Rightarrow> u8 \<Rightarrow> u8 \<times> u8" where
  "chosen eye p \<equiv> s_delay_tbl ! unat (delay_choice eye p)"

lemma chosen_small: "fst (chosen eye p) < 16" "snd (chosen eye p) < 16"
  using delay_tbl_small [of "fst (chosen eye p)" "snd (chosen eye p)"] delay_choice_bound [of eye p]
  by (simp_all add: length_delay_tbl)

lemma ucast_phase_small: "(ucast (phase_choice eye) :: u8) < 4" "unat (ucast (phase_choice eye) :: u8) = unat (phase_choice eye)"
  using phase_choice_small [of eye]
  by (simp_all add: word_less_nat_alt unsigned_ucast_eq take_bit_eq_mod)

lemma best_collect_phase:
  "triple (best eye g p 0 0)
    (collect [0..<4] (\<lambda>i. do { apply_phase (of_nat i); ok \<leftarrow> read_matches; ret (if ok then 1 else 0) }))
    (\<lambda>good s. good = phase_scores eye \<and> (\<exists>p. best eye g p 0 0 s))"
  using best_lift_gen [OF cal_phase_sweep, where g = g]
  by (rule triple_weaken) (auto simp: best_def cal_def)

lemma best_collect_delay:
  "triple (best eye g p d q)
    (collect s_delay_tbl (\<lambda>(d, q). do { apply_delayline d q; count_hits 100 read_matches 0 }))
    (\<lambda>good s. good = delay_scores eye p \<and> (\<exists>d q. best eye g p d q s))"
  using best_lift_gen [OF cal_delay_sweep, where g = g]
  by (rule triple_weaken) (auto simp: best_def cal_def)

lemma best_sweep_phase:
  "triple (best eye (gp, gd, gq) p 0 0) sweep_phase
    (\<lambda>_. best eye (ucast (phase_choice eye), gd, gq) (ucast (phase_choice eye)) 0 0)"
proof -
  let ?p = "ucast (phase_choice eye) :: u8"
  obtain len e where w: "find_window (phase_scores eye) 1 = (len, e)"
    by (cases "find_window (phase_scores eye) 1")
  let ?b = "if len = 0 then 0 else e - len + 1"
  have b: "?b = phase_choice eye"
    by (simp add: phase_choice_def w)
  have set: "triple (\<lambda>s. \<exists>p. best eye (gp, gd, gq) p 0 0 s) (modify (\<lambda>s. s\<lparr>g_best_phase := ?p\<rparr>))
      (\<lambda>_ s. \<exists>p. best eye (?p, gd, gq) p 0 0 s)"
    by (rule triple_modify) (auto simp: best_def cal_def)
  have get: "triple (\<lambda>s. \<exists>p. best eye (?p, gd, gq) p 0 0 s) (gets g_best_phase)
      (\<lambda>x s. x = ?p \<and> (\<exists>p. best eye (?p, gd, gq) p 0 0 s))"
    by (rule triple_gets) (auto simp: best_def)
  have app: "triple (\<lambda>s. \<exists>p. best eye (?p, gd, gq) p 0 0 s) (apply_phase ?p) (\<lambda>_. best eye (?p, gd, gq) ?p 0 0)"
    by (intro triple_ex best_lift_unit cal_apply_phase ucast_phase_small)
  have prt: "triple (best eye (?p, gd, gq) ?p 0 0) (printf f xs) (\<lambda>_. best eye (?p, gd, gq) ?p 0 0)" for f xs
    by (intro best_lift_unit cal_printf)
  have tail: "triple (\<lambda>s. \<exists>p. best eye (gp, gd, gq) p 0 0 s) (do {
       modify (\<lambda>s. s\<lparr>g_best_phase := ?p\<rparr>);
       p \<leftarrow> gets g_best_phase;
       apply_phase p;
       printf ''ulmk: psram tune phase=%u win=%u'' [ucast p, len] }) (\<lambda>_. best eye (?p, gd, gq) ?p 0 0)"
  proof (rule triple_bind [OF set], rule triple_bind [OF get], rule triple_pre)
    fix u x assume "x = ?p"
    then show "triple (\<lambda>s. \<exists>p. best eye (?p, gd, gq) p 0 0 s) (do { apply_phase x;
        printf ''ulmk: psram tune phase=%u win=%u'' [ucast x, len] }) (\<lambda>_. best eye (?p, gd, gq) ?p 0 0)"
      using triple_bind [OF app prt] by simp
  qed
  show ?thesis
    unfolding sweep_phase_def PHASE_NUM_def
    by (rule triple_bind [OF best_collect_phase], rule triple_pre) (simp only: w prod.case Let_def b tail)
qed


lemma best_sweep_delay:
  "triple (best eye (gp, gd, gq) p d q) (do {
     good \<leftarrow> collect s_delay_tbl (\<lambda>(d, q). do { apply_delayline d q; count_hits 100 read_matches 0 });
     let (len, end_i) = find_window good 100;
     let best = (if len \<le> 1 then 0 else end_i - len div 2);
     e \<leftarrow> delay_entry best;
     set_best e;
     apply_delayline (fst e) (snd e);
     printf ''ulmk: psram tune dl data=%u dqs=%u win=%u'' [ucast (fst e), ucast (snd e), len]
   }) (\<lambda>_. best eye (gp, fst (chosen eye p), snd (chosen eye p)) p (fst (chosen eye p)) (snd (chosen eye p)))"
proof -
  let ?e = "chosen eye p"
  obtain len e where w: "find_window (delay_scores eye p) 100 = (len, e)"
    by (cases "find_window (delay_scores eye p) 100")
  have b: "(if len \<le> 1 then 0 else e - len div 2) = delay_choice eye p"
    by (simp add: delay_choice_def w)
  have entry: "delay_entry (delay_choice eye p) = ret ?e"
    using delay_choice_bound [of eye p] by (simp add: delay_entry_def length_delay_tbl)
  have set: "triple (\<lambda>s. \<exists>d q. best eye (gp, gd, gq) p d q s) (set_best ?e)
      (\<lambda>_ s. \<exists>d q. best eye (gp, fst ?e, snd ?e) p d q s)"
    unfolding set_best_def by (rule triple_modify) (auto simp: best_def cal_def)
  have app: "triple (\<lambda>s. \<exists>d q. best eye (gp, fst ?e, snd ?e) p d q s) (apply_delayline (fst ?e) (snd ?e))
      (\<lambda>_. best eye (gp, fst ?e, snd ?e) p (fst ?e) (snd ?e))"
    by (intro triple_ex best_lift_unit cal_apply_delayline chosen_small)
  have prt: "triple (best eye (gp, fst ?e, snd ?e) p (fst ?e) (snd ?e)) (printf f xs)
      (\<lambda>_. best eye (gp, fst ?e, snd ?e) p (fst ?e) (snd ?e))" for f xs
    by (intro best_lift_unit cal_printf)
  note tail = triple_bind [OF set triple_bind [OF app prt]]
  show ?thesis
    by (rule triple_bind [OF best_collect_delay], rule triple_pre)
       (simp only: w prod.case Let_def b entry State_Monad.bind_left_identity State_Monad.bind_assoc tail)
qed

lemma best_gets:
  "triple (best eye (gp, gd, gq) p d q) (gets g_best_phase) (\<lambda>x s. x = gp \<and> best eye (gp, gd, gq) p d q s)"
  "triple (best eye (gp, gd, gq) p d q) (gets g_best_data_dl) (\<lambda>x s. x = gd \<and> best eye (gp, gd, gq) p d q s)"
  "triple (best eye (gp, gd, gq) p d q) (gets g_best_dqs_dl) (\<lambda>x s. x = gq \<and> best eye (gp, gd, gq) p d q s)"
  by (auto simp: best_def intro!: triple_gets)


section \<open>The whole calibration\<close>

lemma set_bus_effect:
  "\<exists>b. reg_effect (\<lambda>R. R(SRAM_CLK := b, SPI1_CLOCK := b)) (set_bus_mhz mhz)"
  unfolding set_bus_mhz_def Let_def by (rule exI) (rule reg_effect_seq [OF reg_effect_wr reg_effect_wr])

lemma bus_regs: "SRAM_CLK = 0x5008E050" "SPI1_CLOCK = 0x5008F014"
  by (simp_all add: const_defs)

lemma bus_not_tuning: "SRAM_CLK \<notin> tune_pins \<union> tune_dqs" "SPI1_CLOCK \<notin> tune_pins \<union> tune_dqs"
  unfolding tune_pins_def tune_dqs_def set_map [symmetric] pin_lists dqs_regs bus_regs by simp_all

lemma at_upd: "a \<notin> tune_pins \<union> tune_dqs \<Longrightarrow> at_phase (R(a := v)) p = at_phase R p"
  "a \<notin> tune_pins \<union> tune_dqs \<Longrightarrow> at_delay (R(a := v)) d q = at_delay R d q"
  by (auto simp: at_phase_def at_delay_def)

lemmas at_bus = at_upd [OF bus_not_tuning(1)] at_upd [OF bus_not_tuning(2)]

lemma best_set_bus: "triple (best eye g p d q) (set_bus_mhz mhz) (\<lambda>_. best eye g p d q)"
proof -
  obtain b where "reg_effect (\<lambda>R. R(SRAM_CLK := b, SPI1_CLOCK := b))
      (set_bus_mhz mhz :: ('a tune_st_scheme, unit) state)"
    using set_bus_effect by blast
  then show ?thesis
    by (intro best_lift_unit, elim cal_reg_effect) (auto simp: at_bus)
qed

text \<open>The reference pattern is in the chip after \<open>write_ref\<close>.\<close>

definition linked :: "(u8 \<Rightarrow> u8 \<Rightarrow> u8 \<Rightarrow> bool) \<Rightarrow> u8 \<times> u8 \<times> u8 \<Rightarrow> u8 \<Rightarrow> u8 \<Rightarrow> u8 \<Rightarrow> 'z tune_st_scheme \<Rightarrow> bool" where
  "linked eye g p d q s \<longleftrightarrow> psram_link eye (answer s) \<and> (g_best_phase s, g_best_data_dl s, g_best_dqs_dl s) = g \<and>
     at_phase (reg_val (trace s)) p \<and> at_delay (reg_val (trace s)) d q"

lemma linked_reg_effect:
  assumes "reg_effect f m" "\<And>R. at_phase (f R) p \<and> at_delay (f R) d q"
  shows "triple (\<lambda>s. psram_link eye (answer s) \<and> (g_best_phase s, g_best_data_dl s, g_best_dqs_dl s) = g) m
    (\<lambda>_. linked eye g p d q)"
proof (rule tripleI)
  fix s :: "'a tune_st_scheme" and a s'
  assume s: "psram_link eye (answer s) \<and> (g_best_phase s, g_best_data_dl s, g_best_dqs_dl s) = g"
    and run: "run_state m s = (a, s')"
  then have "mmio (answer s)"
    by (simp add: psram_link_def)
  from reg_effectD [OF assms(1) this] run obtain es where
    "s' = s\<lparr>trace := trace s @ es\<rparr>" "reg_val (trace s @ es) = f (reg_val (trace s))"
    by (metis Pair_inject)
  with s assms(2) show "linked eye g p d q s'"
    by (simp add: linked_def)
qed

lemma write_slice: "off \<in> {0, 64} \<Longrightarrow>
    copy_bytes (replicate CHUNK 0) 0 (drop off (word_bytes s_ref)) 64 = ref_slice off"
  by (auto simp: copy_bytes_eq ref_slice_def length_s_ref CHUNK_def)

lemma linked_write_ref: "triple (linked eye g p d q) write_ref (\<lambda>_. best eye g p d q)"
proof (rule tripleI)
  fix s :: "'a tune_st_scheme" and u s'
  assume s: "linked eye g p d q s" and run: "run_state write_ref s = (u, s')"
  let ?es = "\<lambda>off. [Dev (Rom_op_mode 7), Dev (Rom_config HEX_SYNC_WRITE (TUNE_ADDR + of_nat off) WR_DUMMY (ref_slice off) 512 0),
    Dev (Rom_start 0 False)]"
  have cmd: "(ucast (ucast HEX_SYNC_WRITE :: u16) :: u32) = HEX_SYNC_WRITE"
    by (simp add: const_defs)
  have s': "s' = s\<lparr>trace := trace s @ ?es 0 @ ?es 64\<rparr>"
    using run write_slice [of 0] write_slice [of 64] cmd
    by (simp add: write_ref_def board_psram_hex_xact_def TUNE_LEN_def CHUNK_def)
  have "TUNE_ADDR \<noteq> TUNE_ADDR + 64"
    by (simp add: TUNE_ADDR_def)
  then have "ref_written (trace s')"
    unfolding s' by (auto simp: ref_written_def stored_def)
  moreover have "reg_val (trace s') = reg_val (trace s)"
    unfolding s' by (rule ext) (simp add: reg_val_def reg_step_def)
  ultimately show "best eye g p d q s'"
    using s unfolding s' by (simp add: best_def cal_def linked_def)
qed

lemma start_effect:
  "\<exists>b. reg_effect (\<lambda>R. (delay_regs 0 0 (phase_regs 0 R))(SRAM_CLK := b, SPI1_CLOCK := b))
    (do { printf f xs; clear_tuning; set_bus_mhz mhz })"
proof -
  obtain b where "reg_effect (\<lambda>R. R(SRAM_CLK := b, SPI1_CLOCK := b))
      (set_bus_mhz mhz :: ('a tune_state, unit) state)"
    using set_bus_effect by blast
  note bus = this
  have clear: "reg_effect (\<lambda>R. delay_regs 0 0 (phase_regs 0 R)) (clear_tuning :: ('a tune_state, unit) state)"
    unfolding clear_tuning_def by (rule reg_effect_seq [OF apply_phase_effect apply_delayline_effect])
  show ?thesis
    using reg_effect_seq [OF reg_effect_print reg_effect_seq [OF clear bus]] by blast
qed

lemma best_apply_phase:
  "p' < 4 \<Longrightarrow> triple (best eye g p d q) (apply_phase p') (\<lambda>_. best eye g p' d q)"
  by (intro best_lift_unit cal_apply_phase)

lemma best_apply_delayline:
  "d' < 16 \<Longrightarrow> q' < 16 \<Longrightarrow> triple (best eye g p d q) (apply_delayline d' q') (\<lambda>_. best eye g p d' q')"
  by (intro best_lift_unit cal_apply_delayline)

lemma best_sweep_delayline:
  assumes "gp < 4"
  shows "triple (best eye (gp, gd, gq) p d q) sweep_delayline
    (\<lambda>_. best eye (gp, fst (chosen eye gp), snd (chosen eye gp)) gp (fst (chosen eye gp)) (snd (chosen eye gp)))"
  unfolding sweep_delayline_def DELAY_SWEEPS_def
proof (rule triple_bind [OF best_gets(1)], rule triple_pre)
  fix x assume "x = gp"
  then show "triple (best eye (gp, gd, gq) p d q)
      (State_Monad.bind (apply_phase x) (\<lambda>_. do {
        good \<leftarrow> collect s_delay_tbl (\<lambda>(d, q). do { apply_delayline d q; count_hits 100 read_matches 0 });
        let (len, end_i) = find_window good (of_nat 100);
        let best = (if len \<le> 1 then 0 else end_i - len div 2);
        e \<leftarrow> delay_entry best;
        set_best e;
        apply_delayline (fst e) (snd e);
        printf ''ulmk: psram tune dl data=%u dqs=%u win=%u'' [ucast (fst e), ucast (snd e), len] }))
      (\<lambda>_. best eye (gp, fst (chosen eye gp), snd (chosen eye gp)) gp (fst (chosen eye gp)) (snd (chosen eye gp)))"
    using triple_bind [OF best_apply_phase [OF assms, of eye "(gp, gd, gq)" p d q] best_sweep_delay [of eye gp gd gq gp]]
    by simp
qed

lemma best_apply_best:
  assumes "gp < 4" "gd < 16" "gq < 16"
  shows "triple (best eye (gp, gd, gq) p d q) board_psram_timing_apply (\<lambda>_. best eye (gp, gd, gq) gp gd gq)"
  unfolding board_psram_timing_apply_def
proof (rule triple_bind [OF best_gets(1)], rule triple_pre, simp only:,
    rule triple_bind [OF best_apply_phase [OF assms(1)]], rule triple_bind [OF best_gets(2)], rule triple_pre,
    simp only:, rule triple_bind [OF best_gets(3)], rule triple_pre, simp only:)
  show "triple (best eye (gp, gd, gq) gp d q) (apply_delayline gd gq) (\<lambda>_. best eye (gp, gd, gq) gp gd gq)"
    by (rule best_apply_delayline [OF assms(2,3)])
qed

lemma best_verify:
  "triple (best eye g p d q) (do {
     ok \<leftarrow> read_matches;
     if \<not> ok then do { printf ''ulmk: psram tune verify FAIL'' []; ret (- 1) }
     else do { printf ''ulmk: psram tune ok'' []; ret 0 } })
    (\<lambda>r s. r = (if eye p d q then 0 else - 1 :: cint) \<and> best eye g p d q s)"
proof (rule triple_bind [OF best_lift [OF cal_read_matches]], rule triple_pre)
  fix ok assume "ok = eye p d q"
  then show "triple (best eye g p d q) (if \<not> ok then do { printf ''ulmk: psram tune verify FAIL'' []; ret (- 1) }
      else do { printf ''ulmk: psram tune ok'' []; ret 0 })
      (\<lambda>r s. r = (if eye p d q then 0 else - 1 :: cint) \<and> best eye g p d q s)"
    by (auto intro!: triple_bind [OF best_lift_unit [OF cal_printf]] triple_ret)
qed

lemma tune_unfold: "board_psram_timing_tune = do {
    do { printf ''ulmk: psram timing tune'' []; clear_tuning; set_bus_mhz 20 };
    write_ref; set_bus_mhz 200; sweep_phase; sweep_delayline; board_psram_timing_apply;
    ok \<leftarrow> read_matches;
    if \<not> ok then do { printf ''ulmk: psram tune verify FAIL'' []; ret (- 1) }
    else do { printf ''ulmk: psram tune ok'' []; ret 0 } }"
  by (simp add: board_psram_timing_tune_def board_psram_timing_apply_def)

lemma tune_result:
  "triple (\<lambda>s. psram_link eye (answer s) \<and> (g_best_phase s, g_best_data_dl s, g_best_dqs_dl s) = (gp, gd, gq))
    board_psram_timing_tune
    (\<lambda>r s. let p = ucast (phase_choice eye); e = chosen eye p in
       r = (if eye p (fst e) (snd e) then 0 else - 1) \<and> best eye (p, fst e, snd e) p (fst e) (snd e) s)"
proof -
  let ?p = "ucast (phase_choice eye) :: u8"
  let ?e = "chosen eye ?p"
  obtain b where "reg_effect (\<lambda>R. (delay_regs 0 0 (phase_regs 0 R))(SRAM_CLK := b, SPI1_CLOCK := b))
      (do { printf ''ulmk: psram timing tune'' []; clear_tuning; set_bus_mhz 20 } :: ('a tune_st_scheme, unit) state)"
    using start_effect by blast
  then have start: "triple (\<lambda>s. psram_link eye (answer s) \<and> (g_best_phase s, g_best_data_dl s, g_best_dqs_dl s) = (gp, gd, gq))
      (do { printf ''ulmk: psram timing tune'' []; clear_tuning; set_bus_mhz 20 } :: ('a tune_st_scheme, unit) state)
      (\<lambda>_. linked eye (gp, gd, gq) 0 0 0)"
    by (rule linked_reg_effect) (simp add: at_bus at_phase_delay at_phase_apply at_delay_apply)
  note verify = triple_bind [OF best_apply_best [OF ucast_phase_small(1) chosen_small] best_verify]
  note sweeps = triple_bind [OF best_sweep_phase triple_bind [OF best_sweep_delayline [OF ucast_phase_small(1)] verify]]
  from triple_bind [OF start triple_bind [OF linked_write_ref triple_bind [OF best_set_bus sweeps]]]
  show ?thesis
    unfolding tune_unfold Let_def .
qed


text \<open>\<open>longest good N a n\<close>: the \<open>n\<close> points from \<open>a\<close> on are good, and no longer window is.\<close>

definition window :: "(nat \<Rightarrow> bool) \<Rightarrow> nat \<Rightarrow> nat \<Rightarrow> nat \<Rightarrow> bool" where
  "window good N a n \<longleftrightarrow> a + n \<le> N \<and> (\<forall>k < n. good (a + k))"

definition longest :: "(nat \<Rightarrow> bool) \<Rightarrow> nat \<Rightarrow> nat \<Rightarrow> nat \<Rightarrow> bool" where
  "longest good N a n \<longleftrightarrow> window good N a n \<and> (\<forall>b m. window good N b m \<longrightarrow> m \<le> n)"

definition phase_good :: "(u8 \<Rightarrow> u8 \<Rightarrow> u8 \<Rightarrow> bool) \<Rightarrow> nat \<Rightarrow> bool" where
  "phase_good eye i = eye (of_nat i) 0 0"

definition delay_good :: "(u8 \<Rightarrow> u8 \<Rightarrow> u8 \<Rightarrow> bool) \<Rightarrow> u8 \<Rightarrow> nat \<Rightarrow> bool" where
  "delay_good eye p i = eye p (fst (s_delay_tbl ! i)) (snd (s_delay_tbl ! i))"

lemma score_eq: "((if b then 1 else 0 :: u32) = 1) = b" "((if b then 100 else 0 :: u32) = 100) = b"
  by simp_all

lemma run_at_scores:
  "run_at (phase_scores eye) 1 a n \<longleftrightarrow> window (phase_good eye) 4 a n"
  "run_at (delay_scores eye p) 100 a n \<longleftrightarrow> window (delay_good eye p) 31 a n"
  by (auto simp: run_at_def window_def phase_scores_def delay_scores_def phase_good_def delay_good_def
      length_delay_tbl case_prod_beta score_eq)

lemma phase_choice_longest:
  "\<exists>n. longest (phase_good eye) 4 (unat (phase_choice eye)) n"
proof -
  obtain len e where w: "find_window (phase_scores eye) 1 = (len, e)"
    by (cases "find_window (phase_scores eye) 1")
  have len: "length (phase_scores eye) = 4"
    by (simp add: phase_scores_def)
  note f = find_window_run [OF _ w, unfolded len, simplified, unfolded run_at_scores]
  show ?thesis
  proof (cases "len = 0")
    case True
    then have "longest (phase_good eye) 4 0 0"
      using f(4) by (simp add: longest_def) (simp add: window_def)
    with True w show ?thesis
      by (auto simp: phase_choice_def)
  next
    case False
    with f have "longest (phase_good eye) 4 (Suc (unat e) - unat len) (unat len)"
      by (auto simp: longest_def)
    with False w f(1,2) show ?thesis
      by (auto simp: phase_choice_def window_start)
  qed
qed

lemma delay_choice_longest:
  "\<exists>a n. longest (delay_good eye p) 31 a n \<and>
     unat (delay_choice eye p) = (if n < 2 then 0 else a + (n - 1) div 2)"
proof -
  obtain len e where w: "find_window (delay_scores eye p) 100 = (len, e)"
    by (cases "find_window (delay_scores eye p) 100")
  have len: "length (delay_scores eye p) = 31"
    by (simp add: delay_scores_def length_delay_tbl)
  note f = find_window_run [OF _ w, unfolded len, simplified, unfolded run_at_scores]
  show ?thesis
  proof (cases "len = 0")
    case True
    then have "longest (delay_good eye p) 31 0 0"
      using f(4) by (simp add: longest_def) (simp add: window_def)
    with True w show ?thesis
      by (intro exI [of _ 0]) (simp add: delay_choice_def)
  next
    case False
    with f have l: "longest (delay_good eye p) 31 (Suc (unat e) - unat len) (unat len)"
      by (auto simp: longest_def)
    show ?thesis
    proof (cases "len \<le> 1")
      case True
      then have "unat len < 2"
        by (simp add: word_le_nat_alt)
      with l True w show ?thesis
        by (auto simp: delay_choice_def)
    next
      case gt: False
      then have "\<not> unat len < 2"
        by (simp add: word_le_nat_alt)
      moreover from this f(2) [OF False] have
        "unat e - unat len div 2 = Suc (unat e) - unat len + (unat len - 1) div 2"
        by arith
      ultimately show ?thesis
        using l gt False f(2) w by (intro exI [of _ "Suc (unat e) - unat len"] exI [of _ "unat len"])
          (simp add: delay_choice_def window_middle)
    qed
  qed
qed

text \<open>C11: On a chip whose reads are right exactly inside an eye of tuning points, the calibration
  programs the start of a longest window of good phases and the middle of a longest window of good delay
  lines for that phase, records them, and returns 0 exactly when the programmed point is in the eye;
  that is certain as soon as two neighbouring delay lines are good.\<close>

theorem tune_programs_the_middle:
  assumes "psram_link eye (answer st)" "run_state board_psram_timing_tune st = (r, st')"
  shows "\<exists>p b. p < 4 \<and> b < 31 \<and> at_phase (reg_val (trace st')) p \<and>
    at_delay (reg_val (trace st')) (fst (s_delay_tbl ! b)) (snd (s_delay_tbl ! b)) \<and>
    (g_best_phase st', g_best_data_dl st', g_best_dqs_dl st') = (p, s_delay_tbl ! b) \<and>
    r = (if delay_good eye p b then 0 else - 1) \<and>
    (\<exists>n. longest (phase_good eye) 4 (unat p) n) \<and>
    (\<exists>a n. longest (delay_good eye p) 31 a n \<and> b = (if n < 2 then 0 else a + (n - 1) div 2) \<and> (2 \<le> n \<longrightarrow> r = 0))"
proof -
  define p where "p = (ucast (phase_choice eye) :: u8)"
  define b where "b = unat (delay_choice eye p)"
  from tripleD [OF tune_result, where s = st and a = r and s' = st'] assms
  have r: "r = (if delay_good eye p b then 0 else - 1)"
    and st': "best eye (p, fst (s_delay_tbl ! b), snd (s_delay_tbl ! b)) p (fst (s_delay_tbl ! b)) (snd (s_delay_tbl ! b)) st'"
    by (simp_all add: Let_def p_def b_def delay_good_def)
  have p: "p < 4" "unat p = unat (phase_choice eye)" and b: "b < 31"
    by (simp_all add: p_def b_def ucast_phase_small delay_choice_bound)
  obtain a n where an: "longest (delay_good eye p) 31 a n" "b = (if n < 2 then 0 else a + (n - 1) div 2)"
    using delay_choice_longest [of eye p] by (auto simp: b_def)
  moreover have "2 \<le> n \<longrightarrow> r = 0"
    using an r by (auto simp: longest_def window_def)
  ultimately show ?thesis
    using r st' p b phase_choice_longest [of eye]
    by (intro exI [of _ p] exI [of _ b]) (auto simp: best_def cal_def)
qed


section \<open>A concrete chip\<close>

definition bytes_word :: "u8 list \<Rightarrow> u32" where
  "bytes_word bs = pack_loop 0 0 bs (\<lambda>_. 0) 0"

definition chip :: "(u8 \<Rightarrow> u8 \<Rightarrow> u8 \<Rightarrow> bool) \<Rightarrow> psram_act event list \<Rightarrow> psram_act event \<Rightarrow> u32" where
  "chip eye tr e = (case e of
     Dev (Rd a) \<Rightarrow> reg_val tr a
   | Dev (Rom_rx i) \<Rightarrow>
       (let bs = (case last_config tr of Some (_, a) \<Rightarrow> (case stored tr a of Some bs \<Rightarrow> bs | None \<Rightarrow> []) | None \<Rightarrow> []);
            w = bytes_word (take 4 (drop (4 * i) bs)) in
        if eye (ucast (field 1 2 (reg_val tr PSRAM_DQS0_REG))) (ucast (field 4 4 (reg_val tr (pin_low 0))))
             (ucast (field 7 4 (reg_val tr PSRAM_DQS0_REG))) then w else NOT w)
   | _ \<Rightarrow> 0)"

lemma bytes_word_bytes:
  assumes "length bs = 4"
  shows "map (word_byte (bytes_word bs)) [0..<4] = bs"
proof -
  have "unpack_loop 0 4 (pack_loop 0 0 bs (\<lambda>_. 0)) = bs"
    using unpack_pack_exact [of 0 bs "\<lambda>_. 0"] assms by simp
  moreover have "[0..<4] = [0, 1, 2, 3 :: nat]"
    by (simp add: upt_rec)
  ultimately show ?thesis
    by (simp add: unpack_loop_def bytes_word_def)
qed

lemma word_byte_not: "k < 4 \<Longrightarrow> word_byte (NOT w) k \<noteq> word_byte w k"
proof
  assume "k < 4" "word_byte (NOT w) k = word_byte w k"
  then have "bit (word_byte (NOT w) k) 0 = bit (word_byte w k) 0"
    by simp
  with \<open>k < 4\<close> show False
    by (simp add: bit_word_byte bit_not_iff)
qed

lemma chip_link: "psram_link eye (chip eye)"
  unfolding psram_link_def
proof (intro conjI allI impI)
  show "mmio (chip eye)"
    by (simp add: mmio_def chip_def)
next
  fix tr p d q addr bs i
  assume a: "at_phase (reg_val tr) p \<and> at_delay (reg_val tr) d q \<and> last_config tr = Some (HEX_SYNC_READ, addr) \<and>
    stored tr addr = Some bs \<and> 4 * i + 4 \<le> length bs"
  have "pin_low 0 \<in> tune_pins"
    by (simp add: tune_pins_def)
  with a have "field 1 2 (reg_val tr PSRAM_DQS0_REG) = ucast p" "field 7 4 (reg_val tr PSRAM_DQS0_REG) = ucast q"
    "field 4 4 (reg_val tr (pin_low 0)) = ucast d"
    by (auto simp: at_phase_def at_delay_def tune_dqs_def)
  moreover have "ucast (ucast x :: u32) = x" for x :: u8
    by (rule bit_eqI) (auto simp: bit_simps)
  ultimately have "chip eye tr (Dev (Rom_rx i)) = (let w = bytes_word (take 4 (drop (4 * i) bs)) in
      if eye p d q then w else NOT w)"
    using a by (simp add: chip_def)
  moreover have "length (take 4 (drop (4 * i) bs)) = 4"
    using a by (auto simp: min_def)
  note bytes_word_bytes [OF this]
  moreover have "map (word_byte (NOT w)) [0..<4] \<noteq> map (word_byte w) [0..<4]" for w
    using word_byte_not [of 0 w] by (simp add: upt_rec)
  ultimately show "(map (word_byte (chip eye tr (Dev (Rom_rx i)))) [0..<4] = take 4 (drop (4 * i) bs)) = eye p d q"
    unfolding Let_def by (cases "eye p d q") metis+
qed

definition fresh :: "(psram_act event list \<Rightarrow> psram_act event \<Rightarrow> u32) \<Rightarrow> tune_st" where
  "fresh ans = \<lparr>trace = [], answer = ans, fault = False, g_best_phase = 0, g_best_data_dl = 0, g_best_dqs_dl = 0\<rparr>"

text \<open>An eye of two phases and three delay lines.\<close>

definition sample_eye :: "u8 \<Rightarrow> u8 \<Rightarrow> u8 \<Rightarrow> bool" where
  "sample_eye p d q \<longleftrightarrow> p \<le> 1 \<and> d \<le> 2 \<and> q = 0"

theorem tune_programs_the_middle_witness:
  "fst (run_state board_psram_timing_tune (fresh (chip sample_eye))) = 0"
proof -
  let ?st = "fresh (chip sample_eye)"
  obtain r st' where run: "run_state board_psram_timing_tune ?st = (r, st')"
    by (cases "run_state board_psram_timing_tune ?st")
  have "psram_link sample_eye (answer ?st)"
    by (simp add: fresh_def chip_link)
  from tune_programs_the_middle [OF this run] obtain p n a m where
    p: "p < 4" "longest (phase_good sample_eye) 4 (unat p) n" and
    d: "longest (delay_good sample_eye p) 31 a m" "2 \<le> m \<longrightarrow> r = 0"
    by blast
  have "window (phase_good sample_eye) 4 0 2"
    by (auto simp: window_def phase_good_def sample_eye_def less_Suc_eq numeral_2_eq_2)
  with p(2) have "2 \<le> n" "window (phase_good sample_eye) 4 (unat p) n"
    by (auto simp: longest_def)
  then have "phase_good sample_eye (unat p)"
    by (auto simp: window_def dest: spec [of _ 0])
  then have "p \<le> 1"
    by (simp add: phase_good_def sample_eye_def)
  then have "window (delay_good sample_eye p) 31 15 2"
    by (auto simp: window_def delay_good_def sample_eye_def s_delay_tbl_def less_Suc_eq numeral_2_eq_2)
  with d run show ?thesis
    by (auto simp: longest_def)
qed

theorem tuning_changes_only_its_fields_witness:
  "field 4 4 (reg_val (trace (snd (run_state (do { apply_phase 2; apply_delayline 5 7 }) (fresh (chip sample_eye)))))
     (pin_high 9)) = 5"
proof -
  let ?st = "fresh (chip sample_eye)"
  have "mmio (answer ?st)"
    using chip_link [of sample_eye] by (simp add: psram_link_def fresh_def)
  obtain st' where run: "run_state (do { apply_phase 2; apply_delayline 5 7 }) ?st = ((), st')"
    by (metis (full_types) old.unit.exhaust surj_pair)
  have "\<forall>a \<in> tune_pins. field 4 4 (reg_val (trace st') a) = ucast (5 :: u8)"
    using tuning_changes_only_its_fields [OF \<open>mmio (answer ?st)\<close> _ _ _ run] by simp
  moreover have "pin_high 9 \<in> tune_pins"
    by (auto simp: tune_pins_def)
  ultimately show ?thesis
    unfolding run by simp
qed


section \<open>No access outside the table\<close>

text \<open>The sweeps index the table of delay lines with a point of the window, whatever the chip answers.\<close>

lemma delay_entry_safe:
  assumes "length good = 31" "find_window good need = (len, e)" "\<not> len \<le> 1"
  shows "delay_entry (e - len div 2) = ret (s_delay_tbl ! unat (e - len div 2))"
proof -
  have "len \<noteq> 0"
    using assms(3) by auto
  then have "unat e < 31" "unat len \<le> Suc (unat e)"
    using find_window_run [OF _ assms(2)] assms(1) by auto
  then have "unat (e - len div 2) < 31"
    using assms(3) by (simp add: window_middle)
  then show ?thesis
    by (simp only: delay_entry_def length_delay_tbl if_True)
qed

lemma delay_entry_zero: "delay_entry 0 = ret (s_delay_tbl ! 0)"
  by (simp add: delay_entry_def length_delay_tbl)

text \<open>
  The tuning code changes nothing but the log and its three results: a predicate on the state that
  does not depend on those is kept by all of it, the fault flag included, because no access fails.
\<close>

named_theorems frame_intros \<open>operations of the calibration that keep a predicate on the rest\<close>

lemma keeps_bind_collect:
  "(\<And>x. x \<in> set xs \<Longrightarrow> keeps P (f x)) \<Longrightarrow> (\<And>ys. length ys = length xs \<Longrightarrow> keeps P (k ys)) \<Longrightarrow>
     keeps P (State_Monad.bind (collect xs f) k)"
  using length_collect [of xs f] keeps_collect [of xs P f]
  by (auto simp: keeps_def split: prod.splits) (metis fst_conv snd_conv)

lemma keeps_entry:
  assumes "length good = 31" "find_window good need = (len, e)"
  shows "len \<le> 1 \<Longrightarrow> keeps P (delay_entry 0)"
    and "\<not> len \<le> 1 \<Longrightarrow> keeps P (delay_entry (e - len div 2))"
  by (simp_all add: delay_entry_zero delay_entry_safe [OF assms] keeps_ret)

locale tuning_frame =
  fixes Q :: "'z tune_st_scheme \<Rightarrow> bool"
  assumes Q_trace: "Q s \<Longrightarrow> Q (s\<lparr>trace := trace s @ [ev]\<rparr>)"
    and Q_phase: "Q s \<Longrightarrow> Q (s\<lparr>g_best_phase := p\<rparr>)"
    and Q_best: "Q s \<Longrightarrow> Q (s\<lparr>g_best_data_dl := d, g_best_dqs_dl := q\<rparr>)"
begin

lemma frame_steps [frame_intros]:
  "keeps Q (rd a)" "keeps Q (wr a v)" "keeps Q (printf f xs)" "keeps Q (dev e)" "keeps Q (dev_do e)" "keeps Q (gets g)"
  by (simp_all add: keeps_def rd_def wr_def printf_def Q_trace)

lemma frame_points [frame_intros]:
  "keeps Q (apply_phase p)" "keeps Q (apply_delayline d q)" "keeps Q (set_bus_mhz m)"
  unfolding apply_phase_def apply_delayline_def dqs_set_phase_def pin_set_dlc_def dqs_set_delay_def
    set_bus_mhz_def Let_def by (intro keeps_intros frame_intros)+

lemma frame_xact [frame_intros]: "keeps Q (board_psram_hex_xact c a du tx tb rx rb)"
  unfolding board_psram_hex_xact_def by (intro keeps_intros frame_intros)+

lemma frame_read [frame_intros]: "keeps Q read_matches"
  unfolding read_matches_unfold by (intro keeps_intros frame_intros)+

lemma frame_write_ref [frame_intros]: "keeps Q write_ref"
  unfolding write_ref_def Let_def by (intro keeps_intros frame_intros)+

lemma frame_count [frame_intros]: "keeps Q trial \<Longrightarrow> keeps Q (count_hits n trial h)"
  by (induction n arbitrary: h) (auto intro!: keeps_intros)

lemma frame_results [frame_intros]: "keeps Q (modify (\<lambda>s. s\<lparr>g_best_phase := p\<rparr>))" "keeps Q (set_best e)"
  by (auto simp: keeps_def set_best_def Q_phase Q_best)

lemma frame_apply [frame_intros]: "keeps Q board_psram_timing_apply"
  unfolding board_psram_timing_apply_def by (intro keeps_intros frame_intros)+

lemma frame_sweep_phase [frame_intros]: "keeps Q sweep_phase"
  unfolding sweep_phase_def Let_def by (intro keeps_intros frame_intros)+

lemma frame_sweep_delay [frame_intros]: "keeps Q sweep_delayline"
proof -
  have "keeps Q (let (len, end_i) = find_window good (of_nat DELAY_SWEEPS); best = if len \<le> 1 then 0 else end_i - len div 2
      in do { e \<leftarrow> delay_entry best; set_best e; apply_delayline (fst e) (snd e);
        printf ''ulmk: psram tune dl data=%u dqs=%u win=%u'' [ucast (fst e), ucast (snd e), len] })"
    if "length good = length s_delay_tbl" for good
    using that by (auto simp: length_delay_tbl Let_def split: prod.splits
        intro!: keeps_entry keeps_intros frame_intros)
  then show ?thesis
    unfolding sweep_delayline_def by (intro keeps_bind_collect keeps_intros frame_intros)
qed

lemma frame_axi_check [frame_intros]: "keeps Q (axi_check base ws f)"
  by (induction base ws f rule: axi_check.induct) (auto intro!: keeps_intros frame_intros)

lemma frame_axi_trial [frame_intros]: "keeps Q (axi_trial base n i t)"
  unfolding axi_trial_def Let_def by (intro keeps_intros frame_intros)+

lemma frame_axi_hits [frame_intros]: "keeps Q (axi_hits base n i ts h)"
  by (induction base n i ts h rule: axi_hits.induct) (auto intro!: keeps_intros frame_intros)

lemma frame_refine [frame_intros]: "keeps Q (board_psram_timing_refine_axi base n)"
proof -
  have "keeps Q (let (len, end_i) = find_window good 8 in
      if len \<le> 1 then do { printf ''ulmk: psram axi refine FAIL win=%u'' [len]; board_psram_timing_apply; ret (- 1) }
      else do { e \<leftarrow> delay_entry (end_i - len div 2); set_best e; board_psram_timing_apply;
        printf ''ulmk: psram axi refine dl data=%u dqs=%u win=%u'' [ucast (fst e), ucast (snd e), len]; ret 0 })"
    if "length good = length [0..<DELAY_NUM]" for good
    using that by (auto simp: DELAY_NUM_def Let_def split: prod.splits
        intro!: keeps_entry keeps_intros frame_intros)
  then show ?thesis
    unfolding board_psram_timing_refine_axi_def by (intro keeps_bind_collect keeps_intros frame_intros)
qed

lemma frame_tune [frame_intros]: "keeps Q board_psram_timing_tune"
  unfolding board_psram_timing_tune_def clear_tuning_def by (intro keeps_intros frame_intros)+

end

interpretation no_fault: tuning_frame "\<lambda>s. \<not> fault s"
  by unfold_locales simp_all



end
