(* ===== verification/Psram_Esp32.thy ===== *)
theory Psram_Esp32
  imports Psram_Tune_Props
begin

text \<open>
  Bring-up of the PSRAM of the ESP32-P4 board: the memory PLL
  (\<^verbatim>\<open>esp32p4_ev_function/board_mpll.c\<close>) and the memory itself
  (\<^verbatim>\<open>board_psram.c\<close>): clocks and pads, mode registers, probe, AXI configuration, timing
  calibration, mapping, the read-back check, and the queries of the other drivers.  The state
  extends the one of the calibration with the three flags.
\<close>

record psram_st = tune_st +
  g_mpll_ok :: bool
  g_psram_ok :: bool
  g_axi_ok :: bool

section \<open>The memory PLL\<close>

definition PMU_BASE :: u32 where [const_defs]: "PMU_BASE = 0x50115000"
definition PMU_RF_PWC :: u32 where [const_defs]: "PMU_RF_PWC = PMU_BASE + 0x15c"
definition PMU_MSPI_PHY_XPD :: u32 where "PMU_MSPI_PHY_XPD = push_bit 24 1"
definition LDO_VO2_CTRL :: u32 where [const_defs]: "LDO_VO2_CTRL = PMU_BASE + 0x1d0"
definition LDO_VO2_ANA :: u32 where [const_defs]: "LDO_VO2_ANA = PMU_BASE + 0x1d4"
definition LDO_FORCE_TIEH_SEL :: u32 where "LDO_FORCE_TIEH_SEL = push_bit 7 1"
definition LDO_XPD :: u32 where "LDO_XPD = push_bit 8 1"
definition LDO_TIEH :: u32 where "LDO_TIEH = push_bit 14 1"
definition LDO_ANA_MUL_S :: nat where "LDO_ANA_MUL_S = 23"
definition LDO_ANA_EN_VDET :: u32 where "LDO_ANA_EN_VDET = push_bit 26 1"
definition LDO_ANA_DREF_S :: nat where "LDO_ANA_DREF_S = 28"
definition LP_CLKRST_HP_CLK :: u32 where [const_defs]: "LP_CLKRST_HP_CLK = 0x50111040"
definition LP_MPLL_500M_EN :: u32 where "LP_MPLL_500M_EN = push_bit 28 1"
definition LPPERI_CLK_EN :: u32 where [const_defs]: "LPPERI_CLK_EN = 0x50120000"
definition LPPERI_I2CMST_EN :: u32 where "LPPERI_I2CMST_EN = push_bit 27 1"
definition I2C_ANA_BASE :: u32 where [const_defs]: "I2C_ANA_BASE = 0x50124000"
definition I2C_ANA_CTRL0 :: u32 where [const_defs]: "I2C_ANA_CTRL0 = I2C_ANA_BASE + 0x00"
definition I2C_ANA_CONF1 :: u32 where [const_defs]: "I2C_ANA_CONF1 = I2C_ANA_BASE + 0x1c"
definition I2C_ANA_CONF2 :: u32 where [const_defs]: "I2C_ANA_CONF2 = I2C_ANA_BASE + 0x20"
definition I2C_ANA_CLK160M :: u32 where [const_defs]: "I2C_ANA_CLK160M = I2C_ANA_BASE + 0x34"
definition ANA_PLL_CTRL0 :: u32 where [const_defs]: "ANA_PLL_CTRL0 = 0x500E60BC"
definition MSPI_CAL_END :: u32 where "MSPI_CAL_END = push_bit 8 1"
definition MSPI_CAL_STOP :: u32 where "MSPI_CAL_STOP = push_bit 9 1"
definition I2C_MPLL :: u8 where "I2C_MPLL = 0x63"
definition MPLL_SEL :: u32 where "MPLL_SEL = push_bit 9 1"
definition REGI2C_BUSY :: u32 where "REGI2C_BUSY = push_bit 25 1"
definition REGI2C_WR :: u32 where "REGI2C_WR = push_bit 24 1"

definition settle :: "nat \<Rightarrow> ('z tune_state, unit) state" where
  "settle n = dev_do (Spin n)"

definition rmw :: "u32 \<Rightarrow> (u32 \<Rightarrow> u32) \<Rightarrow> ('z tune_state, unit) state" where
  "rmw a u = do { v \<leftarrow> rd a; wr a (u v) }"

definition ldo_vo2_psram_1v8 :: "('z tune_state, unit) state" where
  "ldo_vo2_psram_1v8 = do {
     wr LDO_VO2_ANA (push_bit LDO_ANA_MUL_S 4 OR LDO_ANA_EN_VDET OR push_bit LDO_ANA_DREF_S 8);
     rmw LDO_VO2_CTRL (\<lambda>ctrl. (ctrl OR (LDO_FORCE_TIEH_SEL OR LDO_XPD)) AND NOT LDO_TIEH);
     settle 40000
   }"

text \<open>
  The polling loops \<^verbatim>\<open>while (busy && guard < limit) guard++\<close>: the register is read before the
  guard is tested, so the fuel \<open>limit - guard\<close> makes at most \<open>limit + 1\<close> reads.
\<close>

fun poll :: "nat \<Rightarrow> u32 \<Rightarrow> (u32 \<Rightarrow> bool) \<Rightarrow> ('z tune_state, unit) state" where
  "poll 0 a busy = do { _ \<leftarrow> rd a; ret () }"
| "poll (Suc fuel) a busy = do { v \<leftarrow> rd a; if busy v then poll fuel a busy else ret () }"

definition regi2c_wait :: "('z tune_state, unit) state" where
  "regi2c_wait = poll 200000 I2C_ANA_CTRL0 (\<lambda>v. v AND REGI2C_BUSY \<noteq> 0)"

definition regi2c_read :: "u8 \<Rightarrow> u8 \<Rightarrow> ('z tune_state, u8) state" where
  "regi2c_read block reg = do {
     wr I2C_ANA_CONF2 0;
     wr I2C_ANA_CONF1 0;
     wr I2C_ANA_CONF2 MPLL_SEL;
     regi2c_wait;
     wr I2C_ANA_CTRL0 (ucast block OR push_bit 8 (ucast reg));
     regi2c_wait;
     v \<leftarrow> rd I2C_ANA_CTRL0;
     ret (ucast (drop_bit 16 v AND 0xFF))
   }"

definition regi2c_write :: "u8 \<Rightarrow> u8 \<Rightarrow> u8 \<Rightarrow> ('z tune_state, unit) state" where
  "regi2c_write block reg data = do {
     wr I2C_ANA_CONF2 0;
     wr I2C_ANA_CONF1 0;
     wr I2C_ANA_CONF2 MPLL_SEL;
     regi2c_wait;
     wr I2C_ANA_CTRL0 (ucast block OR push_bit 8 (ucast reg) OR REGI2C_WR OR push_bit 16 (ucast data));
     regi2c_wait
   }"

definition mpll_cal_once :: "('z tune_state, cint) state" where
  "mpll_cal_once = do {
     rmw ANA_PLL_CTRL0 (\<lambda>v. v AND NOT MSPI_CAL_STOP);
     v \<leftarrow> regi2c_read I2C_MPLL 3;
     regi2c_write I2C_MPLL 3 (v OR push_bit 4 3);
     v \<leftarrow> regi2c_read I2C_MPLL 1;
     regi2c_write I2C_MPLL 1 (v AND 0xDF);
     regi2c_write I2C_MPLL 1 (v OR push_bit 5 1);
     regi2c_write I2C_MPLL 2 (push_bit 3 19 OR 1);
     poll 2000000 ANA_PLL_CTRL0 (\<lambda>v. v AND MSPI_CAL_END = 0);
     v \<leftarrow> rd ANA_PLL_CTRL0;
     let ok = v AND MSPI_CAL_END \<noteq> 0;
     rmw ANA_PLL_CTRL0 (\<lambda>v. v OR MSPI_CAL_STOP);
     ret (if ok then 0 else - 1)
   }"

text \<open>The loop over the attempts: it leaves the function as soon as one succeeds.\<close>

fun mpll_attempts :: "nat \<Rightarrow> ('z psram_st_scheme, cint) state" where
  "mpll_attempts 0 = do { printf ''ulmk: mpll cal timeout'' []; ret (- 1) }"
| "mpll_attempts (Suc n) = do {
     rc \<leftarrow> mpll_cal_once;
     if rc = 0 then do {
       modify (\<lambda>s. s\<lparr>g_mpll_ok := True\<rparr>);
       printf ''ulmk: mpll 400m ok'' [];
       ret 0
     } else do { settle 20000; mpll_attempts n }
   }"

definition board_mpll_enable_400m :: "('z psram_st_scheme, cint) state" where
  "board_mpll_enable_400m = do {
     done \<leftarrow> gets g_mpll_ok;
     if done then ret 0
     else do {
       ldo_vo2_psram_1v8;
       rmw PMU_RF_PWC (\<lambda>v. v OR PMU_MSPI_PHY_XPD);
       rmw LP_CLKRST_HP_CLK (\<lambda>v. v OR LP_MPLL_500M_EN);
       rmw LPPERI_CLK_EN (\<lambda>v. v OR LPPERI_I2CMST_EN);
       rmw I2C_ANA_CLK160M (\<lambda>v. v OR push_bit 0 1 OR push_bit 28 1);
       settle 8000;
       mpll_attempts 3
     }
   }"

section \<open>Constants of the memory\<close>

definition HP_CLKRST :: u32 where [const_defs]: "HP_CLKRST = 0x500E6000"
definition HP_SOC_CLK_CTRL0 :: u32 where [const_defs]: "HP_SOC_CLK_CTRL0 = HP_CLKRST + 0x14"
definition HP_PERI_CLK_CTRL00 :: u32 where [const_defs]: "HP_PERI_CLK_CTRL00 = HP_CLKRST + 0x30"
definition HP_RST_EN0 :: u32 where [const_defs]: "HP_RST_EN0 = HP_CLKRST + 0xc0"
definition PSRAM_SYS_CLK_EN :: u32 where "PSRAM_SYS_CLK_EN = push_bit 31 1"
definition PSRAM_CLK_SRC_MASK :: u32 where "PSRAM_CLK_SRC_MASK = push_bit 12 3"
definition PSRAM_CLK_SRC_MPLL :: u32 where "PSRAM_CLK_SRC_MPLL = push_bit 12 1"
definition PSRAM_PLL_CLK_EN :: u32 where "PSRAM_PLL_CLK_EN = push_bit 14 1"
definition PSRAM_CORE_CLK_EN :: u32 where "PSRAM_CORE_CLK_EN = push_bit 15 1"
definition RST_DUAL_MSPI_AXI :: u32 where "RST_DUAL_MSPI_AXI = push_bit 23 1"
definition RST_DUAL_MSPI_APB :: u32 where "RST_DUAL_MSPI_APB = push_bit 25 1"
definition CACHE_FCTRL :: u32 where [const_defs]: "CACHE_FCTRL = SPIMEM2 + 0x3c"
definition CACHE_SCTRL :: u32 where [const_defs]: "CACHE_SCTRL = SPIMEM2 + 0x40"
definition SRAM_CMD :: u32 where [const_defs]: "SRAM_CMD = SPIMEM2 + 0x44"
definition SRAM_DRD_CMD :: u32 where [const_defs]: "SRAM_DRD_CMD = SPIMEM2 + 0x48"
definition SRAM_DWR_CMD :: u32 where [const_defs]: "SRAM_DWR_CMD = SPIMEM2 + 0x4c"
definition CTRL1 :: u32 where [const_defs]: "CTRL1 = SPIMEM2 + 0x0c"
definition SMEM_DDR :: u32 where [const_defs]: "SMEM_DDR = SPIMEM2 + 0xd8"
definition TIMING_CALI :: u32 where [const_defs]: "TIMING_CALI = SPIMEM2 + 0x180"
definition SMEM_TIMING_CALI :: u32 where [const_defs]: "SMEM_TIMING_CALI = SPIMEM2 + 0x190"
definition SMEM_AC :: u32 where [const_defs]: "SMEM_AC = SPIMEM2 + 0x1a0"
definition DQS_XPD :: u32 where "DQS_XPD = push_bit 0 1"
definition HP_SYS_BASE :: u32 where [const_defs]: "HP_SYS_BASE = 0x500E5000"
definition HP_CORE_ERR_RESP_DIS :: u32 where [const_defs]: "HP_CORE_ERR_RESP_DIS = HP_SYS_BASE + 0x1a4"
definition AXI_REQ_EN :: u32 where "AXI_REQ_EN = push_bit 0 1"
definition CLOSE_AXI_INF_EN :: u32 where "CLOSE_AXI_INF_EN = push_bit 31 1"
definition USR_SADDR_4BYTE :: u32 where "USR_SADDR_4BYTE = push_bit 0 1"
definition USR_WR_SRAM_DUMMY :: u32 where "USR_WR_SRAM_DUMMY = push_bit 3 1"
definition USR_RD_SRAM_DUMMY :: u32 where "USR_RD_SRAM_DUMMY = push_bit 4 1"
definition CACHE_USR_RCMD :: u32 where "CACHE_USR_RCMD = push_bit 5 1"
definition CACHE_USR_WCMD :: u32 where "CACHE_USR_WCMD = push_bit 20 1"
definition SRAM_OCT :: u32 where "SRAM_OCT = push_bit 21 1"
definition SDIN_OCT :: u32 where "SDIN_OCT = push_bit 18 1"
definition SDOUT_OCT :: u32 where "SDOUT_OCT = push_bit 19 1"
definition SADDR_OCT :: u32 where "SADDR_OCT = push_bit 20 1"
definition SCMD_OCT :: u32 where "SCMD_OCT = push_bit 21 1"
definition SDIN_HEX :: u32 where "SDIN_HEX = push_bit 26 1"
definition SDOUT_HEX :: u32 where "SDOUT_HEX = push_bit 27 1"
definition SMEM_DDR_EN :: u32 where "SMEM_DDR_EN = push_bit 0 1"
definition SMEM_VAR_DUMMY :: u32 where "SMEM_VAR_DUMMY = push_bit 1 1"
definition AR_SPLICE_EN :: u32 where "AR_SPLICE_EN = push_bit 25 1"
definition AW_SPLICE_EN :: u32 where "AW_SPLICE_EN = push_bit 26 1"
definition DLL_TIMING_CALI :: u32 where "DLL_TIMING_CALI = push_bit 5 1"
definition HEX_REG_WRITE :: u32 where [const_defs]: "HEX_REG_WRITE = 0xC0C0"
definition HEX_REF :: u32 where "HEX_REF = 0x5a6b7c8d"
definition PSRAM_BUS_MHZ :: u32 where "PSRAM_BUS_MHZ = 200"
definition PSRAM_FREQDIV :: u32 where "PSRAM_FREQDIV = 400 div PSRAM_BUS_MHZ"
definition RD_LATENCY :: u32 where "RD_LATENCY = 4"
definition WR_LATENCY :: u32 where "WR_LATENCY = 1"
definition MAP_PAGES :: u32 where "MAP_PAGES = 128"
definition PAGE_SHIFT :: nat where "PAGE_SHIFT = 16"
definition ULMK_BOARD_PSRAM_BASE :: u32 where [const_defs]: "ULMK_BOARD_PSRAM_BASE = 0x48000000"

section \<open>Probe, clocks and modes\<close>

text \<open>The loop of \<^verbatim>\<open>settle_brief\<close>.\<close>

definition settle_brief :: "('z tune_state, unit) state" where
  "settle_brief = dev_do (Spin 800)"

definition probe_chip :: "('z tune_state, cint) state" where
  "probe_chip = do {
     _ \<leftarrow> board_psram_hex_xact HEX_SYNC_WRITE 0 WR_DUMMY (word_bytes [HEX_REF]) 32 [] 0;
     r \<leftarrow> board_psram_hex_xact HEX_SYNC_READ 0 RD_DUMMY [] 0 (word_bytes [0]) 32;
     let r = pack_loop 0 0 r (\<lambda>_. 0) 0;
     printf ''ulmk: psram probe r=0x%08x'' [r];
     ret (if r = HEX_REF then 0 else - 1)
   }"

definition map_window :: "('z tune_state, cint) state" where
  "map_window = do {
     dev_do Mmu_init;
     rc \<leftarrow> dev (Mmu_set ULMK_BOARD_PSRAM_BASE 0 64 MAP_PAGES);
     printf ''ulmk: psram mmu rc=%d pages=%u'' [rc, MAP_PAGES];
     ret (if rc = 0 then 0 else - 1)
   }"

definition pad_drive :: "u32 \<Rightarrow> u32" where
  "pad_drive v = (v AND NOT (push_bit 12 3)) OR push_bit 12 2"

definition dqs_drive :: "u32 \<Rightarrow> u32" where
  "dqs_drive v = (v AND NOT (push_bit 15 3)) OR DQS_XPD OR push_bit 15 2"

definition freqbits :: "u32 \<Rightarrow> u32" where
  "freqbits dv = push_bit 0 (dv - 1) OR push_bit 8 (dv div 2 - 1) OR push_bit 16 (dv - 1)"

definition clocks_and_pins :: "('z tune_state, unit) state" where
  "clocks_and_pins = do {
     rmw HP_SOC_CLK_CTRL0 (\<lambda>v. v OR PSRAM_SYS_CLK_EN);
     rmw HP_PERI_CLK_CTRL00 (\<lambda>v. ((v AND NOT PSRAM_CLK_SRC_MASK) OR
       (PSRAM_CLK_SRC_MPLL OR PSRAM_PLL_CLK_EN OR PSRAM_CORE_CLK_EN)) AND NOT (push_bit 16 0xFF));
     v \<leftarrow> rd HP_RST_EN0;
     wr HP_RST_EN0 (v OR RST_DUAL_MSPI_AXI OR RST_DUAL_MSPI_APB);
     wr HP_RST_EN0 (v AND NOT (RST_DUAL_MSPI_AXI OR RST_DUAL_MSPI_APB));
     settle_brief;
     for_each [0..<8] (\<lambda>i. rmw (IOMUX_MSPI + 0x1c + of_nat i * 4) pad_drive);
     for_each [0..<10] (\<lambda>i. rmw (IOMUX_MSPI + 0x40 + of_nat i * 4) pad_drive);
     rmw PSRAM_DQS0_REG dqs_drive;
     rmw PSRAM_DQS1_REG dqs_drive;
     wr SRAM_CLK (freqbits PSRAM_FREQDIV);
     wr SPI1_CLOCK (freqbits PSRAM_FREQDIV);
     printf ''ulmk: psram bus %u MHz (div=%u)'' [400 div PSRAM_FREQDIV, PSRAM_FREQDIV];
     rmw TIMING_CALI (\<lambda>v. v OR DLL_TIMING_CALI);
     rmw SMEM_TIMING_CALI (\<lambda>v. v OR DLL_TIMING_CALI);
     rmw SMEM_AC (\<lambda>ac. ((ac OR (push_bit 0 1 OR push_bit 1 1 OR push_bit 31 1)) AND
       NOT (push_bit 2 0x1F OR push_bit 7 0x1F OR push_bit 25 0x3F)) OR
       (push_bit 2 (4 - 1) OR push_bit 7 (4 - 1) OR push_bit 25 (3 - 1)));
     rmw (SPIMEM2 + 0x174) (\<lambda>v. (v AND NOT (push_bit 18 3)) OR push_bit 18 3)
   }"

definition reg_write :: "u32 \<Rightarrow> u32 \<Rightarrow> ('z tune_state, unit) state" where
  "reg_write r v = do { _ \<leftarrow> board_psram_hex_xact HEX_REG_WRITE r 0 (word_bytes [v]) 16 [] 0; ret () }"

definition init_mode_regs :: "('z tune_state, unit) state" where
  "init_mode_regs = do {
     reg_write 0x0 (push_bit 5 1 OR push_bit 2 (RD_LATENCY AND 7));
     reg_write 0x4 (push_bit 5 (WR_LATENCY AND 7));
     reg_write 0x8 (3 OR push_bit 3 1 OR push_bit 6 1)
   }"

definition config_axi :: "('z tune_state, unit) state" where
  "config_axi = do {
     wr SRAM_DRD_CMD (push_bit 28 (16 - 1) OR HEX_SYNC_READ);
     wr SRAM_DWR_CMD (push_bit 28 (16 - 1) OR HEX_SYNC_WRITE);
     rmw CACHE_SCTRL (\<lambda>sctrl. (((sctrl OR (USR_SADDR_4BYTE OR USR_WR_SRAM_DUMMY OR USR_RD_SRAM_DUMMY OR
         CACHE_USR_RCMD OR CACHE_USR_WCMD OR SRAM_OCT)) AND
       NOT (push_bit 6 0x3F OR push_bit 14 0x3F OR push_bit 22 0x3F)) OR
       push_bit 6 (RD_DUMMY - 1)) OR push_bit 14 (32 - 1) OR push_bit 22 (WR_DUMMY - 1));
     rmw SRAM_CMD (\<lambda>scmd. scmd OR (SDIN_OCT OR SDOUT_OCT OR SADDR_OCT OR SCMD_OCT OR SDIN_HEX OR
       SDOUT_HEX OR push_bit 23 1));
     rmw SMEM_DDR (\<lambda>v. v OR SMEM_DDR_EN OR SMEM_VAR_DUMMY);
     rmw CTRL1 (\<lambda>v. v OR AR_SPLICE_EN OR AW_SPLICE_EN);
     rmw CACHE_FCTRL (\<lambda>fctrl. (fctrl OR AXI_REQ_EN) AND NOT CLOSE_AXI_INF_EN)
   }"

section \<open>Enabling the window\<close>

definition axi_word :: "u32 \<Rightarrow> u32" where
  "axi_word i = 0xA5000000 XOR (i * 0x11111111)"

fun axi_readback :: "nat list \<Rightarrow> ('z tune_state, cint) state" where
  "axi_readback [] = ret 0"
| "axi_readback (i # is) = do {
     got \<leftarrow> rd (ULMK_BOARD_PSRAM_BASE + of_nat i * 4);
     if got \<noteq> axi_word (of_nat i) then do {
       printf ''ulmk: psram axi fail @%u got=0x%08x'' [of_nat i, got];
       ret (- 1)
     } else axi_readback is
   }"

definition axi_verify :: "('z tune_state, cint) state" where
  "axi_verify = do {
     printf ''ulmk: psram axi r/w...'' [];
     wr ULMK_BOARD_PSRAM_BASE 0xA5A55A5A;
     dev_do Fence;
     settle_brief;
     got \<leftarrow> rd ULMK_BOARD_PSRAM_BASE;
     if got \<noteq> 0xA5A55A5A then do {
       printf ''ulmk: psram axi fail got=0x%08x'' [got];
       ret (- 1)
     } else do {
       for_each [1..<8] (\<lambda>i. wr (ULMK_BOARD_PSRAM_BASE + of_nat i * 4) (axi_word (of_nat i)));
       dev_do Fence;
       axi_readback [1..<8]
     }
   }"

definition board_psram_enable_axi :: "('z psram_st_scheme, cint) state" where
  "board_psram_enable_axi = do {
     psram_ok \<leftarrow> gets g_psram_ok;
     if \<not> psram_ok then ret (- 1)
     else do {
       axi_ok \<leftarrow> gets g_axi_ok;
       if axi_ok then ret 0
       else do {
         wr HP_CORE_ERR_RESP_DIS 0x7;
         printf ''ulmk: psram axi err_resp off'' [];
         config_axi;
         printf ''ulmk: psram axi cfg'' [];
         rmw SMEM_DDR (\<lambda>v. v AND NOT SMEM_VAR_DUMMY);
         rc \<leftarrow> board_psram_timing_tune;
         if rc \<noteq> 0 then ret (- 1)
         else do {
           rmw SMEM_DDR (\<lambda>v. v OR SMEM_VAR_DUMMY);
           board_psram_timing_apply;
           rc \<leftarrow> map_window;
           if rc \<noteq> 0 then ret (- 1)
           else do {
             rc \<leftarrow> board_psram_timing_refine_axi (ULMK_BOARD_PSRAM_BASE + 0x1000) 4096;
             if rc \<noteq> 0 then ret (- 1)
             else do {
               rc \<leftarrow> axi_verify;
               if rc \<noteq> 0 then ret (- 1)
               else do {
                 dev_do (Dcache_clean_invalidate ULMK_BOARD_PSRAM_BASE 8192);
                 modify (\<lambda>s. s\<lparr>g_axi_ok := True\<rparr>);
                 printf ''ulmk: psram axi ok base=0x%08x'' [ULMK_BOARD_PSRAM_BASE];
                 ret 0
               }
             }
           }
         }
       }
     }
   }"

definition board_psram_init :: "('z psram_st_scheme, cint) state" where
  "board_psram_init = do {
     psram_ok \<leftarrow> gets g_psram_ok;
     if psram_ok then ret 0
     else do {
       printf ''ulmk: psram init'' [];
       rc \<leftarrow> board_mpll_enable_400m;
       if rc \<noteq> 0 then ret (- 1)
       else do {
         clocks_and_pins;
         init_mode_regs;
         rc \<leftarrow> probe_chip;
         if rc \<noteq> 0 then do { printf ''ulmk: psram probe fail'' []; ret (- 1) }
         else do {
           modify (\<lambda>s. s\<lparr>g_psram_ok := True\<rparr>);
           rc \<leftarrow> board_psram_enable_axi;
           if rc \<noteq> 0 then do { printf ''ulmk: psram probe ok (axi deferred)'' []; ret 0 }
           else ret 0
         }
       }
     }
   }"

section \<open>Queries\<close>

text \<open>A null pointer is the address 0.\<close>

definition board_psram_base :: "'z psram_st_scheme \<Rightarrow> u32" where
  "board_psram_base s = (if g_axi_ok s then ULMK_BOARD_PSRAM_BASE else 0)"

definition board_psram_size :: "'z psram_st_scheme \<Rightarrow> u32" where
  "board_psram_size s = (if g_axi_ok s then push_bit PAGE_SHIFT MAP_PAGES else 0)"

definition board_psram_ready :: "'z psram_st_scheme \<Rightarrow> bool" where
  "board_psram_ready s = g_axi_ok s"

definition board_psram_nc :: "'z psram_st_scheme \<Rightarrow> u32 \<Rightarrow> u32" where
  "board_psram_nc s a =
     (if \<not> g_axi_ok s \<or> a = 0 then 0
      else if a < ULMK_BOARD_PSRAM_BASE \<or> a \<ge> ULMK_BOARD_PSRAM_BASE + push_bit PAGE_SHIFT MAP_PAGES then 0
      else a + 0x40000000)"


section \<open>What the bring-up keeps\<close>

context tuning_frame
begin

lemma frame_rmw [frame_intros]: "keeps Q (rmw a u)"
  unfolding rmw_def by (intro keeps_intros frame_intros)

lemma frame_poll [frame_intros]: "keeps Q (poll n a busy)"
  by (induction n) (auto intro!: keeps_intros frame_intros)

lemma frame_regi2c [frame_intros]: "keeps Q (regi2c_read b r)" "keeps Q (regi2c_write b r d)"
  unfolding regi2c_read_def regi2c_write_def regi2c_wait_def by (intro keeps_intros frame_intros)+

lemma frame_cal_once [frame_intros]: "keeps Q mpll_cal_once"
  unfolding mpll_cal_once_def Let_def by (intro keeps_intros frame_intros)

lemma frame_settle [frame_intros]: "keeps Q (settle n)" "keeps Q settle_brief" "keeps Q ldo_vo2_psram_1v8"
  unfolding settle_def settle_brief_def ldo_vo2_psram_1v8_def by (intro keeps_intros frame_intros)+

lemma frame_probe [frame_intros]: "keeps Q probe_chip"
  unfolding probe_chip_def Let_def by (intro keeps_intros frame_intros)

lemma frame_setup [frame_intros]: "keeps Q clocks_and_pins" "keeps Q init_mode_regs" "keeps Q config_axi" "keeps Q map_window"
  unfolding clocks_and_pins_def init_mode_regs_def config_axi_def reg_write_def map_window_def
  by (intro keeps_intros frame_intros)+

lemma frame_readback [frame_intros]: "keeps Q (axi_readback is)"
  by (induction "is" rule: axi_readback.induct) (auto intro!: keeps_intros frame_intros)

lemma frame_verify [frame_intros]: "keeps Q axi_verify"
  unfolding axi_verify_def by (intro keeps_intros frame_intros)

end

section \<open>The flags\<close>

definition flags :: "bool \<times> bool \<times> bool \<Rightarrow> 'z psram_st_scheme \<Rightarrow> bool" where
  "flags fl s \<longleftrightarrow> \<not> fault s \<and> (g_mpll_ok s, g_psram_ok s, g_axi_ok s) = fl"

interpretation flags: tuning_frame "flags fl" for fl
  by unfold_locales (simp_all add: flags_def)

lemma attempt_success:
  "triple (flags (m, p, a)) (do { modify (\<lambda>s. s\<lparr>g_mpll_ok := True\<rparr>); printf f xs; ret 0 })
    (\<lambda>(r :: cint) s. flags (m \<or> r = 0, p, a) s \<and> (r = 0 \<or> r = - 1))"
  by (rule triple_bind [where R = "\<lambda>_. flags (True, p, a)"], rule triple_modify, simp add: flags_def,
      rule triple_step, rule flags.frame_steps, rule triple_ret, simp)

lemma attempts_flags:
  "triple (flags (m, p, a)) (mpll_attempts n)
    (\<lambda>r s. flags (m \<or> r = 0, p, a) s \<and> (r = 0 \<or> r = - 1))"
proof (induction n)
  case 0
  show ?case
    unfolding mpll_attempts.simps by (intro triple_step flags.frame_steps triple_ret) simp
next
  case (Suc n)
  show ?case
    unfolding mpll_attempts.simps
    by (rule triple_step [OF flags.frame_cal_once], rule triple_if, rule attempt_success,
        rule triple_step [OF flags.frame_settle(1) Suc])
qed

lemma mpll_flags:
  "triple (flags (m, p, a)) board_mpll_enable_400m
    (\<lambda>r s. flags (m \<or> r = 0, p, a) s \<and> (r = 0 \<or> r = - 1) \<and> (m \<longrightarrow> r = 0))"
proof -
  have get: "triple (flags (m, p, a)) (gets g_mpll_ok) (\<lambda>x s. x = m \<and> flags (m, p, a) s)"
    by (rule triple_gets) (simp add: flags_def)
  have "triple (flags (m, p, a)) (do {
       ldo_vo2_psram_1v8;
       rmw PMU_RF_PWC (\<lambda>v. v OR PMU_MSPI_PHY_XPD);
       rmw LP_CLKRST_HP_CLK (\<lambda>v. v OR LP_MPLL_500M_EN);
       rmw LPPERI_CLK_EN (\<lambda>v. v OR LPPERI_I2CMST_EN);
       rmw I2C_ANA_CLK160M (\<lambda>v. v OR push_bit 0 1 OR push_bit 28 1);
       settle 8000;
       mpll_attempts 3
     }) (\<lambda>r s. flags (m \<or> r = 0, p, a) s \<and> (r = 0 \<or> r = - 1))"
    by (intro triple_step flags.frame_settle flags.frame_rmw attempts_flags)
  then have "triple (flags (m, p, a)) (if x then ret 0 else do {
       ldo_vo2_psram_1v8;
       rmw PMU_RF_PWC (\<lambda>v. v OR PMU_MSPI_PHY_XPD);
       rmw LP_CLKRST_HP_CLK (\<lambda>v. v OR LP_MPLL_500M_EN);
       rmw LPPERI_CLK_EN (\<lambda>v. v OR LPPERI_I2CMST_EN);
       rmw I2C_ANA_CLK160M (\<lambda>v. v OR push_bit 0 1 OR push_bit 28 1);
       settle 8000;
       mpll_attempts 3
     }) (\<lambda>r s. flags (m \<or> r = 0, p, a) s \<and> (r = 0 \<or> r = - 1) \<and> (m \<longrightarrow> r = 0))" if "x = m" for x
    using that by (cases m) (auto intro: triple_ret)
  then show ?thesis
    unfolding board_mpll_enable_400m_def by (intro triple_bind [OF get] triple_pre)
qed

definition enable_post :: "bool \<times> bool \<times> bool \<Rightarrow> cint \<Rightarrow> 'z psram_st_scheme \<Rightarrow> bool" where
  "enable_post fl r s = (case fl of (m, p, a) \<Rightarrow>
     flags (m, p, if p then r = 0 else a) s \<and> (r = 0 \<or> r = - 1) \<and> (r = 0 \<longrightarrow> p) \<and> (p \<and> a \<longrightarrow> r = 0))"

lemma enable_fails: "\<not> a \<Longrightarrow> triple (flags (m, True, a)) (ret (- 1)) (enable_post (m, True, a))"
  by (rule triple_ret) (simp add: enable_post_def)

lemma enable_done:
  "triple (flags (m, True, False)) (do {
       dev_do (Dcache_clean_invalidate ULMK_BOARD_PSRAM_BASE 8192);
       modify (\<lambda>s. s\<lparr>g_axi_ok := True\<rparr>);
       printf ''ulmk: psram axi ok base=0x%08x'' [ULMK_BOARD_PSRAM_BASE];
       ret 0 }) (enable_post (m, True, False))"
  by (rule triple_step, rule flags.frame_steps, rule triple_bind [where R = "\<lambda>_. flags (m, True, True)"],
      rule triple_modify, simp add: flags_def, rule triple_step, rule flags.frame_steps, rule triple_ret,
      simp add: enable_post_def)

definition enable_steps :: "('z psram_st_scheme, cint) state" where
  "enable_steps = do {
         wr HP_CORE_ERR_RESP_DIS 0x7;
         printf ''ulmk: psram axi err_resp off'' [];
         config_axi;
         printf ''ulmk: psram axi cfg'' [];
         rmw SMEM_DDR (\<lambda>v. v AND NOT SMEM_VAR_DUMMY);
         rc \<leftarrow> board_psram_timing_tune;
         if rc \<noteq> 0 then ret (- 1)
         else do {
           rmw SMEM_DDR (\<lambda>v. v OR SMEM_VAR_DUMMY);
           board_psram_timing_apply;
           rc \<leftarrow> map_window;
           if rc \<noteq> 0 then ret (- 1)
           else do {
             rc \<leftarrow> board_psram_timing_refine_axi (ULMK_BOARD_PSRAM_BASE + 0x1000) 4096;
             if rc \<noteq> 0 then ret (- 1)
             else do {
               rc \<leftarrow> axi_verify;
               if rc \<noteq> 0 then ret (- 1)
               else do {
                 dev_do (Dcache_clean_invalidate ULMK_BOARD_PSRAM_BASE 8192);
                 modify (\<lambda>s. s\<lparr>g_axi_ok := True\<rparr>);
                 printf ''ulmk: psram axi ok base=0x%08x'' [ULMK_BOARD_PSRAM_BASE];
                 ret 0
               }
             }
           }
         }
       }"

lemmas bring_up_frames = flags.frame_steps flags.frame_setup flags.frame_rmw flags.frame_tune
  flags.frame_apply flags.frame_refine flags.frame_verify

lemma enable_steps_flags: "triple (flags (m, True, False)) enable_steps (enable_post (m, True, False))"
  unfolding enable_steps_def
  by ((rule enable_done | rule enable_fails, simp | rule triple_if | rule triple_step, (rule bring_up_frames)+)+)

lemma flags_gets:
  "triple (flags (m, p, a)) (gets g_mpll_ok) (\<lambda>x s. x = m \<and> flags (m, p, a) s)"
  "triple (flags (m, p, a)) (gets g_psram_ok) (\<lambda>x s. x = p \<and> flags (m, p, a) s)"
  "triple (flags (m, p, a)) (gets g_axi_ok) (\<lambda>x s. x = a \<and> flags (m, p, a) s)"
  by (auto intro!: triple_gets simp: flags_def)

lemma enable_flags: "triple (flags (m, p, a)) board_psram_enable_axi (enable_post (m, p, a))"
proof -
  have "triple (flags (m, p, a)) (if x then ret 0 else enable_steps) (enable_post (m, p, a))" if "p" "x = a" for x
    using that by (cases a) (auto intro!: triple_ret enable_steps_flags simp: enable_post_def)
  then have "triple (flags (m, p, a)) (if \<not> y then ret (- 1)
      else State_Monad.bind (gets g_axi_ok) (\<lambda>x. if x then ret 0 else enable_steps)) (enable_post (m, p, a))"
    if "y = p" for y
    using that by (cases p) (auto intro!: triple_ret triple_bind [OF flags_gets(3)] triple_pre simp: enable_post_def)
  then show ?thesis
    unfolding board_psram_enable_axi_def enable_steps_def [symmetric]
    by (auto intro!: triple_bind [OF flags_gets(2)] triple_pre)
qed

text \<open>What \<open>board_psram_init\<close> leaves behind.\<close>

definition init_post :: "bool \<times> bool \<times> bool \<Rightarrow> cint \<Rightarrow> 'z psram_st_scheme \<Rightarrow> bool" where
  "init_post fl r s = (case fl of (m, p, a) \<Rightarrow> \<exists>m' a'. flags (m', r = 0, a') s \<and> (r = 0 \<or> r = - 1) \<and>
     (m \<longrightarrow> m') \<and> (p \<longrightarrow> r = 0) \<and> (a \<longrightarrow> a') \<and> (r = 0 \<and> \<not> p \<longrightarrow> m') \<and> (a' \<and> \<not> a \<longrightarrow> r = 0))"


definition init_steps :: "('z psram_st_scheme, cint) state" where
  "init_steps = do {
     clocks_and_pins;
     init_mode_regs;
     rc \<leftarrow> probe_chip;
     if rc \<noteq> 0 then do { printf ''ulmk: psram probe fail'' []; ret (- 1) }
     else do {
       modify (\<lambda>s. s\<lparr>g_psram_ok := True\<rparr>);
       rc \<leftarrow> board_psram_enable_axi;
       if rc \<noteq> 0 then do { printf ''ulmk: psram probe ok (axi deferred)'' []; ret 0 }
       else ret 0
     } }"

lemma init_return:
  "triple (flags (m, True, a)) (if b then do { printf f xs; ret 0 } else ret 0)
    (\<lambda>(r :: cint) s. r = 0 \<and> flags (m, True, a) s)"
  by (rule triple_if, rule triple_step, rule flags.frame_steps, rule triple_ret, simp, rule triple_ret, simp)

lemma init_enabled:
  "triple (enable_post (m, True, a) rc) (if rc \<noteq> 0 then do { printf f xs; ret 0 } else ret 0)
    (\<lambda>(r :: cint) s. \<exists>a'. r = 0 \<and> flags (m, True, a') s \<and> (a \<longrightarrow> a'))"
proof (cases "a \<longrightarrow> rc = 0")
  case True
  then show ?thesis
    by (intro triple_weaken [OF init_return [of m "rc = 0"]]) (auto simp: enable_post_def flags_def)
next
  case False
  then show ?thesis
    by (simp add: triple_def enable_post_def)
qed

lemma init_steps_flags:
  "triple (flags (m, False, a)) init_steps
    (\<lambda>r s. (r = - 1 \<and> flags (m, False, a) s) \<or> (\<exists>a'. r = 0 \<and> flags (m, True, a') s \<and> (a \<longrightarrow> a')))"
proof -
  have set: "triple (flags (m, False, a)) (modify (\<lambda>s. s\<lparr>g_psram_ok := True\<rparr>)) (\<lambda>_. flags (m, True, a))"
    by (rule triple_modify) (simp add: flags_def)
  note ok = triple_weaken [OF triple_bind [OF set triple_bind [OF enable_flags init_enabled]]]
  show ?thesis
    unfolding init_steps_def
    by (rule triple_step [OF flags.frame_setup(1)], rule triple_step [OF flags.frame_setup(2)],
        rule triple_step [OF flags.frame_probe], rule triple_if, rule triple_step, rule flags.frame_steps,
        rule triple_ret, simp, rule ok) auto
qed

lemma init_flags: "triple (flags (m, p, a)) board_psram_init (init_post (m, p, a))"
proof -
  have steps: "triple (flags (m', False, a)) init_steps (init_post (m, False, a))" if "m'" for m'
    by (rule triple_weaken [OF init_steps_flags]) (use that in \<open>auto simp: init_post_def flags_def\<close>)
  have rest: "triple (\<lambda>s. flags (m \<or> rc = 0, False, a) s \<and> (rc = 0 \<or> rc = - 1) \<and> (m \<longrightarrow> rc = 0))
      (if rc \<noteq> 0 then ret (- 1) else init_steps) (init_post (m, False, a))" for rc :: cint
    by (rule triple_if) (auto intro!: triple_ret triple_weaken [OF steps [of True]] simp: init_post_def flags_def)
  have "triple (flags (m, p, a)) (if x then ret 0 else do { printf f xs; rc \<leftarrow> board_mpll_enable_400m;
      if rc \<noteq> 0 then ret (- 1) else init_steps }) (init_post (m, p, a))" if "x = p" for x f xs
    using that
    by (cases p) (auto intro!: triple_ret triple_step [OF flags.frame_steps(3)] triple_bind [OF mpll_flags rest]
        simp: init_post_def flags_def)
  then show ?thesis
    unfolding board_psram_init_def init_steps_def [symmetric]
    by (auto intro!: triple_bind [OF flags_gets(2)] triple_pre)
qed

text \<open>\<open>board_psram_init\<close> returns 0 exactly when the chip has been probed successfully, and only on a
  locked PLL; the window may still be unusable, which only the ready flag tells: \<open>board_psram_enable_axi\<close>
  returns 0 exactly when the window is ready afterwards.  Flags are never taken back, and no table is
  accessed out of bounds.\<close>

theorem psram_init_results:
  assumes "\<not> fault st" "g_axi_ok st \<longrightarrow> g_psram_ok st" "g_psram_ok st \<longrightarrow> g_mpll_ok st"
    "run_state (board_psram_init :: (psram_st, cint) state) st = (r, st1)"
    "run_state (board_psram_enable_axi :: (psram_st, cint) state) st = (e, st2)"
  shows "(r = 0 \<longleftrightarrow> g_psram_ok st1) \<and> (e = 0 \<longleftrightarrow> board_psram_ready st2) \<and> r \<in> {0, - 1} \<and> e \<in> {0, - 1} \<and>
    (\<forall>st' \<in> {st1, st2}. \<not> fault st' \<and> (g_axi_ok st' \<longrightarrow> g_psram_ok st') \<and> (g_psram_ok st' \<longrightarrow> g_mpll_ok st') \<and>
      (g_axi_ok st \<longrightarrow> g_axi_ok st') \<and> (g_psram_ok st \<longrightarrow> g_psram_ok st') \<and> (g_mpll_ok st \<longrightarrow> g_mpll_ok st'))"
proof -
  have f: "flags (g_mpll_ok st, g_psram_ok st, g_axi_ok st) st"
    using assms(1) by (simp add: flags_def)
  have "init_post (g_mpll_ok st, g_psram_ok st, g_axi_ok st) r st1"
    "enable_post (g_mpll_ok st, g_psram_ok st, g_axi_ok st) e st2"
    using tripleD [OF init_flags f assms(4)] tripleD [OF enable_flags f assms(5)] .
  then have i: "\<not> fault st1" "g_psram_ok st1 = (r = 0)" "r = 0 \<or> r = - 1" "g_mpll_ok st \<longrightarrow> g_mpll_ok st1"
      "g_psram_ok st \<longrightarrow> r = 0" "g_axi_ok st \<longrightarrow> g_axi_ok st1" "r = 0 \<and> \<not> g_psram_ok st \<longrightarrow> g_mpll_ok st1"
      "g_axi_ok st1 \<and> \<not> g_axi_ok st \<longrightarrow> r = 0"
    and e: "\<not> fault st2" "g_psram_ok st2 = g_psram_ok st" "g_mpll_ok st2 = g_mpll_ok st"
      "g_axi_ok st2 = (if g_psram_ok st then e = 0 else g_axi_ok st)" "e = 0 \<or> e = - 1" "e = 0 \<longrightarrow> g_psram_ok st"
      "g_psram_ok st \<and> g_axi_ok st \<longrightarrow> e = 0"
    by (auto simp add: init_post_def enable_post_def flags_def)
  let ?keeps = "\<lambda>st'. \<not> fault st' \<and> (g_axi_ok st' \<longrightarrow> g_psram_ok st') \<and> (g_psram_ok st' \<longrightarrow> g_mpll_ok st') \<and>
      (g_axi_ok st \<longrightarrow> g_axi_ok st') \<and> (g_psram_ok st \<longrightarrow> g_psram_ok st') \<and> (g_mpll_ok st \<longrightarrow> g_mpll_ok st')"
  from i assms(2,3) have "r = 0 \<longleftrightarrow> g_psram_ok st1" "r \<in> {0, - 1}" "?keeps st1"
    by blast+
  moreover from e assms(2,3) have "e = 0 \<longleftrightarrow> board_psram_ready st2" "e \<in> {0, - 1}" "?keeps st2"
    unfolding board_psram_ready_def by (cases "g_psram_ok st"; simp)+
  ultimately show ?thesis
    by blast
qed

definition psram_boot :: "(psram_act event list \<Rightarrow> psram_act event \<Rightarrow> u32) \<Rightarrow> psram_st" where
  "psram_boot ans = \<lparr>trace = [], answer = ans, fault = False, g_best_phase = 0, g_best_data_dl = 0,
     g_best_dqs_dl = 0, g_mpll_ok = False, g_psram_ok = False, g_axi_ok = False\<rparr>"

theorem psram_init_results_witness:
  "let (r, st) = run_state board_psram_init (psram_boot (\<lambda>_ _. 0)) in (r = 0) = g_psram_ok st \<and> \<not> fault st"
proof -
  obtain r st1 e st2 where "run_state board_psram_init (psram_boot (\<lambda>_ _. 0)) = (r, st1)"
    "run_state board_psram_enable_axi (psram_boot (\<lambda>_ _. 0)) = (e, st2)"
    by (metis surj_pair)
  with psram_init_results [OF _ _ _ this] show ?thesis
    by (simp add: psram_boot_def)
qed

text \<open>A non-cache alias exists exactly for the addresses of the ready window; it lies 0x40000000 above,
  in the alias window of the same size, without wrapping, and different addresses have different aliases.\<close>

theorem psram_alias_window:
  fixes st :: psram_st
  defines "lo \<equiv> unat (board_psram_base st)" and "hi \<equiv> unat (board_psram_base st) + unat (board_psram_size st)"
  shows "(board_psram_nc st a \<noteq> 0 \<longleftrightarrow> lo \<le> unat a \<and> unat a < hi) \<and>
    (board_psram_nc st a \<noteq> 0 \<longrightarrow> unat (board_psram_nc st a) = unat a + 0x40000000) \<and>
    (board_psram_nc st a \<noteq> 0 \<and> board_psram_nc st a = board_psram_nc st b \<longrightarrow> a = b) \<and>
    (board_psram_ready st \<longrightarrow> unat (board_psram_size st) = 8 * 1024 * 1024)"
proof (cases "g_axi_ok st")
  case True
  have sz: "push_bit PAGE_SHIFT MAP_PAGES = 0x800000"
    by (simp add: PAGE_SHIFT_def MAP_PAGES_def)
  have lohi: "lo = 0x48000000" "hi = 0x48800000"
    using True by (simp_all add: lo_def hi_def board_psram_base_def board_psram_size_def sz const_defs)
  have nc: "board_psram_nc st x = (if 0x48000000 \<le> unat x \<and> unat x < 0x48800000 then x + 0x40000000 else 0)" for x
    using True by (auto simp: board_psram_nc_def sz const_defs word_less_nat_alt word_le_nat_alt)
  have shifted: "unat (x + 0x40000000) = unat x + 0x40000000" if "unat x < 0x48800000" for x :: u32
    using that by (simp add: unat_word_ariths)
  have nz: "x + 0x40000000 \<noteq> 0" if "unat x < 0x48800000" for x :: u32
    using shifted [OF that] by force
  show ?thesis
    using True shifted nz unfolding nc lohi
    by (auto simp: board_psram_size_def board_psram_ready_def sz split: if_splits)
qed (simp add: lo_def hi_def board_psram_nc_def board_psram_base_def board_psram_size_def board_psram_ready_def)


theorem psram_alias_window_witness:
  "board_psram_nc ((psram_boot (\<lambda>_ _. 0))\<lparr>g_axi_ok := True\<rparr>) 0x48001000 = 0x88001000"
proof -
  let ?st = "(psram_boot (\<lambda>_ _. 0))\<lparr>g_axi_ok := True\<rparr>"
  have "board_psram_nc ?st 0x48001000 \<noteq> 0"
    using psram_alias_window [of ?st "0x48001000" 0]
    by (simp add: board_psram_base_def board_psram_size_def const_defs MAP_PAGES_def PAGE_SHIFT_def)
  then show ?thesis
    using psram_alias_window [of ?st "0x48001000" 0] by (auto simp: board_psram_nc_def split: if_splits)
qed


section \<open>The PLL bring-up is bounded\<close>

lemma emits_tune_steps [emits_intros]:
  "emits P 1 (rd a)" "emits P 1 (wr a v)" "emits P 1 (settle n)" "emits P 1 (printf f xs)" "emits P 2 (rmw a u)"
proof -
  show one: "emits P 1 (rd a)" "emits P 1 (wr a v)" "emits P 1 (settle n)" "emits P 1 (printf f xs)" for a v n f xs
    unfolding rd_def wr_def settle_def printf_def by (rule emits_one)+
  show "emits P 2 (rmw a u)"
    unfolding rmw_def by (rule emits_weaken, (rule emits_intros one)+) simp
qed

lemma emits_poll: "emits P (Suc n) (poll n a busy)"
proof (induction n)
  case 0
  show ?case
    by (simp only: poll.simps, rule emits_weaken, (rule emits_intros)+, simp)
next
  case (Suc n)
  show ?case
    by (simp only: poll.simps, rule emits_weaken, (rule emits_intros Suc)+, simp)
qed

lemma emits_regi2c: "emits P 400007 (regi2c_read b r)" "emits P 400006 (regi2c_write b r d)"
  unfolding regi2c_read_def regi2c_write_def regi2c_wait_def
  by (rule emits_weaken, (rule emits_intros emits_poll)+, simp)+

lemma emits_cal_once: "emits P 4400044 mpll_cal_once"
  unfolding mpll_cal_once_def Let_def
  by (rule emits_weaken, (rule emits_intros emits_poll emits_regi2c)+, simp)

lemma emits_flag [emits_intros]: "emits P 0 (modify (\<lambda>s. s\<lparr>g_mpll_ok := b\<rparr>))"
  by (rule emits_silent) simp

lemma emits_attempts: "emits P (n * 4400045 + 1) (mpll_attempts n)"
proof (induction n)
  case 0
  show ?case
    by (simp only: mpll_attempts.simps, rule emits_weaken, (rule emits_intros)+, simp)
next
  case (Suc n)
  show ?case
    by (simp only: mpll_attempts.simps, rule emits_weaken, (rule emits_intros emits_cal_once Suc)+, simp)
qed

lemma emits_mpll: "emits P 13200149 board_mpll_enable_400m"
  unfolding board_mpll_enable_400m_def ldo_vo2_psram_1v8_def
  by (rule emits_weaken, (rule emits_intros emits_attempts)+, simp)

text \<open>An interaction that happened with the given answer.\<close>

definition answered :: "psram_act event \<Rightarrow> (u32 \<Rightarrow> bool) \<Rightarrow> 'z tune_state \<Rightarrow> bool" where
  "answered e ok s \<longleftrightarrow> (\<exists>tr es. trace s = tr @ e # es \<and> ok (answer s tr e))"

lemma answered_snoc: "answered e ok s \<Longrightarrow> answered e ok (s\<lparr>trace := trace s @ [ev]\<rparr>)"
proof -
  assume "answered e ok s"
  then obtain tr es where "trace s = tr @ e # es" "ok (answer s tr e)"
    by (auto simp: answered_def)
  then have "trace s @ [ev] = tr @ e # (es @ [ev])" "ok (answer s tr e)"
    by simp_all
  then show ?thesis
    unfolding answered_def by (metis io.select_convs(1,2) io.surjective io.update_convs(1))
qed

lemma answered_now: "ok (answer s (trace s) e) \<Longrightarrow> answered e ok (s\<lparr>trace := trace s @ [e]\<rparr>)"
  unfolding answered_def by auto

interpretation answered: tuning_frame "answered e ok" for e ok
  by unfold_locales (rule answered_snoc, assumption, simp_all add: answered_def)

lemma triple_true: "triple P m (\<lambda>_ _. True)"
  by (simp add: triple_def)

lemma rd_answered: "triple (\<lambda>_. True) (rd a) (\<lambda>v. answered (Dev (Rd a)) (\<lambda>x. x = v))"
  by (rule tripleI) (auto simp: rd_def intro: answered_now)

definition cal_seen :: "'z tune_state \<Rightarrow> bool" where
  "cal_seen = answered (Dev (Rd ANA_PLL_CTRL0)) (\<lambda>v. v AND MSPI_CAL_END \<noteq> 0)"


interpretation cal_seen: tuning_frame cal_seen
  unfolding cal_seen_def by (rule answered.tuning_frame_axioms)

lemma cal_once_seen: "triple (\<lambda>_ :: 'z tune_st_scheme. True) mpll_cal_once (\<lambda>r s. r = 0 \<longrightarrow> cal_seen s)"
proof -
  have tail: "triple (answered (Dev (Rd ANA_PLL_CTRL0)) (\<lambda>x. x = v) :: 'z tune_st_scheme \<Rightarrow> bool) (do {
      rmw ANA_PLL_CTRL0 (\<lambda>v. v OR MSPI_CAL_STOP);
      ret (if v AND MSPI_CAL_END \<noteq> 0 then 0 else - 1) }) (\<lambda>(r :: cint) s. r = 0 \<longrightarrow> cal_seen s)" for v
    by (rule triple_step [OF answered.frame_rmw], rule triple_ret) (auto simp: cal_seen_def answered_def)
  show ?thesis
    unfolding mpll_cal_once_def Let_def
    by (intro triple_bind [OF triple_true] triple_bind [OF rd_answered tail])
qed

lemma attempts_seen: "triple (\<lambda>_. True) (mpll_attempts n) (\<lambda>r s. r = 0 \<longrightarrow> cal_seen s)"
proof (induction n)
  case 0
  show ?case
    unfolding mpll_attempts.simps by (intro triple_bind [OF triple_true] triple_ret) simp
next
  case (Suc n)
  show ?case
    unfolding mpll_attempts.simps
  proof (rule triple_bind [OF cal_once_seen], rule triple_if)
    fix rc :: cint
    assume "rc = 0"
    then show "triple (\<lambda>s. rc = 0 \<longrightarrow> cal_seen s) (do { modify (\<lambda>s. s\<lparr>g_mpll_ok := True\<rparr>);
        printf ''ulmk: mpll 400m ok'' []; ret 0 }) (\<lambda>r s. r = 0 \<longrightarrow> cal_seen (s :: 'a psram_st_scheme))"
      by simp (intro triple_step [OF keeps_modify] triple_step [OF cal_seen.frame_steps(3)] triple_ret;
          simp add: cal_seen_def answered_def)
  qed (intro triple_bind [OF triple_true] Suc)
qed

text \<open>C15: Starting the memory PLL always ends, after at most 13200149 interactions with the hardware, whatever
  it answers; it returns 0 exactly when the PLL counts as locked afterwards, and a PLL that it locked was
  seen to have finished its calibration.\<close>

theorem mpll_bounded_and_seen:
  fixes st :: psram_st
  assumes "\<not> fault st" "run_state board_mpll_enable_400m st = (r, st')"
  shows "(\<exists>es. trace st' = trace st @ es \<and> length es \<le> 13200149) \<and> (r = 0 \<longleftrightarrow> g_mpll_ok st') \<and>
    (g_mpll_ok st' \<and> \<not> g_mpll_ok st \<longrightarrow> cal_seen st')"
proof -
  have "\<exists>es. trace st' = trace st @ es \<and> count_ev (\<lambda>_. True) es \<le> 13200149"
    using emits_mpll [of "\<lambda>_. True"] assms(2) unfolding emits_def by (metis snd_conv)
  then have "\<exists>es. trace st' = trace st @ es \<and> length es \<le> 13200149"
    by (simp add: count_ev_def)
  moreover have "flags (g_mpll_ok st, g_psram_ok st, g_axi_ok st) st"
    using assms(1) by (simp add: flags_def)
  from tripleD [OF mpll_flags this assms(2)] have "r = 0 \<longleftrightarrow> g_mpll_ok st'"
    by (auto simp: flags_def)
  moreover have "triple (\<lambda>s. \<not> g_mpll_ok s) board_mpll_enable_400m (\<lambda>r s. r = 0 \<longrightarrow> cal_seen (s :: psram_st))"
  proof -
    have get: "triple (\<lambda>s. \<not> g_mpll_ok s) (gets g_mpll_ok) (\<lambda>x (s :: psram_st). \<not> x \<and> True)"
      by (rule triple_gets) simp
    show ?thesis
      unfolding board_mpll_enable_400m_def
      by (rule triple_bind [OF get], rule triple_pre, simp,
          (rule attempts_seen | rule triple_bind [OF triple_true])+)
  qed
  ultimately show ?thesis
    using assms(2) by (auto dest: tripleD)
qed

theorem mpll_bounded_and_seen_witness:
  "length (trace (snd (run_state board_mpll_enable_400m (psram_boot (\<lambda>_ _. 0))))) \<le> 13200149"
proof -
  obtain r st' where run: "run_state board_mpll_enable_400m (psram_boot (\<lambda>_ _. 0)) = (r, st')"
    by (cases "run_state board_mpll_enable_400m (psram_boot (\<lambda>_ _. 0))")
  with mpll_bounded_and_seen [OF _ run] show ?thesis
    by (auto simp: psram_boot_def)
qed


section \<open>The window is checked before it is used\<close>

definition word_seen :: "nat \<Rightarrow> 'z tune_state \<Rightarrow> bool" where
  "word_seen i = answered (Dev (Rd (ULMK_BOARD_PSRAM_BASE + of_nat i * 4))) (\<lambda>v. v = axi_word (of_nat i))"

definition first_seen :: "'z tune_state \<Rightarrow> bool" where
  "first_seen = answered (Dev (Rd ULMK_BOARD_PSRAM_BASE)) (\<lambda>v. v = 0xA5A55A5A)"

definition map_seen :: "'z tune_state \<Rightarrow> bool" where
  "map_seen = answered (Dev (Mmu_set ULMK_BOARD_PSRAM_BASE 0 64 MAP_PAGES)) (\<lambda>v. v = 0)"

lemma tuning_frame_conj: "tuning_frame P \<Longrightarrow> tuning_frame Q \<Longrightarrow> tuning_frame (\<lambda>s. P s \<and> Q s)"
  by (simp add: tuning_frame_def)

interpretation seen: tuning_frame "\<lambda>s. map_seen s \<and> first_seen s"
  unfolding map_seen_def first_seen_def by (intro tuning_frame_conj answered.tuning_frame_axioms)

lemma readback_seen:
  fixes I :: "'z tune_st_scheme \<Rightarrow> bool"
  assumes "tuning_frame I"
  shows "triple I (axi_readback is) (\<lambda>r s. I s \<and> (r = 0 \<longrightarrow> (\<forall>i \<in> set is. word_seen i s)))"
  using assms
proof (induction "is" arbitrary: I)
  case Nil
  then show ?case by (simp add: triple_ret)
next
  case (Cons i js)
  let ?a = "ULMK_BOARD_PSRAM_BASE + of_nat i * 4"
  have got: "triple I (rd ?a) (\<lambda>v s. I s \<and> answered (Dev (Rd ?a)) (\<lambda>x. x = v) s)"
    using tripleD [OF rd_answered] keepsD [OF tuning_frame.frame_steps(1) [OF Cons.prems], of _ ?a]
    by (auto intro!: tripleI) (metis snd_conv)
  have fail: "triple (\<lambda>s. I s \<and> A s) (do { printf f xs; ret (- 1) })
      (\<lambda>(r :: cint) s. I s \<and> (r = 0 \<longrightarrow> B s))" for A B f xs
    by (rule triple_weaken [where P = I], rule triple_step, rule tuning_frame.frame_steps(3) [OF Cons.prems],
        rule triple_ret) auto
  have frame: "tuning_frame (\<lambda>s. I s \<and> word_seen i s)"
    unfolding word_seen_def by (intro tuning_frame_conj Cons.prems answered.tuning_frame_axioms)
  have step: "triple (\<lambda>s. I s \<and> answered (Dev (Rd ?a)) (\<lambda>x. x = v) s) (axi_readback js)
      (\<lambda>r s. I s \<and> (r = 0 \<longrightarrow> (\<forall>i \<in> set (i # js). word_seen i s)))" if "v = axi_word (of_nat i)" for v
    using that by (intro triple_weaken [OF Cons.IH [OF frame]]) (auto simp: word_seen_def)
  show ?case
    unfolding axi_readback.simps
    by (rule triple_bind [OF got], rule triple_if, rule fail, rule step) simp
qed

lemma verify_seen:
  "triple (map_seen :: 'z tune_st_scheme \<Rightarrow> bool) axi_verify
    (\<lambda>r s. r = 0 \<longrightarrow> map_seen s \<and> first_seen s \<and> (\<forall>i \<in> {1..<8}. word_seen i s))"
proof -
  have frame: "tuning_frame (map_seen :: 'z tune_st_scheme \<Rightarrow> bool)"
    unfolding map_seen_def by (rule answered.tuning_frame_axioms)
  note steps = tuning_frame.frame_steps [OF frame] tuning_frame.frame_settle [OF frame]
  have got: "triple (map_seen :: 'z tune_st_scheme \<Rightarrow> bool) (rd ULMK_BOARD_PSRAM_BASE)
      (\<lambda>v s. map_seen s \<and> answered (Dev (Rd ULMK_BOARD_PSRAM_BASE)) (\<lambda>x. x = v) s)"
    using tripleD [OF rd_answered] keepsD [OF steps(1), of _ ULMK_BOARD_PSRAM_BASE]
    by (auto intro!: tripleI) (metis snd_conv)
  have fail: "triple (P :: 'z tune_st_scheme \<Rightarrow> bool) (do { printf f xs; ret (- 1) })
      (\<lambda>(r :: cint) s. r = 0 \<longrightarrow> B s)" for P B f xs
    by (rule triple_bind [OF triple_true], rule triple_ret) simp
  have rest: "triple (\<lambda>s. map_seen s \<and> first_seen s) (do {
      for_each [1..<8] (\<lambda>i. wr (ULMK_BOARD_PSRAM_BASE + of_nat i * 4) (axi_word (of_nat i)));
      dev_do Fence;
      axi_readback [1..<8] })
      (\<lambda>r (s :: 'z tune_st_scheme). r = 0 \<longrightarrow> map_seen s \<and> first_seen s \<and> (\<forall>i \<in> {1..<8}. word_seen i s))"
    by (rule triple_step, rule keeps_for_each, rule seen.frame_steps, rule triple_step, rule seen.frame_steps,
        rule triple_weaken [OF readback_seen [OF seen.tuning_frame_axioms]]) auto
  have ok: "triple (\<lambda>s. map_seen s \<and> answered (Dev (Rd ULMK_BOARD_PSRAM_BASE)) (\<lambda>x. x = v) s) (do {
      for_each [1..<8] (\<lambda>i. wr (ULMK_BOARD_PSRAM_BASE + of_nat i * 4) (axi_word (of_nat i)));
      dev_do Fence;
      axi_readback [1..<8] })
      (\<lambda>r (s :: 'z tune_st_scheme). r = 0 \<longrightarrow> map_seen s \<and> first_seen s \<and> (\<forall>i \<in> {1..<8}. word_seen i s))"
    if "v = 0xA5A55A5A" for v
    using that by (intro triple_weaken [OF rest]) (auto simp: first_seen_def)
  show ?thesis
    unfolding axi_verify_def
    by (rule triple_step, rule steps, rule triple_step, rule steps, rule triple_step, rule steps,
        rule triple_step, rule steps, rule triple_bind [OF got], rule triple_if, rule fail, rule ok) simp
qed


lemma map_window_seen:
  "triple (\<lambda>_. True) map_window (\<lambda>rc (s :: 'z tune_st_scheme). rc = 0 \<longrightarrow> map_seen s)"
proof -
  have call: "triple (\<lambda>_. True) (dev (Mmu_set ULMK_BOARD_PSRAM_BASE 0 64 MAP_PAGES))
      (\<lambda>v (s :: 'z tune_st_scheme). v = 0 \<longrightarrow> map_seen s)"
    by (rule tripleI) (auto simp: map_seen_def intro!: answered_now)
  have frame: "tuning_frame (\<lambda>s :: 'z tune_st_scheme. v = 0 \<longrightarrow> map_seen s)" for v :: u32
    using answered.tuning_frame_axioms unfolding tuning_frame_def map_seen_def by blast
  show ?thesis
    unfolding map_window_def
    by (rule triple_bind [OF triple_true], rule triple_bind [OF call], rule triple_step,
        rule tuning_frame.frame_steps(3) [OF frame], rule triple_ret) simp
qed

definition window_checked :: "'z tune_state \<Rightarrow> bool" where
  "window_checked s \<longleftrightarrow> map_seen s \<and> first_seen s \<and> (\<forall>i \<in> {1..<8}. word_seen i s)"

definition handed_over :: "'z tune_state \<Rightarrow> bool" where
  "handed_over s \<longleftrightarrow> window_checked s \<and> (\<exists>pre. trace s = pre @
     [Dev (Dcache_clean_invalidate ULMK_BOARD_PSRAM_BASE 8192),
      Dev (Print ''ulmk: psram axi ok base=0x%08x'' [ULMK_BOARD_PSRAM_BASE])])"

lemma window_checked_snoc: "window_checked s \<Longrightarrow> window_checked (s\<lparr>trace := trace s @ [ev]\<rparr>)"
  by (simp add: window_checked_def map_seen_def first_seen_def word_seen_def answered_snoc)

lemma hand_over_seen:
  "triple window_checked (do {
       dev_do (Dcache_clean_invalidate ULMK_BOARD_PSRAM_BASE 8192);
       modify (\<lambda>s. s\<lparr>g_axi_ok := True\<rparr>);
       printf ''ulmk: psram axi ok base=0x%08x'' [ULMK_BOARD_PSRAM_BASE];
       ret 0 }) (\<lambda>(r :: cint) (s :: 'z psram_st_scheme). r = 0 \<longrightarrow> handed_over s)"
proof (rule tripleI)
  fix s s' :: "'z psram_st_scheme" and r :: cint
  assume s: "window_checked s" and run: "run_state (do {
       dev_do (Dcache_clean_invalidate ULMK_BOARD_PSRAM_BASE 8192);
       modify (\<lambda>s. s\<lparr>g_axi_ok := True\<rparr>);
       printf ''ulmk: psram axi ok base=0x%08x'' [ULMK_BOARD_PSRAM_BASE];
       ret 0 }) s = (r, s')"
  let ?es = "[Dev (Dcache_clean_invalidate ULMK_BOARD_PSRAM_BASE 8192),
      Dev (Print ''ulmk: psram axi ok base=0x%08x'' [ULMK_BOARD_PSRAM_BASE])]"
  from run have s': "trace s' = trace s @ ?es" "answer s' = answer s"
    by (auto simp: printf_def)
  have "answered e ok s'" if "answered e ok s" for e ok
  proof -
    from that obtain tr es where "trace s = tr @ e # es" "ok (answer s tr e)"
      by (auto simp: answered_def)
    with s' have "trace s' = tr @ e # (es @ ?es)" "ok (answer s' tr e)"
      by simp_all
    then show ?thesis
      unfolding answered_def by blast
  qed
  with s have "window_checked s'"
    by (auto simp: window_checked_def map_seen_def first_seen_def word_seen_def)
  with s' show "r = 0 \<longrightarrow> handed_over s'"
    by (auto simp: handed_over_def)
qed

lemma enable_steps_seen:
  "triple (\<lambda>_. True) enable_steps (\<lambda>r (s :: 'z psram_st_scheme). r = 0 \<longrightarrow> handed_over s)"
proof -
  have fail: "triple P (ret (- 1)) (\<lambda>(r :: cint) s. r = 0 \<longrightarrow> Q s)" for P Q :: "'z psram_st_scheme \<Rightarrow> bool"
    by (rule triple_ret) simp
  have frame: "tuning_frame (map_seen :: 'z psram_st_scheme \<Rightarrow> bool)"
    unfolding map_seen_def by (rule answered.tuning_frame_axioms)
  have verify: "triple (map_seen :: 'z psram_st_scheme \<Rightarrow> bool) axi_verify (\<lambda>r s. r = 0 \<longrightarrow> window_checked s)"
    by (rule triple_weaken [OF verify_seen]) (auto simp: window_checked_def)
  note refine = triple_step [OF tuning_frame.frame_refine [OF frame]]
  have guard: "(rc = 0 \<Longrightarrow> triple P m Q) \<Longrightarrow> \<not> rc \<noteq> 0 \<Longrightarrow> triple (\<lambda>s. rc = 0 \<longrightarrow> P s) m Q"
    for rc :: cint and P m and Q :: "cint \<Rightarrow> 'z psram_st_scheme \<Rightarrow> bool"
    by (auto simp: triple_def)
  show ?thesis
    unfolding enable_steps_def
    by (rule triple_bind [OF triple_true])+
       (rule triple_if, rule fail, rule triple_bind [OF triple_true], rule triple_bind [OF triple_true],
        rule triple_bind [OF map_window_seen], rule triple_if, rule fail, rule guard, rule refine, rule triple_if,
        rule fail, rule triple_bind [OF verify], rule triple_if, rule fail, rule guard, rule hand_over_seen)
qed



section \<open>A working memory is brought up\<close>

text \<open>Memory behind the window that holds what was written to it.\<close>

definition holds_words :: "u32 \<Rightarrow> nat set \<Rightarrow> (u32 \<Rightarrow> u32) \<Rightarrow> 'z tune_state \<Rightarrow> bool" where
  "holds_words base ws f s \<longleftrightarrow> mmio (answer s) \<and> (\<forall>w \<in> ws. reg_val (trace s) (base + of_nat w * 4) = f (of_nat w))"

lemma holds_quiet:
  assumes "\<And>a v. ev \<noteq> Dev (Wr a v)" "holds_words base ws f s"
  shows "holds_words base ws f (s\<lparr>trace := trace s @ [ev]\<rparr>)"
proof -
  have "reg_step a ev v = v" for a v
    using assms(1) by (auto simp: reg_step_def split: event.splits psram_act.splits)
  with assms(2) show ?thesis
    by (simp add: holds_words_def)
qed

lemma word_address_inj:
  assumes "v < 2 ^ 29" "w < 2 ^ 29" "(base :: u32) + of_nat v * 4 = base + of_nat w * 4"
  shows "v = w"
proof -
  have "unat ((of_nat v :: u32) * 4) = 4 * v" "unat ((of_nat w :: u32) * 4) = 4 * w"
    using assms(1,2) by (simp_all add: unat_word_ariths unat_of_nat)
  moreover have "(of_nat v :: u32) * 4 = of_nat w * 4"
    using assms(3) by (rule add_left_imp_eq)
  ultimately have "4 * v = 4 * w"
    by metis
  then show ?thesis
    by simp
qed

lemma write_holds:
  assumes "\<And>v. v \<in> ws \<Longrightarrow> v < 2 ^ 29" "w < 2 ^ 29"
  shows "triple (holds_words base ws f) (wr (base + of_nat w * 4) (f (of_nat w)))
    (\<lambda>_. holds_words base (insert w ws) f)"
proof (rule tripleI)
  fix s s' :: "'a tune_state" and u
  assume s: "holds_words base ws f s" and run: "run_state (wr (base + of_nat w * 4) (f (of_nat w))) s = (u, s')"
  then have s': "s' = s\<lparr>trace := trace s @ [Dev (Wr (base + of_nat w * 4) (f (of_nat w)))]\<rparr>"
    by (simp add: wr_def)
  have "base + of_nat w * 4 = base + of_nat v * 4 \<longleftrightarrow> v = w" if "v \<in> insert w ws" for v
    using word_address_inj [of v w base] assms that by auto
  with s show "holds_words base (insert w ws) f s'"
    unfolding s' holds_words_def by (auto simp: reg_step_def)
qed

lemma fill_holds:
  assumes "\<And>w. w \<in> set ws \<Longrightarrow> w < 2 ^ 29"
  shows "triple (\<lambda>s. mmio (answer s)) (for_each ws (\<lambda>w. wr (base + of_nat w * 4) (f (of_nat w))))
    (\<lambda>_. holds_words base (set ws) f)"
  using assms
proof (induction ws rule: rev_induct)
  case Nil
  show ?case
    unfolding for_each.simps by (rule triple_ret) (simp add: holds_words_def)
next
  case (snoc w ws)
  show ?case
    unfolding for_each_append for_each.simps State_Monad.bind_right_identity
    by (rule triple_bind [OF snoc.IH], use snoc.prems in simp,
        rule triple_weaken [OF triple_bind [OF write_holds triple_ret]], use snoc.prems in auto)
qed

lemma quiet_steps:
  "triple (holds_words base ws f) (dev_do Fence) (\<lambda>_. holds_words base ws f)"
  "triple (holds_words base ws f) (dev_do (Dcache_clean a n)) (\<lambda>_. holds_words base ws f)"
  "triple (holds_words base ws f) (dev_do (Dcache_invalidate a n)) (\<lambda>_. holds_words base ws f)"
  by (auto intro!: tripleI holds_quiet)

lemma read_word:
  "w \<in> ws \<Longrightarrow> triple (holds_words base ws f) (rd (base + of_nat w * 4))
     (\<lambda>v s. v = f (of_nat w) \<and> holds_words base ws f s)"
proof (rule tripleI)
  fix s s' :: "'a tune_state" and v
  assume w: "w \<in> ws" and s: "holds_words base ws f s" and run: "run_state (rd (base + of_nat w * 4)) s = (v, s')"
  then have "s' = s\<lparr>trace := trace s @ [Dev (Rd (base + of_nat w * 4))]\<rparr>"
    "v = reg_val (trace s) (base + of_nat w * 4)"
    by (simp_all add: rd_def holds_words_def mmio_def)
  with w s show "v = f (of_nat w) \<and> holds_words base ws f s'"
    using holds_quiet [OF _ s, of "Dev (Rd (base + of_nat w * 4))"] by (auto simp: holds_words_def)
qed

lemma check_passes:
  "set js \<subseteq> ws \<Longrightarrow> triple (holds_words base ws f) (axi_check base js f) (\<lambda>ok s. ok \<and> mmio (answer s))"
proof (induction js)
  case Nil
  show ?case
    unfolding axi_check.simps by (rule triple_ret) (simp add: holds_words_def)
next
  case (Cons w js)
  then have w: "w \<in> ws" "set js \<subseteq> ws"
    by auto
  show ?case
    unfolding axi_check.simps
    by (rule triple_bind [OF read_word [OF w(1)]], rule triple_pre) (simp add: Cons.IH [OF w(2)])
qed

lemma trial_passes:
  assumes "unat (n div 4) \<le> 2 ^ 29"
  shows "triple (\<lambda>s. mmio (answer s)) (axi_trial base n i t) (\<lambda>ok s. ok = True \<and> mmio (answer s))"
  unfolding axi_trial_def Let_def
  by (rule triple_bind [OF fill_holds [where f = "\<lambda>w. pattern_word i w XOR t * 0x01010101"]],
      use assms in simp, rule triple_bind [OF quiet_steps(1)], rule triple_bind [OF quiet_steps(2)],
      rule triple_bind [OF quiet_steps(3)], rule triple_weaken [OF check_passes]) auto

lemma hits_all:
  assumes "unat (n div 4) \<le> 2 ^ 29"
  shows "triple (\<lambda>s. mmio (answer s)) (axi_hits base n i ts h) (\<lambda>r s. r = h + of_nat (length ts) \<and> mmio (answer s))"
proof (induction ts arbitrary: h)
  case (Cons t ts)
  show ?case
    unfolding axi_hits.simps
    by (rule triple_bind [OF trial_passes [OF assms]], rule triple_pre)
       (use Cons.IH [of "h + 1"] in \<open>simp add: add_ac\<close>)
qed (simp add: triple_ret)


text \<open>The refinement, the mapping and the check of the window succeed on such a memory.\<close>

lemma refine_window: "find_window (replicate 31 8) 8 = (31, 30)"
  by code_simp

interpretation same_answer: tuning_frame "\<lambda>s. answer s = ans" for ans
  by unfold_locales simp_all

lemma refine_scores:
  assumes "unat (n div 4) \<le> 2 ^ 29" "mmio ans"
  shows "triple (\<lambda>s :: 'z tune_st_scheme. answer s = ans) (collect [0..<DELAY_NUM] (\<lambda>i. do {
      apply_delayline (fst (s_delay_tbl ! i)) (snd (s_delay_tbl ! i));
      axi_hits base n (of_nat i) [0..<8] 0 })) (\<lambda>good s. good = map (\<lambda>_. 8) [0..<DELAY_NUM] \<and> answer s = ans)"
proof (rule triple_collect)
  fix i
  have "triple (\<lambda>s :: 'z tune_st_scheme. answer s = ans) (axi_hits base n (of_nat i) [0..<8] 0)
      (\<lambda>r s. r = 8 \<and> answer s = ans)"
  proof (rule tripleI)
    fix s s' :: "'z tune_st_scheme" and r
    assume s: "answer s = ans" and run: "run_state (axi_hits base n (of_nat i) [0..<8] 0) s = (r, s')"
    with tripleD [OF hits_all [OF assms(1)] _ run] assms(2) have "r = 8"
      by simp
    moreover have "answer s' = ans"
      using keepsD [OF same_answer.frame_axi_hits s, of base n "of_nat i" "[0..<8]" 0] run by simp
    ultimately show "r = 8 \<and> answer s' = ans" ..
  qed
  then show "triple (\<lambda>s :: 'z tune_st_scheme. answer s = ans) (do {
      apply_delayline (fst (s_delay_tbl ! i)) (snd (s_delay_tbl ! i));
      axi_hits base n (of_nat i) [0..<8] 0 }) (\<lambda>r s. r = 8 \<and> answer s = ans)"
    by (rule triple_step [OF same_answer.frame_points(2)])
qed

lemma refine_passes:
  assumes "unat (n div 4) \<le> 2 ^ 29" "mmio ans" "base \<noteq> 0" "64 \<le> n"
  shows "triple (\<lambda>s :: 'z tune_st_scheme. answer s = ans) (board_psram_timing_refine_axi base n)
    (\<lambda>r s. r = 0 \<and> answer s = ans)"
proof -
  let ?A = "\<lambda>s :: 'z tune_st_scheme. answer s = ans"
  have scores: "map (\<lambda>_. 8) [0..<DELAY_NUM] = replicate 31 (8 :: u32)"
    by (simp add: DELAY_NUM_def map_replicate_const)
  have entry: "delay_entry (30 - 31 div 2) = ret (s_delay_tbl ! 15)"
    by (simp add: delay_entry_def length_delay_tbl)
  have wide: "\<not> (31 :: u32) \<le> 1"
    by (simp add: word_le_nat_alt)
  have tail: "triple ?A (do { e \<leftarrow> ret x; set_best e; board_psram_timing_apply; printf f (g e); ret 0 })
      (\<lambda>(r :: cint) s. r = 0 \<and> answer s = ans)" for x f g
    unfolding State_Monad.bind_left_identity
    by (rule triple_step, rule same_answer.frame_results, rule triple_step, rule same_answer.frame_apply,
        rule triple_step, rule same_answer.frame_steps, rule triple_ret) simp
  have "\<not> n < 64"
    using assms(4) by simp
  then show ?thesis
    unfolding board_psram_timing_refine_axi_def using assms(3)
    by (simp, intro triple_step [OF same_answer.frame_steps(6)] triple_step [OF same_answer.frame_points(1)]
        triple_step [OF same_answer.frame_steps(3)] triple_bind [OF refine_scores [OF assms(1,2)]] triple_pre)
       (simp only: scores refine_window prod.case Let_def wide if_False entry tail)
qed


lemma holds_mmio: "holds_words base ws f s \<Longrightarrow> mmio (answer s)"
  by (simp add: holds_words_def)

lemma readback_passes:
  "set js \<subseteq> ws \<Longrightarrow> triple (holds_words ULMK_BOARD_PSRAM_BASE ws axi_word) (axi_readback js) (\<lambda>r s. r = 0)"
proof (induction js)
  case Nil
  show ?case
    unfolding axi_readback.simps by (rule triple_ret) simp
next
  case (Cons w js)
  then have w: "w \<in> ws" "set js \<subseteq> ws"
    by auto
  show ?case
    unfolding axi_readback.simps
    by (rule triple_bind [OF read_word [OF w(1)]], rule triple_pre) (simp add: Cons.IH [OF w(2)])
qed

lemma verify_passes: "triple (\<lambda>s. mmio (answer s)) axi_verify (\<lambda>r s. r = 0)"
proof -
  let ?b = "ULMK_BOARD_PSRAM_BASE"
  have start: "triple (\<lambda>s. mmio (answer s)) (printf f xs) (\<lambda>_. holds_words ?b {} (\<lambda>_. 0xA5A55A5A))" for f xs
    by (rule tripleI) (auto simp: holds_words_def printf_def)
  have fill: "triple (holds_words ?b {} (\<lambda>_. 0xA5A55A5A)) (wr ?b 0xA5A55A5A) (\<lambda>_. holds_words ?b {0} (\<lambda>_. 0xA5A55A5A))"
    using write_holds [of "{}" 0 ?b "\<lambda>_. 0xA5A55A5A"] by simp
  have spin: "triple (holds_words ?b {0} (\<lambda>_. 0xA5A55A5A)) settle_brief (\<lambda>_. holds_words ?b {0} (\<lambda>_. 0xA5A55A5A))"
    unfolding settle_brief_def by (rule tripleI) (auto intro: holds_quiet)
  have got: "triple (holds_words ?b {0} (\<lambda>_. 0xA5A55A5A)) (rd ?b) (\<lambda>v s. v = 0xA5A55A5A \<and> holds_words ?b {0} (\<lambda>_. 0xA5A55A5A) s)"
    using read_word [of 0 "{0}" ?b "\<lambda>_. 0xA5A55A5A"] by simp
  have words: "triple (holds_words ?b {0} (\<lambda>_. 0xA5A55A5A))
      (for_each [1..<8] (\<lambda>i. wr (?b + of_nat i * 4) (axi_word (of_nat i)))) (\<lambda>_. holds_words ?b (set [1..<8]) axi_word)"
    by (rule triple_weaken [OF fill_holds]) (auto intro: holds_mmio)
  note rest = triple_bind [OF words triple_bind [OF quiet_steps(1) readback_passes [OF subset_refl]]]
  show ?thesis
    unfolding axi_verify_def
    by (rule triple_bind [OF start], rule triple_bind [OF fill], rule triple_bind [OF quiet_steps(1)],
        rule triple_bind [OF spin], rule triple_bind [OF got], rule triple_pre, rule triple_if, simp, rule rest)
qed

definition good_eye :: "(u8 \<Rightarrow> u8 \<Rightarrow> u8 \<Rightarrow> bool) \<Rightarrow> bool" where
  "good_eye eye \<longleftrightarrow> (\<exists>i < 4. phase_good eye i) \<and>
     (\<forall>p < 4. phase_good eye p \<longrightarrow> (\<exists>a. window (delay_good eye (of_nat p)) 31 a 2))"

lemma good_eye_chosen:
  assumes "good_eye eye"
  defines "p \<equiv> ucast (phase_choice eye) :: u8"
  shows "eye p (fst (chosen eye p)) (snd (chosen eye p))"
proof -
  have p: "unat p = unat (phase_choice eye)" "p < 4"
    by (simp_all add: p_def ucast_phase_small)
  obtain n where n: "longest (phase_good eye) 4 (unat p) n"
    using phase_choice_longest [of eye] p by auto
  obtain i where i: "i < 4" "phase_good eye i"
    using assms(1) by (auto simp: good_eye_def)
  then have "window (phase_good eye) 4 i 1"
    by (simp add: window_def)
  with n have "1 \<le> n" "window (phase_good eye) 4 (unat p) n"
    by (auto simp: longest_def)
  then have "phase_good eye (unat p)" "unat p < 4"
    by (auto simp: window_def dest: spec [of _ 0])
  with assms(1) obtain a where a: "window (delay_good eye p) 31 a 2"
    by (auto simp: good_eye_def)
  obtain b m where b: "longest (delay_good eye p) 31 b m" "unat (delay_choice eye p) = (if m < 2 then 0 else b + (m - 1) div 2)"
    using delay_choice_longest by blast
  with a have "2 \<le> m" "window (delay_good eye p) 31 b m"
    by (auto simp: longest_def)
  then have "delay_good eye p (b + (m - 1) div 2)"
    by (auto simp: window_def)
  with b(2) \<open>2 \<le> m\<close> show ?thesis
    by (simp add: delay_good_def)
qed

lemma tune_passes:
  assumes "psram_link eye ans" "good_eye eye"
  shows "triple (\<lambda>s :: 'z tune_st_scheme. answer s = ans) board_psram_timing_tune (\<lambda>r s. r = 0 \<and> answer s = ans)"
proof (rule tripleI)
  fix s s' :: "'z tune_st_scheme" and r
  assume s: "answer s = ans" and run: "run_state board_psram_timing_tune s = (r, s')"
  with tripleD [OF tune_result _ run] assms(1) good_eye_chosen [OF assms(2)] have "r = 0"
    by (simp add: Let_def)
  moreover have "answer s' = ans"
    using keepsD [OF same_answer.frame_tune s] run by simp
  ultimately show "r = 0 \<and> answer s' = ans" ..
qed

lemma map_passes:
  assumes "\<forall>tr. ans tr (Dev (Mmu_set ULMK_BOARD_PSRAM_BASE 0 64 MAP_PAGES)) = 0"
  shows "triple (\<lambda>s :: 'z tune_st_scheme. answer s = ans) map_window (\<lambda>r s. r = 0 \<and> answer s = ans)"
  using assms by (auto intro!: tripleI simp: map_window_def printf_def)

lemma enable_steps_pass:
  assumes "psram_link eye ans" "\<forall>tr. ans tr (Dev (Mmu_set ULMK_BOARD_PSRAM_BASE 0 64 MAP_PAGES)) = 0" "good_eye eye"
  shows "triple (\<lambda>s :: 'z psram_st_scheme. answer s = ans) enable_steps (\<lambda>r s. r = 0)"
proof -
  have mmio: "mmio ans"
    using assms(1) by (simp add: psram_link_def)
  have refine: "triple (\<lambda>s :: 'z psram_st_scheme. answer s = ans)
      (board_psram_timing_refine_axi (ULMK_BOARD_PSRAM_BASE + 0x1000) 4096) (\<lambda>r s. r = 0 \<and> answer s = ans)"
    by (rule refine_passes [OF _ mmio]) (simp_all add: const_defs unat_div)
  have verify: "triple (\<lambda>s :: 'z psram_st_scheme. answer s = ans) axi_verify (\<lambda>r s. r = 0 \<and> True)"
    by (rule triple_weaken [OF verify_passes]) (simp_all add: mmio)
  show ?thesis
    unfolding enable_steps_def
    by (intro triple_step [OF same_answer.frame_steps(2)] triple_step [OF same_answer.frame_steps(3)]
        triple_step [OF same_answer.frame_setup(3)] triple_step [OF same_answer.frame_rmw]
        triple_bind [OF tune_passes [OF assms(1,3)]] triple_pre triple_if triple_step [OF same_answer.frame_apply]
        triple_bind [OF map_passes [of ans, OF assms(2)]] triple_bind [OF refine] triple_bind [OF verify])
       (simp_all add: triple_def printf_def)
qed

text \<open>C12: With a locked PLL and a probed chip whose eye contains, for every usable phase, two neighbouring
  delay lines, whose MMU accepts the mapping and whose window holds what is written, enabling the AXI window
  succeeds: the calibration, the refinement and the check all pass and the window is ready.\<close>

theorem enable_axi_succeeds:
  assumes "psram_link eye (answer st)" "\<forall>tr. answer st tr (Dev (Mmu_set ULMK_BOARD_PSRAM_BASE 0 64 MAP_PAGES)) = 0"
    "\<exists>i < 4. phase_good eye i" "\<forall>p < 4. phase_good eye p \<longrightarrow> (\<exists>a. window (delay_good eye (of_nat p)) 31 a 2)"
    "g_psram_ok st" "\<not> fault st"
    "run_state board_psram_enable_axi (st :: psram_st) = (r, st')"
  shows "r = 0 \<and> board_psram_ready st'"
proof -
  have ok: "triple (\<lambda>s :: psram_st. answer s = answer st \<and> g_psram_ok s) board_psram_enable_axi (\<lambda>r s. r = 0)"
  proof -
    have eye: "good_eye eye"
      using assms(3,4) by (simp add: good_eye_def)
    have get: "triple (\<lambda>s :: psram_st. answer s = answer st \<and> g_psram_ok s) (gets g_psram_ok) (\<lambda>x s. x \<and> answer s = answer st)"
      by (rule triple_gets) simp
    show ?thesis
      unfolding board_psram_enable_axi_def enable_steps_def [symmetric]
      by (rule triple_bind [OF get], rule triple_pre, simp, rule triple_step [OF same_answer.frame_steps(6)],
          rule triple_if, rule triple_ret, simp, rule enable_steps_pass [OF assms(1,2) eye])
  qed
  then have "r = 0"
    using tripleD [OF ok _ assms(7)] assms(5) by simp
  moreover have "flags (g_mpll_ok st, True, g_axi_ok st) st"
    using assms(5,6) by (simp add: flags_def)
  from tripleD [OF enable_flags this assms(7)] have "r = 0 \<longleftrightarrow> g_axi_ok st'"
    by (simp add: enable_post_def flags_def)
  ultimately show ?thesis
    by (simp add: board_psram_ready_def)
qed

text \<open>A chip that is good everywhere, past its probe.\<close>

definition probed :: psram_st where
  "probed = (psram_boot (chip (\<lambda>_ _ _. True)))\<lparr>g_mpll_ok := True, g_psram_ok := True\<rparr>"

lemma small_exist: "\<exists>i :: nat. i < 4" "\<exists>a :: nat. a \<le> 29"
  by (rule exI [of _ 0], simp)+

theorem enable_axi_succeeds_witness:
  "board_psram_ready (snd (run_state board_psram_enable_axi probed))"
proof -
  obtain r st' where run: "run_state board_psram_enable_axi probed = (r, st')"
    by (cases "run_state board_psram_enable_axi probed")
  have "psram_link (\<lambda>_ _ _. True) (answer probed)"
    using chip_link [of "\<lambda>_ _ _. True"] by (simp add: probed_def psram_boot_def)
  from enable_axi_succeeds [OF this _ _ _ _ _ run] run show ?thesis
    by (auto simp: probed_def psram_boot_def chip_def phase_good_def window_def delay_good_def small_exist)
qed

lemma probed_runs: "\<exists>st'. run_state board_psram_enable_axi probed = (0, st')"
proof -
  have "psram_link (\<lambda>_ _ _. True) (answer probed)" "good_eye (\<lambda>_ _ _. True)"
    using chip_link [of "\<lambda>_ _ _. True"]
    by (auto simp: probed_def psram_boot_def good_eye_def phase_good_def window_def delay_good_def small_exist)
  from enable_steps_pass [OF this(1) _ this(2)] have "triple (\<lambda>s :: psram_st. answer s = answer probed) enable_steps (\<lambda>r s. r = 0)"
    by (auto simp: probed_def psram_boot_def chip_def)
  then have "fst (run_state enable_steps probed) = 0"
    by (auto simp: triple_def case_prod_beta)
  then show ?thesis
    by (cases "run_state enable_steps probed")
       (simp add: board_psram_enable_axi_def enable_steps_def [symmetric] probed_def psram_boot_def)
qed


end
