(* ===== verification/Pinmux_Tc275.thy ===== *)
theory Pinmux_Tc275
  imports Port_Cache
begin

text \<open>
  The pad multiplexer of the TC275 board: \<^verbatim>\<open>tc275_lite/drivers/pinmux/src/server.c\<close>,
  \<^verbatim>\<open>client.c\<close> and the shared header \<^verbatim>\<open>tc275_lite/drivers/common/illd_port.h\<close>.  The other drivers
  of the board call \<open>pinmux_apply\<close> and \<open>pinmux_port\<close> in their own address space, so the state
  is a record that theirs extend and the actions have a parameter for theirs.

  The addresses of the port modules and the values of the pad modes come from the vendor's
  headers, which are not part of this repository: they are the record \<open>tc_vendor\<close>.
\<close>

section \<open>The vendor's library\<close>

datatype ifx_mode =
    IfxPort_Mode_inputNoPullDevice
  | IfxPort_Mode_inputPullDown
  | IfxPort_Mode_inputPullUp
  | IfxPort_Mode_outputPushPullGeneral
  | IfxPort_Mode_outputPushPullAlt nat
  | IfxPort_Mode_outputOpenDrainGeneral
  | IfxPort_Mode_outputOpenDrainAlt nat

record tc_vendor =
  MODULE_P :: "u8 \<Rightarrow> u32"
  mode_code :: "ifx_mode \<Rightarrow> u32"

text \<open>No module is at address 0, and a mode fits the eight bits of a pad's control field.\<close>

definition vendor_ok :: "tc_vendor \<Rightarrow> bool" where
  "vendor_ok V \<longleftrightarrow> (\<forall>p. MODULE_P V p \<noteq> 0) \<and> (\<forall>m. mode_code V m < 256)"

definition sample_vendor :: tc_vendor where
  "sample_vendor = \<lparr>MODULE_P = (\<lambda>p. 0xF0000000 OR push_bit 8 (ucast p)),
     mode_code = (\<lambda>m. if m = IfxPort_Mode_outputPushPullGeneral then 0x80 else 0x10)\<rparr>"

section \<open>State\<close>

definition ULMK_BOARD_PINMUX_MAX_TC :: u8 where [const_defs]: "ULMK_BOARD_PINMUX_MAX_TC = 1"
definition PINMUX_STACK_TC :: u32 where "PINMUX_STACK_TC = 1024"
definition PINMUX_PORT_SLOTS_TC :: nat where "PINMUX_PORT_SLOTS_TC = 16"
definition ILLD_PORT_MAP_SIZE :: u32 where "ILLD_PORT_MAP_SIZE = 0x100"

text \<open>Register \<open>IOCR0[i]\<close> of a mapped port, and the actions of the driver built on top.\<close>

datatype 'a tc_act = Iocr_read u32 u8 | Iocr_write u32 u8 u32 | Drv 'a

record 'a pads_tc = "'a tc_act io" +
  g_pinmux_eps_tc :: u32
  g_ports_tc :: "port_slot list"

definition g_board_ports_tc :: "u8 list" where
  "g_board_ports_tc = [0, 2, 10, 11, 14, 15, 20, 33]"

section \<open>illd_port.h\<close>

definition illd_ports :: "u8 list" where
  "illd_ports = [0, 2, 10, 11, 12, 13, 14, 15, 20, 21, 22, 23, 32, 33, 34]"

definition illd_port_module :: "tc_vendor \<Rightarrow> u8 \<Rightarrow> u32" where
  "illd_port_module V port = (if port \<in> set illd_ports then MODULE_P V port else 0)"

definition illd_port_set_mode :: "u32 \<Rightarrow> u8 \<Rightarrow> u32 \<Rightarrow> (('a, 'z) pads_tc_scheme, unit) state" where
  "illd_port_set_mode port pin mode = do {
     let iocr_index = pin div 4;
     let shift = unat ((pin AND 3) * 8);
     let mask = push_bit shift 0xFF;
     let val = push_bit shift mode;
     old \<leftarrow> dev (Iocr_read port iocr_index);
     dev_do (Iocr_write port iocr_index ((old AND NOT mask) OR val))
   }"

section \<open>The server\<close>

definition map_port_once_tc :: "tc_vendor \<Rightarrow> u8 \<Rightarrow> (('a, 'z) pads_tc_scheme, u32) state" where
  "map_port_once_tc V port = do {
     ports \<leftarrow> gets g_ports_tc;
     case cache_find ports port of
       Some i \<Rightarrow> ret (ps_gpio (ports ! i))
     | None \<Rightarrow>
         if illd_port_module V port = 0 then ret 0
         else do {
           mapped \<leftarrow> kern (Mem_map (illd_port_module V port) ILLD_PORT_MAP_SIZE);
           if mapped = 0 then ret 0
           else do {
             modify (\<lambda>st. st\<lparr>g_ports_tc := cache_add (g_ports_tc st) port mapped\<rparr>);
             ret mapped
           }
         }
   }"

definition pinmux_port_tc :: "tc_vendor \<Rightarrow> u8 \<Rightarrow> (('a, 'z) pads_tc_scheme, u32) state" where
  "pinmux_port_tc V port = map_port_once_tc V port"

definition resolve_mode :: "pinmux_cfg \<Rightarrow> ifx_mode" where
  "resolve_mode cfg =
     (let alt = cfg_alt cfg; od = cfg_flags cfg AND PINMUX_F_OPENDRAIN \<noteq> 0 in
      if cfg_dir cfg = PINMUX_DIR_IN then
        if cfg_pull cfg = PINMUX_PULL_UP then IfxPort_Mode_inputPullUp
        else if cfg_pull cfg = PINMUX_PULL_DOWN then IfxPort_Mode_inputPullDown
        else IfxPort_Mode_inputNoPullDevice
      else if alt = PINMUX_ALT_GPIO then
        if od then IfxPort_Mode_outputOpenDrainGeneral else IfxPort_Mode_outputPushPullGeneral
      else if od then
        IfxPort_Mode_outputOpenDrainAlt (if alt \<in> {1..6} then unat alt else 7)
      else IfxPort_Mode_outputPushPullAlt (if alt \<in> {1..6} then unat alt else 7))"

definition pinmux_apply_tc :: "tc_vendor \<Rightarrow> ulmk_abi \<Rightarrow> pinmux_cfg option \<Rightarrow> (('a, 'z) pads_tc_scheme, cint) state" where
  "pinmux_apply_tc V K cfg =
     (case cfg of
        None \<Rightarrow> ret (ULMK_EINVAL K)
      | Some cfg \<Rightarrow> do {
          m \<leftarrow> map_port_once_tc V (cfg_port cfg);
          if m = 0 then ret (ULMK_EINVAL K)
          else do {
            illd_port_set_mode m (cfg_pin cfg) (mode_code V (resolve_mode cfg));
            ret (ULMK_OK K)
          }
        })"

definition decode_cfg_tc :: "(nat \<Rightarrow> u32) \<Rightarrow> pinmux_cfg" where
  "decode_cfg_tc w = \<lparr>cfg_port = ucast (drop_bit 8 (w 0)), cfg_pin = ucast (w 0 AND 0xFF),
     cfg_dir = ucast (w 1), cfg_pull = ucast (w 2), cfg_alt = ucast (w 3 AND 0xFF),
     cfg_flags = ucast (drop_bit 8 (w 3) AND 0xFF)\<rparr>"

text \<open>Only word 0 of the reply is set; the others, indeterminate in C and read by no client, are 0 here.\<close>

definition pinmux_dispatch_tc :: "tc_vendor \<Rightarrow> ulmk_abi \<Rightarrow> msg \<Rightarrow> (('a, 'z) pads_tc_scheme, msg) state" where
  "pinmux_dispatch_tc V K m =
     (if label m = PINMUX_MSG_CONFIG then do {
        rc \<leftarrow> pinmux_apply_tc V K (Some (decode_cfg_tc (words m)));
        ret \<lparr>label = 0, words = (\<lambda>_. 0)(0 := rc)\<rparr>
      } else ret \<lparr>label = 0, words = (\<lambda>_. 0)(0 := ULMK_EINVAL K)\<rparr>)"

definition pinmux_init_tc :: "tc_vendor \<Rightarrow> ulmk_abi \<Rightarrow> u8 \<Rightarrow> (('a, 'z) pads_tc_scheme, u32) state" where
  "pinmux_init_tc V K n = do {
     cur \<leftarrow> gets g_pinmux_eps_tc;
     if n \<ge> ULMK_BOARD_PINMUX_MAX_TC then ret (ULMK_TID_INVALID K)
     else if cur \<noteq> ULMK_EP_INVALID K then ret (ULMK_TID_INVALID K)
     else do {
       ep \<leftarrow> kern Ep_create;
       if ep = ULMK_EP_INVALID K then ret (ULMK_TID_INVALID K)
       else do {
         mapped \<leftarrow> try_each g_board_ports_tc (\<lambda>p. do { m \<leftarrow> map_port_once_tc V p; ret (m \<noteq> 0) });
         if \<not> mapped then do {
           kern_do (Ep_destroy ep);
           ret (ULMK_TID_INVALID K)
         } else do {
           tid \<leftarrow> kern (Thread_create ''pinmux'' 2 PINMUX_STACK_TC);
           if tid = ULMK_TID_INVALID K then do {
             kern_do (Ep_destroy ep);
             ret (ULMK_TID_INVALID K)
           } else do {
             kern_do (Cap_grant tid ''MAP_PERIPH'');
             modify (\<lambda>st. st\<lparr>g_pinmux_eps_tc := ep\<rparr>);
             ret tid
           }
         }
       }
     }
   }"

section \<open>The client\<close>

definition encode_cfg_tc :: "pinmux_cfg \<Rightarrow> nat \<Rightarrow> u32" where
  "encode_cfg_tc cfg = (\<lambda>_. 0)
     (0 := push_bit 8 (ucast (cfg_port cfg)) OR ucast (cfg_pin cfg), 1 := ucast (cfg_dir cfg),
      2 := ucast (cfg_pull cfg), 3 := ucast (cfg_alt cfg) OR push_bit 8 (ucast (cfg_flags cfg)))"

definition pinmux_config_tc :: "ulmk_abi \<Rightarrow> u32 \<Rightarrow> 's ep_call \<Rightarrow> u8 \<Rightarrow> pinmux_cfg option \<Rightarrow> ('s, cint) state" where
  "pinmux_config_tc K ep call n cfg =
     (case cfg of
        None \<Rightarrow> ret (ULMK_ESRCH K)
      | Some cfg \<Rightarrow>
          if n \<ge> ULMK_BOARD_PINMUX_MAX_TC \<or> ep = ULMK_EP_INVALID K then ret (ULMK_ESRCH K)
          else do {
            (rc, m) \<leftarrow> call \<lparr>label = PINMUX_MSG_CONFIG, words = encode_cfg_tc cfg\<rparr>;
            if rc \<noteq> ULMK_OK K then ret rc else ret (words m 0)
          })"

section \<open>The port cache\<close>

definition pads_inv :: "tc_vendor \<Rightarrow> ('a, 'z) pads_tc_scheme \<Rightarrow> bool" where
  "pads_inv V st \<longleftrightarrow> length (g_ports_tc st) = PINMUX_PORT_SLOTS_TC \<and>
     cache_wf {p. illd_port_module V p \<noteq> 0} (g_ports_tc st)"

abbreviation port_map_tc :: "('a, 'z) pads_tc_scheme \<Rightarrow> u8 \<Rightarrow> u32 option" where
  "port_map_tc st \<equiv> cache_map (g_ports_tc st)"

lemma card_ports_tc: "finite {p. illd_port_module V p \<noteq> 0}"
  "card {p. illd_port_module V p \<noteq> 0} \<le> PINMUX_PORT_SLOTS_TC"
proof -
  have sub: "{p. illd_port_module V p \<noteq> 0} \<subseteq> set illd_ports"
    by (auto simp: illd_port_module_def)
  show "finite {p. illd_port_module V p \<noteq> 0}"
    using sub by (rule finite_subset) simp
  have "card (set illd_ports) \<le> PINMUX_PORT_SLOTS_TC"
    using card_length [of illd_ports] by (simp add: illd_ports_def PINMUX_PORT_SLOTS_TC_def)
  with card_mono [OF _ sub] show "card {p. illd_port_module V p \<noteq> 0} \<le> PINMUX_PORT_SLOTS_TC"
    by simp
qed

interpretation tc_ports: resource_cache "map_port_once_tc V" "\<lambda>p. illd_port_module V p \<noteq> 0"
    "pads_inv V" port_map_tc for V
proof unfold_locales
  fix s :: "('a, 'z) pads_tc_scheme" and k
  assume inv: "pads_inv V s"
  show "pads_inv V (snd (run_state (map_port_once_tc V k) s))"
    using inv cache_add_wf [of "{p. illd_port_module V p \<noteq> 0}" "g_ports_tc s" k]
    by (auto simp: map_port_once_tc_def pads_inv_def cache_map_def split: option.splits)
  have "port_map_tc s k = None" if "illd_port_module V k = 0"
    using that inv cache_map_valid [of "{p. illd_port_module V p \<noteq> 0}" "g_ports_tc s" k]
    by (cases "port_map_tc s k") (auto simp: pads_inv_def)
  then show "\<not> illd_port_module V k \<noteq> 0 \<Longrightarrow> run_state (map_port_once_tc V k) s = (0, s)"
    by (auto simp: map_port_once_tc_def cache_map_def)
  show "run_state (map_port_once_tc V k) s = (a, s)" if "port_map_tc s k = Some a" for a
    using that by (auto simp: map_port_once_tc_def cache_map_def split: option.splits)
  show "port_map_tc s' = (if a = 0 then port_map_tc s else (port_map_tc s)(k := Some a))"
    if "illd_port_module V k \<noteq> 0" "port_map_tc s k = None"
      "run_state (map_port_once_tc V k) s = (a, s')" for a s'
    using that inv cache_add_map [of "{p. illd_port_module V p \<noteq> 0}" "g_ports_tc s" k] card_ports_tc
    by (auto simp: map_port_once_tc_def pads_inv_def cache_map_def [of _ k]
        split: option.splits if_splits)
qed

text \<open>A successful bring-up leaves every board port mapped, before the server thread exists.\<close>

lemma pinmux_init_maps:
  "triple (pads_inv V) (pinmux_init_tc V K n)
     (\<lambda>tid st. pads_inv V st \<and>
        (tid \<noteq> ULMK_TID_INVALID K \<longrightarrow> (\<forall>p \<in> set g_board_ports_tc. port_map_tc st p \<noteq> None)))"
proof -
  let ?all = "\<lambda>st. \<forall>p \<in> set g_board_ports_tc. port_map_tc st p \<noteq> None"
  have io: "keeps (\<lambda>st. pads_inv V st \<and> (b \<longrightarrow> ?all st)) (kern c)"
    "keeps (\<lambda>st. pads_inv V st \<and> (b \<longrightarrow> ?all st)) (kern_do c)"
    "keeps (pads_inv V) (kern c)" for b c
    by (auto intro!: keepsI simp: pads_inv_def)
  have last: "triple (\<lambda>st. pads_inv V st \<and> (b \<longrightarrow> ?all st))
      (if \<not> b then do { kern_do (Ep_destroy ep); ret (ULMK_TID_INVALID K) }
       else do {
         tid \<leftarrow> kern (Thread_create ''pinmux'' 2 PINMUX_STACK_TC);
         if tid = ULMK_TID_INVALID K then do {
           kern_do (Ep_destroy ep);
           ret (ULMK_TID_INVALID K)
         } else do {
           kern_do (Cap_grant tid ''MAP_PERIPH'');
           modify (\<lambda>st. st\<lparr>g_pinmux_eps_tc := ep\<rparr>);
           ret tid
         }
       })
      (\<lambda>tid st. pads_inv V st \<and> (tid \<noteq> ULMK_TID_INVALID K \<longrightarrow> ?all st))" for b ep
    by (rule tripleI) (auto simp: pads_inv_def split: if_splits prod.splits)
  show ?thesis
    unfolding pinmux_init_tc_def
    by (rule triple_step triple_if triple_ret io keeps_gets
        triple_bind [OF tc_ports.fetch_all] last | simp)+
qed

section \<open>Properties\<close>

lemma decode_encode_tc: "decode_cfg_tc (encode_cfg_tc cfg) = cfg"
  unfolding decode_cfg_tc_def encode_cfg_tc_def ucast_low_byte
  by (cases cfg) (auto intro!: bit_eqI simp: bit_simps)

text \<open>The byte lane of a pad in its control register.\<close>

definition iocr_lane :: "u8 \<Rightarrow> nat" where
  "iocr_lane pin = 8 * (unat pin mod 4)"

lemma lane_shift: "unat ((pin AND 3) * 8) = iocr_lane pin"
proof -
  have "pin AND 3 = take_bit 2 pin"
    unfolding low_mask_u8 by (simp add: take_bit_eq_mask)
  then have "unat (pin AND 3) = unat pin mod 4"
    by (simp only: unsigned_take_bit_eq) (simp add: take_bit_eq_mod)
  then show ?thesis
    by (simp add: iocr_lane_def unat_word_ariths)
qed

lemma iocr_lane_le: "iocr_lane pin + 8 \<le> 32"
  by (simp add: iocr_lane_def)

lemma set_mode_field:
  assumes "mode < (256 :: u32)"
  shows "(old AND NOT (push_bit (iocr_lane pin) 0xFF)) OR push_bit (iocr_lane pin) mode =
    set_field (iocr_lane pin) 8 mode old"
proof -
  have "mode AND mask 8 = mode"
    using assms by (simp only: mask_eq_iff) (simp add: word_less_def)
  then show ?thesis
    unfolding low_mask_u32 by (simp add: set_field_def)
qed


lemma run_set_mode:
  assumes "mode < 256"
  shows "run_state (illd_port_set_mode a pin mode) st =
    ((), let r = Dev (Iocr_read a (pin div 4)) in
         st\<lparr>trace := trace st @ [r, Dev (Iocr_write a (pin div 4)
              (set_field (iocr_lane pin) 8 mode (answer st (trace st) r)))]\<rparr>)"
  using assms by (simp add: illd_port_set_mode_def Let_def lane_shift set_mode_field)

lemma run_apply_mapped:
  assumes "vendor_ok V" "pads_inv V st" "port_map_tc st (cfg_port cfg) = Some a"
  shows "run_state (pinmux_apply_tc V K (Some cfg)) st =
    (ULMK_OK K, snd (run_state (illd_port_set_mode a (cfg_pin cfg) (mode_code V (resolve_mode cfg))) st))"
proof -
  have "a \<noteq> 0"
    using assms(2,3) cache_map_valid by (auto simp: pads_inv_def)
  then show ?thesis
    using tc_ports.fetch_hit [OF assms(2,3)]
    by (simp add: pinmux_apply_tc_def split: prod.splits)
qed

lemma run_apply_no_port:
  assumes "pads_inv V st" "illd_port_module V (cfg_port cfg) = 0"
  shows "run_state (pinmux_apply_tc V K (Some cfg)) st = (ULMK_EINVAL K, st)"
  using tc_ports.fetch_invalid [OF assms(1)] assms(2) by (simp add: pinmux_apply_tc_def)

lemma run_config_tc:
  assumes "ep \<noteq> ULMK_EP_INVALID K"
  shows "run_state (pinmux_config_tc K ep (ipc K (pinmux_dispatch_tc V K)) 0 (Some cfg)) st =
    run_state (pinmux_apply_tc V K (Some cfg)) st"
  using assms
  by (simp add: pinmux_config_tc_def ipc_def pinmux_dispatch_tc_def decode_encode_tc const_defs
      split: prod.splits)

definition pads_boot :: "('a tc_act event list \<Rightarrow> 'a tc_act event \<Rightarrow> u32) \<Rightarrow> 'a pads_tc" where
  "pads_boot ans = \<lparr>trace = [], answer = ans, fault = False, g_pinmux_eps_tc = 0,
     g_ports_tc = replicate PINMUX_PORT_SLOTS_TC free_port\<rparr>"

lemma pads_inv_boot: "pads_inv V (pads_boot ans)"
  by (simp add: pads_inv_def pads_boot_def cache_wf_free)

text \<open>C18: On a running server, a client's \<open>pinmux_config\<close> for a mapped port is one read and one
  write of a control register of that port, and the write changes exactly the byte lane of the
  pad, to the mode the six fields of the record resolve to; a port that the board does not have
  is refused without touching anything.  The pin number is never checked: for a pin of 16 or
  more the index of the register, \<open>pin div 4\<close>, lies beyond the four control registers of a
  port, and the client is told OK.\<close>

theorem tc_config_sets_one_lane:
  assumes "vendor_ok V" "pads_inv V st" "ep \<noteq> ULMK_EP_INVALID K"
  shows "(port_map_tc st (cfg_port cfg) = Some a \<longrightarrow>
      run_state (pinmux_config_tc K ep (ipc K (pinmux_dispatch_tc V K)) 0 (Some cfg)) st =
      (ULMK_OK K, let r = Dev (Iocr_read a (cfg_pin cfg div 4)) in
         st\<lparr>trace := trace st @ [r, Dev (Iocr_write a (cfg_pin cfg div 4)
           (set_field (iocr_lane (cfg_pin cfg)) 8 (mode_code V (resolve_mode cfg))
             (answer st (trace st) r)))]\<rparr>)) \<and>
    (illd_port_module V (cfg_port cfg) = 0 \<longrightarrow>
      run_state (pinmux_config_tc K ep (ipc K (pinmux_dispatch_tc V K)) 0 (Some cfg)) st =
      (ULMK_EINVAL K, st))"
  using assms(1) run_apply_mapped [OF assms(1,2)] run_apply_no_port [OF assms(2)]
  by (simp_all add: run_config_tc [OF assms(3)] vendor_ok_def run_set_mode)

lemma sample_vendor_ok: "vendor_ok sample_vendor"
proof -
  have "bit (0xF0000000 OR push_bit 8 (ucast p) :: u32) 31" for p :: u8
    by (simp add: bit_simps bit_numeral_rec)
  then have "(0xF0000000 OR push_bit 8 (ucast p) :: u32) \<noteq> 0" for p :: u8
    by (metis bit_0_eq bot_apply bot_bool_def)
  then show ?thesis
    by (simp add: vendor_ok_def sample_vendor_def)
qed

lemma run_map_boot:
  assumes "p \<in> set illd_ports" "a \<noteq> 0"
  shows "run_state (map_port_once_tc sample_vendor p) (pads_boot (\<lambda>_ _. a)) =
    (a, snd (run_state (map_port_once_tc sample_vendor p) (pads_boot (\<lambda>_ _. a))))"
  using assms cache_wf_free(2) [of PINMUX_PORT_SLOTS_TC] sample_vendor_ok
  by (simp add: map_port_once_tc_def pads_boot_def cache_map_def fun_eq_iff illd_port_module_def
      vendor_ok_def)

theorem tc_config_sets_one_lane_witness:
  "fst (run_state (pinmux_config_tc sample_abi 7 (ipc sample_abi (pinmux_dispatch_tc sample_vendor sample_abi)) 0
     (Some \<lparr>cfg_port = 20, cfg_pin = 250, cfg_dir = 1, cfg_pull = 0, cfg_alt = 0, cfg_flags = 0\<rparr>))
     (snd (run_state (map_port_once_tc sample_vendor 20) (pads_boot (\<lambda>_ _. 0x5000) :: unit pads_tc)))) = 0"
proof -
  let ?s = "snd (run_state (map_port_once_tc sample_vendor 20) (pads_boot (\<lambda>_ _. 0x5000) :: unit pads_tc))"
  have run: "run_state (map_port_once_tc sample_vendor 20) (pads_boot (\<lambda>_ _. 0x5000) :: unit pads_tc) = (0x5000, ?s)"
    by (rule run_map_boot) (simp_all add: illd_ports_def)
  from tc_ports.fetch_records [OF pads_inv_boot this]
  have "pads_inv sample_vendor ?s" "port_map_tc ?s 20 = Some 0x5000"
    by simp_all
  with tc_config_sets_one_lane [OF sample_vendor_ok, of ?s 7 sample_abi] show ?thesis
    by (simp add: sample_abi_def)
qed

end
