(* ===== verification/Gpio_Tc275.thy ===== *)
theory Gpio_Tc275
  imports Pinmux_Tc275
begin

text \<open>
  Digital I/O of the TC275 board: \<^verbatim>\<open>tc275_lite/drivers/gpio/src/server.c\<close> and \<^verbatim>\<open>client.c\<close>.
  The IPC server configures, sets and reads pads through the port maps of the pinmux driver
  (same address space, so its state is part of this one) and registers subscriptions to edges;
  the IRQ server turns the pending flags of the eight channels of the event request unit
  (ERU) into notifications.  A handler runs to completion in the model; the two threads
  interleave between handlers.
\<close>

section \<open>Constants and state\<close>

definition ULMK_BOARD_GPIO_MAX :: u8 where [const_defs]: "ULMK_BOARD_GPIO_MAX = 1"
definition GPIO_DIR_IN :: u32 where [const_defs]: "GPIO_DIR_IN = 0"
definition GPIO_EVT_NONE :: u32 where [const_defs]: "GPIO_EVT_NONE = 0"
definition GPIO_EVT_FALLING :: u32 where [const_defs]: "GPIO_EVT_FALLING = 1"
definition GPIO_EVT_RISING :: u32 where [const_defs]: "GPIO_EVT_RISING = 2"
definition GPIO_MSG_CONFIG :: u32 where [const_defs]: "GPIO_MSG_CONFIG = 1"
definition GPIO_MSG_SET :: u32 where [const_defs]: "GPIO_MSG_SET = 2"
definition GPIO_MSG_GET :: u32 where [const_defs]: "GPIO_MSG_GET = 3"
definition GPIO_MSG_SUBSCRIBE :: u32 where [const_defs]: "GPIO_MSG_SUBSCRIBE = 4"
definition GPIO_STACK_SIZE :: u32 where "GPIO_STACK_SIZE = 1536"
definition GPIO_MAX_SUBS :: nat where "GPIO_MAX_SUBS = 4"
definition GPIO_IRQ_BIT :: nat where "GPIO_IRQ_BIT = 0"
definition GPIO_SRPN :: u32 where "GPIO_SRPN = 9"
definition GPIO_SRC :: u32 where "GPIO_SRC = 0xF0038CD4"
definition GPIO_SCU_ERU_BASE :: u32 where "GPIO_SCU_ERU_BASE = 0xF0036210"
definition GPIO_SCU_ERU_SIZE :: u32 where "GPIO_SCU_ERU_SIZE = 0x40"
definition GPIO_ERU_CH_MAX :: nat where "GPIO_ERU_CH_MAX = 8"

definition GPIO_PIN :: "u8 \<Rightarrow> u8 \<Rightarrow> u16" where
  "GPIO_PIN port pin = push_bit 8 (ucast port) OR (ucast pin AND 0xFF)"

text \<open>The vendor's calls on a port and on a channel of the ERU.\<close>

datatype gpio_act =
    IfxPort_setPinHigh u32 u8
  | IfxPort_setPinLow u32 u8
  | IfxPort_getPinState u32 u8
  | Eru_selectExternalInput u8 u8
  | Eru_disableRisingEdgeDetection u8
  | Eru_disableFallingEdgeDetection u8
  | Eru_enableRisingEdgeDetection u8
  | Eru_enableFallingEdgeDetection u8
  | Eru_enableTriggerPulse u8
  | Eru_connectTrigger_0 u8
  | Eru_setInterruptGatingPattern_0_alwaysActive
  | Eru_clearEventFlag u8
  | Eru_getEventFlagStatus u8

record gpio_sub =
  sub_pin :: u16
  sub_edge :: u32
  sub_notif :: u32
  sub_bit :: u32
  sub_active :: bool

record eru_pin =
  eru_port :: u8
  eru_no :: u8
  eru_ch :: u8
  eru_sel :: u8

definition eru_pins :: "eru_pin list" where
  "eru_pins = map (\<lambda>(port, pin, ch, sel). \<lparr>eru_port = port, eru_no = pin, eru_ch = ch, eru_sel = sel\<rparr>)
     [(15, 4, 0, 0), (10, 7, 0, 2), (14, 3, 1, 0), (10, 8, 1, 2), (10, 2, 2, 0), (2, 1, 2, 1),
      (0, 4, 2, 2), (10, 3, 3, 0), (14, 1, 3, 1), (2, 0, 3, 2), (33, 7, 4, 0), (15, 5, 4, 3),
      (15, 8, 5, 0), (20, 0, 6, 0), (11, 10, 6, 3), (20, 9, 7, 0), (15, 1, 7, 2)]"

record gpio_st = "gpio_act pads_tc" +
  g_subs :: "gpio_sub list"
  g_eru_enc :: "u16 list"
  g_eru_armed_mask :: u8
  g_ogu0_armed :: bool
  g_scu_mapped :: bool
  g_gpio_ep :: u32
  g_irq_notif :: u32
  g_eru_started :: bool

section \<open>Pads\<close>

definition enc_port :: "u16 \<Rightarrow> u8" where "enc_port enc = ucast (drop_bit 8 enc)"
definition enc_pin :: "u16 \<Rightarrow> u8" where "enc_pin enc = ucast (enc AND 0xFF)"

definition do_config :: "tc_vendor \<Rightarrow> ulmk_abi \<Rightarrow> u16 \<Rightarrow> u32 \<Rightarrow> u32 \<Rightarrow> (gpio_st, cint) state" where
  "do_config V K enc dir pull =
     pinmux_apply_tc V K (Some \<lparr>cfg_port = enc_port enc, cfg_pin = enc_pin enc,
       cfg_dir = (if dir = GPIO_DIR_IN then PINMUX_DIR_IN else PINMUX_DIR_OUT),
       cfg_pull = ucast pull, cfg_alt = PINMUX_ALT_GPIO, cfg_flags = 0\<rparr>)"

definition do_set :: "tc_vendor \<Rightarrow> ulmk_abi \<Rightarrow> u16 \<Rightarrow> cint \<Rightarrow> (gpio_st, cint) state" where
  "do_set V K enc value = do {
     m \<leftarrow> pinmux_port_tc V (enc_port enc);
     if m = 0 then ret (ULMK_EINVAL K)
     else do {
       (if value \<noteq> 0 then dev_do (Drv (IfxPort_setPinHigh m (enc_pin enc)))
        else dev_do (Drv (IfxPort_setPinLow m (enc_pin enc))));
       ret (ULMK_OK K)
     }
   }"

text \<open>The out-pointer \<open>value\<close> is \<open>None\<close> for \<open>NULL\<close>; the result carries what it points to.\<close>

definition do_get :: "tc_vendor \<Rightarrow> ulmk_abi \<Rightarrow> u16 \<Rightarrow> cint option \<Rightarrow> (gpio_st, cint \<times> cint option) state" where
  "do_get V K enc value = do {
     m \<leftarrow> pinmux_port_tc V (enc_port enc);
     if m = 0 \<or> value = None then ret (ULMK_EINVAL K, value)
     else do {
       v \<leftarrow> dev (Drv (IfxPort_getPinState m (enc_pin enc)));
       ret (ULMK_OK K, Some (if v \<noteq> 0 then 1 else 0))
     }
   }"

section \<open>Edges\<close>

definition eru_lookup :: "u16 \<Rightarrow> eru_pin option" where
  "eru_lookup enc = find (\<lambda>p. eru_port p = enc_port enc \<and> eru_no p = enc_pin enc) eru_pins"

definition defer_subs :: "u16 \<Rightarrow> (gpio_st, unit) state" where
  "defer_subs enc = for_each [0..<GPIO_MAX_SUBS] (\<lambda>i. do {
     subs \<leftarrow> gets g_subs;
     if \<not> sub_active (subs ! i) \<or> sub_pin (subs ! i) \<noteq> enc then ret ()
     else kern_do (Notif_signal (sub_notif (subs ! i)) (push_bit (unat (sub_bit (subs ! i))) 1))
   })"

definition eru_arm :: "ulmk_abi \<Rightarrow> u16 \<Rightarrow> u32 \<Rightarrow> (gpio_st, cint) state" where
  "eru_arm K enc edge =
     (case eru_lookup enc of
        None \<Rightarrow> ret (ULMK_EINVAL K)
      | Some rp \<Rightarrow> do {
          let ch = eru_ch rp;
          dev_do (Drv (Eru_selectExternalInput ch (eru_sel rp)));
          dev_do (Drv (Eru_disableRisingEdgeDetection ch));
          dev_do (Drv (Eru_disableFallingEdgeDetection ch));
          when_do (edge AND GPIO_EVT_RISING \<noteq> 0) (dev_do (Drv (Eru_enableRisingEdgeDetection ch)));
          when_do (edge AND GPIO_EVT_FALLING \<noteq> 0) (dev_do (Drv (Eru_enableFallingEdgeDetection ch)));
          dev_do (Drv (Eru_enableTriggerPulse ch));
          dev_do (Drv (Eru_connectTrigger_0 ch));
          armed \<leftarrow> gets g_ogu0_armed;
          when_do (\<not> armed) (do {
            dev_do (Drv Eru_setInterruptGatingPattern_0_alwaysActive);
            modify (\<lambda>st. st\<lparr>g_ogu0_armed := True\<rparr>)
          });
          dev_do (Drv (Eru_clearEventFlag ch));
          modify (\<lambda>st. st\<lparr>g_eru_enc := (g_eru_enc st)[unat ch := enc]\<rparr>);
          modify (\<lambda>st. st\<lparr>g_eru_armed_mask := g_eru_armed_mask st OR push_bit (unat ch) 1\<rparr>);
          ret (ULMK_OK K)
        })"

definition do_subscribe :: "ulmk_abi \<Rightarrow> u16 \<Rightarrow> u32 \<Rightarrow> u32 \<Rightarrow> u32 \<Rightarrow> (gpio_st, cint) state" where
  "do_subscribe K enc edge n b =
     (if edge = GPIO_EVT_NONE \<or> b > 31 then ret (ULMK_EINVAL K)
      else if eru_lookup enc = None then ret (ULMK_EINVAL K)
      else do {
        rc \<leftarrow> eru_arm K enc edge;
        if rc \<noteq> ULMK_OK K then ret rc
        else do {
          subs \<leftarrow> gets g_subs;
          case find_index (\<lambda>s. \<not> sub_active s) subs of
            Some i \<Rightarrow> do {
              modify (\<lambda>st. st\<lparr>g_subs := (g_subs st)[i := \<lparr>sub_pin = enc, sub_edge = edge,
                sub_notif = n, sub_bit = b, sub_active = True\<rparr>]\<rparr>);
              ret (ULMK_OK K)
            }
          | None \<Rightarrow> ret (ULMK_ENOMEM K)
        }
      })"

section \<open>The two servers\<close>

text \<open>One round of the IRQ thread.\<close>

definition irq_channel :: "u8 \<Rightarrow> (gpio_st, unit) state" where
  "irq_channel ch = do {
     flag \<leftarrow> dev (Drv (Eru_getEventFlagStatus ch));
     if flag = 0 then ret ()
     else do {
       dev_do (Drv (Eru_clearEventFlag ch));
       armed \<leftarrow> gets g_eru_armed_mask;
       when_do (armed AND push_bit (unat ch) 1 \<noteq> 0) (do {
         enc \<leftarrow> gets (\<lambda>st. g_eru_enc st ! unat ch);
         defer_subs enc
       })
     }
   }"

definition gpio_irq_iter :: "ulmk_abi \<Rightarrow> (gpio_st, unit) state" where
  "gpio_irq_iter K = do {
     notif \<leftarrow> gets g_irq_notif;
     rc \<leftarrow> kern (Notif_wait notif (push_bit GPIO_IRQ_BIT 1));
     if rc \<noteq> ULMK_OK K then ret ()
     else do {
       for_each (map of_nat [0..<GPIO_ERU_CH_MAX]) irq_channel;
       kern_do (Irq_ack GPIO_SRPN)
     }
   }"

text \<open>Words 2 and 3 of a reply are never set in C and never read by a client; they are 0 here.\<close>

definition gpio_reply :: "cint \<Rightarrow> u32 \<Rightarrow> msg" where
  "gpio_reply rc v = \<lparr>label = 0, words = (\<lambda>_. 0)(0 := rc, 1 := v)\<rparr>"

definition gpio_dispatch :: "tc_vendor \<Rightarrow> ulmk_abi \<Rightarrow> msg \<Rightarrow> (gpio_st, msg) state" where
  "gpio_dispatch V K m =
     (if label m = GPIO_MSG_CONFIG then do {
        rc \<leftarrow> do_config V K (ucast (words m 0)) (words m 1) (words m 2);
        ret (gpio_reply rc 0)
      } else if label m = GPIO_MSG_SET then do {
        rc \<leftarrow> do_set V K (ucast (words m 0)) (words m 1);
        ret (gpio_reply rc 0)
      } else if label m = GPIO_MSG_GET then do {
        (rc, value) \<leftarrow> do_get V K (ucast (words m 0)) (Some 0);
        ret (gpio_reply rc (case value of Some v \<Rightarrow> v | None \<Rightarrow> 0))
      } else if label m = GPIO_MSG_SUBSCRIBE then do {
        rc \<leftarrow> do_subscribe K (ucast (words m 0)) (words m 1) (words m 2) (words m 3);
        ret (gpio_reply rc 0)
      } else ret (gpio_reply (ULMK_EINVAL K) 0))"

definition gpio_start_eru :: "ulmk_abi \<Rightarrow> u32 \<Rightarrow> (gpio_st, bool) state" where
  "gpio_start_eru K ep = do {
     notif \<leftarrow> kern Notif_create;
     modify (\<lambda>st. st\<lparr>g_irq_notif := notif\<rparr>);
     if notif = ULMK_NOTIF_INVALID K then do { kern_do (Ep_destroy ep); ret False }
     else do {
       rc \<leftarrow> kern (Irq_bind_hw GPIO_SRPN notif (of_nat GPIO_IRQ_BIT) GPIO_SRC);
       if rc \<noteq> ULMK_OK K then ret False
       else do {
         rc \<leftarrow> kern (Irq_enable GPIO_SRPN);
         if rc \<noteq> ULMK_OK K then ret False
         else do {
           tid \<leftarrow> kern (Thread_create ''gpio_irq'' 1 GPIO_STACK_SIZE);
           if tid = ULMK_TID_INVALID K then do { kern_do (Ep_destroy ep); ret False }
           else do {
             kern_do (Cap_grant tid ''MAP_PERIPH'');
             kern_do (Cap_grant tid ''IRQ'');
             modify (\<lambda>st. st\<lparr>g_eru_started := True\<rparr>);
             ret True
           }
         }
       }
     }
   }"

definition gpio_init :: "ulmk_abi \<Rightarrow> u8 \<Rightarrow> (gpio_st, u32) state" where
  "gpio_init K n = do {
     cur \<leftarrow> gets g_gpio_ep;
     if n \<ge> ULMK_BOARD_GPIO_MAX then ret (ULMK_TID_INVALID K)
     else if cur \<noteq> ULMK_EP_INVALID K then ret (ULMK_TID_INVALID K)
     else do {
       ep \<leftarrow> kern Ep_create;
       if ep = ULMK_EP_INVALID K then ret (ULMK_TID_INVALID K)
       else do {
         mapped \<leftarrow> gets g_scu_mapped;
         scu \<leftarrow> (if mapped then ret 1 else kern (Mem_map GPIO_SCU_ERU_BASE GPIO_SCU_ERU_SIZE));
         if scu = 0 then do { kern_do (Ep_destroy ep); ret (ULMK_TID_INVALID K) }
         else do {
           modify (\<lambda>st. st\<lparr>g_scu_mapped := True\<rparr>);
           started \<leftarrow> gets g_eru_started;
           ok \<leftarrow> (if started then ret True else gpio_start_eru K ep);
           if \<not> ok then ret (ULMK_TID_INVALID K)
           else do {
             tid \<leftarrow> kern (Thread_create ''gpio_ipc'' 2 GPIO_STACK_SIZE);
             if tid = ULMK_TID_INVALID K then do {
               kern_do (Ep_destroy ep);
               ret (ULMK_TID_INVALID K)
             } else do {
               kern_do (Cap_grant tid ''MAP_PERIPH'');
               modify (\<lambda>st. st\<lparr>g_gpio_ep := ep\<rparr>);
               ret tid
             }
           }
         }
       }
     }
   }"

section \<open>The client\<close>

text \<open>A word that the client leaves uninitialised is 0 here; the server reads none of them.\<close>

definition gpio_call :: "ulmk_abi \<Rightarrow> u32 \<Rightarrow> 's ep_call \<Rightarrow> u8 \<Rightarrow> msg \<Rightarrow> ('s, cint \<times> msg) state" where
  "gpio_call K ep call n m =
     (if n \<ge> ULMK_BOARD_GPIO_MAX \<or> ep = ULMK_EP_INVALID K then ret (ULMK_ESRCH K, m) else call m)"

definition gpio_config :: "ulmk_abi \<Rightarrow> u32 \<Rightarrow> 's ep_call \<Rightarrow> u8 \<Rightarrow> u16 \<Rightarrow> u32 \<Rightarrow> u32 \<Rightarrow> ('s, cint) state" where
  "gpio_config K ep call n pin dir pull = do {
     (rc, m) \<leftarrow> gpio_call K ep call n \<lparr>label = GPIO_MSG_CONFIG,
       words = (\<lambda>_. 0)(0 := ucast pin, 1 := dir, 2 := pull, 3 := 0)\<rparr>;
     if rc \<noteq> ULMK_OK K then ret rc else ret (words m 0)
   }"

definition gpio_set :: "ulmk_abi \<Rightarrow> u32 \<Rightarrow> 's ep_call \<Rightarrow> u8 \<Rightarrow> u16 \<Rightarrow> cint \<Rightarrow> ('s, cint) state" where
  "gpio_set K ep call n pin value = do {
     (rc, m) \<leftarrow> gpio_call K ep call n \<lparr>label = GPIO_MSG_SET,
       words = (\<lambda>_. 0)(0 := ucast pin, 1 := value)\<rparr>;
     if rc \<noteq> ULMK_OK K then ret rc else ret (words m 0)
   }"

definition gpio_get :: "ulmk_abi \<Rightarrow> u32 \<Rightarrow> 's ep_call \<Rightarrow> u8 \<Rightarrow> u16 \<Rightarrow> cint option \<Rightarrow> ('s, cint \<times> cint option) state" where
  "gpio_get K ep call n pin value = do {
     (rc, m) \<leftarrow> gpio_call K ep call n \<lparr>label = GPIO_MSG_GET, words = (\<lambda>_. 0)(0 := ucast pin)\<rparr>;
     if rc \<noteq> ULMK_OK K then ret (rc, value)
     else if words m 0 \<noteq> ULMK_OK K then ret (words m 0, value)
     else ret (ULMK_OK K, map_option (\<lambda>_. words m 1) value)
   }"

definition gpio_subscribe :: "ulmk_abi \<Rightarrow> u32 \<Rightarrow> 's ep_call \<Rightarrow> u8 \<Rightarrow> u16 \<Rightarrow> u32 \<Rightarrow> u32 \<Rightarrow> u32 \<Rightarrow> ('s, cint) state" where
  "gpio_subscribe K ep call n pin edge notif b = do {
     (rc, m) \<leftarrow> gpio_call K ep call n \<lparr>label = GPIO_MSG_SUBSCRIBE,
       words = (\<lambda>_. 0)(0 := ucast pin, 1 := edge, 2 := notif, 3 := b)\<rparr>;
     if rc \<noteq> ULMK_OK K then ret rc else ret (words m 0)
   }"

section \<open>What the tables mean\<close>

text \<open>The accepted subscriptions in their order, and the pin each channel of the ERU stands for.\<close>

definition eru_owner :: "gpio_st \<Rightarrow> u8 \<Rightarrow> u16 option" where
  "eru_owner st ch = (if g_eru_armed_mask st AND push_bit (unat ch) 1 \<noteq> 0 then Some (g_eru_enc st ! unat ch) else None)"

definition gpio_view :: "gpio_st \<Rightarrow> gpio_sub list \<times> (u8 \<Rightarrow> u16 option)" where
  "gpio_view st = (takeWhile sub_active (g_subs st), eru_owner st)"

definition sub_ok :: "gpio_sub \<Rightarrow> bool" where
  "sub_ok s \<longleftrightarrow> sub_edge s \<noteq> GPIO_EVT_NONE \<and> sub_bit s \<le> 31 \<and> eru_lookup (sub_pin s) \<noteq> None"

definition none_active :: "gpio_sub list \<Rightarrow> bool" where
  "none_active ss \<longleftrightarrow> (\<forall>s \<in> set ss. \<not> sub_active s)"

definition gpio_inv :: "tc_vendor \<Rightarrow> gpio_st \<Rightarrow> bool" where
  "gpio_inv V st \<longleftrightarrow> pads_inv V st \<and> length (g_subs st) = GPIO_MAX_SUBS \<and>
     length (g_eru_enc st) = GPIO_ERU_CH_MAX \<and>
     none_active (dropWhile sub_active (g_subs st)) \<and>
     (\<forall>s \<in> set (takeWhile sub_active (g_subs st)). sub_ok s) \<and>
     (\<forall>ch enc. eru_owner st ch = Some enc \<longrightarrow> (\<exists>rp. eru_lookup enc = Some rp \<and> eru_ch rp = ch))"

text \<open>The specification of a subscription.\<close>

definition subscribe_spec ::
  "u16 \<Rightarrow> u32 \<Rightarrow> u32 \<Rightarrow> u32 \<Rightarrow> gpio_sub list \<times> (u8 \<Rightarrow> u16 option) \<Rightarrow> gpio_sub list \<times> (u8 \<Rightarrow> u16 option)" where
  "subscribe_spec enc edge n b view =
     (case view of (S, owner) \<Rightarrow>
        if edge = GPIO_EVT_NONE \<or> b > 31 then (S, owner)
        else case eru_lookup enc of
          None \<Rightarrow> (S, owner)
        | Some rp \<Rightarrow>
            (if length S < GPIO_MAX_SUBS
             then S @ [\<lparr>sub_pin = enc, sub_edge = edge, sub_notif = n, sub_bit = b, sub_active = True\<rparr>]
             else S,
             owner(eru_ch rp := Some enc)))"

definition gpio_spec :: "msg \<Rightarrow> gpio_sub list \<times> (u8 \<Rightarrow> u16 option) \<Rightarrow> gpio_sub list \<times> (u8 \<Rightarrow> u16 option)" where
  "gpio_spec m view =
     (if label m = GPIO_MSG_SUBSCRIBE
      then subscribe_spec (ucast (words m 0)) (words m 1) (words m 2) (words m 3) view else view)"

lemma eru_lookup_mem: "eru_lookup enc = Some rp \<Longrightarrow> rp \<in> set eru_pins"
  by (auto simp: eru_lookup_def find_Some_iff)

lemma eru_lookup_ch: "eru_lookup enc = Some rp \<Longrightarrow> unat (eru_ch rp) < 8"
  by (drule eru_lookup_mem) (auto simp: eru_pins_def)

lemma eru_owner_bit: "eru_owner st ch = (if bit (g_eru_armed_mask st) (unat ch) then Some (g_eru_enc st ! unat ch) else None)"
proof (cases "unat ch < 8")
  case False
  then have z: "push_bit (unat ch) (1 :: u8) = 0"
    by (simp add: exp_eq_zero_iff)
  show ?thesis
    unfolding eru_owner_def z using False by simp
qed (simp add: eru_owner_def and_exp_eq_0_iff_not_bit)

section \<open>The IRQ thread\<close>

definition sub_signal :: "gpio_sub \<Rightarrow> gpio_act tc_act event" where
  "sub_signal s = Kern (Notif_signal (sub_notif s) (push_bit (unat (sub_bit s)) 1))"

definition listeners :: "gpio_st \<Rightarrow> u16 option \<Rightarrow> gpio_sub list" where
  "listeners st owner = filter (\<lambda>s. sub_active s \<and> Some (sub_pin s) = owner) (g_subs st)"

lemma run_defer_subs:
  assumes "length (g_subs st) = GPIO_MAX_SUBS"
  shows "run_state (defer_subs enc) st =
    ((), st\<lparr>trace := trace st @ map sub_signal (listeners st (Some enc))\<rparr>)"
proof -
  let ?Q = "\<lambda>s. sub_active s \<and> sub_pin s = enc"
  let ?es = "\<lambda>i. if ?Q (g_subs st ! i) then [sub_signal (g_subs st ! i)] else []"
  have "run_state (defer_subs enc) st = ((), st\<lparr>trace := trace st @ concat (map ?es [0..<GPIO_MAX_SUBS])\<rparr>)"
    unfolding defer_subs_def
    by (rule run_for_each_emits [where P = "\<lambda>s. g_subs s = g_subs st"]) (simp_all add: sub_signal_def)
  also have "concat (map ?es [0..<GPIO_MAX_SUBS]) = map sub_signal (listeners st (Some enc))"
    using concat_filter_nth [where Q = ?Q and g = sub_signal and xs = "g_subs st"] assms by (simp add: listeners_def)
  finally show ?thesis .
qed

text \<open>What one channel contributes, given which flags are pending.\<close>

definition channel_events :: "gpio_st \<Rightarrow> (u8 \<Rightarrow> bool) \<Rightarrow> u8 \<Rightarrow> gpio_act tc_act event list" where
  "channel_events st pend ch = Dev (Drv (Eru_getEventFlagStatus ch)) #
     (if pend ch then Dev (Drv (Eru_clearEventFlag ch)) # map sub_signal (listeners st (eru_owner st ch))
      else [])"

definition flags_pending :: "gpio_st \<Rightarrow> (u8 \<Rightarrow> bool) \<Rightarrow> bool" where
  "flags_pending st pend \<longleftrightarrow>
     (\<forall>h ch. answer st h (Dev (Drv (Eru_getEventFlagStatus ch))) \<noteq> 0 \<longleftrightarrow> pend ch)"

definition same_tables :: "gpio_st \<Rightarrow> gpio_st \<Rightarrow> bool" where
  "same_tables s t \<longleftrightarrow> g_subs s = g_subs t \<and> g_eru_enc s = g_eru_enc t \<and>
     g_eru_armed_mask s = g_eru_armed_mask t \<and> answer s = answer t"

lemma same_tables_listeners:
  "same_tables s t \<Longrightarrow> listeners s = listeners t \<and> eru_owner s = eru_owner t \<and> flags_pending s = flags_pending t"
  by (simp add: same_tables_def listeners_def eru_owner_def flags_pending_def fun_eq_iff)

lemma same_tables_events: "same_tables s t \<Longrightarrow> channel_events s = channel_events t"
  by (intro ext) (simp add: channel_events_def same_tables_listeners)

lemma listeners_none [simp]: "listeners st None = []"
  by (simp add: listeners_def)

lemma run_irq_channel:
  assumes "length (g_subs st) = GPIO_MAX_SUBS" "flags_pending st pend"
  shows "run_state (irq_channel ch) st = ((), st\<lparr>trace := trace st @ channel_events st pend ch\<rparr>)"
proof -
  have flag: "answer st h (Dev (Drv (Eru_getEventFlagStatus ch))) = 0 \<longleftrightarrow> \<not> pend ch" for h
    using assms(2) unfolding flags_pending_def by metis
  show ?thesis
    using assms(1) flag
    by (simp add: irq_channel_def channel_events_def run_defer_subs eru_owner_def listeners_def
        del: One_nat_def)
qed

lemma run_irq_channels:
  assumes "length (g_subs st) = GPIO_MAX_SUBS" "flags_pending st pend"
  shows "run_state (for_each chs irq_channel) st =
    ((), st\<lparr>trace := trace st @ concat (map (channel_events st pend) chs)\<rparr>)"
proof (rule run_for_each_emits [where P = "\<lambda>s. same_tables s st"])
  fix ch s
  assume "same_tables s st"
  with same_tables_listeners [OF this] assms
  show "run_state (irq_channel ch) s = ((), s\<lparr>trace := trace s @ channel_events st pend ch\<rparr>)"
    using run_irq_channel [of s pend ch] by (simp add: same_tables_def channel_events_def)
qed (simp_all add: same_tables_def)

section \<open>Frames\<close>

text \<open>Pads are programmed without touching the tables of the subscriptions.\<close>

definition tables :: "gpio_st \<Rightarrow> gpio_sub list \<times> u16 list \<times> u8" where
  "tables st = (g_subs st, g_eru_enc st, g_eru_armed_mask st)"

definition frame :: "tc_vendor \<Rightarrow> (gpio_sub list \<times> u16 list \<times> u8 \<Rightarrow> bool) \<Rightarrow> gpio_st \<Rightarrow> bool" where
  "frame V Q st \<longleftrightarrow> pads_inv V st \<and> Q (tables st)"

lemma frame_trace [simp]: "frame V Q (st\<lparr>trace := t\<rparr>) = frame V Q st"
  by (simp add: frame_def tables_def pads_inv_def)

lemma keeps_frame_io [keeps_intros]:
  "keeps (frame V Q) (dev a)" "keeps (frame V Q) (dev_do a)" "keeps (frame V Q) (kern c)"
  "keeps (frame V Q) (kern_do c)"
  by (auto intro!: keeps_dev keeps_kern)

lemma keeps_frame_map [keeps_intros]: "keeps (frame V Q) (map_port_once_tc V p :: (gpio_st, u32) state)"
proof (rule keepsI)
  fix s :: gpio_st
  assume "frame V Q s"
  moreover have "tables (snd (run_state (map_port_once_tc V p) s)) = tables s"
    by (auto simp: map_port_once_tc_def tables_def split: option.splits)
  ultimately show "frame V Q (snd (run_state (map_port_once_tc V p) s))"
    using tc_ports.fetch_inv [of V s p] by (simp add: frame_def)
qed

lemma keeps_frame_apply [keeps_intros]:
  "keeps (frame V Q) (pinmux_apply_tc V K cfg :: (gpio_st, cint) state)"
  unfolding pinmux_apply_tc_def illd_port_set_mode_def Let_def
  by (cases cfg) (auto intro!: keeps_intros)

lemma keeps_frame_pads:
  "keeps (frame V Q) (do_config V K enc dir pull)" "keeps (frame V Q) (do_set V K enc v)"
  "keeps (frame V Q) (do_get V K enc ov)"
  unfolding do_config_def do_set_def do_get_def pinmux_port_tc_def by (intro keeps_intros)+

lemma tables_inv: "gpio_inv V s \<Longrightarrow> pads_inv V t \<Longrightarrow> tables t = tables s \<Longrightarrow> gpio_inv V t"
  and tables_view: "tables t = tables s \<Longrightarrow> gpio_view t = gpio_view s"
proof -
  assume t: "tables t = tables s"
  then have "eru_owner t = eru_owner s"
    by (auto simp: tables_def eru_owner_def)
  with t show "gpio_inv V s \<Longrightarrow> pads_inv V t \<Longrightarrow> gpio_inv V t" "gpio_view t = gpio_view s"
    by (simp_all add: gpio_inv_def gpio_view_def tables_def)
qed

lemma frame_inv_view:
  assumes "\<And>Q. keeps (frame V Q) m" "gpio_inv V s"
  shows "gpio_inv V (snd (run_state m s)) \<and> gpio_view (snd (run_state m s)) = gpio_view s"
proof -
  have "frame V (\<lambda>t. t = tables s) s"
    using assms(2) by (simp add: frame_def gpio_inv_def)
  from keepsD [OF assms(1) this]
  have "pads_inv V (snd (run_state m s))" "tables (snd (run_state m s)) = tables s"
    by (simp_all add: frame_def)
  then show ?thesis
    using tables_inv [OF assms(2)] tables_view by blast
qed

section \<open>Subscriptions\<close>

lemma eru_arm_tables:
  assumes "eru_lookup enc = Some rp"
  shows "triple (frame V (\<lambda>t. t = (subs, encs, armed))) (eru_arm K enc edge)
    (\<lambda>rc. frame V (\<lambda>t. rc = ULMK_OK K \<and>
       t = (subs, encs[unat (eru_ch rp) := enc], armed OR push_bit (unat (eru_ch rp)) 1)))"
proof -
  have gate: "keeps (frame V Q) (modify (\<lambda>st. st\<lparr>g_ogu0_armed := True\<rparr>))" for Q
    by (rule keeps_modify) (simp add: frame_def tables_def pads_inv_def)
  have store: "triple (frame V (\<lambda>t. t = (subs, encs, armed)))
      (do {
        modify (\<lambda>st. st\<lparr>g_eru_enc := (g_eru_enc st)[unat (eru_ch rp) := enc]\<rparr>);
        modify (\<lambda>st. st\<lparr>g_eru_armed_mask := g_eru_armed_mask st OR push_bit (unat (eru_ch rp)) 1\<rparr>);
        ret (ULMK_OK K)
      })
      (\<lambda>rc. frame V (\<lambda>t. rc = ULMK_OK K \<and>
       t = (subs, encs[unat (eru_ch rp) := enc], armed OR push_bit (unat (eru_ch rp)) 1)))"
    by (rule tripleI) (auto simp: frame_def tables_def pads_inv_def)
  show ?thesis
    unfolding eru_arm_def assms option.case Let_def
    by (rule store triple_step keeps_intros gate)+
qed

lemma eru_owner_update:
  assumes "tables t = (subs, (g_eru_enc s)[unat c := enc], g_eru_armed_mask s OR push_bit (unat c) 1)"
    "unat c < length (g_eru_enc s)" "length (g_eru_enc s) = 8"
  shows "eru_owner t = (eru_owner s)(c := Some enc)"
proof
  fix ch
  have eq: "unat ch = unat c \<longleftrightarrow> ch = c"
    by (simp add: word_unat_eq_iff)
  have "bit (g_eru_armed_mask t) (unat ch) \<longleftrightarrow> bit (g_eru_armed_mask s) (unat ch) \<or> ch = c"
    using assms eq by (auto simp: tables_def bit_simps)
  with assms eq show "eru_owner t ch = ((eru_owner s)(c := Some enc)) ch"
    by (auto simp: tables_def eru_owner_bit)
qed

text \<open>The status of a subscription.\<close>

definition subscribe_status :: "ulmk_abi \<Rightarrow> u16 \<Rightarrow> u32 \<Rightarrow> u32 \<Rightarrow> gpio_sub list \<Rightarrow> cint" where
  "subscribe_status K enc edge b S =
     (if edge = GPIO_EVT_NONE \<or> b > 31 \<or> eru_lookup enc = None then ULMK_EINVAL K
      else if length S < GPIO_MAX_SUBS then ULMK_OK K else ULMK_ENOMEM K)"

lemma subscribe_refines:
  assumes inv: "gpio_inv V st" and "run_state (do_subscribe K enc edge n b) st = (rc, st')"
  shows "gpio_inv V st' \<and> gpio_view st' = subscribe_spec enc edge n b (gpio_view st) \<and>
    rc = subscribe_status K enc edge b (fst (gpio_view st))"
proof (cases "edge = GPIO_EVT_NONE \<or> b > 31 \<or> eru_lookup enc = None")
  case True
  with assms show ?thesis
    by (auto simp: do_subscribe_def subscribe_spec_def subscribe_status_def gpio_view_def
        split: option.splits)
next
  case False
  then obtain rp where rp: "eru_lookup enc = Some rp"
    by auto
  obtain rc1 s1 where run: "run_state (eru_arm K enc edge) st = (rc1, s1)"
    by (cases "run_state (eru_arm K enc edge) st")
  have "frame V (\<lambda>t. t = (g_subs st, g_eru_enc st, g_eru_armed_mask st)) st"
    using inv by (simp add: frame_def gpio_inv_def tables_def)
  from tripleD [OF eru_arm_tables [OF rp] this run]
  have arm: "run_state (eru_arm K enc edge) st = (ULMK_OK K, s1)" "pads_inv V s1"
    "tables s1 = (g_subs st, (g_eru_enc st)[unat (eru_ch rp) := enc],
       g_eru_armed_mask st OR push_bit (unat (eru_ch rp)) 1)"
    using run by (simp_all add: frame_def)
  have owner: "eru_owner s1 = (eru_owner st)(eru_ch rp := Some enc)"
    using arm(3) eru_lookup_ch [OF rp] inv by (intro eru_owner_update) (simp_all add: gpio_inv_def GPIO_ERU_CH_MAX_def)
  let ?new = "\<lparr>sub_pin = enc, sub_edge = edge, sub_notif = n, sub_bit = b, sub_active = True\<rparr>"
  have "gpio_inv V s1"
    using inv arm(2,3) owner rp by (auto simp: gpio_inv_def tables_def)
  have subs: "g_subs s1 = g_subs st"
    using arm(3) by (simp add: tables_def)
  have len: "length (takeWhile sub_active (g_subs st)) + length (dropWhile sub_active (g_subs st)) = GPIO_MAX_SUBS"
    using inv by (metis gpio_inv_def length_append takeWhile_dropWhile_id)
  show ?thesis
  proof (cases "dropWhile sub_active (g_subs st) = []")
    case True
    then have "rc = ULMK_ENOMEM K" "st' = s1"
      using assms(2) arm(1) subs False by (auto simp: do_subscribe_def find_index_first split: if_splits)
    moreover have "length (takeWhile sub_active (g_subs st)) = GPIO_MAX_SUBS"
      using len unfolding True by simp
    ultimately show ?thesis
      using False rp owner subs \<open>gpio_inv V s1\<close>
      by (simp add: gpio_view_def subscribe_spec_def subscribe_status_def)
  next
    case free: False
    let ?subs = "(g_subs st)[length (takeWhile sub_active (g_subs st)) := ?new]"
    have st': "rc = ULMK_OK K" "st' = s1\<lparr>g_subs := ?subs\<rparr>"
      using assms(2) arm(1) subs False free by (auto simp: do_subscribe_def find_index_first split: if_splits)
    have rest: "\<forall>s \<in> set (dropWhile sub_active (g_subs st)). \<not> sub_active s"
      using inv unfolding gpio_inv_def none_active_def by blast
    have new: "sub_active ?new" "sub_ok ?new"
      using False by (simp_all add: sub_ok_def not_less)
    note upd = takeWhile_update [OF free new(1) rest, folded none_active_def]
    have own: "eru_owner st' = eru_owner s1"
      by (rule ext) (simp add: st'(2) eru_owner_def)
    have subs': "takeWhile sub_active (g_subs st') = takeWhile sub_active (g_subs st) @ [?new]"
      "none_active (dropWhile sub_active (g_subs st'))"
      "length (g_subs st') = length (g_subs st)" "pads_inv V st' = pads_inv V s1"
      "g_eru_enc st' = g_eru_enc s1"
      using upd by (simp_all add: st'(2) pads_inv_def)
    have "gpio_inv V st'"
      using \<open>gpio_inv V s1\<close> new(2) unfolding gpio_inv_def own subs'(1,3-5)
      by (simp add: subs'(2) subs ball_Un)
    moreover have room: "length (takeWhile sub_active (g_subs st)) < GPIO_MAX_SUBS"
      using free len by (cases "dropWhile sub_active (g_subs st)") simp_all
    have "gpio_view st' = subscribe_spec enc edge n b (gpio_view st)"
      using False rp room by (simp add: gpio_view_def subscribe_spec_def own owner subs'(1))
    moreover have "rc = subscribe_status K enc edge b (fst (gpio_view st))"
      using False rp room by (simp add: subscribe_status_def gpio_view_def st'(1))
    ultimately show ?thesis
      by blast
  qed
qed

lemma gpio_handle:
  assumes "gpio_inv V s"
  shows "gpio_inv V (snd (run_state (gpio_dispatch V K m) s)) \<and>
    gpio_view (snd (run_state (gpio_dispatch V K m) s)) = gpio_spec m (gpio_view s)"
proof (cases "label m = GPIO_MSG_SUBSCRIBE")
  case True
  obtain rc s' where "run_state (do_subscribe K (ucast (words m 0)) (words m 1) (words m 2) (words m 3)) s = (rc, s')"
    by (cases "run_state (do_subscribe K (ucast (words m 0)) (words m 1) (words m 2) (words m 3)) s")
  with subscribe_refines [OF assms this] True show ?thesis
    by (simp add: gpio_dispatch_def gpio_spec_def const_defs)
next
  case False
  have "keeps (frame V Q) (gpio_dispatch V K m)" for Q
    using False unfolding gpio_dispatch_def
    by (auto intro!: keeps_intros keeps_frame_pads)
  from frame_inv_view [OF this assms] False show ?thesis
    by (simp add: gpio_spec_def)
qed

interpretation gpio_srv: rpc_server "gpio_dispatch V K" "\<lambda>m. True" "gpio_inv V" gpio_view gpio_spec for V K
  by unfold_locales (use gpio_handle in blast)+

lemma serve_gpio_view:
  "gpio_inv V st \<Longrightarrow> gpio_inv V (snd (run_state (serve (gpio_dispatch V K) ms) st)) \<and>
     gpio_view (snd (run_state (serve (gpio_dispatch V K) ms) st)) = fold gpio_spec ms (gpio_view st)"
  using gpio_srv.serve_inv [of V st ms K] gpio_srv.serve_abs [of V st ms K] by simp

lemma run_irq_iter:
  assumes "gpio_inv V st" "flags_pending st pend"
    and "answer st (trace st) (Kern (Notif_wait (g_irq_notif st) 1)) = ULMK_OK K"
  shows "run_state (gpio_irq_iter K) st =
    ((), st\<lparr>trace := trace st @ Kern (Notif_wait (g_irq_notif st) 1) #
       concat (map (channel_events st pend) (map of_nat [0..<GPIO_ERU_CH_MAX])) @ [Kern (Irq_ack GPIO_SRPN)]\<rparr>)"
proof -
  let ?w = "Kern (Notif_wait (g_irq_notif st) 1)" and ?s = "st\<lparr>trace := trace st @ [Kern (Notif_wait (g_irq_notif st) 1)]\<rparr>"
  have same: "same_tables ?s st"
    by (simp add: same_tables_def)
  have "length (g_subs ?s) = GPIO_MAX_SUBS" "flags_pending ?s pend"
    using assms(1,2) same_tables_listeners [OF same] by (simp_all add: gpio_inv_def)
  from run_irq_channels [OF this, of "map of_nat [0..<GPIO_ERU_CH_MAX]"]
  have "run_state (for_each (map of_nat [0..<GPIO_ERU_CH_MAX]) irq_channel) ?s =
      ((), st\<lparr>trace := trace st @ ?w # concat (map (channel_events st pend) (map of_nat [0..<GPIO_ERU_CH_MAX]))\<rparr>)"
    by (simp add: same_tables_events [OF same])
  then show ?thesis
    using assms(3) by (simp add: gpio_irq_iter_def GPIO_IRQ_BIT_def)
qed

text \<open>Two states for the examples: after bring-up, and with one subscription to P15.4.\<close>

definition free_sub :: gpio_sub where
  "free_sub = \<lparr>sub_pin = 0, sub_edge = 0, sub_notif = 0, sub_bit = 0, sub_active = False\<rparr>"

definition rising_P15_4 :: gpio_sub where
  "rising_P15_4 = \<lparr>sub_pin = 0x0F04, sub_edge = 2, sub_notif = 7, sub_bit = 2, sub_active = True\<rparr>"

definition gpio_boot :: "(gpio_act tc_act event list \<Rightarrow> gpio_act tc_act event \<Rightarrow> u32) \<Rightarrow> gpio_st" where
  "gpio_boot ans = \<lparr>trace = [], answer = ans, fault = False, g_pinmux_eps_tc = 0,
     g_ports_tc = replicate PINMUX_PORT_SLOTS_TC free_port, g_subs = replicate 4 free_sub,
     g_eru_enc = replicate 8 0, g_eru_armed_mask = 0, g_ogu0_armed = False, g_scu_mapped = True,
     g_gpio_ep = 0, g_irq_notif = 3, g_eru_started = True\<rparr>"

definition gpio_one :: "(gpio_act tc_act event list \<Rightarrow> gpio_act tc_act event \<Rightarrow> u32) \<Rightarrow> gpio_st" where
  "gpio_one ans = (gpio_boot ans)\<lparr>g_subs := rising_P15_4 # replicate 3 free_sub,
     g_eru_enc := 0x0F04 # replicate 7 0, g_eru_armed_mask := 1\<rparr>"

lemma lookup_P15_4: "eru_lookup 0x0F04 = Some \<lparr>eru_port = 15, eru_no = 4, eru_ch = 0, eru_sel = 0\<rparr>"
  and lookup_P10_7: "eru_lookup 0x0A07 = Some \<lparr>eru_port = 10, eru_no = 7, eru_ch = 0, eru_sel = 2\<rparr>"
  by code_simp+

lemma gpio_inv_boot: "gpio_inv V (gpio_boot ans)"
proof -
  have "pads_inv V (gpio_boot ans)"
    by (simp add: pads_inv_def gpio_boot_def cache_wf_free)
  then show ?thesis
    by (simp add: gpio_inv_def gpio_boot_def none_active_def free_sub_def eru_owner_bit
        GPIO_MAX_SUBS_def GPIO_ERU_CH_MAX_def takeWhile_eq_Nil_iff)
qed

lemma gpio_one_view: "gpio_view (gpio_one ans) = ([rising_P15_4], [0 \<mapsto> 0x0F04])"
proof -
  have "eru_owner (gpio_one ans) ch = ([0 \<mapsto> 0x0F04]) ch" for ch
    by (auto simp: eru_owner_bit gpio_one_def bit_1_iff unat_eq_0)
  then have "eru_owner (gpio_one ans) = [0 \<mapsto> 0x0F04]"
    by blast
  then show ?thesis
    by (simp add: gpio_view_def gpio_one_def rising_P15_4_def free_sub_def numeral_eq_Suc)
qed

lemma gpio_one_io: "trace (gpio_one ans) = []" "answer (gpio_one ans) = ans"
  by (simp_all add: gpio_one_def gpio_boot_def)

lemma gpio_inv_one: "gpio_inv V (gpio_one ans)"
proof -
  have own: "eru_owner (gpio_one ans) = [0 \<mapsto> 0x0F04]"
    "takeWhile sub_active (g_subs (gpio_one ans)) = [rising_P15_4]"
    using gpio_one_view [of ans] by (simp_all add: gpio_view_def)
  have "pads_inv V (gpio_one ans)"
    by (simp add: pads_inv_def gpio_one_def gpio_boot_def cache_wf_free)
  moreover have "sub_ok rising_P15_4"
    by (simp add: sub_ok_def rising_P15_4_def lookup_P15_4 const_defs)
  moreover have "none_active (dropWhile sub_active (g_subs (gpio_one ans)))"
    by (simp add: gpio_one_def rising_P15_4_def none_active_def free_sub_def numeral_eq_Suc)
  ultimately show ?thesis
    unfolding gpio_inv_def own
    by (simp add: gpio_one_def lookup_P15_4 GPIO_MAX_SUBS_def GPIO_ERU_CH_MAX_def)
qed

text \<open>Reading a log: the notifications it sends, the flags it clears.\<close>

definition signals :: "gpio_act tc_act event list \<Rightarrow> (u32 \<times> u32) list" where
  "signals es = concat (map (\<lambda>e. case e of Kern (Notif_signal n b) \<Rightarrow> [(n, b)] | _ \<Rightarrow> []) es)"

definition cleared :: "gpio_act tc_act event list \<Rightarrow> u8 list" where
  "cleared es = concat (map (\<lambda>e. case e of Dev (Drv (Eru_clearEventFlag ch)) \<Rightarrow> [ch] | _ \<Rightarrow> []) es)"

definition eru_channels :: "u8 list" where
  "eru_channels = [0, 1, 2, 3, 4, 5, 6, 7]"

lemma eru_channels_upt: "map of_nat [0..<GPIO_ERU_CH_MAX] = eru_channels"
  by (simp add: eru_channels_def GPIO_ERU_CH_MAX_def upt_rec)

text \<open>The subscriptions to be notified, by the view: channel by channel, in the order of acceptance.\<close>

definition to_notify :: "gpio_sub list \<times> (u8 \<Rightarrow> u16 option) \<Rightarrow> (u8 \<Rightarrow> bool) \<Rightarrow> gpio_sub list" where
  "to_notify view pend = concat (map (\<lambda>ch. filter (\<lambda>s. Some (sub_pin s) = snd view ch) (fst view))
     (filter pend eru_channels))"

lemma listeners_view:
  assumes "gpio_inv V st"
  shows "listeners st owner = filter (\<lambda>s. Some (sub_pin s) = owner) (fst (gpio_view st))"
proof -
  have "filter sub_active (g_subs st) = takeWhile sub_active (g_subs st)"
    using assms by (intro filter_takeWhile) (auto simp: gpio_inv_def none_active_def)
  then have "filter (\<lambda>s. Some (sub_pin s) = owner) (filter sub_active (g_subs st)) =
      filter (\<lambda>s. Some (sub_pin s) = owner) (takeWhile sub_active (g_subs st))"
    by simp
  then show ?thesis
    by (simp add: listeners_def gpio_view_def conj_commute)
qed

lemma log_append [simp]:
  "signals (es @ es') = signals es @ signals es'" "cleared (es @ es') = cleared es @ cleared es'"
  "signals [] = []" "cleared [] = []"
  by (simp_all add: signals_def cleared_def)

lemma log_signals:
  "signals (map sub_signal ss) = map (\<lambda>s. (sub_notif s, push_bit (unat (sub_bit s)) 1)) ss"
  "cleared (map sub_signal ss) = []"
  by (induction ss) (simp_all add: signals_def cleared_def sub_signal_def)

lemma log_channel:
  "signals (channel_events st pend ch) = (if pend ch
     then map (\<lambda>s. (sub_notif s, push_bit (unat (sub_bit s)) 1)) (listeners st (eru_owner st ch)) else [])"
  "cleared (channel_events st pend ch) = (if pend ch then [ch] else [])"
  using log_signals [of "listeners st (eru_owner st ch)"]
  by (simp_all add: channel_events_def signals_def cleared_def)

lemma log_channels:
  "signals (concat (map (channel_events st pend) chs)) =
     map (\<lambda>s. (sub_notif s, push_bit (unat (sub_bit s)) 1))
       (concat (map (\<lambda>ch. listeners st (eru_owner st ch)) (filter pend chs)))"
  "cleared (concat (map (channel_events st pend) chs)) = filter pend chs"
  by (induction chs) (simp_all add: log_channel)

text \<open>C19: One round of the IRQ thread.  Whichever flags are pending when the interrupt is
  delivered, the thread clears exactly those, and notifies exactly the accepted subscriptions
  whose pin currently stands for one of these channels, channel by channel and in the order of
  acceptance, each with its own notification and bit; nothing else in the driver changes and
  the interrupt is acknowledged last.\<close>

theorem gpio_irq_notifies_owners:
  assumes "gpio_inv V st" "flags_pending st pend"
    and "answer st (trace st) (Kern (Notif_wait (g_irq_notif st) 1)) = ULMK_OK K"
  shows "\<exists>es. snd (run_state (gpio_irq_iter K) st) = st\<lparr>trace := trace st @ es @ [Kern (Irq_ack GPIO_SRPN)]\<rparr> \<and>
    cleared es = filter pend eru_channels \<and>
    signals es = map (\<lambda>s. (sub_notif s, push_bit (unat (sub_bit s)) 1)) (to_notify (gpio_view st) pend)"
proof (intro exI conjI)
  let ?es = "Kern (Notif_wait (g_irq_notif st) 1) # concat (map (channel_events st pend) eru_channels)"
  show "snd (run_state (gpio_irq_iter K) st) = st\<lparr>trace := trace st @ ?es @ [Kern (Irq_ack GPIO_SRPN)]\<rparr>"
    using run_irq_iter [OF assms] by (simp only: eru_channels_upt snd_conv append_Cons)
  show "cleared ?es = filter pend eru_channels"
    using log_channels(2) [of st pend eru_channels] by (simp add: cleared_def)
  have "signals ?es = signals (concat (map (channel_events st pend) eru_channels))"
    by (simp add: signals_def)
  then show "signals ?es = map (\<lambda>s. (sub_notif s, push_bit (unat (sub_bit s)) 1)) (to_notify (gpio_view st) pend)"
    by (simp add: log_channels(1) to_notify_def listeners_view [OF assms(1)])
       (simp add: gpio_view_def)
qed

theorem gpio_irq_notifies_owners_witness:
  "\<exists>ans es. snd (run_state (gpio_irq_iter sample_abi) (gpio_one ans)) =
      (gpio_one ans)\<lparr>trace := es @ [Kern (Irq_ack GPIO_SRPN)]\<rparr> \<and> cleared es = [0, 5] \<and> signals es = [(7, 4)]"
proof -
  let ?ans = "\<lambda>h :: gpio_act tc_act event list. \<lambda>e.
    if e \<in> {Dev (Drv (Eru_getEventFlagStatus 0)), Dev (Drv (Eru_getEventFlagStatus 5))} then 1 else 0"
  have "flags_pending (gpio_one ?ans) (\<lambda>ch. ch \<in> {0, 5})"
    by (auto simp: flags_pending_def gpio_one_def gpio_boot_def)
  note round = gpio_irq_notifies_owners [where K = sample_abi, OF gpio_inv_one this]
  have "to_notify ([rising_P15_4], [0 \<mapsto> 0x0F04]) (\<lambda>ch. ch \<in> {0, 5}) = [rising_P15_4]"
    by (simp add: to_notify_def eru_channels_def) (simp add: rising_P15_4_def)
  moreover have "(sub_notif rising_P15_4, push_bit (unat (sub_bit rising_P15_4)) (1 :: u32)) = (7, 4)"
    by (simp add: rising_P15_4_def)
  ultimately show ?thesis
    using round by (intro exI [of _ ?ans])
      (simp add: gpio_one_view gpio_one_io sample_abi_ok eru_channels_def)
qed



text \<open>A pin that stands for no channel stays so until it is subscribed to again.\<close>

definition owns_none :: "u16 \<Rightarrow> gpio_sub list \<times> (u8 \<Rightarrow> u16 option) \<Rightarrow> bool" where
  "owns_none p view \<longleftrightarrow> (\<forall>ch. snd view ch \<noteq> Some p)"

definition subscribes_to :: "u16 \<Rightarrow> msg \<Rightarrow> bool" where
  "subscribes_to p m \<longleftrightarrow> label m = GPIO_MSG_SUBSCRIBE \<and> ucast (words m 0) = p"

lemma owns_none_spec:
  "(\<And>m. m \<in> set ms \<Longrightarrow> \<not> subscribes_to p m) \<Longrightarrow> owns_none p view \<Longrightarrow> owns_none p (fold gpio_spec ms view)"
proof (induction ms arbitrary: view)
  case (Cons m ms)
  have "owns_none p (gpio_spec m view)"
    using Cons.prems(1) [of m] Cons.prems(2)
    by (cases view) (auto simp: owns_none_def gpio_spec_def subscribe_spec_def subscribes_to_def
        split: option.splits)
  with Cons show ?case by simp
qed simp

lemma recorded_spec: "s \<in> set (fst view) \<Longrightarrow> s \<in> set (fst (fold gpio_spec ms view))"
proof (induction ms arbitrary: view)
  case (Cons m ms)
  then have "s \<in> set (fst (gpio_spec m view))"
    by (cases view) (auto simp: gpio_spec_def subscribe_spec_def split: option.splits)
  with Cons.IH show ?case by simp
qed simp

lemma to_notify_owned: "s \<in> set (to_notify view pend) \<Longrightarrow> \<not> owns_none (sub_pin s) view"
  by (auto simp: to_notify_def owns_none_def)

lemma owner_channel:
  "gpio_inv V st \<Longrightarrow> snd (gpio_view st) ch = Some enc \<Longrightarrow> eru_lookup enc = Some rp \<Longrightarrow> eru_ch rp = ch"
  unfolding gpio_inv_def gpio_view_def snd_conv by (metis option.inject)

text \<open>Two pins that share a channel of the ERU (such as P15.4 and P10.7): a request for the
  second one takes the channel away from the first, even when the table is full and the request is
  answered ENOMEM.  The earlier subscription stays recorded, but whatever requests follow, as
  long as none asks for its pin again, no interrupt ever notifies it, and its subscriber is not
  told.\<close>

theorem gpio_shared_channel_starves:
  assumes "gpio_inv V st" and "s \<in> set (fst (gpio_view st))"
    and "eru_lookup (sub_pin s) = Some rp" "eru_lookup q = Some rq" "eru_ch rp = eru_ch rq" "q \<noteq> sub_pin s"
    and "edge \<noteq> GPIO_EVT_NONE" "b \<le> 31"
    and "run_state (do_subscribe K q edge n b) st = (rc, st1)"
    and "\<And>m. m \<in> set ms \<Longrightarrow> \<not> subscribes_to (sub_pin s) m"
    and "st2 = snd (run_state (serve (gpio_dispatch V K) ms) st1)"
  shows "s \<in> set (fst (gpio_view st2)) \<and> s \<notin> set (to_notify (gpio_view st2) pend) \<and>
    (length (fst (gpio_view st)) = GPIO_MAX_SUBS \<longrightarrow> rc = ULMK_ENOMEM K)"
proof -
  from subscribe_refines [OF assms(1) assms(9)]
  have st1: "gpio_inv V st1" "gpio_view st1 = subscribe_spec q edge n b (gpio_view st)"
    "rc = subscribe_status K q edge b (fst (gpio_view st))"
    by blast+
  from serve_gpio_view [OF st1(1), of K ms] assms(11)
  have view: "gpio_view st2 = fold gpio_spec ms (gpio_view st1)"
    by simp
  have "snd (gpio_view st) ch \<noteq> Some (sub_pin s)" if "ch \<noteq> eru_ch rq" for ch
    using owner_channel [OF assms(1) _ assms(3)] assms(5) that by metis
  then have "owns_none (sub_pin s) (gpio_view st1)" "s \<in> set (fst (gpio_view st1))"
    using assms(2,4,6,7,8) st1(2)
    by (auto simp: owns_none_def subscribe_spec_def split: prod.splits)
  with owns_none_spec [OF assms(10)] recorded_spec to_notify_owned
  have "s \<in> set (fst (gpio_view st2)) \<and> s \<notin> set (to_notify (gpio_view st2) pend)"
    unfolding view by blast
  with st1(3) assms(4,7,8) show ?thesis
    by (auto simp: subscribe_status_def)
qed

theorem gpio_shared_channel_starves_witness:
  "\<exists>st1. rising_P15_4 \<in> set (fst (gpio_view st1)) \<and>
     rising_P15_4 \<notin> set (to_notify (gpio_view st1) (\<lambda>_. True))"
proof -
  obtain rc st1 where "run_state (do_subscribe sample_abi 0x0A07 1 9 0) (gpio_one (\<lambda>_ _. 0)) = (rc, st1)"
    by (cases "run_state (do_subscribe sample_abi 0x0A07 1 9 0) (gpio_one (\<lambda>_ _. 0))")
  note starves = gpio_shared_channel_starves [OF gpio_inv_one _ _ lookup_P10_7 _ _ _ _ this,
      where s = rising_P15_4 and ms = "[]" and ?st2.0 = st1 and V = sample_vendor and pend = "\<lambda>_. True"]
  show ?thesis
    by (rule exI [of _ st1]) (use starves in
      \<open>simp add: gpio_one_view rising_P15_4_def lookup_P15_4 const_defs\<close>)
qed

section \<open>The client's view of a pad\<close>

lemma enc_GPIO_PIN: "enc_port (GPIO_PIN port pin) = port" "enc_pin (GPIO_PIN port pin) = pin"
proof -
  have m: "(0xFF :: u16) = mask 8"
    by (simp add: mask_eq_exp_minus_1)
  show "enc_port (GPIO_PIN port pin) = port" "enc_pin (GPIO_PIN port pin) = pin"
    unfolding enc_port_def enc_pin_def GPIO_PIN_def m
    by (auto intro!: bit_eqI simp: bit_simps)
qed

lemma ucast_word_pin: "ucast (ucast (pin :: u16) :: u32) = pin"
  by (rule bit_eqI) (auto simp: bit_simps)

text \<open>The client library on a running server, for any port the pinmux driver has mapped:
  \<open>gpio_set\<close> is one high or low of exactly that pad, \<open>gpio_get\<close> is one read of it and yields 1
  or 0, \<open>gpio_config\<close> is the pinmux driver's \<open>pinmux_apply\<close> of a GPIO pad with that direction and pull.\<close>

theorem gpio_client_pads:
  assumes "abi_ok K" "pads_inv V st" "port_map_tc st port = Some a" "ep \<noteq> ULMK_EP_INVALID K"
  shows "run_state (gpio_set K ep (ipc K (gpio_dispatch V K)) 0 (GPIO_PIN port pin) value) st =
      (ULMK_OK K, st\<lparr>trace := trace st @
        [Dev (Drv (if value \<noteq> 0 then IfxPort_setPinHigh a pin else IfxPort_setPinLow a pin))]\<rparr>) \<and>
    run_state (gpio_get K ep (ipc K (gpio_dispatch V K)) 0 (GPIO_PIN port pin) (Some v)) st =
      (let r = Dev (Drv (IfxPort_getPinState a pin)) in
       ((ULMK_OK K, Some (if answer st (trace st) r \<noteq> 0 then 1 else 0)), st\<lparr>trace := trace st @ [r]\<rparr>)) \<and>
    run_state (gpio_config K ep (ipc K (gpio_dispatch V K)) 0 (GPIO_PIN port pin) dir pull) st =
      run_state (pinmux_apply_tc V K (Some \<lparr>cfg_port = port, cfg_pin = pin,
        cfg_dir = (if dir = 0 then PINMUX_DIR_IN else PINMUX_DIR_OUT), cfg_pull = ucast pull,
        cfg_alt = PINMUX_ALT_GPIO, cfg_flags = 0\<rparr>)) st"
proof (intro conjI)
  have "a \<noteq> 0"
    using assms(2,3) cache_map_valid by (auto simp: pads_inv_def)
  note hit = this tc_ports.fetch_hit [OF assms(2,3)]
  show "run_state (gpio_set K ep (ipc K (gpio_dispatch V K)) 0 (GPIO_PIN port pin) value) st =
      (ULMK_OK K, st\<lparr>trace := trace st @
        [Dev (Drv (if value \<noteq> 0 then IfxPort_setPinHigh a pin else IfxPort_setPinLow a pin))]\<rparr>)"
    using assms(1,4) hit
    by (simp add: gpio_set_def gpio_call_def ipc_def gpio_dispatch_def do_set_def pinmux_port_tc_def
        gpio_reply_def const_defs enc_GPIO_PIN ucast_word_pin del: One_nat_def)
  show "run_state (gpio_get K ep (ipc K (gpio_dispatch V K)) 0 (GPIO_PIN port pin) (Some v)) st =
      (let r = Dev (Drv (IfxPort_getPinState a pin)) in
       ((ULMK_OK K, Some (if answer st (trace st) r \<noteq> 0 then 1 else 0)), st\<lparr>trace := trace st @ [r]\<rparr>))"
    using assms(1,4) hit
    by (simp add: gpio_get_def gpio_call_def ipc_def gpio_dispatch_def do_get_def pinmux_port_tc_def
        gpio_reply_def const_defs enc_GPIO_PIN ucast_word_pin del: One_nat_def)
  show "run_state (gpio_config K ep (ipc K (gpio_dispatch V K)) 0 (GPIO_PIN port pin) dir pull) st =
      run_state (pinmux_apply_tc V K (Some \<lparr>cfg_port = port, cfg_pin = pin,
        cfg_dir = (if dir = 0 then PINMUX_DIR_IN else PINMUX_DIR_OUT), cfg_pull = ucast pull,
        cfg_alt = PINMUX_ALT_GPIO, cfg_flags = 0\<rparr>)) st"
    using assms(1,4)
    by (simp add: gpio_config_def gpio_call_def ipc_def gpio_dispatch_def do_config_def
        gpio_reply_def const_defs enc_GPIO_PIN ucast_word_pin split: prod.splits del: One_nat_def)
qed

theorem gpio_client_pads_witness:
  "fst (run_state (gpio_get sample_abi 7 (ipc sample_abi (gpio_dispatch sample_vendor sample_abi)) 0
     (GPIO_PIN 20 13) (Some 0))
     (snd (run_state (map_port_once_tc sample_vendor 20) (gpio_boot (\<lambda>_ _. 0x5000))))) = (0, Some 1)"
proof -
  let ?s = "snd (run_state (map_port_once_tc sample_vendor 20) (gpio_boot (\<lambda>_ _. 0x5000)))"
  have inv: "pads_inv sample_vendor (gpio_boot (\<lambda>_ _. 0x5000))"
    using gpio_inv_boot by (simp add: gpio_inv_def)
  have run: "run_state (map_port_once_tc sample_vendor 20) (gpio_boot (\<lambda>_ _. 0x5000)) = (0x5000, ?s)"
    using cache_wf_free(2) [of PINMUX_PORT_SLOTS_TC] sample_vendor_ok
    by (simp add: map_port_once_tc_def gpio_boot_def cache_map_def fun_eq_iff illd_port_module_def
        vendor_ok_def illd_ports_def)
  have ans: "answer ?s = (\<lambda>_ _. 0x5000)"
    using cache_wf_free(2) [of PINMUX_PORT_SLOTS_TC] sample_vendor_ok
    by (simp add: map_port_once_tc_def gpio_boot_def cache_map_def fun_eq_iff illd_port_module_def
        vendor_ok_def illd_ports_def)
  from tc_ports.fetch_records [OF inv run]
  have "pads_inv sample_vendor ?s" "port_map_tc ?s 20 = Some 0x5000"
    by simp_all
  from gpio_client_pads [OF sample_abi_ok this, of 7] ans show ?thesis
    by (simp add: sample_abi_def)
qed

end
