(* ===== verification/Can_Tc275.thy ===== *)
theory Can_Tc275
  imports Pinmux_Tc275
begin

text \<open>
  The CAN driver of the TC275 board: \<^verbatim>\<open>tc275_lite/drivers/can/src/server.c\<close> and \<^verbatim>\<open>client.c\<close>.
  The server programs the MultiCAN node and two message objects, sends and receives frames;
  the client packs a frame into the four words of a message.

  The registers are those of the vendor's library, which is not part of this repository: a
  register or a bit field is an action by its name in the code, the addresses of nodes and
  message objects and the positions of the status flags are the record \<open>can_vendor\<close>.
\<close>

section \<open>The vendor's library\<close>

datatype mo_flag = Flag_messageValid | Flag_newData | Flag_transmitRequest | Flag_receivePending

record can_vendor =
  can_pads :: tc_vendor
  node_pointer :: "u32 \<Rightarrow> nat \<Rightarrow> u32"
  mo_pointer :: "u32 \<Rightarrow> nat \<Rightarrow> u32"
  flag_pos :: "mo_flag \<Rightarrow> u32"

datatype mo_reg = MO_CTR | MO_FCR | MO_FGPR | MO_IPR | MO_AMR | MO_DATAL | MO_DATAH | MO_AR
datatype mo_field = STAT_TXRQ | STAT_MSGVAL | STAT_LIST | STAT_NEWDAT | STAT_RXEN | AR_ID | FCR_DLC
datatype node_reg = N_CR | N_IPR | N_ECNT | N_PCR | N_BTR
datatype node_field = CR_CCE | CR_INIT | PCR_LBM | SR_TXOK | SR_RXOK | SR_LEC

datatype can_act =
    Mo_write u32 mo_reg u32
  | Mo_read u32 mo_reg
  | Mo_field u32 mo_field
  | Node_write u32 node_reg u32
  | Node_field_write u32 node_field u32
  | Node_field u32 node_field
  | PANCTR_write u32 u32 u32
  | PANCTR_BUSY
  | MCR_CLKSEL
  | MCR_CLKSEL_write u32
  | FDR_write u32
  | CLC_DISS
  | IfxMultican_waitListReady
  | IfxMultican_clearPendingMessageNotification u32
  | IfxMultican_clearMessagePendingSeletor
  | IfxMultican_setMessageIndexMask u32
  | IfxMultican_MsgObj_setMessageId u32 u32
  | IfxMultican_MsgObj_setDataLengthCode u32 u8
  | OMR_write u32 u32

section \<open>Constants and state\<close>

definition ULMK_BOARD_CAN_MAX :: u8 where [const_defs]: "ULMK_BOARD_CAN_MAX = 1"
definition CAN_MSG_SEND :: u32 where [const_defs]: "CAN_MSG_SEND = 1"
definition CAN_MSG_RECV :: u32 where [const_defs]: "CAN_MSG_RECV = 2"
definition CAN_STACK :: u32 where "CAN_STACK = 2048"
definition CAN_MAP_SIZE :: u32 where "CAN_MAP_SIZE = 0x2000"
definition CAN_NOTIF_RX :: nat where "CAN_NOTIF_RX = 0"
definition CAN_SRPN :: u32 where "CAN_SRPN = 6"
definition CAN_SRC :: u32 where "CAN_SRC = 0xF0038900"
definition CAN_MO_TX :: nat where "CAN_MO_TX = 0"
definition CAN_MO_RX :: nat where "CAN_MO_RX = 1"
definition CAN_BTR_500K :: u32 where "CAN_BTR_500K = 0x3EC9"
definition ULMK_BOARD_CAN_BASE :: u32 where "ULMK_BOARD_CAN_BASE = 0xF0018000"

record can_frame =
  fr_id :: u32
  fr_dlc :: u8
  fr_data :: "u8 list"

record can_board_cfg =
  cc_tx_port :: u8
  cc_tx_pin :: u8
  cc_tx_alt :: u8
  cc_rx_port :: u8
  cc_rx_pin :: u8
  cc_rx_alti :: u8
  cc_nen_port :: u8
  cc_nen_pin :: u8
  cc_loopback :: u8

record can_args =
  ca_n :: u8
  ca_cfg :: can_board_cfg
  ca_bitrate :: u32
  ca_ep :: u32
  ca_irq_notif :: u32

record can_st = "can_act pads_tc" +
  g_can_ep :: u32
  g_args :: can_args
  g_mcan :: u32
  g_mo_tx :: u32
  g_mo_rx :: u32

abbreviation act :: "can_act \<Rightarrow> (can_st, unit) state" where
  "act a \<equiv> dev_do (Drv a)"

abbreviation sense :: "can_act \<Rightarrow> (can_st, u32) state" where
  "sense a \<equiv> dev (Drv a)"

section \<open>Bytes and words\<close>

text \<open>Four bytes of a frame as a word, least significant first, and back.\<close>

definition pack4 :: "u8 list \<Rightarrow> nat \<Rightarrow> u32" where
  "pack4 d i = ucast (d ! i) OR push_bit 8 (ucast (d ! (i + 1))) OR
     push_bit 16 (ucast (d ! (i + 2))) OR push_bit 24 (ucast (d ! (i + 3)))"

definition unpack4 :: "u32 \<Rightarrow> u8 list" where
  "unpack4 w = [ucast (w AND 0xFF), ucast (drop_bit 8 w AND 0xFF), ucast (drop_bit 16 w AND 0xFF),
     ucast (drop_bit 24 w AND 0xFF)]"

section \<open>Bring-up of the hardware\<close>

definition mo_clr :: "can_vendor \<Rightarrow> u32 \<Rightarrow> mo_flag \<Rightarrow> (can_st, unit) state" where
  "mo_clr V mo flag = act (Mo_write mo MO_CTR (push_bit (unat (flag_pos V flag)) 1))"

definition mo_set :: "can_vendor \<Rightarrow> u32 \<Rightarrow> mo_flag \<Rightarrow> (can_st, unit) state" where
  "mo_set V mo flag = act (Mo_write mo MO_CTR (push_bit (unat (flag_pos V flag + 16)) 1))"

text \<open>
  \<^verbatim>\<open>while (BUSY) { spin++; if (spin > 1000000) return ETIMEOUT; }\<close>: the fuel is the number of busy
  answers still tolerated, so the register is read at most 1000001 times.
\<close>

fun panel_wait :: "ulmk_abi \<Rightarrow> nat \<Rightarrow> (can_st, cint) state" where
  "panel_wait K 0 = do { busy \<leftarrow> sense PANCTR_BUSY; ret (if busy \<noteq> 0 then ULMK_ETIMEOUT K else ULMK_OK K) }"
| "panel_wait K (Suc n) = do {
     busy \<leftarrow> sense PANCTR_BUSY;
     if busy \<noteq> 0 then panel_wait K n else ret (ULMK_OK K)
   }"

definition panel_cmd :: "ulmk_abi \<Rightarrow> u32 \<Rightarrow> u32 \<Rightarrow> u32 \<Rightarrow> (can_st, cint) state" where
  "panel_cmd K cmd arg2 arg1 = do {
     act (PANCTR_write cmd arg2 arg1);
     panel_wait K 1000000
   }"

definition pin_nen_low :: "can_vendor \<Rightarrow> ulmk_abi \<Rightarrow> u8 \<Rightarrow> u8 \<Rightarrow> (can_st, unit) state" where
  "pin_nen_low V K port pin =
     (if port = 0xFF then ret ()
      else do {
        _ \<leftarrow> pinmux_apply_tc (can_pads V) K (Some \<lparr>cfg_port = port, cfg_pin = pin, cfg_dir = PINMUX_DIR_OUT,
          cfg_pull = PINMUX_PULL_NONE, cfg_alt = PINMUX_ALT_GPIO, cfg_flags = 0\<rparr>);
        p \<leftarrow> pinmux_port_tc (can_pads V) port;
        when_do (p \<noteq> 0) (act (OMR_write p (push_bit (16 + unat pin) 1)))
      })"

definition pinmux_can :: "can_vendor \<Rightarrow> ulmk_abi \<Rightarrow> can_board_cfg \<Rightarrow> (can_st, unit) state" where
  "pinmux_can V K cfg = do {
     _ \<leftarrow> pinmux_apply_tc (can_pads V) K (Some \<lparr>cfg_port = cc_tx_port cfg, cfg_pin = cc_tx_pin cfg,
       cfg_dir = PINMUX_DIR_OUT, cfg_pull = PINMUX_PULL_NONE, cfg_alt = cc_tx_alt cfg, cfg_flags = 0\<rparr>);
     _ \<leftarrow> pinmux_apply_tc (can_pads V) K (Some \<lparr>cfg_port = cc_rx_port cfg, cfg_pin = cc_rx_pin cfg,
       cfg_dir = PINMUX_DIR_IN, cfg_pull = PINMUX_PULL_UP, cfg_alt = PINMUX_ALT_GPIO, cfg_flags = 0\<rparr>);
     pin_nen_low V K (cc_nen_port cfg) (cc_nen_pin cfg)
   }"

definition bitrate_to_btr :: "u32 \<Rightarrow> u32" where
  "bitrate_to_btr bitrate = (if bitrate = 250000 then 0x3ED3
     else if bitrate = 125000 then 0x3EE7 else CAN_BTR_500K)"

definition node_prepare :: "u32 \<Rightarrow> u32 \<Rightarrow> bool \<Rightarrow> u8 \<Rightarrow> (can_st, unit) state" where
  "node_prepare node btr loopback rxsel = do {
     act (Node_write node N_CR 0x41);
     act (Node_write node N_IPR 0);
     act (Node_write node N_ECNT 0x600000);
     act (Node_write node N_PCR ((if loopback then push_bit 8 1 else 0) OR ucast (rxsel AND 0x7)));
     act (Node_write node N_BTR btr)
   }"

definition node_start :: "u32 \<Rightarrow> (can_st, unit) state" where
  "node_start node = do {
     act (Node_field_write node CR_CCE 0);
     act (Node_field_write node CR_INIT 0)
   }"

definition mo_init_tx :: "ulmk_abi \<Rightarrow> u32 \<Rightarrow> u8 \<Rightarrow> u32 \<Rightarrow> (can_st, cint) state" where
  "mo_init_tx K mo lst mid = do {
     act (Mo_write mo MO_CTR 0xFFFF);
     rc \<leftarrow> panel_cmd K 2 (ucast lst) (of_nat CAN_MO_TX);
     if rc \<noteq> ULMK_OK K then ret (ULMK_ETIMEOUT K)
     else do {
       act (Mo_write mo MO_FCR (push_bit 24 8));
       act (Mo_write mo MO_FGPR 0);
       act (Mo_write mo MO_IPR (push_bit 8 (of_nat CAN_MO_TX)));
       act (Mo_write mo MO_AMR 0x3FFFFFFF);
       act (Mo_write mo MO_DATAL 0);
       act (Mo_write mo MO_DATAH 0);
       act (Mo_write mo MO_AR (push_bit 30 1 OR push_bit 18 (mid AND 0x7FF)));
       act (Mo_write mo MO_CTR (push_bit 27 1 OR push_bit 26 1 OR push_bit 25 1 OR push_bit 21 1));
       ret (ULMK_OK K)
     }
   }"

definition mo_init_rx :: "ulmk_abi \<Rightarrow> u32 \<Rightarrow> u8 \<Rightarrow> u32 \<Rightarrow> (can_st, cint) state" where
  "mo_init_rx K mo lst mid = do {
     act (Mo_write mo MO_CTR 0xFFFF);
     rc \<leftarrow> panel_cmd K 2 (ucast lst) (of_nat CAN_MO_RX);
     if rc \<noteq> ULMK_OK K then ret (ULMK_ETIMEOUT K)
     else do {
       act (Mo_write mo MO_FCR (push_bit 16 1 OR push_bit 24 8));
       act (Mo_write mo MO_FGPR 0);
       act (Mo_write mo MO_IPR (push_bit 8 (of_nat CAN_MO_RX)));
       act (Mo_write mo MO_AMR 0x3FFFFFFF);
       act (Mo_write mo MO_DATAL 0);
       act (Mo_write mo MO_DATAH 0);
       act (Mo_write mo MO_AR (push_bit 30 1 OR push_bit 18 (mid AND 0x7FF)));
       act (Mo_write mo MO_CTR (push_bit 23 1 OR push_bit 21 1));
       ret (ULMK_OK K)
     }
   }"

definition hw_start :: "can_vendor \<Rightarrow> ulmk_abi \<Rightarrow> can_board_cfg \<Rightarrow> u32 \<Rightarrow> (can_st, cint) state" where
  "hw_start V K cfg bitrate = do {
     pinmux_can V K cfg;
     clksel \<leftarrow> sense MCR_CLKSEL;
     when_do (clksel = 0) (do {
       act (MCR_CLKSEL_write 0);
       act (MCR_CLKSEL_write 1);
       act (FDR_write (push_bit 14 1 OR 1023))
     });
     act IfxMultican_waitListReady;
     for_each [0..<8] (\<lambda>i. act (IfxMultican_clearPendingMessageNotification (of_nat i)));
     act IfxMultican_clearMessagePendingSeletor;
     act (IfxMultican_setMessageIndexMask 0xFFFFFFFF);
     let btr = bitrate_to_btr (if bitrate \<noteq> 0 then bitrate else 500000);
     mcan \<leftarrow> gets g_mcan;
     let node_tx = node_pointer V mcan 0;
     let node_rx = node_pointer V mcan 1;
     (if cc_loopback cfg \<noteq> 0 then do {
        node_prepare node_tx btr True (cc_rx_alti cfg);
        node_prepare node_rx btr True 0
      } else node_prepare node_tx btr False (cc_rx_alti cfg));
     let list_tx = 1;
     let list_rx = (if cc_loopback cfg \<noteq> 0 then 2 else 1);
     modify (\<lambda>st. st\<lparr>g_mo_tx := mo_pointer V mcan CAN_MO_TX\<rparr>);
     modify (\<lambda>st. st\<lparr>g_mo_rx := mo_pointer V mcan CAN_MO_RX\<rparr>);
     rc \<leftarrow> mo_init_tx K (mo_pointer V mcan CAN_MO_TX) list_tx 0x321;
     if rc \<noteq> ULMK_OK K then ret rc
     else do {
       rc \<leftarrow> mo_init_rx K (mo_pointer V mcan CAN_MO_RX) list_rx 0x321;
       if rc \<noteq> ULMK_OK K then ret rc
       else do {
         node_start node_tx;
         when_do (cc_loopback cfg \<noteq> 0) (node_start node_rx);
         ret (ULMK_OK K)
       }
     }
   }"

text \<open>The diagnostic word: the fields in the order in which they are read, with mask and shift.\<close>

definition diag_fields :: "can_vendor \<Rightarrow> u32 \<Rightarrow> u32 \<Rightarrow> u32 \<Rightarrow> (can_act \<times> u32 \<times> nat) list" where
  "diag_fields V mcan tx rx =
     (let n0 = node_pointer V mcan 0; n1 = node_pointer V mcan 1 in
      [(MCR_CLKSEL, 0xF, 0), (Node_field n0 PCR_LBM, 1, 4), (Node_field n1 PCR_LBM, 1, 5),
       (Node_field n0 CR_INIT, 1, 6), (Node_field n1 CR_INIT, 1, 7), (Mo_field tx STAT_TXRQ, 1, 8),
       (Mo_field tx STAT_MSGVAL, 1, 9), (Mo_field tx STAT_LIST, 0xF, 10),
       (Mo_field rx STAT_NEWDAT, 1, 14), (Mo_field rx STAT_RXEN, 1, 15),
       (Mo_field rx STAT_LIST, 0xF, 16), (Node_field n0 SR_TXOK, 1, 20),
       (Node_field n0 SR_RXOK, 1, 21), (Node_field n1 SR_RXOK, 1, 22),
       (Node_field n0 SR_LEC, 7, 23), (Node_field n1 SR_LEC, 7, 26), (CLC_DISS, 1, 29)])"

definition hw_diag :: "can_vendor \<Rightarrow> (can_st, u32) state" where
  "hw_diag V = do {
     st \<leftarrow> gets (\<lambda>st. st);
     parts \<leftarrow> collect (diag_fields V (g_mcan st) (g_mo_tx st) (g_mo_rx st))
       (\<lambda>(a, m, k). do { v \<leftarrow> sense a; ret (push_bit k (v AND m)) });
     ret (foldl (OR) 0 parts)
   }"

section \<open>Frames\<close>

text \<open>
  The wait after a transmission, \<^verbatim>\<open>for (spin = 0; spin < 200000; spin++)\<close>, with fuel
  \<open>200000 - spin\<close>: \<open>True\<close> when the function returned from inside the loop.
\<close>

fun tx_poll :: "u32 \<Rightarrow> u32 \<Rightarrow> nat \<Rightarrow> (can_st, bool) state" where
  "tx_poll tx rx 0 = ret False"
| "tx_poll tx rx (Suc n) = do {
     newdat \<leftarrow> sense (Mo_field rx STAT_NEWDAT);
     if newdat \<noteq> 0 then ret True
     else if 200000 - Suc n > 50000 then do {
       txrq \<leftarrow> sense (Mo_field tx STAT_TXRQ);
       if txrq = 0 then do {
         newdat \<leftarrow> sense (Mo_field rx STAT_NEWDAT);
         if newdat = 0 then ret False else tx_poll tx rx n
       } else tx_poll tx rx n
     } else tx_poll tx rx n
   }"

definition tx_frame :: "can_vendor \<Rightarrow> ulmk_abi \<Rightarrow> can_frame \<Rightarrow> (can_st, cint) state" where
  "tx_frame V K f = do {
     tx \<leftarrow> gets g_mo_tx;
     rx \<leftarrow> gets g_mo_rx;
     txrq \<leftarrow> sense (Mo_field tx STAT_TXRQ);
     if txrq \<noteq> 0 then ret (ULMK_ETIMEOUT K)
     else do {
       mo_clr V tx Flag_messageValid;
       act (Mo_write tx MO_DATAL (pack4 (fr_data f) 0));
       act (Mo_write tx MO_DATAH (pack4 (fr_data f) 4));
       act (IfxMultican_MsgObj_setMessageId tx (fr_id f));
       act (IfxMultican_MsgObj_setDataLengthCode tx (fr_dlc f));
       mo_set V tx Flag_newData;
       mo_set V tx Flag_messageValid;
       mo_set V tx Flag_transmitRequest;
       seen \<leftarrow> tx_poll tx rx 200000;
       if seen then ret (ULMK_OK K)
       else do {
         newdat \<leftarrow> sense (Mo_field rx STAT_NEWDAT);
         ret (if newdat \<noteq> 0 then ULMK_OK K else ULMK_ETIMEOUT K)
       }
     }
   }"

text \<open>The frame is written through the pointer only when the result is OK.\<close>

definition rx_frame :: "can_vendor \<Rightarrow> ulmk_abi \<Rightarrow> (can_st, cint \<times> can_frame option) state" where
  "rx_frame V K = do {
     rx \<leftarrow> gets g_mo_rx;
     newdat \<leftarrow> sense (Mo_field rx STAT_NEWDAT);
     if newdat = 0 then ret (ULMK_ETIMEOUT K, None)
     else do {
       lo \<leftarrow> sense (Mo_read rx MO_DATAL);
       hi \<leftarrow> sense (Mo_read rx MO_DATAH);
       arid \<leftarrow> sense (Mo_field rx AR_ID);
       dlc \<leftarrow> sense (Mo_field rx FCR_DLC);
       mo_clr V rx Flag_newData;
       mo_clr V rx Flag_receivePending;
       kern_do (Irq_ack CAN_SRPN);
       ret (ULMK_OK K, Some \<lparr>fr_id = drop_bit 18 arid,
         fr_dlc = (if (ucast dlc :: u8) > 8 then 8 else ucast dlc), fr_data = unpack4 lo @ unpack4 hi\<rparr>)
     }
   }"

section \<open>The server\<close>

definition can_reply :: "u32 \<Rightarrow> u32 \<Rightarrow> u32 \<Rightarrow> u32 \<Rightarrow> msg" where
  "can_reply w0 w1 w2 w3 = \<lparr>label = 0, words = (\<lambda>_. 0)(0 := w0, 1 := w1, 2 := w2, 3 := w3)\<rparr>"

definition can_dispatch :: "can_vendor \<Rightarrow> ulmk_abi \<Rightarrow> msg \<Rightarrow> (can_st, msg) state" where
  "can_dispatch V K m =
     (if label m = CAN_MSG_SEND then do {
        let frame = \<lparr>fr_id = words m 0, fr_dlc = ucast (words m 1),
          fr_data = unpack4 (words m 2) @ unpack4 (words m 3)\<rparr>;
        if fr_dlc frame > 8 then ret (can_reply (ULMK_EINVAL K) 0 0 0)
        else do {
          rc \<leftarrow> tx_frame V K frame;
          diag \<leftarrow> (if rc \<noteq> ULMK_OK K then hw_diag V else ret 0);
          ret (can_reply rc diag 0 0)
        }
      } else if label m = CAN_MSG_RECV then do {
        rx \<leftarrow> gets g_mo_rx;
        a \<leftarrow> gets g_args;
        newdat \<leftarrow> sense (Mo_field rx STAT_NEWDAT);
        rc \<leftarrow> (if newdat = 0 then do {
            kern_do (Irq_ack CAN_SRPN);
            kern (Notif_wait (ca_irq_notif a) (push_bit CAN_NOTIF_RX 1))
          } else ret (ULMK_OK K));
        if rc \<noteq> ULMK_OK K then ret (can_reply rc 0 0 0)
        else do {
          (rc, frame) \<leftarrow> rx_frame V K;
          ret (case frame of
              Some f \<Rightarrow> can_reply rc (fr_id f OR push_bit 16 (ucast (fr_dlc f)))
                (pack4 (fr_data f) 0) (pack4 (fr_data f) 4)
            | None \<Rightarrow> can_reply rc 0 0 0)
        }
      } else ret (can_reply (ULMK_EINVAL K) 0 0 0))"

text \<open>The start of the server thread; \<open>False\<close> is the idle loop it ends in when it fails.\<close>

definition can_server_start :: "can_vendor \<Rightarrow> ulmk_abi \<Rightarrow> (can_st, bool) state" where
  "can_server_start V K = do {
     mapped \<leftarrow> kern (Mem_map ULMK_BOARD_CAN_BASE CAN_MAP_SIZE);
     if mapped = 0 then ret False
     else do {
       modify (\<lambda>st. st\<lparr>g_mcan := mapped\<rparr>);
       a \<leftarrow> gets g_args;
       rc \<leftarrow> hw_start V K (ca_cfg a) (ca_bitrate a);
       ret (rc = ULMK_OK K)
     }
   }"

definition can_board :: "bool \<Rightarrow> can_board_cfg" where
  "can_board loopback = \<lparr>cc_tx_port = 20, cc_tx_pin = 8, cc_tx_alt = 5, cc_rx_port = 20, cc_rx_pin = 7,
     cc_rx_alti = 1, cc_nen_port = 20, cc_nen_pin = 6, cc_loopback = (if loopback then 1 else 0)\<rparr>"

definition can_init :: "ulmk_abi \<Rightarrow> u8 \<Rightarrow> u32 \<Rightarrow> bool \<Rightarrow> (can_st, u32) state" where
  "can_init K n bitrate loopback = do {
     cur \<leftarrow> gets g_can_ep;
     if n \<ge> ULMK_BOARD_CAN_MAX \<or> cur \<noteq> ULMK_EP_INVALID K then ret (ULMK_TID_INVALID K)
     else do {
       ep \<leftarrow> kern Ep_create;
       if ep = ULMK_EP_INVALID K then ret (ULMK_TID_INVALID K)
       else do {
         notif \<leftarrow> kern Notif_create;
         if notif = ULMK_NOTIF_INVALID K then do { kern_do (Ep_destroy ep); ret (ULMK_TID_INVALID K) }
         else do {
           modify (\<lambda>st. st\<lparr>g_args := \<lparr>ca_n = n, ca_cfg = can_board loopback,
             ca_bitrate = (if bitrate \<noteq> 0 then bitrate else 500000), ca_ep = ep, ca_irq_notif = notif\<rparr>\<rparr>);
           rc \<leftarrow> kern (Irq_bind_hw CAN_SRPN notif (of_nat CAN_NOTIF_RX) CAN_SRC);
           if rc \<noteq> ULMK_OK K then ret (ULMK_TID_INVALID K)
           else do {
             rc \<leftarrow> kern (Irq_enable CAN_SRPN);
             if rc \<noteq> ULMK_OK K then ret (ULMK_TID_INVALID K)
             else do {
               tid \<leftarrow> kern (Thread_create ''can'' 3 CAN_STACK);
               if tid = ULMK_TID_INVALID K then do { kern_do (Ep_destroy ep); ret (ULMK_TID_INVALID K) }
               else do {
                 kern_do (Cap_grant tid ''MAP_PERIPH'');
                 kern_do (Cap_grant tid ''IRQ'');
                 modify (\<lambda>st. st\<lparr>g_can_ep := ep\<rparr>);
                 ret tid
               }
             }
           }
         }
       }
     }
   }"

section \<open>The client\<close>

text \<open>
  \<open>g_can_last_diag\<close> is the client's own variable: the calls take its value and return the new one.
  A word that the client leaves uninitialised is 0 here; the server reads none of them.
\<close>

definition can_last_diag :: "u32 \<Rightarrow> u32" where
  "can_last_diag g_can_last_diag = g_can_last_diag"

definition can_send :: "ulmk_abi \<Rightarrow> u32 \<Rightarrow> 's ep_call \<Rightarrow> u8 \<Rightarrow> can_frame option \<Rightarrow> u32 \<Rightarrow> ('s, cint \<times> u32) state" where
  "can_send K ep call n frame diag =
     (case frame of
        None \<Rightarrow> ret (ULMK_ESRCH K, diag)
      | Some f \<Rightarrow>
          if n \<ge> ULMK_BOARD_CAN_MAX \<or> ep = ULMK_EP_INVALID K then ret (ULMK_ESRCH K, diag)
          else if fr_dlc f > 8 then ret (ULMK_EINVAL K, diag)
          else do {
            (rc, m) \<leftarrow> call \<lparr>label = CAN_MSG_SEND, words = (\<lambda>_. 0)(0 := fr_id f, 1 := ucast (fr_dlc f),
              2 := pack4 (fr_data f) 0, 3 := pack4 (fr_data f) 4)\<rparr>;
            if rc \<noteq> ULMK_OK K then ret (rc, diag) else ret (words m 0, words m 1)
          })"

text \<open>The frame buffer of the caller: \<open>None\<close> is \<open>NULL\<close>, the result is the buffer after the call.\<close>

definition can_recv :: "ulmk_abi \<Rightarrow> u32 \<Rightarrow> 's ep_call \<Rightarrow> u8 \<Rightarrow> can_frame option \<Rightarrow> ('s, cint \<times> can_frame option) state" where
  "can_recv K ep call n frame =
     (if frame = None \<or> n \<ge> ULMK_BOARD_CAN_MAX \<or> ep = ULMK_EP_INVALID K then ret (ULMK_ESRCH K, frame)
      else do {
        (rc, m) \<leftarrow> call \<lparr>label = CAN_MSG_RECV, words = (\<lambda>_. 0)\<rparr>;
        if rc \<noteq> ULMK_OK K then ret (rc, frame)
        else if words m 0 \<noteq> ULMK_OK K then ret (words m 0, frame)
        else do {
          let id_dlc = words m 1;
          ret (ULMK_OK K, Some \<lparr>fr_id = id_dlc AND 0x1FFF, fr_dlc = ucast (drop_bit 16 id_dlc AND 0xF),
            fr_data = unpack4 (words m 2) @ unpack4 (words m 3)\<rparr>)
        }
      })"

section \<open>Packing\<close>

lemma unpack4_pack4: "unpack4 (pack4 d i) = [d ! i, d ! (i + 1), d ! (i + 2), d ! (i + 3)]"
  unfolding unpack4_def pack4_def ucast_low_byte by (auto intro!: bit_eqI simp: bit_simps)

lemma bytes8: "length d = 8 \<Longrightarrow> [d ! 0, d ! 1, d ! 2, d ! 3, d ! 4, d ! 5, d ! 6, d ! 7] = d"
  by (rule nth_equalityI) (auto simp: less_Suc_eq numeral_eq_Suc)

lemma frame_unpack: "length d = 8 \<Longrightarrow> unpack4 (pack4 d 0) @ unpack4 (pack4 d 4) = d"
  using bytes8 [of d] by (simp add: unpack4_pack4 numeral_2_eq_2 [symmetric])

lemma pack4_unpack4:
  "pack4 (unpack4 lo @ ys) 0 = lo" "pack4 (unpack4 lo @ unpack4 hi) 4 = hi"
proof -
  have w: "ucast (ucast w :: u8) OR push_bit 8 (ucast (ucast (drop_bit 8 w) :: u8)) OR
      push_bit 16 (ucast (ucast (drop_bit 16 w) :: u8)) OR
      push_bit 24 (ucast (ucast (drop_bit 24 w) :: u8)) = w" for w :: u32
  proof (rule bit_eqI)
    fix n :: nat
    consider "n < 8" | "8 \<le> n" "n < 16" | "16 \<le> n" "n < 24" | "24 \<le> n" "n < 32" | "32 \<le> n"
      by linarith
    then show "bit (ucast (ucast w :: u8) OR push_bit 8 (ucast (ucast (drop_bit 8 w) :: u8)) OR
        push_bit 16 (ucast (ucast (drop_bit 16 w) :: u8)) OR
        push_bit 24 (ucast (ucast (drop_bit 24 w) :: u8)) :: u32) n \<longleftrightarrow> bit w n"
      by cases (auto simp: bit_simps)
  qed
  show "pack4 (unpack4 lo @ ys) 0 = lo" "pack4 (unpack4 lo @ unpack4 hi) 4 = hi"
    unfolding pack4_def unpack4_def ucast_low_byte using w [of lo] w [of hi] by (simp_all add: eval_nat_numeral)
qed

section \<open>Waiting only reads\<close>

definition is_sense :: "can_act tc_act event \<Rightarrow> bool" where
  "is_sense e \<longleftrightarrow> (case e of Dev (Drv a) \<Rightarrow>
     (case a of Mo_field _ _ \<Rightarrow> True | Node_field _ _ \<Rightarrow> True | MCR_CLKSEL \<Rightarrow> True | CLC_DISS \<Rightarrow> True
      | _ \<Rightarrow> False) | _ \<Rightarrow> False)"

definition only_reads :: "(can_st, 'a) state \<Rightarrow> bool" where
  "only_reads m \<longleftrightarrow> (\<forall>s. \<exists>es. snd (run_state m s) = s\<lparr>trace := trace s @ es\<rparr> \<and> list_all is_sense es)"

named_theorems reads_intros \<open>operations that only read registers\<close>

lemma only_reads_basic [reads_intros]:
  "only_reads (ret a)" "only_reads (gets f)" "is_sense (Dev d) \<Longrightarrow> only_reads (dev d)"
  by (auto simp: only_reads_def intro: exI [of _ "[]"])

lemma only_reads_bind [reads_intros]:
  assumes "only_reads m" "\<And>a. only_reads (f a)"
  shows "only_reads (State_Monad.bind m f)"
  unfolding only_reads_def
proof
  fix s
  obtain a s1 where m: "run_state m s = (a, s1)"
    by (cases "run_state m s")
  with assms(1) obtain es where es: "s1 = s\<lparr>trace := trace s @ es\<rparr>" "list_all is_sense es"
    unfolding only_reads_def by (metis snd_conv)
  from assms(2) obtain es' where "snd (run_state (f a) s1) = s1\<lparr>trace := trace s1 @ es'\<rparr>" "list_all is_sense es'"
    unfolding only_reads_def by metis
  with m es show "\<exists>es. snd (run_state (State_Monad.bind m f) s) = s\<lparr>trace := trace s @ es\<rparr> \<and> list_all is_sense es"
    by (intro exI [of _ "es @ es'"]) simp
qed

lemma only_reads_if [reads_intros]: "only_reads m \<Longrightarrow> only_reads n \<Longrightarrow> only_reads (if b then m else n)"
  by simp

lemma only_reads_collect [reads_intros]:
  "(\<And>x. x \<in> set xs \<Longrightarrow> only_reads (f x)) \<Longrightarrow> only_reads (collect xs f)"
  by (induction xs) (auto intro!: reads_intros)

lemma only_reads_tx_poll [reads_intros]: "only_reads (tx_poll tx rx n)"
  by (induction n) (auto intro!: reads_intros simp: is_sense_def)

lemma diag_fields_sense: "(a, m, k) \<in> set (diag_fields V mcan tx rx) \<Longrightarrow> is_sense (Dev (Drv a))"
  by (auto simp: diag_fields_def Let_def is_sense_def)

lemma only_reads_hw_diag [reads_intros]: "only_reads (hw_diag V)"
  unfolding hw_diag_def
  by (intro reads_intros) (auto intro!: reads_intros diag_fields_sense split: prod.splits)

section \<open>Sending\<close>

text \<open>The program of a transmission: the object is taken out of service, filled, and released.\<close>

definition tx_program :: "can_vendor \<Rightarrow> u32 \<Rightarrow> can_frame \<Rightarrow> can_act tc_act event list" where
  "tx_program V tx f = map (\<lambda>a. Dev (Drv a))
     [Mo_write tx MO_CTR (push_bit (unat (flag_pos V Flag_messageValid)) 1),
      Mo_write tx MO_DATAL (pack4 (fr_data f) 0), Mo_write tx MO_DATAH (pack4 (fr_data f) 4),
      IfxMultican_MsgObj_setMessageId tx (fr_id f), IfxMultican_MsgObj_setDataLengthCode tx (fr_dlc f),
      Mo_write tx MO_CTR (push_bit (unat (flag_pos V Flag_newData + 16)) 1),
      Mo_write tx MO_CTR (push_bit (unat (flag_pos V Flag_messageValid + 16)) 1),
      Mo_write tx MO_CTR (push_bit (unat (flag_pos V Flag_transmitRequest + 16)) 1)]"

abbreviation txrq :: "can_st \<Rightarrow> can_act tc_act event" where
  "txrq st \<equiv> Dev (Drv (Mo_field (g_mo_tx st) STAT_TXRQ))"

abbreviation newdat :: "can_st \<Rightarrow> can_act tc_act event" where
  "newdat st \<equiv> Dev (Drv (Mo_field (g_mo_rx st) STAT_NEWDAT))"

text \<open>What follows the program: the wait, and the diagnostic word when it fails.\<close>

definition tx_tail :: "ulmk_abi \<Rightarrow> u32 \<Rightarrow> u32 \<Rightarrow> (can_st, cint) state" where
  "tx_tail K tx rx = do {
     seen \<leftarrow> tx_poll tx rx 200000;
     if seen then ret (ULMK_OK K)
     else do {
       newdat \<leftarrow> sense (Mo_field rx STAT_NEWDAT);
       ret (if newdat \<noteq> 0 then ULMK_OK K else ULMK_ETIMEOUT K)
     }
   }"

lemma run_tx_frame:
  assumes "answer st (trace st) (txrq st) = 0"
  shows "run_state (tx_frame V K f) st = run_state (tx_tail K (g_mo_tx st) (g_mo_rx st))
    (st\<lparr>trace := trace st @ txrq st # tx_program V (g_mo_tx st) f\<rparr>)"
  using assms by (simp add: tx_frame_def tx_tail_def tx_program_def mo_clr_def mo_set_def)

definition send_tail :: "can_vendor \<Rightarrow> ulmk_abi \<Rightarrow> u32 \<Rightarrow> u32 \<Rightarrow> (can_st, cint \<times> u32) state" where
  "send_tail V K tx rx = do {
     rc \<leftarrow> tx_tail K tx rx;
     diag \<leftarrow> (if rc \<noteq> ULMK_OK K then hw_diag V else ret 0);
     ret (rc, diag)
   }"

lemma run_can_send:
  assumes "abi_ok K" "ep \<noteq> ULMK_EP_INVALID K" "fr_dlc f \<le> 8" "length (fr_data f) = 8"
    and "answer st (trace st) (txrq st) = 0"
  shows "run_state (can_send K ep (ipc K (can_dispatch V K)) 0 (Some f) d) st =
    run_state (send_tail V K (g_mo_tx st) (g_mo_rx st))
      (st\<lparr>trace := trace st @ txrq st # tx_program V (g_mo_tx st) f\<rparr>)"
proof -
  have dlc: "ucast (ucast (fr_dlc f) :: u32) = fr_dlc f"
    by (rule bit_eqI) (auto simp: bit_simps)
  have frame: "\<lparr>fr_id = fr_id f, fr_dlc = fr_dlc f, fr_data = fr_data f\<rparr> = f"
    by simp
  have le: "(8 < fr_dlc f) = False"
    using assms(3) by (simp add: not_less)
  obtain rc s1 where tail: "run_state (tx_tail K (g_mo_tx st) (g_mo_rx st))
      (st\<lparr>trace := trace st @ txrq st # tx_program V (g_mo_tx st) f\<rparr>) = (rc, s1)"
    by (cases "run_state (tx_tail K (g_mo_tx st) (g_mo_rx st))
      (st\<lparr>trace := trace st @ txrq st # tx_program V (g_mo_tx st) f\<rparr>)")
  obtain diag s2 where diag: "run_state (if rc \<noteq> ULMK_OK K then hw_diag V else ret 0) s1 = (diag, s2)"
    by (cases "run_state (if rc \<noteq> ULMK_OK K then hw_diag V else ret 0) s1")
  have "run_state (can_dispatch V K \<lparr>label = CAN_MSG_SEND, words = (\<lambda>_. 0)(0 := fr_id f,
      1 := ucast (fr_dlc f), 2 := pack4 (fr_data f) 0, 3 := pack4 (fr_data f) 4)\<rparr>) st =
      (can_reply rc diag 0 0, s2)"
    using tail diag
    by (simp add: can_dispatch_def Let_def dlc frame_unpack [OF assms(4)] frame le
        run_tx_frame [OF assms(5)] del: One_nat_def)
  with assms(1,2) tail diag show ?thesis
    by (simp add: can_send_def ipc_def const_defs can_reply_def le send_tail_def del: One_nat_def)
qed

lemma only_reads_send_tail: "only_reads (send_tail V K tx rx)"
  unfolding send_tail_def tx_tail_def by (intro reads_intros) (simp_all add: is_sense_def)

text \<open>A frame of at most eight bytes that a client sends through the server: when the transmit
  object is idle, the server programs it with exactly the client's identifier, length and bytes,
  as the two data words of the object (nothing is lost or reordered in the message), takes the
  object out of service first and requests the transmission last; all it does afterwards is
  reading status registers.\<close>

theorem can_send_programs_frame:
  assumes "abi_ok K" "ep \<noteq> ULMK_EP_INVALID K" "fr_dlc f \<le> 8" "length (fr_data f) = 8"
    and "answer st (trace st) (txrq st) = 0"
  shows "\<exists>es. snd (run_state (can_send K ep (ipc K (can_dispatch V K)) 0 (Some f) d) st) =
      st\<lparr>trace := trace st @ txrq st # tx_program V (g_mo_tx st) f @ es\<rparr> \<and> list_all is_sense es"
proof -
  have "\<exists>es. snd (run_state (send_tail V K (g_mo_tx st) (g_mo_rx st)) s) = s\<lparr>trace := trace s @ es\<rparr> \<and>
      list_all is_sense es" for s
    using only_reads_send_tail unfolding only_reads_def by blast
  from this [of "st\<lparr>trace := trace st @ txrq st # tx_program V (g_mo_tx st) f\<rparr>"] show ?thesis
    unfolding run_can_send [OF assms] by simp
qed

text \<open>The poll returns from inside the loop exactly when it has seen NEWDAT.\<close>

lemma tx_poll_unseen:
  assumes "\<And>h. answer st h (newdat st) = 0"
  shows "\<not> fst (run_state (tx_poll tx (g_mo_rx st) n) (st\<lparr>trace := t\<rparr>))"
  by (induction n arbitrary: t) (simp_all add: assms)

lemma tx_poll_seen:
  assumes "\<forall>h. answer st h (newdat st) \<noteq> 0 \<longleftrightarrow> b" "0 < n"
  shows "fst (run_state (tx_poll tx (g_mo_rx st) n) (st\<lparr>trace := t\<rparr>)) = b"
proof (cases b)
  case True
  with assms show ?thesis by (cases n) simp_all
next
  case False
  with assms(1) have "answer st h (newdat st) = 0" for h
    by blast
  with tx_poll_unseen [of st tx n t] False show ?thesis by simp
qed

lemma answer_send_tail: "answer (snd (run_state (tx_poll tx rx n) s)) = answer s"
proof -
  obtain es where "snd (run_state (tx_poll tx rx n) s) = s\<lparr>trace := trace s @ es\<rparr>"
    using only_reads_tx_poll unfolding only_reads_def by blast
  then show ?thesis by simp
qed

lemma run_tx_tail:
  assumes "\<forall>h. answer st h (newdat st) \<noteq> 0 \<longleftrightarrow> b"
  shows "fst (run_state (tx_tail K tx (g_mo_rx st)) (st\<lparr>trace := t\<rparr>)) = (if b then ULMK_OK K else ULMK_ETIMEOUT K)"
proof -
  obtain seen s1 where run: "run_state (tx_poll tx (g_mo_rx st) 200000) (st\<lparr>trace := t\<rparr>) = (seen, s1)"
    by (cases "run_state (tx_poll tx (g_mo_rx st) 200000) (st\<lparr>trace := t\<rparr>)")
  have "seen = b"
    using tx_poll_seen [OF assms, of 200000 tx t] run by simp
  moreover have "answer s1 = answer st"
    using answer_send_tail [of tx "g_mo_rx st" 200000 "st\<lparr>trace := t\<rparr>"] run by simp
  ultimately show ?thesis
    using run assms by (simp add: tx_tail_def)
qed

text \<open>The bits of the diagnostic word.\<close>

lemma bit_foldl_or: "bit (foldl (OR) a ps) i \<longleftrightarrow> bit (a :: u32) i \<or> (\<exists>p \<in> set ps. bit p i)"
  by (induction ps arbitrary: a) (auto simp: bit_simps)

lemma diag_bit_20:
  assumes "\<forall>h. answer st h (Dev (Drv (Node_field (node_pointer V (g_mcan st) 0) SR_TXOK))) = txok"
  shows "bit (fst (run_state (hw_diag V) (st\<lparr>trace := t\<rparr>))) 20 = bit txok 0"
proof -
  let ?F = "diag_fields V (g_mcan st) (g_mo_tx st) (g_mo_rx st)"
  let ?f = "\<lambda>(a, m, k). do { v \<leftarrow> sense a; ret (push_bit k (v AND m)) }"
  let ?Q = "\<lambda>(a, m, k) y. \<exists>v. y = push_bit k (v AND m) \<and>
    (a = Node_field (node_pointer V (g_mcan st) 0) SR_TXOK \<longrightarrow> v = txok)"
  obtain ps s' where run: "run_state (collect ?F ?f) (st\<lparr>trace := t\<rparr>) = (ps, s')"
    by (cases "run_state (collect ?F ?f) (st\<lparr>trace := t\<rparr>)")
  have step: "triple (\<lambda>s. answer s = answer st) (?f x) (\<lambda>y s. ?Q x y \<and> answer s = answer st)" for x
    using assms by (cases x) (auto intro!: tripleI)
  have "list_all2 ?Q ?F ps"
    using tripleD [OF triple_collect_all [OF step] _ run] by simp
  then have "(\<exists>p \<in> set ps. bit p 20) \<longleftrightarrow> bit txok 0"
    unfolding diag_fields_def Let_def list.rel_map list_all2_Cons1 list_all2_Nil
    by (auto simp: bit_simps bit_numeral_rec)
  then show ?thesis
    using run by (simp add: hw_diag_def bit_foldl_or)
qed

text \<open>C21: What the status of \<open>can_send\<close> means: OK when the receive object of this very board has
  unread data, ETIMEOUT when it never gets any, and nothing else counts.  On an external bus,
  where no other object of the board receives the frame, every transmission is answered
  ETIMEOUT, even though the hardware reports the frame as sent (the bit of TXOK is set in the
  diagnostic word the client gets with the error); and a frame left unread by an earlier
  reception makes any later send succeed at once.\<close>

theorem can_send_status_is_reception:
  assumes "abi_ok K" "ep \<noteq> ULMK_EP_INVALID K" "fr_dlc f \<le> 8" "length (fr_data f) = 8"
    and "answer st (trace st) (txrq st) = 0"
    and "\<forall>h. answer st h (newdat st) \<noteq> 0 \<longleftrightarrow> b"
    and "\<forall>h. answer st h (Dev (Drv (Node_field (node_pointer V (g_mcan st) 0) SR_TXOK))) = txok"
  shows "\<exists>diag. fst (run_state (can_send K ep (ipc K (can_dispatch V K)) 0 (Some f) d) st) =
      (if b then (ULMK_OK K, 0) else (ULMK_ETIMEOUT K, diag)) \<and> (bit diag 20 \<longleftrightarrow> bit txok 0)"
proof -
  let ?s = "st\<lparr>trace := trace st @ txrq st # tx_program V (g_mo_tx st) f\<rparr>"
  obtain rc s1 where tail: "run_state (tx_tail K (g_mo_tx st) (g_mo_rx st)) ?s = (rc, s1)"
    by (cases "run_state (tx_tail K (g_mo_tx st) (g_mo_rx st)) ?s")
  have rc: "rc = (if b then ULMK_OK K else ULMK_ETIMEOUT K)"
    using run_tx_tail [OF assms(6)] tail by (metis fst_conv)
  have "only_reads (tx_tail K (g_mo_tx st) (g_mo_rx st))"
    unfolding tx_tail_def by (intro reads_intros) (simp_all add: is_sense_def)
  then obtain es where "snd (run_state (tx_tail K (g_mo_tx st) (g_mo_rx st)) ?s) = ?s\<lparr>trace := trace ?s @ es\<rparr>"
    unfolding only_reads_def by blast
  then obtain t where s1: "s1 = st\<lparr>trace := t\<rparr>"
    using tail by simp
  obtain diag s2 where diag: "run_state (hw_diag V) s1 = (diag, s2)"
    by (cases "run_state (hw_diag V) s1")
  then have "bit diag 20 \<longleftrightarrow> bit txok 0"
    using diag_bit_20 [OF assms(7), of t] s1 by simp
  moreover have "fst (run_state (can_send K ep (ipc K (can_dispatch V K)) 0 (Some f) d) st) =
      (if b then (ULMK_OK K, 0) else (ULMK_ETIMEOUT K, diag))"
    unfolding run_can_send [OF assms(1-5)] using tail rc diag assms(1) by (simp add: send_tail_def)
  ultimately show ?thesis by blast
qed

section \<open>Receiving\<close>

text \<open>How a frame of a standard identifier stands in the registers of a message object.\<close>

definition object_holds :: "(can_act tc_act event list \<Rightarrow> can_act tc_act event \<Rightarrow> u32) \<Rightarrow> u32 \<Rightarrow> can_frame \<Rightarrow> bool" where
  "object_holds ans mo f \<longleftrightarrow>
     (\<forall>h. ans h (Dev (Drv (Mo_field mo STAT_NEWDAT))) \<noteq> 0 \<and>
          ans h (Dev (Drv (Mo_read mo MO_DATAL))) = pack4 (fr_data f) 0 \<and>
          ans h (Dev (Drv (Mo_read mo MO_DATAH))) = pack4 (fr_data f) 4 \<and>
          ans h (Dev (Drv (Mo_field mo AR_ID))) = push_bit 18 (fr_id f) \<and>
          ans h (Dev (Drv (Mo_field mo FCR_DLC))) = ucast (fr_dlc f))"

lemma id_dlc:
  assumes "i < 0x800" "l \<le> 8"
  shows "drop_bit 18 (push_bit 18 i) = (i :: u32)"
    "(i OR push_bit 16 (ucast (l :: u8))) AND 0x1FFF = i"
    "ucast ((drop_bit 16 i OR drop_bit 16 (push_bit 16 (ucast l))) AND 0xF) = l"
proof -
  have i: "bit i n \<Longrightarrow> n < 11" for n
    using assms(1) by (intro bit_small [of i 11 n]) (simp_all add: word_less_nat_alt)
  have l: "bit l n \<Longrightarrow> n < 4" for n
    using assms(2) by (intro bit_small [of l 4 n]) (simp_all add: word_le_nat_alt)
  have m: "(0x1FFF :: u32) = mask 13"
    by (simp add: mask_eq_exp_minus_1)
  show "drop_bit 18 (push_bit 18 i) = i"
    by (rule bit_eqI) (auto simp: bit_simps dest: i)
  show "(i OR push_bit 16 (ucast l)) AND 0x1FFF = i"
    unfolding m by (rule bit_eqI) (auto simp: bit_simps dest: i)
  show "ucast ((drop_bit 16 i OR drop_bit 16 (push_bit 16 (ucast l))) AND 0xF) = l"
    unfolding low_mask_u32 by (rule bit_eqI) (auto simp: bit_simps dest: i l)
qed

text \<open>C22: The round trip through the hardware's format: when the receive object holds a frame with a
  standard identifier and at most eight bytes, in the layout in which \<open>can_send\<close> writes one, the
  client's \<open>can_recv\<close> returns exactly that frame; the server clears the new-data and
  receive-pending flags and acknowledges the interrupt, in this order and after reading.\<close>

theorem can_recv_returns_frame:
  assumes "abi_ok K" "ep \<noteq> ULMK_EP_INVALID K" "object_holds (answer st) (g_mo_rx st) f"
    and "fr_id f < 0x800" "fr_dlc f \<le> 8" "length (fr_data f) = 8"
  shows "\<exists>es. run_state (can_recv K ep (ipc K (can_dispatch V K)) 0 (Some buf)) st =
    ((ULMK_OK K, Some f), st\<lparr>trace := trace st @ es @
       [Dev (Drv (Mo_write (g_mo_rx st) MO_CTR (push_bit (unat (flag_pos V Flag_newData)) 1))),
        Dev (Drv (Mo_write (g_mo_rx st) MO_CTR (push_bit (unat (flag_pos V Flag_receivePending)) 1))),
        Kern (Irq_ack CAN_SRPN)]\<rparr>)"
proof -
  have dlc: "ucast (ucast (fr_dlc f) :: u32) = fr_dlc f"
    by (rule bit_eqI) (auto simp: bit_simps)
  have le: "(8 < fr_dlc f) = False"
    using assms(5) by (simp add: not_less)
  have frame: "\<lparr>fr_id = fr_id f, fr_dlc = fr_dlc f, fr_data = fr_data f\<rparr> = f"
    by simp
  have regs: "answer st h (newdat st) \<noteq> 0"
    "answer st h (Dev (Drv (Mo_read (g_mo_rx st) MO_DATAL))) = pack4 (fr_data f) 0"
    "answer st h (Dev (Drv (Mo_read (g_mo_rx st) MO_DATAH))) = pack4 (fr_data f) 4"
    "answer st h (Dev (Drv (Mo_field (g_mo_rx st) AR_ID))) = push_bit 18 (fr_id f)"
    "answer st h (Dev (Drv (Mo_field (g_mo_rx st) FCR_DLC))) = ucast (fr_dlc f)" for h
    using assms(3) by (simp_all add: object_holds_def)
  show ?thesis
    using assms(1,2)
    by (intro exI [of _ "[newdat st, newdat st, Dev (Drv (Mo_read (g_mo_rx st) MO_DATAL)),
        Dev (Drv (Mo_read (g_mo_rx st) MO_DATAH)), Dev (Drv (Mo_field (g_mo_rx st) AR_ID)),
        Dev (Drv (Mo_field (g_mo_rx st) FCR_DLC))]"])
       (simp add: can_recv_def ipc_def can_dispatch_def const_defs can_reply_def Let_def rx_frame_def
         mo_clr_def regs dlc le pack4_unpack4 frame_unpack [OF assms(6)] id_dlc [OF assms(4,5)]
         frame del: One_nat_def)
qed

section \<open>Bounds\<close>

lemma emits_pads:
  "emits P 1 (map_port_once_tc W p :: (can_st, u32) state)"
  "emits P 3 (pinmux_apply_tc W K (Some c) :: (can_st, cint) state)"
proof -
  have store: "emits P 0 (modify (\<lambda>st :: can_st. st\<lparr>g_ports_tc := f st\<rparr>))" for f
    by (rule emits_silent) simp
  show map: "emits P 1 (map_port_once_tc W p :: (can_st, u32) state)" for p
    unfolding map_port_once_tc_def by (rule emits_weaken, (rule emits_intros emits_one store)+, simp)
  show "emits P 3 (pinmux_apply_tc W K (Some c) :: (can_st, cint) state)"
    unfolding pinmux_apply_tc_def illd_port_set_mode_def Let_def option.case
    by (rule emits_weaken, (rule emits_intros emits_one map)+, simp)
qed

lemma emits_pinmux_can: "emits P 11 (pinmux_can V K cfg)"
  unfolding pinmux_can_def pin_nen_low_def pinmux_port_tc_def
  by (rule emits_weaken, (rule emits_intros emits_one emits_pads)+, simp)

lemma emits_panel_wait: "emits P (Suc n) (panel_wait K n)"
proof (induction n)
  case 0
  show ?case
    by (simp only: panel_wait.simps, rule emits_weaken, (rule emits_intros emits_one)+, simp)
next
  case (Suc n)
  show ?case
    by (simp only: panel_wait.simps, rule emits_weaken, (rule emits_intros emits_one Suc)+, simp)
qed

lemma emits_mo_init:
  "emits P 1000011 (mo_init_tx K mo l i)" "emits P 1000011 (mo_init_rx K mo l i)"
  unfolding mo_init_tx_def mo_init_rx_def panel_cmd_def
  by (rule emits_weaken, (rule emits_intros emits_one emits_panel_wait)+, simp)+

lemma emits_hw_start: "emits P 2000064 (hw_start V K cfg bitrate)"
proof -
  have store: "emits P 0 (modify (\<lambda>st. st\<lparr>g_mo_tx := x\<rparr>))" "emits P 0 (modify (\<lambda>st. st\<lparr>g_mo_rx := x\<rparr>))" for x
    by (rule emits_silent, simp)+
  have clear: "emits P 8 (for_each [0..<8] (\<lambda>i. act (IfxMultican_clearPendingMessageNotification (of_nat i))))"
    using emits_for_each [OF emits_one(4), where P = P and xs = "[0..<8]"]
    by simp
  show ?thesis
    unfolding hw_start_def Let_def node_prepare_def node_start_def
    by (rule emits_weaken, (rule emits_pinmux_can emits_mo_init clear emits_intros emits_one store)+, simp)
qed

lemma emits_tx_poll: "emits P (3 * n) (tx_poll tx rx n)"
proof (induction n)
  case 0
  show ?case
    by (simp only: tx_poll.simps, rule emits_weaken, (rule emits_intros)+, simp)
next
  case (Suc n)
  show ?case
    by (simp only: tx_poll.simps, rule emits_weaken, (rule emits_intros emits_one Suc)+, simp)
qed

lemma emits_tx_frame: "emits P 600010 (tx_frame V K f)"
  unfolding tx_frame_def mo_clr_def mo_set_def
  by (rule emits_weaken, (rule emits_tx_poll emits_intros emits_one)+, simp)

lemma length_diag: "length (diag_fields V a b c) = 17"
  by (simp add: diag_fields_def Let_def)

lemma emits_hw_diag: "emits P 17 (hw_diag V)"
proof -
  have "emits P (length fs * 1) (collect fs (\<lambda>(a, m, k). do { v \<leftarrow> sense a; ret (push_bit k (v AND m)) }))" for fs
  proof (rule emits_collect)
    show "emits P 1 (case x of (a, m, k) \<Rightarrow> do { v \<leftarrow> sense a; ret (push_bit k (v AND m)) })" for x
      by (rule emits_weaken, (rule emits_intros emits_one)+, simp)
  qed
  then have fields: "emits P 17 (collect (diag_fields V a b c) (\<lambda>(a, m, k). do { v \<leftarrow> sense a; ret (push_bit k (v AND m)) }))" for a b c
    by (metis length_diag mult.right_neutral)
  show ?thesis
    unfolding hw_diag_def
    by (rule emits_weaken, (rule fields emits_intros emits_one)+, simp)
qed

lemma emits_rx_frame: "emits P 8 (rx_frame V K)"
  unfolding rx_frame_def mo_clr_def
  by (rule emits_weaken, (rule emits_intros emits_one)+, simp)

text \<open>The only call that can block is the wait of a reception.\<close>

definition blocking :: "can_act tc_act event \<Rightarrow> bool" where
  "blocking e \<longleftrightarrow> (\<exists>n b. e = Kern (Notif_wait n b))"

lemma emits_blocking_sense:
  "only_reads m \<Longrightarrow> emits blocking 0 m" "emits blocking 0 (act a)"
  "emits blocking 0 (sense a)" "emits blocking 0 (kern_do (Irq_ack i))"
proof -
  assume m: "only_reads m"
  have no: "count_ev blocking es = 0" if "list_all is_sense es" for es
    using that by (induction es) (auto simp: blocking_def is_sense_def)
  show "emits blocking 0 m"
    unfolding emits_def
  proof
    fix s
    obtain es where "snd (run_state m s) = s\<lparr>trace := trace s @ es\<rparr>" "list_all is_sense es"
      using m unfolding only_reads_def by blast
    then show "\<exists>es. trace (snd (run_state m s)) = trace s @ es \<and> count_ev blocking es \<le> 0"
      using no by (intro exI [of _ es]) simp
  qed
qed (simp_all add: emits_def blocking_def)

lemma emits_blocking_frames:
  "emits blocking 0 (tx_frame V K f)" "emits blocking 0 (rx_frame V K)" "emits blocking 0 (hw_diag V)"
  unfolding tx_frame_def rx_frame_def mo_clr_def mo_set_def
  by (rule emits_weaken,
      (rule emits_blocking_sense(2-4) emits_intros emits_blocking_sense(1) [OF only_reads_tx_poll]
        emits_blocking_sense(1) [OF only_reads_hw_diag])+, simp)+

text \<open>The driver never spins for ever: whatever the hardware and the kernel answer, the server
  handles a message in at most 600027 interactions, of which at most one, the wait of a
  reception for its notification, can block, and it starts in at most 2000065.\<close>

theorem can_server_bounded:
  "emits (\<lambda>_. True) 600027 (can_dispatch V K m) \<and> emits blocking 1 (can_dispatch V K m) \<and>
   emits (\<lambda>_. True) 2000065 (can_server_start V K)"
proof (intro conjI)
  show "emits (\<lambda>_. True) 600027 (can_dispatch V K m)"
    unfolding can_dispatch_def Let_def
    by (rule emits_weaken, (rule emits_tx_frame emits_rx_frame emits_hw_diag emits_intros emits_one)+, simp)
  show "emits blocking 1 (can_dispatch V K m)"
    unfolding can_dispatch_def Let_def
    by (rule emits_weaken, (rule emits_blocking_frames emits_blocking_sense(2-4) emits_intros emits_one)+, simp)
  have store: "emits P 0 (modify (\<lambda>st. st\<lparr>g_mcan := x\<rparr>))" for P x
    by (rule emits_silent) simp
  show "emits (\<lambda>_. True) 2000065 (can_server_start V K)"
    unfolding can_server_start_def
    by (rule emits_weaken, (rule emits_hw_start emits_intros emits_one store)+, simp)
qed

section \<open>Examples\<close>

definition sample_can :: can_vendor where
  "sample_can = \<lparr>can_pads = sample_vendor, node_pointer = (\<lambda>b n. b + 0x200 + of_nat n * 0x100),
     mo_pointer = (\<lambda>b n. b + 0x1000 + of_nat n * 0x20),
     flag_pos = (\<lambda>f. case f of Flag_messageValid \<Rightarrow> 5 | Flag_newData \<Rightarrow> 3
       | Flag_transmitRequest \<Rightarrow> 8 | Flag_receivePending \<Rightarrow> 0)\<rparr>"

definition sample_frame :: can_frame where
  "sample_frame = \<lparr>fr_id = 0x321, fr_dlc = 8, fr_data = [1, 2, 3, 4, 5, 6, 7, 8]\<rparr>"

text \<open>A started server: the transmit object at 0x1000, the receive object at 0x1020.\<close>

definition can_boot :: "(can_act tc_act event list \<Rightarrow> can_act tc_act event \<Rightarrow> u32) \<Rightarrow> can_st" where
  "can_boot ans = \<lparr>trace = [], answer = ans, fault = False, g_pinmux_eps_tc = 0,
     g_ports_tc = replicate PINMUX_PORT_SLOTS_TC free_port, g_can_ep = 7,
     g_args = \<lparr>ca_n = 0, ca_cfg = can_board True, ca_bitrate = 500000, ca_ep = 7, ca_irq_notif = 3\<rparr>,
     g_mcan = 0, g_mo_tx = 0x1000, g_mo_rx = 0x1020\<rparr>"

theorem can_send_programs_frame_witness:
  "\<exists>es. snd (run_state (can_send sample_abi 7 (ipc sample_abi (can_dispatch sample_can sample_abi)) 0
      (Some sample_frame) 0) (can_boot (\<lambda>_ _. 0))) =
    (can_boot (\<lambda>_ _. 0))\<lparr>trace := txrq (can_boot (\<lambda>_ _. 0)) # tx_program sample_can 0x1000 sample_frame @ es\<rparr>"
  using can_send_programs_frame [OF sample_abi_ok, of 7 sample_frame "can_boot (\<lambda>_ _. 0)" sample_can 0]
  by (auto simp: sample_abi_def sample_frame_def can_boot_def)

theorem can_send_status_is_reception_witness:
  "\<exists>diag. fst (run_state (can_send sample_abi 7 (ipc sample_abi (can_dispatch sample_can sample_abi)) 0
      (Some sample_frame) 0) (can_boot (\<lambda>_ e. if e = Dev (Drv (Node_field 0x200 SR_TXOK)) then 1 else 0))) =
    (- 5, diag) \<and> bit diag 20"
proof -
  let ?st = "can_boot (\<lambda>_ e. if e = Dev (Drv (Node_field 0x200 SR_TXOK)) then 1 else 0)"
  have "\<forall>h. answer ?st h (newdat ?st) \<noteq> 0 \<longleftrightarrow> False"
    "\<forall>h. answer ?st h (Dev (Drv (Node_field (node_pointer sample_can (g_mcan ?st) 0) SR_TXOK))) = 1"
    "answer ?st (trace ?st) (txrq ?st) = 0"
    by (simp_all add: can_boot_def sample_can_def)
  from can_send_status_is_reception [OF sample_abi_ok _ _ _ this(3,1,2), of 7 sample_frame 0]
  show ?thesis
    by (simp add: sample_abi_def sample_frame_def)
qed

theorem can_recv_returns_frame_witness:
  "\<exists>ans. fst (run_state (can_recv sample_abi 7 (ipc sample_abi (can_dispatch sample_can sample_abi)) 0
      (Some sample_frame)) (can_boot ans)) = (0, Some sample_frame)"
proof
  let ?ans = "\<lambda>h :: can_act tc_act event list. \<lambda>e. case e of
      Dev (Drv (Mo_field _ STAT_NEWDAT)) \<Rightarrow> 1
    | Dev (Drv (Mo_read _ MO_DATAL)) \<Rightarrow> pack4 (fr_data sample_frame) 0
    | Dev (Drv (Mo_read _ MO_DATAH)) \<Rightarrow> pack4 (fr_data sample_frame) 4
    | Dev (Drv (Mo_field _ AR_ID)) \<Rightarrow> push_bit 18 (fr_id sample_frame)
    | Dev (Drv (Mo_field _ FCR_DLC)) \<Rightarrow> ucast (fr_dlc sample_frame) | _ \<Rightarrow> 0"
  have "object_holds (answer (can_boot ?ans)) (g_mo_rx (can_boot ?ans)) sample_frame"
    by (simp add: object_holds_def can_boot_def)
  moreover have "7 \<noteq> ULMK_EP_INVALID sample_abi" "fr_id sample_frame < 0x800" "fr_dlc sample_frame \<le> 8"
    "length (fr_data sample_frame) = 8" "ULMK_OK sample_abi = 0"
    by (simp_all add: sample_abi_def sample_frame_def)
  ultimately show "fst (run_state (can_recv sample_abi 7 (ipc sample_abi (can_dispatch sample_can sample_abi)) 0
      (Some sample_frame)) (can_boot ?ans)) = (0, Some sample_frame)"
    using can_recv_returns_frame [OF sample_abi_ok, of 7 "can_boot ?ans" sample_frame sample_can sample_frame]
    by (metis fst_conv)
qed

end
