(* ===== verification/Pinmux_Esp32.thy ===== *)
theory Pinmux_Esp32
  imports Ulmk_Base
begin

text \<open>
  The ESP32-P4 board: the accesses its drivers make to registers and memory, and the pad
  multiplexer \<^verbatim>\<open>esp32p4_ev_function/drivers/pinmux/src/server.c\<close> and \<^verbatim>\<open>client.c\<close>, which owns the
  IOMUX and the GPIO matrix.  Other drivers call \<open>pinmux_apply\<close> in their own address space, so
  the state is a record that theirs extend.
\<close>

section \<open>Registers and memory\<close>

datatype esp_act =
    Rd32 u32
  | Wr32 u32 u32
  | Ld8 u32
  | St8 u32 u8
  | Dcache_clean u32 u32
  | Dcache_invalidate u32 u32
  | Console_printf string "u32 list"

definition rd32 :: "u32 \<Rightarrow> ((esp_act, 'z) io_scheme, u32) state" where
  "rd32 a = dev (Rd32 a)"

definition wr32 :: "u32 \<Rightarrow> u32 \<Rightarrow> ((esp_act, 'z) io_scheme, unit) state" where
  "wr32 a v = dev_do (Wr32 a v)"

lemma run_rd32 [simp, run_simps]:
  "run_state (rd32 a) s = (answer s (trace s) (Dev (Rd32 a)), s\<lparr>trace := trace s @ [Dev (Rd32 a)]\<rparr>)"
  by (simp add: rd32_def)

lemma run_wr32 [simp, run_simps]:
  "run_state (wr32 a v) s = ((), s\<lparr>trace := trace s @ [Dev (Wr32 a v)]\<rparr>)"
  by (simp add: wr32_def)

section \<open>Constants and state\<close>

definition ULMK_BOARD_GPIO_BASE :: u32 where [const_defs]: "ULMK_BOARD_GPIO_BASE = 0x500E0000"
definition ULMK_BOARD_IOMUX_BASE :: u32 where [const_defs]: "ULMK_BOARD_IOMUX_BASE = 0x500E1000"
definition ULMK_BOARD_PINMUX_MAX_ESP :: u8 where [const_defs]: "ULMK_BOARD_PINMUX_MAX_ESP = 1"
definition PINMUX_STACK_ESP :: u32 where "PINMUX_STACK_ESP = 1024"
definition PINMUX_DIR_IN_ESP :: u8 where [const_defs]: "PINMUX_DIR_IN_ESP = 0"
definition PINMUX_DIR_OUT_ESP :: u8 where [const_defs]: "PINMUX_DIR_OUT_ESP = 1"
definition PINMUX_PULL_NONE_ESP :: u8 where [const_defs]: "PINMUX_PULL_NONE_ESP = 0"
definition PINMUX_PULL_UP_ESP :: u8 where [const_defs]: "PINMUX_PULL_UP_ESP = 1"
definition PINMUX_PULL_DOWN_ESP :: u8 where [const_defs]: "PINMUX_PULL_DOWN_ESP = 2"
definition PINMUX_ALT_MATRIX :: u8 where [const_defs]: "PINMUX_ALT_MATRIX = 1"
definition PINMUX_F_OPENDRAIN_ESP :: u8 where [const_defs]: "PINMUX_F_OPENDRAIN_ESP = 1"
definition PINMUX_F_IE :: u8 where [const_defs]: "PINMUX_F_IE = 2"
definition PINMUX_F_PERIPH_OE :: u8 where [const_defs]: "PINMUX_F_PERIPH_OE = 4"
definition PINMUX_MSG_CONFIG_ESP :: u32 where [const_defs]: "PINMUX_MSG_CONFIG_ESP = 1"
definition PINMUX_SIG_GPIO_OUT :: u32 where "PINMUX_SIG_GPIO_OUT = 0x100"
definition IOMUX_MCU_SEL_GPIO :: u32 where "IOMUX_MCU_SEL_GPIO = 1"

definition GPIO_ENABLE_W1TS :: u32 where "GPIO_ENABLE_W1TS = ULMK_BOARD_GPIO_BASE + 0x24"
definition GPIO_ENABLE_W1TC :: u32 where "GPIO_ENABLE_W1TC = ULMK_BOARD_GPIO_BASE + 0x28"
definition GPIO_ENABLE1_W1TS :: u32 where "GPIO_ENABLE1_W1TS = ULMK_BOARD_GPIO_BASE + 0x30"
definition GPIO_ENABLE1_W1TC :: u32 where "GPIO_ENABLE1_W1TC = ULMK_BOARD_GPIO_BASE + 0x34"
definition GPIO_PIN_REG :: "u8 \<Rightarrow> u32" where "GPIO_PIN_REG n = ULMK_BOARD_GPIO_BASE + 0x74 + 4 * ucast n"
definition GPIO_FUNC_OUT_SEL :: "u8 \<Rightarrow> u32" where
  "GPIO_FUNC_OUT_SEL n = ULMK_BOARD_GPIO_BASE + 0x558 + 4 * ucast n"
definition GPIO_FUNC_IN_SEL :: "u16 \<Rightarrow> u32" where
  "GPIO_FUNC_IN_SEL sig = ULMK_BOARD_GPIO_BASE + 0x158 + 4 * ucast sig"
definition IOMUX_GPIO :: "u8 \<Rightarrow> u32" where "IOMUX_GPIO n = ULMK_BOARD_IOMUX_BASE + 0x04 + 4 * ucast n"

record pad_cfg_esp =
  pc_port :: u8
  pc_pin :: u8
  pc_dir :: u8
  pc_pull :: u8
  pc_alt :: u8
  pc_flags :: u8
  pc_matrix_out :: u16
  pc_matrix_in :: u16

record pads_esp = "esp_act io" +
  g_pinmux_eps_esp :: u32

type_synonym ('z, 'a) esp_op = "((esp_act, 'z) io_scheme, 'a) state"

section \<open>The server\<close>

definition gpio_ok :: "u8 \<Rightarrow> bool" where
  "gpio_ok gpio \<longleftrightarrow> gpio \<le> 56"

definition set_oe :: "u8 \<Rightarrow> bool \<Rightarrow> ('z, unit) esp_op" where
  "set_oe gpio enable = do {
     let b = push_bit (unat (gpio AND 31)) 1;
     if gpio < 32 then
       (if enable then wr32 GPIO_ENABLE_W1TS b else wr32 GPIO_ENABLE_W1TC b)
     else
       (if enable then wr32 GPIO_ENABLE1_W1TS b else wr32 GPIO_ENABLE1_W1TC b)
   }"

text \<open>The new value of the IOMUX register of a pad.\<close>

definition pad_mux :: "pad_cfg_esp \<Rightarrow> u32 \<Rightarrow> u32" where
  "pad_mux cfg mux =
     (let mux = mux AND NOT (push_bit 12 7);
          mux = mux OR push_bit 12 IOMUX_MCU_SEL_GPIO;
          mux = mux AND NOT (push_bit 9 1 OR push_bit 8 1 OR push_bit 7 1);
          mux = (if pc_pull cfg = PINMUX_PULL_UP_ESP then mux OR push_bit 8 1
                 else if pc_pull cfg = PINMUX_PULL_DOWN_ESP then mux OR push_bit 7 1 else mux) in
      if pc_dir cfg = PINMUX_DIR_IN_ESP \<or> pc_flags cfg AND PINMUX_F_IE \<noteq> 0
      then mux OR push_bit 9 1 else mux)"

definition pinmux_apply_esp :: "ulmk_abi \<Rightarrow> pad_cfg_esp option \<Rightarrow> ('z, cint) esp_op" where
  "pinmux_apply_esp K ocfg =
     (case ocfg of
        None \<Rightarrow> ret (ULMK_EINVAL K)
      | Some cfg \<Rightarrow>
          if \<not> gpio_ok (pc_pin cfg) then ret (ULMK_EINVAL K)
          else do {
            let gpio = pc_pin cfg;
            mux \<leftarrow> rd32 (IOMUX_GPIO gpio);
            wr32 (IOMUX_GPIO gpio) (pad_mux cfg mux);
            pin \<leftarrow> rd32 (GPIO_PIN_REG gpio);
            wr32 (GPIO_PIN_REG gpio)
              (if pc_flags cfg AND PINMUX_F_OPENDRAIN_ESP \<noteq> 0 then pin OR push_bit 2 1
               else pin AND NOT (push_bit 2 1));
            (if pc_alt cfg = PINMUX_ALT_MATRIX then do {
               when_do (pc_matrix_out cfg \<noteq> 0 \<or> pc_dir cfg = PINMUX_DIR_OUT_ESP)
                 (wr32 (GPIO_FUNC_OUT_SEL gpio)
                   (let out_sel = ucast (pc_matrix_out cfg) AND 0x1FF in
                    if pc_flags cfg AND PINMUX_F_PERIPH_OE = 0 then out_sel OR push_bit 10 1 else out_sel));
               when_do (pc_matrix_in cfg \<noteq> 0)
                 (wr32 (GPIO_FUNC_IN_SEL (pc_matrix_in cfg)) (ucast (gpio AND 0x3F) OR push_bit 7 1))
             } else wr32 (GPIO_FUNC_OUT_SEL gpio) (PINMUX_SIG_GPIO_OUT OR push_bit 10 1));
            (if pc_dir cfg = PINMUX_DIR_OUT_ESP then set_oe gpio True else set_oe gpio False);
            ret (ULMK_OK K)
          })"

definition decode_cfg_esp :: "(nat \<Rightarrow> u32) \<Rightarrow> pad_cfg_esp" where
  "decode_cfg_esp w = \<lparr>pc_port = ucast (drop_bit 8 (w 0)), pc_pin = ucast (w 0 AND 0xFF),
     pc_dir = ucast (w 1), pc_pull = ucast (w 2), pc_alt = ucast (w 3 AND 0xFF),
     pc_flags = ucast (drop_bit 8 (w 3) AND 0xFF), pc_matrix_out = ucast (w 4 AND 0xFFFF),
     pc_matrix_in = ucast (drop_bit 16 (w 4) AND 0xFFFF)\<rparr>"

text \<open>Only word 0 of the reply is set; the others, indeterminate in C and read by no client, are 0 here.\<close>

definition pinmux_dispatch_esp :: "ulmk_abi \<Rightarrow> msg \<Rightarrow> ('z, msg) esp_op" where
  "pinmux_dispatch_esp K m =
     (if label m = PINMUX_MSG_CONFIG_ESP then do {
        rc \<leftarrow> pinmux_apply_esp K (Some (decode_cfg_esp (words m)));
        ret \<lparr>label = 0, words = (\<lambda>_. 0)(0 := rc)\<rparr>
      } else ret \<lparr>label = 0, words = (\<lambda>_. 0)(0 := ULMK_EINVAL K)\<rparr>)"

definition pinmux_init_esp :: "ulmk_abi \<Rightarrow> u8 \<Rightarrow> ('z pads_esp_scheme, u32) state" where
  "pinmux_init_esp K n = do {
     cur \<leftarrow> gets g_pinmux_eps_esp;
     if n \<ge> ULMK_BOARD_PINMUX_MAX_ESP then ret (ULMK_TID_INVALID K)
     else if cur \<noteq> ULMK_EP_INVALID K \<and> cur \<noteq> 0 then ret (ULMK_TID_INVALID K)
     else do {
       ep \<leftarrow> kern Ep_create;
       if ep = ULMK_EP_INVALID K then ret (ULMK_TID_INVALID K)
       else do {
         tid \<leftarrow> kern (Thread_create ''pinmux'' 2 PINMUX_STACK_ESP);
         if tid = ULMK_TID_INVALID K then do {
           kern_do (Ep_destroy ep);
           ret (ULMK_TID_INVALID K)
         } else do {
           kern_do (Cap_grant tid ''MAP_PERIPH'');
           modify (\<lambda>st. st\<lparr>g_pinmux_eps_esp := ep\<rparr>);
           ret tid
         }
       }
     }
   }"

section \<open>The client\<close>

definition encode_cfg_esp :: "pad_cfg_esp \<Rightarrow> nat \<Rightarrow> u32" where
  "encode_cfg_esp cfg = (\<lambda>_. 0)
     (0 := push_bit 8 (ucast (pc_port cfg)) OR ucast (pc_pin cfg), 1 := ucast (pc_dir cfg),
      2 := ucast (pc_pull cfg), 3 := ucast (pc_alt cfg) OR push_bit 8 (ucast (pc_flags cfg)),
      4 := ucast (pc_matrix_out cfg) OR push_bit 16 (ucast (pc_matrix_in cfg)))"

definition pinmux_config_esp :: "ulmk_abi \<Rightarrow> u32 \<Rightarrow> 's ep_call \<Rightarrow> u8 \<Rightarrow> pad_cfg_esp option \<Rightarrow> ('s, cint) state" where
  "pinmux_config_esp K ep call n ocfg =
     (case ocfg of
        None \<Rightarrow> ret (ULMK_ESRCH K)
      | Some cfg \<Rightarrow>
          if n \<ge> ULMK_BOARD_PINMUX_MAX_ESP \<or> ep = ULMK_EP_INVALID K \<or> ep = 0 then ret (ULMK_ESRCH K)
          else do {
            (rc, m) \<leftarrow> call \<lparr>label = PINMUX_MSG_CONFIG_ESP, words = encode_cfg_esp cfg\<rparr>;
            if rc \<noteq> ULMK_OK K then ret rc else ret (words m 0)
          })"

section \<open>Properties\<close>

lemma ucast_low_half: "ucast (x AND 0xFFFF :: u32) = (ucast x :: u16)"
  unfolding low_mask_u32 by (rule bit_eqI) (auto simp: bit_simps)

lemma decode_encode_esp: "decode_cfg_esp (encode_cfg_esp cfg) = cfg"
  unfolding decode_cfg_esp_def encode_cfg_esp_def ucast_low_byte ucast_low_half
  by (cases cfg) (auto intro!: bit_eqI simp: bit_simps)

lemma run_config_esp:
  assumes "ep \<noteq> ULMK_EP_INVALID K" "ep \<noteq> 0"
  shows "run_state (pinmux_config_esp K ep (ipc K (pinmux_dispatch_esp K)) 0 (Some cfg)) st =
    run_state (pinmux_apply_esp K (Some cfg)) st"
  using assms
  by (simp add: pinmux_config_esp_def ipc_def pinmux_dispatch_esp_def decode_encode_esp const_defs
      split: prod.splits)

text \<open>A pad that does not exist, and a missing configuration, are refused without any access.\<close>

lemma apply_refuses:
  "run_state (pinmux_apply_esp K None) st = (ULMK_EINVAL K, st)"
  "pc_pin cfg > 56 \<Longrightarrow> run_state (pinmux_apply_esp K (Some cfg)) st = (ULMK_EINVAL K, st)"
  by (simp_all add: pinmux_apply_esp_def gpio_ok_def not_le)

text \<open>The registers that configuring a pad accesses.\<close>

definition pad_regs :: "pad_cfg_esp \<Rightarrow> u32 set" where
  "pad_regs cfg = {IOMUX_GPIO (pc_pin cfg), GPIO_PIN_REG (pc_pin cfg), GPIO_FUNC_OUT_SEL (pc_pin cfg),
     GPIO_ENABLE_W1TS, GPIO_ENABLE_W1TC, GPIO_ENABLE1_W1TS, GPIO_ENABLE1_W1TC} \<union>
     (if pc_alt cfg = PINMUX_ALT_MATRIX \<and> pc_matrix_in cfg \<noteq> 0 then {GPIO_FUNC_IN_SEL (pc_matrix_in cfg)} else {})"

text \<open>
  \<open>logs P m\<close>: the operation changes nothing but the log, to which it appends entries in \<open>P\<close>;
  with \<open>in_regs A\<close> for \<open>P\<close>, every register it accesses is in \<open>A\<close>.
\<close>

definition in_regs :: "u32 set \<Rightarrow> esp_act event \<Rightarrow> bool" where
  "in_regs A e \<longleftrightarrow> (case e of Dev (Rd32 a) \<Rightarrow> a \<in> A | Dev (Wr32 a v) \<Rightarrow> a \<in> A | _ \<Rightarrow> True)"

definition log_in :: "u32 set \<Rightarrow> esp_act event list \<Rightarrow> bool" where
  "log_in A es \<longleftrightarrow> list_all (in_regs A) es"

lemma log_in_simps [simp]:
  "log_in A []" "log_in A (e # es) \<longleftrightarrow> in_regs A e \<and> log_in A es"
  "log_in A (es @ es') \<longleftrightarrow> log_in A es \<and> log_in A es'"
  by (simp_all add: log_in_def)

lemma in_regs_simps [simp]:
  "in_regs A (Dev (Rd32 a)) \<longleftrightarrow> a \<in> A" "in_regs A (Dev (Wr32 a v)) \<longleftrightarrow> a \<in> A" "in_regs A (Kern c)"
  "in_regs A (Dev (Dcache_clean p n))" "in_regs A (Dev (Dcache_invalidate p n))"
  "in_regs A (Dev (Console_printf t xs))" "in_regs A (Dev (Ld8 p))" "in_regs A (Dev (St8 p b))"
  by (simp_all add: in_regs_def)

lemma in_regs_mono: "in_regs A e \<Longrightarrow> A \<subseteq> B \<Longrightarrow> in_regs B e"
  by (auto simp: in_regs_def split: event.splits esp_act.splits)

lemma log_in_mono: "log_in A es \<Longrightarrow> A \<subseteq> B \<Longrightarrow> log_in B es"
  by (fastforce simp: log_in_def list_all_iff in_regs_def split: event.splits esp_act.splits)

definition logs :: "(esp_act event \<Rightarrow> bool) \<Rightarrow> ('z, 'a) esp_op \<Rightarrow> bool" where
  "logs P m \<longleftrightarrow> (\<forall>st. \<exists>a es. run_state m st = (a, st\<lparr>trace := trace st @ es\<rparr>) \<and> list_all P es)"

lemma logsE:
  assumes "logs P m"
  obtains a es where "run_state m st = (a, st\<lparr>trace := trace st @ es\<rparr>)" "list_all P es"
  using assms unfolding logs_def by blast

named_theorems logs_intros \<open>the log entries of an operation\<close>

lemma logs_quiet [logs_intros]: "logs P (ret x)" "logs P (gets f)"
  unfolding logs_def by (auto intro!: exI [of _ "[]"])

lemma logs_event [logs_intros]:
  "P (Dev (Rd32 a)) \<Longrightarrow> logs P (rd32 a)" "P (Dev (Wr32 a v)) \<Longrightarrow> logs P (wr32 a v)"
  "P (Kern c) \<Longrightarrow> logs P (kern c)" "P (Kern c) \<Longrightarrow> logs P (kern_do c)"
  "P (Dev d) \<Longrightarrow> logs P (dev d)" "P (Dev d) \<Longrightarrow> logs P (dev_do d)"
  unfolding logs_def by (auto intro!: exI [of _ "[e]" for e])

lemma logs_bind [logs_intros]:
  assumes "logs P m" "\<And>x. logs P (f x)"
  shows "logs P (State_Monad.bind m f)"
  unfolding logs_def
proof
  fix st
  obtain x es where m: "run_state m st = (x, st\<lparr>trace := trace st @ es\<rparr>)" "list_all P es"
    using assms(1) by (rule logsE)
  obtain y es' where "run_state (f x) (st\<lparr>trace := trace st @ es\<rparr>) = (y, st\<lparr>trace := trace st @ es @ es'\<rparr>)"
      "list_all P es'"
    using assms(2) [of x] by (auto elim!: logsE [where st = "st\<lparr>trace := trace st @ es\<rparr>"])
  with m show "\<exists>a es. run_state (State_Monad.bind m f) st = (a, st\<lparr>trace := trace st @ es\<rparr>) \<and> list_all P es"
    by (auto intro!: exI [of _ "es @ es'"])
qed

lemma logs_if [logs_intros]: "(b \<Longrightarrow> logs P m) \<Longrightarrow> (\<not> b \<Longrightarrow> logs P n) \<Longrightarrow> logs P (if b then m else n)"
  by simp

lemma logs_when_do [logs_intros]: "(b \<Longrightarrow> logs P m) \<Longrightarrow> logs P (when_do b m)"
  by (simp add: when_do_def logs_quiet)

lemma logs_mono: "logs P m \<Longrightarrow> (\<And>e. P e \<Longrightarrow> Q e) \<Longrightarrow> logs Q m"
  unfolding logs_def using list.pred_mono_strong [of P _ Q] by blast

lemma logs_set_oe:
  "P (Dev (Wr32 GPIO_ENABLE_W1TS v)) \<Longrightarrow> P (Dev (Wr32 GPIO_ENABLE_W1TC v)) \<Longrightarrow>
   P (Dev (Wr32 GPIO_ENABLE1_W1TS v)) \<Longrightarrow> P (Dev (Wr32 GPIO_ENABLE1_W1TC v)) \<Longrightarrow>
   v = push_bit (unat (gpio AND 31)) 1 \<Longrightarrow> logs P (set_oe gpio en)"
  unfolding set_oe_def Let_def by (auto intro!: logs_intros)

lemma logs_apply: "logs (in_regs (pad_regs cfg)) (pinmux_apply_esp K (Some cfg))"
  unfolding pinmux_apply_esp_def Let_def option.case
  by (intro logs_intros logs_set_oe [OF _ _ _ _ refl]) (simp_all add: pad_regs_def)

lemma sixth_event:
  "\<exists>es es'. st\<lparr>trace := t @ [a, b, c, d, e, w, z]\<rparr> = st\<lparr>trace := t @ es @ w # es'\<rparr>"
  by (rule exI [of _ "[a, b, c, d, e]"], rule exI [of _ "[z]"]) simp

text \<open>C23: The input signal of the matrix is never checked.  Whatever register of the 256 KiB that
  follow the GPIO matrix a client wants to reach (the clock and reset registers of the chip at
  0x500E6000 are among them), there is a request of an ordinary configuration call that makes
  the privileged server write there, with the request answered OK; the written word is 0x80 plus
  the number of any pad.\<close>

theorem esp_matrix_in_unchecked:
  assumes "ep \<noteq> ULMK_EP_INVALID K" "ep \<noteq> 0" "k \<noteq> 0" "pin \<le> 56"
  shows "\<exists>cfg es es'. pc_pin cfg = pin \<and>
    run_state (pinmux_config_esp K ep (ipc K (pinmux_dispatch_esp K)) 0 (Some cfg)) st =
    (ULMK_OK K, st\<lparr>trace := trace st @ es @
       Dev (Wr32 (0x500E0158 + 4 * ucast (k :: u16)) (ucast pin OR 0x80)) # es'\<rparr>)"
proof -
  let ?cfg = "\<lparr>pc_port = 0, pc_pin = pin, pc_dir = PINMUX_DIR_OUT_ESP, pc_pull = 0, pc_alt = PINMUX_ALT_MATRIX,
    pc_flags = 0, pc_matrix_out = 0, pc_matrix_in = k\<rparr>"
  have "uint pin < 2 ^ 6"
    using assms(4) by (simp add: word_le_def)
  then have "pin AND mask 6 = pin"
    by (simp only: mask_eq_iff)
  then have pin: "pin AND 0x3F = pin"
    by (simp add: mask_eq_exp_minus_1)
  show ?thesis
    by (rule exI [of _ ?cfg])
      (use assms(3,4) in \<open>auto simp: run_config_esp [OF assms(1,2)] pinmux_apply_esp_def gpio_ok_def set_oe_def
        Let_def const_defs pin GPIO_FUNC_IN_SEL_def intro: sixth_event\<close>)
qed

definition esp_boot :: "(esp_act event list \<Rightarrow> esp_act event \<Rightarrow> u32) \<Rightarrow> pads_esp" where
  "esp_boot ans = \<lparr>trace = [], answer = ans, fault = False, g_pinmux_eps_esp = 7\<rparr>"

text \<open>For example HP_RST_EN1, the reset register that the DMA driver uses.\<close>

theorem esp_matrix_in_unchecked_witness:
  "\<exists>cfg es es'. run_state (pinmux_config_esp sample_abi 7 (ipc sample_abi (pinmux_dispatch_esp sample_abi)) 0 (Some cfg))
      (esp_boot (\<lambda>_ _. 0)) = (0, esp_boot (\<lambda>_ _. 0)\<lparr>trace := es @ Dev (Wr32 0x500E60C4 0x84) # es'\<rparr>)"
proof -
  have "ucast (6107 :: u16) = (6107 :: u32)" "ucast (4 :: u8) OR 0x80 = (0x84 :: u32)"
    by simp_all
  with esp_matrix_in_unchecked [of 7 sample_abi 6107 4 "esp_boot (\<lambda>_ _. 0)"] sample_abi_ok show ?thesis
    by (auto simp: sample_abi_def esp_boot_def)
qed

end
