(* ===== verification/Gdma_Axi_Esp32.thy ===== *)
theory Gdma_Axi_Esp32
  imports Pinmux_Esp32
begin

text \<open>
  The AXI DMA driver of the ESP32-P4 board: \<^verbatim>\<open>esp32p4_ev_function/drivers/gdma_axi/src/server.c\<close>
  and \<^verbatim>\<open>client.c\<close>.  Five slots, one per interrupt line: slot 0 copies memory on channel 0,
  slots 1 and 2 are the receiving and the sending half of channel 1 (SPI2), 3 and 4 those of
  channel 2 (SPI3).  A descriptor is three words of memory, written through the non-cached alias;
  where the linker puts the descriptors is the record \<open>gdma_layout\<close>.
\<close>

section \<open>Registers\<close>

definition AXI_CH_MEM :: u8 where [const_defs]: "AXI_CH_MEM = 0"
definition GDMA_AXI_SLOT_COUNT :: nat where "GDMA_AXI_SLOT_COUNT = 5"
definition AXI_BASE :: u32 where "AXI_BASE = 0x5008A000"
definition AXI_STRIDE :: u32 where "AXI_STRIDE = 0x68"

definition axi_reg :: "u32 \<Rightarrow> u8 \<Rightarrow> u32" where
  "axi_reg off n = AXI_BASE + off + ucast n * AXI_STRIDE"

definition AXI_IN_INT_RAW :: "u8 \<Rightarrow> u32" where "AXI_IN_INT_RAW = axi_reg 0x000"
definition AXI_IN_INT_ENA :: "u8 \<Rightarrow> u32" where "AXI_IN_INT_ENA = axi_reg 0x008"
definition AXI_IN_INT_CLR :: "u8 \<Rightarrow> u32" where "AXI_IN_INT_CLR = axi_reg 0x00c"
definition AXI_IN_CONF0 :: "u8 \<Rightarrow> u32" where "AXI_IN_CONF0 = axi_reg 0x010"
definition AXI_IN_LINK1 :: "u8 \<Rightarrow> u32" where "AXI_IN_LINK1 = axi_reg 0x020"
definition AXI_IN_LINK2 :: "u8 \<Rightarrow> u32" where "AXI_IN_LINK2 = axi_reg 0x024"
definition AXI_IN_PERI_SEL :: "u8 \<Rightarrow> u32" where "AXI_IN_PERI_SEL = axi_reg 0x044"
definition AXI_OUT_INT_RAW :: "u8 \<Rightarrow> u32" where "AXI_OUT_INT_RAW = axi_reg 0x138"
definition AXI_OUT_INT_ENA :: "u8 \<Rightarrow> u32" where "AXI_OUT_INT_ENA = axi_reg 0x140"
definition AXI_OUT_INT_CLR :: "u8 \<Rightarrow> u32" where "AXI_OUT_INT_CLR = axi_reg 0x144"
definition AXI_OUT_CONF0 :: "u8 \<Rightarrow> u32" where "AXI_OUT_CONF0 = axi_reg 0x148"
definition AXI_OUT_LINK1 :: "u8 \<Rightarrow> u32" where "AXI_OUT_LINK1 = axi_reg 0x158"
definition AXI_OUT_LINK2 :: "u8 \<Rightarrow> u32" where "AXI_OUT_LINK2 = axi_reg 0x15c"
definition AXI_OUT_PERI_SEL :: "u8 \<Rightarrow> u32" where "AXI_OUT_PERI_SEL = axi_reg 0x17c"
definition AXI_INTR_MEM_START :: u32 where "AXI_INTR_MEM_START = AXI_BASE + 0x27c"
definition AXI_INTR_MEM_END :: u32 where "AXI_INTR_MEM_END = AXI_BASE + 0x280"
definition AXI_EXTR_MEM_START :: u32 where "AXI_EXTR_MEM_START = AXI_BASE + 0x284"
definition AXI_EXTR_MEM_END :: u32 where "AXI_EXTR_MEM_END = AXI_BASE + 0x288"
definition AXI_MISC_CONF :: u32 where "AXI_MISC_CONF = AXI_BASE + 0x2a8"

definition IN_RST :: u32 where "IN_RST = push_bit 0 1"
definition MEM_TRANS_EN :: u32 where "MEM_TRANS_EN = push_bit 2 1"
definition INDSCR_BURST_EN :: u32 where "INDSCR_BURST_EN = push_bit 9 1"
definition OUT_RST :: u32 where "OUT_RST = push_bit 0 1"
definition OUT_EOF_MODE :: u32 where "OUT_EOF_MODE = push_bit 3 1"
definition OUTDSCR_BURST_EN :: u32 where "OUTDSCR_BURST_EN = push_bit 10 1"
definition INLINK_START :: u32 where "INLINK_START = push_bit 2 1"
definition OUTLINK_START :: u32 where "OUTLINK_START = push_bit 1 1"
definition IN_INT_SUC_EOF :: u32 where "IN_INT_SUC_EOF = push_bit 1 1"
definition IN_INT_DSCR_ERR :: u32 where "IN_INT_DSCR_ERR = push_bit 3 1"
definition OUT_INT_EOF :: u32 where "OUT_INT_EOF = push_bit 1 1"
definition OUT_INT_DSCR_ERR :: u32 where "OUT_INT_DSCR_ERR = push_bit 2 1"
definition MISC_AXIM_RST_WR :: u32 where "MISC_AXIM_RST_WR = push_bit 0 1"
definition MISC_AXIM_RST_RD :: u32 where "MISC_AXIM_RST_RD = push_bit 1 1"
definition MISC_CLK_EN :: u32 where "MISC_CLK_EN = push_bit 4 1"
definition HP_CLKRST_ESP :: u32 where "HP_CLKRST_ESP = 0x500E6000"
definition HP_SOC_CLK_CTRL1 :: u32 where "HP_SOC_CLK_CTRL1 = HP_CLKRST_ESP + 0x18"
definition HP_RST_EN1 :: u32 where "HP_RST_EN1 = HP_CLKRST_ESP + 0xc4"
definition AXI_PDMA_SYS_EN :: u32 where "AXI_PDMA_SYS_EN = push_bit 4 1"
definition RST_EN_AXI_PDMA :: u32 where "RST_EN_AXI_PDMA = push_bit 2 1"
definition DESC_SUC_EOF :: u32 where "DESC_SUC_EOF = push_bit 30 1"
definition DESC_OWNER_DMA :: u32 where "DESC_OWNER_DMA = push_bit 31 1"
definition DESC_MAX_LEN :: u32 where "DESC_MAX_LEN = 0xFFF"
definition DESC_NC_OFFSET :: u32 where "DESC_NC_OFFSET = 0x40000000"
definition GDMA_AXI_NOTIF :: nat where "GDMA_AXI_NOTIF = 0"
definition GDMA_AXI_WAIT_MS :: u32 where "GDMA_AXI_WAIT_MS = 100"
definition GDMA_AXI_PERIPH_NONE :: u32 where "GDMA_AXI_PERIPH_NONE = 0x3F"
definition GDMA_AXI_PERIPH_SPI2 :: u32 where "GDMA_AXI_PERIPH_SPI2 = 1"
definition GDMA_AXI_SLOT_MEM :: u8 where "GDMA_AXI_SLOT_MEM = 0"
definition GDMA_AXI_SLOT_RX :: "u8 \<Rightarrow> u8" where "GDMA_AXI_SLOT_RX ch = 1 + (ch - 1) * 2"
definition GDMA_AXI_SLOT_TX :: "u8 \<Rightarrow> u8" where "GDMA_AXI_SLOT_TX ch = 2 + (ch - 1) * 2"
definition GDMA_AXI_MAX_INST :: u8 where [const_defs]: "GDMA_AXI_MAX_INST = 1"
definition GDMA_AXI_MSG_OPEN :: u32 where [const_defs]: "GDMA_AXI_MSG_OPEN = 1"
definition GDMA_AXI_MSG_MEMCPY :: u32 where [const_defs]: "GDMA_AXI_MSG_MEMCPY = 2"
definition GDMA_AXI_MSG_RX_ARM :: u32 where [const_defs]: "GDMA_AXI_MSG_RX_ARM = 3"
definition GDMA_AXI_MSG_RX_WAIT :: u32 where [const_defs]: "GDMA_AXI_MSG_RX_WAIT = 4"
definition GDMA_AXI_MSG_TX_ARM :: u32 where [const_defs]: "GDMA_AXI_MSG_TX_ARM = 5"
definition GDMA_AXI_MSG_TX_WAIT :: u32 where [const_defs]: "GDMA_AXI_MSG_TX_WAIT = 6"
definition ULMK_BOARD_CLIC_BASE :: u32 where "ULMK_BOARD_CLIC_BASE = 0x20800000"

section \<open>State\<close>

record gdma_layout =
  slot_desc :: "nat \<Rightarrow> u32"
  mem_out_desc :: u32

record gdma_slot =
  gs_notif :: u32
  gs_irq :: u8
  gs_hw_ch :: u8
  gs_is_tx :: bool
  gs_open :: bool
  gs_periph :: u8
  gs_buf :: u32
  gs_len :: u32

record gdma_st = pads_esp +
  g_hw :: bool
  g_slot :: "gdma_slot list"
  g_gdma_axi_eps :: u32

type_synonym ('z, 'a) gdma_op = "('z gdma_st_scheme, 'a) state"

definition slot_of :: "u8 \<Rightarrow> ('z, gdma_slot) gdma_op" where
  "slot_of slot = gets (\<lambda>st. g_slot st ! unat slot)"

definition set_slot :: "u8 \<Rightarrow> (gdma_slot \<Rightarrow> gdma_slot) \<Rightarrow> ('z, unit) gdma_op" where
  "set_slot slot f = modify (\<lambda>st. st\<lparr>g_slot := (g_slot st)[unat slot := f (g_slot st ! unat slot)]\<rparr>)"

definition desc_nc :: "u32 \<Rightarrow> u32" where
  "desc_nc d = d + DESC_NC_OFFSET"

text \<open>The three stores that fill a descriptor.\<close>

definition write_desc :: "u32 \<Rightarrow> u32 \<Rightarrow> u32 \<Rightarrow> ('z, unit) gdma_op" where
  "write_desc d dw0 buf = do {
     wr32 (desc_nc d) dw0;
     wr32 (desc_nc d + 4) buf;
     wr32 (desc_nc d + 8) 0
   }"

definition in_dw0 :: "u32 \<Rightarrow> u32" where
  "in_dw0 len = (len AND DESC_MAX_LEN) OR DESC_OWNER_DMA"

definition out_dw0 :: "u32 \<Rightarrow> u32" where
  "out_dw0 len = (len AND DESC_MAX_LEN) OR push_bit 12 (len AND DESC_MAX_LEN) OR DESC_SUC_EOF OR DESC_OWNER_DMA"

section \<open>The hardware\<close>

definition wait_in_done :: "u8 \<Rightarrow> u32 \<Rightarrow> u8 \<Rightarrow> ('z, cint) gdma_op" where
  "wait_in_done hw_ch notif irq = do {
     kern_do (Irq_ack (ucast irq));
     wr32 (AXI_IN_INT_ENA hw_ch) (IN_INT_SUC_EOF OR IN_INT_DSCR_ERR);
     rc \<leftarrow> kern (Notif_wait_timeout notif (push_bit GDMA_AXI_NOTIF 1) GDMA_AXI_WAIT_MS);
     wr32 (AXI_IN_INT_ENA hw_ch) 0;
     ret rc
   }"

definition wait_out_done :: "u8 \<Rightarrow> u32 \<Rightarrow> u8 \<Rightarrow> ('z, cint) gdma_op" where
  "wait_out_done hw_ch notif irq = do {
     kern_do (Irq_ack (ucast irq));
     wr32 (AXI_OUT_INT_ENA hw_ch) (OUT_INT_EOF OR OUT_INT_DSCR_ERR);
     rc \<leftarrow> kern (Notif_wait_timeout notif (push_bit GDMA_AXI_NOTIF 1) GDMA_AXI_WAIT_MS);
     wr32 (AXI_OUT_INT_ENA hw_ch) 0;
     ret rc
   }"

definition gdma_axi_hw_init :: "ulmk_abi \<Rightarrow> ('z, cint) gdma_op" where
  "gdma_axi_hw_init K = do {
     v \<leftarrow> rd32 HP_SOC_CLK_CTRL1;
     wr32 HP_SOC_CLK_CTRL1 (v OR AXI_PDMA_SYS_EN);
     v \<leftarrow> rd32 HP_SOC_CLK_CTRL1;
     if v AND AXI_PDMA_SYS_EN = 0 then do {
       modify (\<lambda>st. st\<lparr>g_hw := False\<rparr>);
       ret (ULMK_ENOTSUP K)
     } else do {
       v \<leftarrow> rd32 HP_RST_EN1;
       wr32 HP_RST_EN1 (v OR RST_EN_AXI_PDMA);
       wr32 HP_RST_EN1 (v AND NOT RST_EN_AXI_PDMA);
       wr32 AXI_INTR_MEM_START 0x4FC00000;
       wr32 AXI_INTR_MEM_END 0x4FFC0000;
       wr32 AXI_EXTR_MEM_START 0x40000000;
       wr32 AXI_EXTR_MEM_END 0x4C000000;
       wr32 AXI_MISC_CONF (MISC_AXIM_RST_RD OR MISC_AXIM_RST_WR OR MISC_CLK_EN);
       wr32 AXI_MISC_CONF MISC_CLK_EN;
       modify (\<lambda>st. st\<lparr>g_hw := True\<rparr>);
       ret (ULMK_OK K)
     }
   }"

definition slot_valid :: "u8 \<Rightarrow> bool" where
  "slot_valid slot \<longleftrightarrow> slot < of_nat GDMA_AXI_SLOT_COUNT"

definition hw_channel_open :: "ulmk_abi \<Rightarrow> u8 \<Rightarrow> u32 \<Rightarrow> ('z, cint) gdma_op" where
  "hw_channel_open K slot mux = do {
     hw \<leftarrow> gets g_hw;
     s \<leftarrow> slot_of slot;
     if \<not> slot_valid slot then ret (ULMK_EINVAL K)
     else if mux \<noteq> GDMA_AXI_PERIPH_NONE \<and> mux > 0x3F then ret (ULMK_EINVAL K)
     else if \<not> hw then ret (ULMK_ENOTSUP K)
     else if gs_notif s = ULMK_NOTIF_INVALID K then ret (ULMK_ENOTSUP K)
     else if slot = GDMA_AXI_SLOT_MEM \<and> mux \<noteq> GDMA_AXI_PERIPH_NONE then ret (ULMK_EINVAL K)
     else if slot \<noteq> GDMA_AXI_SLOT_MEM \<and> mux = GDMA_AXI_PERIPH_NONE then ret (ULMK_EINVAL K)
     else do {
       set_slot slot (\<lambda>s. s\<lparr>gs_periph := ucast mux\<rparr>);
       set_slot slot (\<lambda>s. s\<lparr>gs_open := True\<rparr>);
       when_do (slot \<noteq> GDMA_AXI_SLOT_MEM)
         (if gs_is_tx s then wr32 (AXI_OUT_PERI_SEL (gs_hw_ch s)) (mux AND 0x3F)
          else wr32 (AXI_IN_PERI_SEL (gs_hw_ch s)) (mux AND 0x3F));
       ret (ULMK_OK K)
     }
   }"

definition hw_rx_arm :: "'l gdma_layout_scheme \<Rightarrow> ulmk_abi \<Rightarrow> u8 \<Rightarrow> u32 \<Rightarrow> u32 \<Rightarrow> ('z, cint) gdma_op" where
  "hw_rx_arm M K slot dst len = do {
     hw \<leftarrow> gets g_hw;
     s \<leftarrow> slot_of slot;
     if \<not> slot_valid slot \<or> dst = 0 \<or> len = 0 then ret (ULMK_EINVAL K)
     else if slot = GDMA_AXI_SLOT_MEM \<or> gs_is_tx s then ret (ULMK_EINVAL K)
     else if \<not> hw \<or> \<not> gs_open s then ret (ULMK_ENOTSUP K)
     else if len > DESC_MAX_LEN then ret (ULMK_EINVAL K)
     else do {
       let ch = gs_hw_ch s;
       write_desc (slot_desc M (unat slot)) (in_dw0 len) dst;
       set_slot slot (\<lambda>s. s\<lparr>gs_buf := dst\<rparr>);
       set_slot slot (\<lambda>s. s\<lparr>gs_len := len\<rparr>);
       wr32 (AXI_IN_CONF0 ch) IN_RST;
       wr32 (AXI_IN_CONF0 ch) INDSCR_BURST_EN;
       wr32 (AXI_IN_PERI_SEL ch) (ucast (gs_periph s AND 0x3F));
       wr32 (AXI_IN_INT_CLR ch) 0xFFFFFFFF;
       wr32 (AXI_IN_LINK2 ch) (slot_desc M (unat slot));
       wr32 (AXI_IN_LINK1 ch) INLINK_START;
       ret (ULMK_OK K)
     }
   }"

definition hw_rx_wait :: "'l gdma_layout_scheme \<Rightarrow> ulmk_abi \<Rightarrow> u8 \<Rightarrow> ('z, cint) gdma_op" where
  "hw_rx_wait M K slot = do {
     s \<leftarrow> slot_of slot;
     if \<not> slot_valid slot then ret (ULMK_EINVAL K)
     else if slot = GDMA_AXI_SLOT_MEM \<or> gs_is_tx s then ret (ULMK_EINVAL K)
     else if gs_buf s = 0 then ret (ULMK_EINVAL K)
     else do {
       let ch = gs_hw_ch s;
       rc \<leftarrow> wait_in_done ch (gs_notif s) (gs_irq s);
       if rc \<noteq> ULMK_OK K then do {
         wr32 (AXI_IN_INT_CLR ch) 0xFFFFFFFF;
         set_slot slot (\<lambda>s. s\<lparr>gs_buf := 0\<rparr>);
         ret (ULMK_ETIMEOUT K)
       } else do {
         raw \<leftarrow> rd32 (AXI_IN_INT_RAW ch);
         wr32 (AXI_IN_INT_CLR ch) 0xFFFFFFFF;
         dw0 \<leftarrow> rd32 (desc_nc (slot_desc M (unat slot)));
         let got = drop_bit 12 dw0 AND DESC_MAX_LEN;
         let got = (if got > gs_len s then gs_len s else got);
         dev_do (Dcache_invalidate (gs_buf s) (gs_len s));
         set_slot slot (\<lambda>s. s\<lparr>gs_buf := 0\<rparr>);
         ret (if raw AND IN_INT_DSCR_ERR \<noteq> 0 then ULMK_EINVAL K
              else if raw AND IN_INT_SUC_EOF = 0 then ULMK_ETIMEOUT K else got)
       }
     }
   }"

definition hw_tx_arm :: "'l gdma_layout_scheme \<Rightarrow> ulmk_abi \<Rightarrow> u8 \<Rightarrow> u32 \<Rightarrow> u32 \<Rightarrow> ('z, cint) gdma_op" where
  "hw_tx_arm M K slot src len = do {
     hw \<leftarrow> gets g_hw;
     s \<leftarrow> slot_of slot;
     if \<not> slot_valid slot \<or> src = 0 \<or> len = 0 then ret (ULMK_EINVAL K)
     else if slot = GDMA_AXI_SLOT_MEM \<or> \<not> gs_is_tx s then ret (ULMK_EINVAL K)
     else if \<not> hw \<or> \<not> gs_open s then ret (ULMK_ENOTSUP K)
     else if len > DESC_MAX_LEN then ret (ULMK_EINVAL K)
     else do {
       let ch = gs_hw_ch s;
       dev_do (Dcache_clean src len);
       write_desc (slot_desc M (unat slot)) (out_dw0 len) src;
       set_slot slot (\<lambda>s. s\<lparr>gs_buf := src\<rparr>);
       set_slot slot (\<lambda>s. s\<lparr>gs_len := len\<rparr>);
       wr32 (AXI_OUT_CONF0 ch) OUT_RST;
       wr32 (AXI_OUT_CONF0 ch) (OUT_EOF_MODE OR OUTDSCR_BURST_EN);
       wr32 (AXI_OUT_PERI_SEL ch) (ucast (gs_periph s AND 0x3F));
       wr32 (AXI_OUT_INT_CLR ch) 0xFFFFFFFF;
       wr32 (AXI_OUT_LINK2 ch) (slot_desc M (unat slot));
       wr32 (AXI_OUT_LINK1 ch) OUTLINK_START;
       ret (ULMK_OK K)
     }
   }"

definition hw_tx_wait :: "ulmk_abi \<Rightarrow> u8 \<Rightarrow> ('z, cint) gdma_op" where
  "hw_tx_wait K slot = do {
     s \<leftarrow> slot_of slot;
     if \<not> slot_valid slot then ret (ULMK_EINVAL K)
     else if slot = GDMA_AXI_SLOT_MEM \<or> \<not> gs_is_tx s then ret (ULMK_EINVAL K)
     else if gs_buf s = 0 then ret (ULMK_EINVAL K)
     else do {
       let ch = gs_hw_ch s;
       rc \<leftarrow> wait_out_done ch (gs_notif s) (gs_irq s);
       if rc \<noteq> ULMK_OK K then do {
         wr32 (AXI_OUT_INT_CLR ch) 0xFFFFFFFF;
         set_slot slot (\<lambda>s. s\<lparr>gs_buf := 0\<rparr>);
         ret (ULMK_ETIMEOUT K)
       } else do {
         raw \<leftarrow> rd32 (AXI_OUT_INT_RAW ch);
         wr32 (AXI_OUT_INT_CLR ch) 0xFFFFFFFF;
         set_slot slot (\<lambda>s. s\<lparr>gs_buf := 0\<rparr>);
         ret (if raw AND OUT_INT_DSCR_ERR \<noteq> 0 then ULMK_EINVAL K
              else if raw AND OUT_INT_EOF = 0 then ULMK_ETIMEOUT K else ULMK_OK K)
       }
     }
   }"

definition dma_memcpy_hw :: "'l gdma_layout_scheme \<Rightarrow> ulmk_abi \<Rightarrow> u32 \<Rightarrow> u32 \<Rightarrow> u32 \<Rightarrow> ('z, cint) gdma_op" where
  "dma_memcpy_hw M K dst src len = do {
     let n = AXI_CH_MEM;
     s \<leftarrow> slot_of GDMA_AXI_SLOT_MEM;
     dev_do (Dcache_clean src len);
     write_desc (mem_out_desc M) (out_dw0 len) src;
     write_desc (slot_desc M (unat GDMA_AXI_SLOT_MEM)) (in_dw0 len) dst;
     wr32 (AXI_IN_CONF0 n) IN_RST;
     wr32 (AXI_OUT_CONF0 n) OUT_RST;
     wr32 (AXI_IN_CONF0 n) (MEM_TRANS_EN OR INDSCR_BURST_EN);
     wr32 (AXI_OUT_CONF0 n) (OUT_EOF_MODE OR OUTDSCR_BURST_EN);
     wr32 (AXI_IN_PERI_SEL n) GDMA_AXI_PERIPH_NONE;
     wr32 (AXI_OUT_PERI_SEL n) GDMA_AXI_PERIPH_NONE;
     wr32 (AXI_IN_INT_CLR n) 0xFFFFFFFF;
     wr32 (AXI_OUT_INT_CLR n) 0xFFFFFFFF;
     wr32 (AXI_OUT_LINK2 n) (mem_out_desc M);
     wr32 (AXI_IN_LINK2 n) (slot_desc M (unat GDMA_AXI_SLOT_MEM));
     wr32 (AXI_IN_LINK1 n) INLINK_START;
     wr32 (AXI_OUT_LINK1 n) OUTLINK_START;
     rc \<leftarrow> wait_in_done n (gs_notif s) (gs_irq s);
     if rc \<noteq> ULMK_OK K then do {
       wr32 (AXI_IN_INT_CLR n) 0xFFFFFFFF;
       ret (ULMK_ETIMEOUT K)
     } else do {
       raw \<leftarrow> rd32 (AXI_IN_INT_RAW n);
       wr32 (AXI_IN_INT_CLR n) 0xFFFFFFFF;
       if raw AND IN_INT_DSCR_ERR \<noteq> 0 then ret (ULMK_EINVAL K)
       else if raw AND IN_INT_SUC_EOF = 0 then ret (ULMK_ETIMEOUT K)
       else do {
         dev_do (Dcache_invalidate dst len);
         ret (ULMK_OK K)
       }
     }
   }"

definition hw_memcpy :: "'l gdma_layout_scheme \<Rightarrow> ulmk_abi \<Rightarrow> u32 \<Rightarrow> u32 \<Rightarrow> u32 \<Rightarrow> ('z, cint) gdma_op" where
  "hw_memcpy M K dst src len = do {
     hw \<leftarrow> gets g_hw;
     if dst = 0 \<or> src = 0 then ret (ULMK_EINVAL K)
     else if \<not> hw then ret (ULMK_ENOTSUP K)
     else if len = 0 then ret (ULMK_OK K)
     else if len > DESC_MAX_LEN then ret (ULMK_EINVAL K)
     else dma_memcpy_hw M K dst src len
   }"

section \<open>The server\<close>

definition gdma_handle :: "'l gdma_layout_scheme \<Rightarrow> ulmk_abi \<Rightarrow> msg \<Rightarrow> ('z, cint) gdma_op" where
  "gdma_handle M K m =
     (if label m = GDMA_AXI_MSG_OPEN then hw_channel_open K (ucast (words m 0)) (words m 1)
      else if label m = GDMA_AXI_MSG_MEMCPY then hw_memcpy M K (words m 0) (words m 1) (words m 2)
      else if label m = GDMA_AXI_MSG_RX_ARM then hw_rx_arm M K (ucast (words m 0)) (words m 1) (words m 2)
      else if label m = GDMA_AXI_MSG_RX_WAIT then hw_rx_wait M K (ucast (words m 0))
      else if label m = GDMA_AXI_MSG_TX_ARM then hw_tx_arm M K (ucast (words m 0)) (words m 1) (words m 2)
      else if label m = GDMA_AXI_MSG_TX_WAIT then hw_tx_wait K (ucast (words m 0))
      else ret (ULMK_EINVAL K))"

text \<open>Only word 0 of the reply is set; the others, indeterminate in C and read by no client, are 0 here.\<close>

definition gdma_dispatch :: "'l gdma_layout_scheme \<Rightarrow> ulmk_abi \<Rightarrow> msg \<Rightarrow> ('z, msg) gdma_op" where
  "gdma_dispatch M K m = do {
     rc \<leftarrow> gdma_handle M K m;
     ret \<lparr>label = 0, words = (\<lambda>_. 0)(0 := rc)\<rparr>
   }"

record gdma_bind =
  bd_irq :: u8
  bd_clic :: u8
  bd_hw_ch :: u8
  bd_is_tx :: bool

definition gdma_binds :: "gdma_bind list" where
  "gdma_binds =
     [\<lparr>bd_irq = 12, bd_clic = 27, bd_hw_ch = AXI_CH_MEM, bd_is_tx = False\<rparr>,
      \<lparr>bd_irq = 13, bd_clic = 28, bd_hw_ch = 1, bd_is_tx = False\<rparr>,
      \<lparr>bd_irq = 14, bd_clic = 29, bd_hw_ch = 1, bd_is_tx = True\<rparr>,
      \<lparr>bd_irq = 15, bd_clic = 30, bd_hw_ch = 2, bd_is_tx = False\<rparr>,
      \<lparr>bd_irq = 16, bd_clic = 31, bd_hw_ch = 2, bd_is_tx = True\<rparr>]"

text \<open>One turn of the loop over the slots; \<open>False\<close> is the early return.\<close>

definition gdma_init_slot :: "ulmk_abi \<Rightarrow> nat \<Rightarrow> ('z, bool) gdma_op" where
  "gdma_init_slot K i = do {
     let bd = gdma_binds ! i;
     let j = of_nat i;
     set_slot j (\<lambda>s. s\<lparr>gs_periph := ucast GDMA_AXI_PERIPH_NONE\<rparr>);
     set_slot j (\<lambda>s. s\<lparr>gs_hw_ch := bd_hw_ch bd\<rparr>);
     set_slot j (\<lambda>s. s\<lparr>gs_is_tx := bd_is_tx bd\<rparr>);
     notif \<leftarrow> kern Notif_create;
     set_slot j (\<lambda>s. s\<lparr>gs_notif := notif\<rparr>);
     if notif = ULMK_NOTIF_INVALID K then ret False
     else do {
       set_slot j (\<lambda>s. s\<lparr>gs_irq := bd_irq bd\<rparr>);
       let clic_reg = ULMK_BOARD_CLIC_BASE + 0x1000 + ucast (bd_clic bd) * 4;
       rc \<leftarrow> kern (Irq_bind_hw (ucast (bd_irq bd)) notif (of_nat GDMA_AXI_NOTIF) clic_reg);
       if rc \<noteq> ULMK_OK K then ret False
       else do {
         rc \<leftarrow> kern (Irq_enable (ucast (bd_irq bd)));
         ret (rc = ULMK_OK K)
       }
     }
   }"

definition gdma_axi_init :: "ulmk_abi \<Rightarrow> u8 \<Rightarrow> ('z, u32) gdma_op" where
  "gdma_axi_init K n = do {
     cur \<leftarrow> gets g_gdma_axi_eps;
     if n \<ge> GDMA_AXI_MAX_INST then ret (ULMK_TID_INVALID K)
     else if cur \<noteq> ULMK_EP_INVALID K then ret (ULMK_TID_INVALID K)
     else do {
       ep \<leftarrow> kern Ep_create;
       modify (\<lambda>st. st\<lparr>g_gdma_axi_eps := ep\<rparr>);
       if ep = ULMK_EP_INVALID K then ret (ULMK_TID_INVALID K)
       else do {
         rc \<leftarrow> gdma_axi_hw_init K;
         if rc \<noteq> ULMK_OK K then ret (ULMK_TID_INVALID K)
         else do {
           ok \<leftarrow> try_each [0..<GDMA_AXI_SLOT_COUNT] (gdma_init_slot K);
           if \<not> ok then ret (ULMK_TID_INVALID K)
           else do {
             tid \<leftarrow> kern (Thread_create ''gdma_axi'' 2 2048);
             when_do (tid \<noteq> ULMK_TID_INVALID K) (kern_do (Cap_grant tid ''MAP_PERIPH|IRQ''));
             ret tid
           }
         }
       }
     }
   }"

section \<open>The client\<close>

text \<open>A word that the client leaves uninitialised is 0 here; the server reads none of them.\<close>

definition gdma_axi_call :: "ulmk_abi \<Rightarrow> u32 \<Rightarrow> 's ep_call \<Rightarrow> u32 \<Rightarrow> u32 list \<Rightarrow> ('s, cint) state" where
  "gdma_axi_call K ep call lab ws =
     (if ep = ULMK_EP_INVALID K then ret (ULMK_EINVAL K)
      else do {
        (rc, m) \<leftarrow> call \<lparr>label = lab, words = (\<lambda>i. if i < length ws then ws ! i else 0)\<rparr>;
        if rc \<noteq> ULMK_OK K then ret (ULMK_EINVAL K) else ret (words m 0)
      })"

definition gdma_axi_channel_open :: "ulmk_abi \<Rightarrow> u32 \<Rightarrow> 's ep_call \<Rightarrow> u8 \<Rightarrow> u32 \<Rightarrow> u32 \<Rightarrow> ('s, cint) state" where
  "gdma_axi_channel_open K ep call slot mux flags = gdma_axi_call K ep call GDMA_AXI_MSG_OPEN [ucast slot, mux, flags]"

definition gdma_axi_memcpy :: "ulmk_abi \<Rightarrow> u32 \<Rightarrow> 's ep_call \<Rightarrow> u32 \<Rightarrow> u32 \<Rightarrow> u32 \<Rightarrow> ('s, cint) state" where
  "gdma_axi_memcpy K ep call dst src len = gdma_axi_call K ep call GDMA_AXI_MSG_MEMCPY [dst, src, len]"

definition gdma_axi_rx_arm :: "ulmk_abi \<Rightarrow> u32 \<Rightarrow> 's ep_call \<Rightarrow> u8 \<Rightarrow> u32 \<Rightarrow> u32 \<Rightarrow> ('s, cint) state" where
  "gdma_axi_rx_arm K ep call slot dst len = gdma_axi_call K ep call GDMA_AXI_MSG_RX_ARM [ucast slot, dst, len]"

definition gdma_axi_rx_wait :: "ulmk_abi \<Rightarrow> u32 \<Rightarrow> 's ep_call \<Rightarrow> u8 \<Rightarrow> ('s, cint) state" where
  "gdma_axi_rx_wait K ep call slot = gdma_axi_call K ep call GDMA_AXI_MSG_RX_WAIT [ucast slot]"

definition gdma_axi_tx_arm :: "ulmk_abi \<Rightarrow> u32 \<Rightarrow> 's ep_call \<Rightarrow> u8 \<Rightarrow> u32 \<Rightarrow> u32 \<Rightarrow> ('s, cint) state" where
  "gdma_axi_tx_arm K ep call slot src len = gdma_axi_call K ep call GDMA_AXI_MSG_TX_ARM [ucast slot, src, len]"

definition gdma_axi_tx_wait :: "ulmk_abi \<Rightarrow> u32 \<Rightarrow> 's ep_call \<Rightarrow> u8 \<Rightarrow> ('s, cint) state" where
  "gdma_axi_tx_wait K ep call slot = gdma_axi_call K ep call GDMA_AXI_MSG_TX_WAIT [ucast slot]"

section \<open>The roles of the slots\<close>

text \<open>The channel and the direction of a slot are fixed by the table \<open>gdma_binds\<close>.\<close>

definition gdma_roles :: "'z gdma_st_scheme \<Rightarrow> bool" where
  "gdma_roles st \<longleftrightarrow> length (g_slot st) = GDMA_AXI_SLOT_COUNT \<and>
     (\<forall>i < GDMA_AXI_SLOT_COUNT. gs_hw_ch (g_slot st ! i) = bd_hw_ch (gdma_binds ! i) \<and>
        gs_is_tx (g_slot st ! i) = bd_is_tx (gdma_binds ! i))"

definition rx_slot :: "u8 \<Rightarrow> bool" where
  "rx_slot slot \<longleftrightarrow> slot = 1 \<or> slot = 3"

definition tx_slot :: "u8 \<Rightarrow> bool" where
  "tx_slot slot \<longleftrightarrow> slot = 2 \<or> slot = 4"

definition chan_of :: "u8 \<Rightarrow> u8" where
  "chan_of slot = (if slot = 0 then 0 else if slot \<le> 2 then 1 else 2)"

lemma valid_slots: "slot_valid slot \<longleftrightarrow> slot = 0 \<or> slot = 1 \<or> slot = 2 \<or> slot = 3 \<or> slot = 4"
proof
  assume "slot_valid slot"
  then have "unat slot < 5"
    by (simp add: slot_valid_def GDMA_AXI_SLOT_COUNT_def word_less_nat_alt)
  then have "unat slot = 0 \<or> unat slot = 1 \<or> unat slot = 2 \<or> unat slot = 3 \<or> unat slot = 4"
    by linarith
  then show "slot = 0 \<or> slot = 1 \<or> slot = 2 \<or> slot = 3 \<or> slot = 4"
    by (auto simp: word_unat_eq_iff [of slot])
qed (auto simp: slot_valid_def GDMA_AXI_SLOT_COUNT_def)

lemma all_five: "(\<forall>i < (5 :: nat). P i) \<longleftrightarrow> P 0 \<and> P 1 \<and> P 2 \<and> P 3 \<and> P 4"
  by (auto simp: numeral_eq_Suc less_Suc_eq)

lemma roles_five:
  "gdma_roles st \<longleftrightarrow> length (g_slot st) = 5 \<and>
     gs_hw_ch (g_slot st ! 0) = 0 \<and> \<not> gs_is_tx (g_slot st ! 0) \<and>
     gs_hw_ch (g_slot st ! 1) = 1 \<and> \<not> gs_is_tx (g_slot st ! 1) \<and>
     gs_hw_ch (g_slot st ! 2) = 1 \<and> gs_is_tx (g_slot st ! 2) \<and>
     gs_hw_ch (g_slot st ! 3) = 2 \<and> \<not> gs_is_tx (g_slot st ! 3) \<and>
     gs_hw_ch (g_slot st ! 4) = 2 \<and> gs_is_tx (g_slot st ! 4)"
  unfolding gdma_roles_def GDMA_AXI_SLOT_COUNT_def all_five
  by (auto simp: gdma_binds_def AXI_CH_MEM_def)

lemma slot_role:
  assumes "gdma_roles st"
  shows "rx_slot slot \<Longrightarrow> gs_hw_ch (g_slot st ! unat slot) = chan_of slot \<and> \<not> gs_is_tx (g_slot st ! unat slot)"
    "tx_slot slot \<Longrightarrow> gs_hw_ch (g_slot st ! unat slot) = chan_of slot \<and> gs_is_tx (g_slot st ! unat slot)"
    "slot_valid slot \<Longrightarrow> gs_is_tx (g_slot st ! unat slot) = tx_slot slot"
    "slot_valid slot \<Longrightarrow> unat slot < length (g_slot st)"
  using assms
  by (auto simp: roles_five rx_slot_def tx_slot_def chan_of_def valid_slots)

lemma slot_kinds: "slot_valid slot \<longleftrightarrow> slot = 0 \<or> rx_slot slot \<or> tx_slot slot"
  "rx_slot slot \<Longrightarrow> slot \<noteq> 0 \<and> \<not> tx_slot slot" "tx_slot slot \<Longrightarrow> slot \<noteq> 0 \<and> \<not> rx_slot slot"
  by (auto simp: valid_slots rx_slot_def tx_slot_def)

text \<open>The registers of a channel and the words of a descriptor.\<close>

definition chan_regs :: "u8 \<Rightarrow> u32 set" where
  "chan_regs n = {AXI_IN_INT_RAW n, AXI_IN_INT_ENA n, AXI_IN_INT_CLR n, AXI_IN_CONF0 n, AXI_IN_LINK1 n,
     AXI_IN_LINK2 n, AXI_IN_PERI_SEL n, AXI_OUT_INT_RAW n, AXI_OUT_INT_ENA n, AXI_OUT_INT_CLR n,
     AXI_OUT_CONF0 n, AXI_OUT_LINK1 n, AXI_OUT_LINK2 n, AXI_OUT_PERI_SEL n}"

definition desc_words :: "u32 \<Rightarrow> u32 set" where
  "desc_words d = {desc_nc d, desc_nc d + 4, desc_nc d + 8}"

definition slot_regs :: "'l gdma_layout_scheme \<Rightarrow> u8 \<Rightarrow> u32 set" where
  "slot_regs M slot = chan_regs (chan_of slot) \<union> desc_words (slot_desc M (unat slot))"

lemmas axi_regs =
  AXI_IN_INT_RAW_def AXI_IN_INT_ENA_def AXI_IN_INT_CLR_def AXI_IN_CONF0_def AXI_IN_LINK1_def
  AXI_IN_LINK2_def AXI_IN_PERI_SEL_def AXI_OUT_INT_RAW_def AXI_OUT_INT_ENA_def AXI_OUT_INT_CLR_def
  AXI_OUT_CONF0_def AXI_OUT_LINK1_def AXI_OUT_LINK2_def AXI_OUT_PERI_SEL_def
  axi_reg_def AXI_BASE_def AXI_STRIDE_def

lemma chan_regs_disjoint: "chan_regs 0 \<inter> chan_regs 1 = {}" "chan_regs 0 \<inter> chan_regs 2 = {}"
  "chan_regs 1 \<inter> chan_regs 2 = {}"
  by (simp_all add: chan_regs_def axi_regs)

section \<open>What each operation does\<close>

text \<open>The accesses of a successful arm, in order: descriptor, reset, peripheral, link, start.\<close>

definition desc_events :: "u32 \<Rightarrow> u32 \<Rightarrow> u32 \<Rightarrow> esp_act event list" where
  "desc_events d dw0 buf = [Dev (Wr32 (desc_nc d) dw0), Dev (Wr32 (desc_nc d + 4) buf), Dev (Wr32 (desc_nc d + 8) 0)]"

definition rx_arm_events :: "'l gdma_layout_scheme \<Rightarrow> u8 \<Rightarrow> u8 \<Rightarrow> u32 \<Rightarrow> u32 \<Rightarrow> esp_act event list" where
  "rx_arm_events M slot periph dst len =
     (let ch = chan_of slot; d = slot_desc M (unat slot) in
      desc_events d (in_dw0 len) dst @
      [Dev (Wr32 (AXI_IN_CONF0 ch) IN_RST), Dev (Wr32 (AXI_IN_CONF0 ch) INDSCR_BURST_EN),
       Dev (Wr32 (AXI_IN_PERI_SEL ch) (ucast (periph AND 0x3F))),
       Dev (Wr32 (AXI_IN_INT_CLR ch) 0xFFFFFFFF), Dev (Wr32 (AXI_IN_LINK2 ch) d),
       Dev (Wr32 (AXI_IN_LINK1 ch) INLINK_START)])"

definition tx_arm_events :: "'l gdma_layout_scheme \<Rightarrow> u8 \<Rightarrow> u8 \<Rightarrow> u32 \<Rightarrow> u32 \<Rightarrow> esp_act event list" where
  "tx_arm_events M slot periph src len =
     (let ch = chan_of slot; d = slot_desc M (unat slot) in
      Dev (Dcache_clean src len) # desc_events d (out_dw0 len) src @
      [Dev (Wr32 (AXI_OUT_CONF0 ch) OUT_RST), Dev (Wr32 (AXI_OUT_CONF0 ch) (OUT_EOF_MODE OR OUTDSCR_BURST_EN)),
       Dev (Wr32 (AXI_OUT_PERI_SEL ch) (ucast (periph AND 0x3F))),
       Dev (Wr32 (AXI_OUT_INT_CLR ch) 0xFFFFFFFF), Dev (Wr32 (AXI_OUT_LINK2 ch) d),
       Dev (Wr32 (AXI_OUT_LINK1 ch) OUTLINK_START)])"

text \<open>Whether an arm request passes the checks, and the status it is answered with.\<close>

definition arm_ok :: "'z gdma_st_scheme \<Rightarrow> u8 \<Rightarrow> u32 \<Rightarrow> u32 \<Rightarrow> bool" where
  "arm_ok st slot p len \<longleftrightarrow> p \<noteq> 0 \<and> len \<noteq> 0 \<and> len \<le> DESC_MAX_LEN \<and> g_hw st \<and> gs_open (g_slot st ! unat slot)"

definition arm_error :: "ulmk_abi \<Rightarrow> 'z gdma_st_scheme \<Rightarrow> bool \<Rightarrow> u8 \<Rightarrow> u32 \<Rightarrow> u32 \<Rightarrow> cint" where
  "arm_error K st side slot p len =
     (if p \<noteq> 0 \<and> len \<noteq> 0 \<and> side \<and> (\<not> g_hw st \<or> \<not> gs_open (g_slot st ! unat slot))
      then ULMK_ENOTSUP K else ULMK_EINVAL K)"

definition armed :: "u8 \<Rightarrow> u32 \<Rightarrow> u32 \<Rightarrow> 'z gdma_st_scheme \<Rightarrow> 'z gdma_st_scheme" where
  "armed slot p len st = st\<lparr>g_slot := (g_slot st)[unat slot := (g_slot st ! unat slot)\<lparr>gs_buf := p, gs_len := len\<rparr>]\<rparr>"

lemma run_slot_of [simp, run_simps]: "run_state (slot_of slot) st = (g_slot st ! unat slot, st)"
  by (simp add: slot_of_def)

lemma run_set_slot [simp, run_simps]:
  "run_state (set_slot slot f) st = ((), st\<lparr>g_slot := (g_slot st)[unat slot := f (g_slot st ! unat slot)]\<rparr>)"
  by (simp add: set_slot_def)

lemma run_write_desc [simp, run_simps]:
  "run_state (write_desc d dw0 buf) st = ((), st\<lparr>trace := trace st @ desc_events d dw0 buf\<rparr>)"
  by (simp add: write_desc_def desc_events_def)

lemma run_hw_rx_arm:
  assumes "gdma_roles st"
  shows "run_state (hw_rx_arm M K slot dst len) st =
    (if rx_slot slot \<and> arm_ok st slot dst len
     then (ULMK_OK K, (armed slot dst len st)
       \<lparr>trace := trace st @ rx_arm_events M slot (gs_periph (g_slot st ! unat slot)) dst len\<rparr>)
     else (arm_error K st (rx_slot slot) slot dst len, st))"
proof (cases "rx_slot slot \<and> arm_ok st slot dst len")
  case True
  then show ?thesis
    using slot_role [OF assms, of slot] slot_kinds [of slot]
    by (auto simp: hw_rx_arm_def armed_def arm_ok_def rx_arm_events_def Let_def not_less GDMA_AXI_SLOT_MEM_def)
next
  case False
  then show ?thesis
    using slot_role [OF assms, of slot] slot_kinds [of slot]
    by (auto simp: hw_rx_arm_def arm_error_def arm_ok_def not_less GDMA_AXI_SLOT_MEM_def)
qed

lemma run_hw_tx_arm:
  assumes "gdma_roles st"
  shows "run_state (hw_tx_arm M K slot src len) st =
    (if tx_slot slot \<and> arm_ok st slot src len
     then (ULMK_OK K, (armed slot src len st)
       \<lparr>trace := trace st @ tx_arm_events M slot (gs_periph (g_slot st ! unat slot)) src len\<rparr>)
     else (arm_error K st (tx_slot slot) slot src len, st))"
proof (cases "tx_slot slot \<and> arm_ok st slot src len")
  case True
  then show ?thesis
    using slot_role [OF assms, of slot] slot_kinds [of slot]
    by (auto simp: hw_tx_arm_def armed_def arm_ok_def tx_arm_events_def Let_def not_less GDMA_AXI_SLOT_MEM_def)
next
  case False
  then show ?thesis
    using slot_role [OF assms, of slot] slot_kinds [of slot]
    by (auto simp: hw_tx_arm_def arm_error_def arm_ok_def not_less GDMA_AXI_SLOT_MEM_def)
qed

text \<open>
  A wait on an armed slot disarms it whatever happens; its accesses stay in the slot's registers.
\<close>

definition disarmed :: "u8 \<Rightarrow> 'z gdma_st_scheme \<Rightarrow> 'z gdma_st_scheme" where
  "disarmed slot st = st\<lparr>g_slot := (g_slot st)[unat slot := (g_slot st ! unat slot)\<lparr>gs_buf := 0\<rparr>]\<rparr>"

lemma slot_regs_members [simp]:
  "AXI_IN_INT_RAW (chan_of slot) \<in> slot_regs M slot" "AXI_IN_INT_ENA (chan_of slot) \<in> slot_regs M slot"
  "AXI_IN_INT_CLR (chan_of slot) \<in> slot_regs M slot" "AXI_IN_CONF0 (chan_of slot) \<in> slot_regs M slot"
  "AXI_IN_LINK1 (chan_of slot) \<in> slot_regs M slot" "AXI_IN_LINK2 (chan_of slot) \<in> slot_regs M slot"
  "AXI_IN_PERI_SEL (chan_of slot) \<in> slot_regs M slot" "AXI_OUT_INT_RAW (chan_of slot) \<in> slot_regs M slot"
  "AXI_OUT_INT_ENA (chan_of slot) \<in> slot_regs M slot" "AXI_OUT_INT_CLR (chan_of slot) \<in> slot_regs M slot"
  "AXI_OUT_CONF0 (chan_of slot) \<in> slot_regs M slot" "AXI_OUT_LINK1 (chan_of slot) \<in> slot_regs M slot"
  "AXI_OUT_LINK2 (chan_of slot) \<in> slot_regs M slot" "AXI_OUT_PERI_SEL (chan_of slot) \<in> slot_regs M slot"
  "desc_nc (slot_desc M (unat slot)) \<in> slot_regs M slot"
  "desc_nc (slot_desc M (unat slot)) + 4 \<in> slot_regs M slot"
  "desc_nc (slot_desc M (unat slot)) + 8 \<in> slot_regs M slot"
  by (simp_all add: slot_regs_def chan_regs_def desc_words_def)

lemma log_witness:
  "log_in A es \<Longrightarrow> \<exists>es'. st\<lparr>trace := t @ es, g_slot := gs\<rparr> = st\<lparr>g_slot := gs, trace := t @ es'\<rparr> \<and> log_in A es'"
  "log_in A es \<Longrightarrow> \<exists>es'. st\<lparr>trace := t @ es\<rparr> = st\<lparr>trace := t @ es'\<rparr> \<and> log_in A es'"
  by (auto intro: exI [of _ es])

lemma run_hw_rx_wait:
  assumes "gdma_roles st"
  shows "rx_slot slot \<and> gs_buf (g_slot st ! unat slot) \<noteq> 0 \<Longrightarrow>
      \<exists>rc es. run_state (hw_rx_wait M K slot) st = (rc, (disarmed slot st)\<lparr>trace := trace st @ es\<rparr>) \<and>
        log_in (slot_regs M slot) es"
    "\<not> (rx_slot slot \<and> gs_buf (g_slot st ! unat slot) \<noteq> 0) \<Longrightarrow>
      run_state (hw_rx_wait M K slot) st = (ULMK_EINVAL K, st)"
  using slot_role [OF assms, of slot] slot_kinds [of slot]
  by (auto simp: hw_rx_wait_def wait_in_done_def disarmed_def Let_def GDMA_AXI_SLOT_MEM_def intro!: log_witness)

lemma run_hw_tx_wait:
  assumes "gdma_roles st"
  shows "tx_slot slot \<and> gs_buf (g_slot st ! unat slot) \<noteq> 0 \<Longrightarrow>
      \<exists>rc es. run_state (hw_tx_wait K slot) st = (rc, (disarmed slot st)\<lparr>trace := trace st @ es\<rparr>) \<and>
        log_in (slot_regs M slot) es"
    "\<not> (tx_slot slot \<and> gs_buf (g_slot st ! unat slot) \<noteq> 0) \<Longrightarrow>
      run_state (hw_tx_wait K slot) st = (ULMK_EINVAL K, st)"
  using slot_role [OF assms, of slot] slot_kinds [of slot]
  by (auto simp: hw_tx_wait_def wait_out_done_def disarmed_def Let_def GDMA_AXI_SLOT_MEM_def intro!: log_witness)

text \<open>An OPEN request: the memory slot takes the peripheral \<open>NONE\<close> and only it.\<close>

definition open_ok :: "u8 \<Rightarrow> u32 \<Rightarrow> bool" where
  "open_ok slot mux \<longleftrightarrow> slot_valid slot \<and> mux \<le> 0x3F \<and> (slot = 0 \<longleftrightarrow> mux = GDMA_AXI_PERIPH_NONE)"

definition opened :: "u8 \<Rightarrow> u32 \<Rightarrow> 'z gdma_st_scheme \<Rightarrow> 'z gdma_st_scheme" where
  "opened slot mux st = st\<lparr>g_slot := (g_slot st)[unat slot :=
     (g_slot st ! unat slot)\<lparr>gs_periph := ucast mux, gs_open := True\<rparr>]\<rparr>"

definition open_events :: "u8 \<Rightarrow> u32 \<Rightarrow> esp_act event list" where
  "open_events slot mux =
     (if tx_slot slot then [Dev (Wr32 (AXI_OUT_PERI_SEL (chan_of slot)) (mux AND 0x3F))]
      else if rx_slot slot then [Dev (Wr32 (AXI_IN_PERI_SEL (chan_of slot)) (mux AND 0x3F))] else [])"

definition gdma_ready :: "ulmk_abi \<Rightarrow> 'z gdma_st_scheme \<Rightarrow> bool" where
  "gdma_ready K st \<longleftrightarrow> gdma_roles st \<and> g_hw st \<and> (\<forall>s \<in> set (g_slot st). gs_notif s \<noteq> ULMK_NOTIF_INVALID K)"

lemma gdma_ready_simps: "gdma_ready K st \<Longrightarrow> gdma_roles st \<and> g_hw st"
  "gdma_ready K st \<Longrightarrow> slot_valid slot \<Longrightarrow> gs_notif (g_slot st ! unat slot) \<noteq> ULMK_NOTIF_INVALID K"
  using slot_role(4) [of st slot] by (auto simp: gdma_ready_def)

lemma run_hw_channel_open:
  assumes "gdma_ready K st"
  shows "run_state (hw_channel_open K slot mux) st =
    (if open_ok slot mux then (ULMK_OK K, (opened slot mux st)\<lparr>trace := trace st @ open_events slot mux\<rparr>)
     else (ULMK_EINVAL K, st))"
proof -
  note ready = gdma_ready_simps [OF assms]
  show ?thesis
    using ready(1) ready(2) [of 0] ready(2) [of slot] slot_role [of st slot] slot_kinds [of slot]
    by (cases "open_ok slot mux")
      (auto simp: hw_channel_open_def open_ok_def opened_def open_events_def GDMA_AXI_SLOT_MEM_def
        GDMA_AXI_PERIPH_NONE_def not_less)
qed

lemma logs_memcpy:
  "logs (in_regs (slot_regs M 0 \<union> desc_words (mem_out_desc M))) (hw_memcpy M K dst src len)"
  unfolding hw_memcpy_def dma_memcpy_hw_def wait_in_done_def write_desc_def slot_of_def Let_def
  by (intro logs_intros)
    (simp_all add: slot_regs_def chan_regs_def chan_of_def desc_words_def AXI_CH_MEM_def GDMA_AXI_SLOT_MEM_def)

section \<open>The slots as a state machine\<close>

text \<open>What a slot is for its users: whether it is open, for which peripheral, and what is armed.\<close>

record slot_state =
  ss_open :: bool
  ss_periph :: u8
  ss_buf :: u32
  ss_len :: u32

definition slot_view :: "gdma_slot \<Rightarrow> slot_state" where
  "slot_view s = \<lparr>ss_open = gs_open s, ss_periph = gs_periph s, ss_buf = gs_buf s, ss_len = gs_len s\<rparr>"

definition views :: "'z gdma_st_scheme \<Rightarrow> slot_state list" where
  "views st = List.map slot_view (g_slot st)"

text \<open>
  One request on the abstract slots: OPEN binds, ARM records buffer and length (even if the slot
  is armed already), WAIT disarms whatever the outcome, and everything else leaves the slots alone.
\<close>

definition gdma_step :: "msg \<Rightarrow> slot_state list \<Rightarrow> slot_state list" where
  "gdma_step m vs =
     (let slot = ucast (words m 0); i = unat slot; v = vs ! i; p = words m 1; len = words m 2 in
      if label m = GDMA_AXI_MSG_OPEN \<and> open_ok slot p
        then vs[i := v\<lparr>ss_periph := ucast p, ss_open := True\<rparr>]
      else if (label m = GDMA_AXI_MSG_RX_ARM \<and> rx_slot slot \<or> label m = GDMA_AXI_MSG_TX_ARM \<and> tx_slot slot) \<and>
          ss_open v \<and> p \<noteq> 0 \<and> len \<noteq> 0 \<and> len \<le> DESC_MAX_LEN
        then vs[i := v\<lparr>ss_buf := p, ss_len := len\<rparr>]
      else if label m = GDMA_AXI_MSG_RX_WAIT \<and> rx_slot slot \<or> label m = GDMA_AXI_MSG_TX_WAIT \<and> tx_slot slot
        then vs[i := v\<lparr>ss_buf := 0\<rparr>]
      else vs)"

definition gdma_labels :: "u32 set" where
  "gdma_labels = {GDMA_AXI_MSG_OPEN, GDMA_AXI_MSG_RX_ARM, GDMA_AXI_MSG_RX_WAIT, GDMA_AXI_MSG_TX_ARM, GDMA_AXI_MSG_TX_WAIT}"

text \<open>An operation on one slot: the slot keeps its role, and every access is to its registers.\<close>

definition slot_effect :: "ulmk_abi \<Rightarrow> 'l gdma_layout_scheme \<Rightarrow> u8 \<Rightarrow> (slot_state \<Rightarrow> slot_state) \<Rightarrow> 'z gdma_st_scheme \<Rightarrow>
    'z gdma_st_scheme \<Rightarrow> bool" where
  "slot_effect K M slot f st st' \<longleftrightarrow> (\<exists>s' es.
     st' = st\<lparr>g_slot := (g_slot st)[unat slot := s'], trace := trace st @ es\<rparr> \<and> log_in (slot_regs M slot) es \<and>
     (slot_valid slot \<longrightarrow> slot_view s' = f (slot_view (g_slot st ! unat slot)) \<and>
       gs_hw_ch s' = gs_hw_ch (g_slot st ! unat slot) \<and> gs_is_tx s' = gs_is_tx (g_slot st ! unat slot) \<and>
       gs_notif s' = gs_notif (g_slot st ! unat slot)))"

lemma slot_effect_none: "slot_effect K M slot (\<lambda>v. v) st st"
  unfolding slot_effect_def by (rule exI [of _ "g_slot st ! unat slot"], rule exI [of _ "[]"]) simp

lemma slot_effect_views:
  assumes "slot_effect K M slot f st st'" "gdma_ready K st"
  shows "gdma_ready K st'" "slot_valid slot \<Longrightarrow> views st' = (views st)[unat slot := f (views st ! unat slot)]"
    "\<not> slot_valid slot \<Longrightarrow> views st' = views st"
    "\<exists>es. trace st' = trace st @ es \<and> log_in (slot_regs M slot) es"
proof -
  from assms(1) obtain s' es where st': "st' = st\<lparr>g_slot := (g_slot st)[unat slot := s'], trace := trace st @ es\<rparr>"
      "log_in (slot_regs M slot) es"
    and s': "slot_valid slot \<Longrightarrow> slot_view s' = f (slot_view (g_slot st ! unat slot)) \<and>
       gs_hw_ch s' = gs_hw_ch (g_slot st ! unat slot) \<and> gs_is_tx s' = gs_is_tx (g_slot st ! unat slot) \<and>
       gs_notif s' = gs_notif (g_slot st ! unat slot)"
    unfolding slot_effect_def by blast
  have len: "length (g_slot st) = GDMA_AXI_SLOT_COUNT"
    using assms(2) by (simp add: gdma_ready_def gdma_roles_def)
  then have "slot_valid slot \<longleftrightarrow> unat slot < length (g_slot st)"
    by (simp add: slot_valid_def GDMA_AXI_SLOT_COUNT_def word_less_nat_alt)
  with s' st' assms(2) len
  show "gdma_ready K st'" "slot_valid slot \<Longrightarrow> views st' = (views st)[unat slot := f (views st ! unat slot)]"
    "\<not> slot_valid slot \<Longrightarrow> views st' = views st"
    "\<exists>es. trace st' = trace st @ es \<and> log_in (slot_regs M slot) es"
    by (auto simp: gdma_ready_def gdma_roles_def views_def map_update nth_list_update all_set_conv_all_nth
        list_update_beyond split: if_splits)
qed

lemma slot_effectI:
  "log_in (slot_regs M slot) es \<Longrightarrow>
   slot_view s' = f (slot_view (g_slot st ! unat slot)) \<Longrightarrow> gs_hw_ch s' = gs_hw_ch (g_slot st ! unat slot) \<Longrightarrow>
   gs_is_tx s' = gs_is_tx (g_slot st ! unat slot) \<Longrightarrow> gs_notif s' = gs_notif (g_slot st ! unat slot) \<Longrightarrow>
   slot_effect K M slot f st (st\<lparr>g_slot := (g_slot st)[unat slot := s'], trace := trace st @ es\<rparr>)"
  by (auto simp: slot_effect_def)

lemma slot_effects:
  shows "log_in (slot_regs M slot) es \<Longrightarrow>
      slot_effect K M slot (\<lambda>v. v\<lparr>ss_buf := p, ss_len := len\<rparr>) st ((armed slot p len st)\<lparr>trace := trace st @ es\<rparr>)"
    "log_in (slot_regs M slot) es \<Longrightarrow>
      slot_effect K M slot (\<lambda>v. v\<lparr>ss_buf := 0\<rparr>) st ((disarmed slot st)\<lparr>trace := trace st @ es\<rparr>)"
    "log_in (slot_regs M slot) es \<Longrightarrow>
      slot_effect K M slot (\<lambda>v. v\<lparr>ss_periph := ucast mux, ss_open := True\<rparr>) st
        ((opened slot mux st)\<lparr>trace := trace st @ es\<rparr>)"
  unfolding armed_def disarmed_def opened_def by (rule slot_effectI; simp add: slot_view_def)+

lemma event_logs:
  "rx_slot slot \<Longrightarrow> log_in (slot_regs M slot) (rx_arm_events M slot periph dst len)"
  "tx_slot slot \<Longrightarrow> log_in (slot_regs M slot) (tx_arm_events M slot periph dst len)"
  "log_in (slot_regs M slot) (open_events slot mux)"
  by (simp_all add: rx_arm_events_def tx_arm_events_def desc_events_def open_events_def Let_def)

lemma view_nth: "gdma_roles st \<Longrightarrow> slot_valid slot \<Longrightarrow> views st ! unat slot = slot_view (g_slot st ! unat slot)"
  using slot_role(4) [of st slot] by (simp add: views_def)

lemma view_keep: "(views st)[i := views st ! i] = views st"
  by simp

text \<open>Every request but a memory copy, as an effect on the slot it names.\<close>

lemma handle_effect:
  assumes "gdma_ready K st" "label m \<noteq> GDMA_AXI_MSG_MEMCPY"
  defines "slot \<equiv> ucast (words m 0)"
  shows "\<exists>f. slot_effect K M slot f st (snd (run_state (gdma_handle M K m) st)) \<and>
    gdma_step m (views st) = (if slot_valid slot then (views st)[unat slot := f (views st ! unat slot)] else views st)"
proof -
  note ready = gdma_ready_simps(1) [OF assms(1)]
  have roles: "gdma_roles st" and hw: "g_hw st"
    using ready by auto
  note view = view_nth [OF roles, of slot]
  let ?idle = "slot_effect K M slot (\<lambda>v. v) st st"
  consider (op) "label m = GDMA_AXI_MSG_OPEN" "open_ok slot (words m 1)"
    | (rxa) "label m = GDMA_AXI_MSG_RX_ARM" "rx_slot slot" "arm_ok st slot (words m 1) (words m 2)"
    | (txa) "label m = GDMA_AXI_MSG_TX_ARM" "tx_slot slot" "arm_ok st slot (words m 1) (words m 2)"
    | (rxw) "label m = GDMA_AXI_MSG_RX_WAIT" "rx_slot slot" "gs_buf (g_slot st ! unat slot) \<noteq> 0"
    | (txw) "label m = GDMA_AXI_MSG_TX_WAIT" "tx_slot slot" "gs_buf (g_slot st ! unat slot) \<noteq> 0"
    | (none) "\<not> (label m = GDMA_AXI_MSG_OPEN \<and> open_ok slot (words m 1))"
      "\<not> (label m = GDMA_AXI_MSG_RX_ARM \<and> rx_slot slot \<and> arm_ok st slot (words m 1) (words m 2))"
      "\<not> (label m = GDMA_AXI_MSG_TX_ARM \<and> tx_slot slot \<and> arm_ok st slot (words m 1) (words m 2))"
      "\<not> (label m = GDMA_AXI_MSG_RX_WAIT \<and> rx_slot slot \<and> gs_buf (g_slot st ! unat slot) \<noteq> 0)"
      "\<not> (label m = GDMA_AXI_MSG_TX_WAIT \<and> tx_slot slot \<and> gs_buf (g_slot st ! unat slot) \<noteq> 0)"
    by blast
  then show ?thesis
  proof cases
    case op
    then have "slot_valid slot" by (simp add: open_ok_def)
    with op view show ?thesis
      by (intro exI [of _ "\<lambda>v. v\<lparr>ss_periph := ucast (words m 1), ss_open := True\<rparr>"])
        (simp add: gdma_handle_def gdma_step_def slot_def [symmetric] run_hw_channel_open [OF assms(1)]
          slot_effects(3) event_logs Let_def)
  next
    case rxa
    then have "slot_valid slot" by (simp add: slot_kinds)
    with rxa view show ?thesis
      by (intro exI [of _ "\<lambda>v. v\<lparr>ss_buf := words m 1, ss_len := words m 2\<rparr>"])
        (simp add: gdma_handle_def gdma_step_def slot_def [symmetric] run_hw_rx_arm [OF roles]
          slot_effects(1) event_logs Let_def const_defs arm_ok_def slot_view_def)
  next
    case txa
    then have "slot_valid slot" by (simp add: slot_kinds)
    with txa view show ?thesis
      by (intro exI [of _ "\<lambda>v. v\<lparr>ss_buf := words m 1, ss_len := words m 2\<rparr>"])
        (simp add: gdma_handle_def gdma_step_def slot_def [symmetric] run_hw_tx_arm [OF roles]
          slot_effects(1) event_logs Let_def const_defs arm_ok_def slot_view_def)
  next
    case rxw
    then have "slot_valid slot" by (simp add: slot_kinds)
    moreover obtain rc es where "run_state (hw_rx_wait M K slot) st = (rc, (disarmed slot st)\<lparr>trace := trace st @ es\<rparr>)"
        "log_in (slot_regs M slot) es"
      using run_hw_rx_wait(1) [OF roles, of slot] rxw by blast
    ultimately show ?thesis
      using rxw view
      by (intro exI [of _ "\<lambda>v. v\<lparr>ss_buf := 0\<rparr>"])
        (simp add: gdma_handle_def gdma_step_def slot_def [symmetric] slot_effects(2) Let_def const_defs)
  next
    case txw
    then have "slot_valid slot" by (simp add: slot_kinds)
    moreover obtain rc es where "run_state (hw_tx_wait K slot) st = (rc, (disarmed slot st)\<lparr>trace := trace st @ es\<rparr>)"
        "log_in (slot_regs M slot) es"
      using run_hw_tx_wait(1) [OF roles, of slot] txw by blast
    ultimately show ?thesis
      using txw view
      by (intro exI [of _ "\<lambda>v. v\<lparr>ss_buf := 0\<rparr>"])
        (simp add: gdma_handle_def gdma_step_def slot_def [symmetric] slot_effects(2) Let_def const_defs)
  next
    case none
    have "label m = GDMA_AXI_MSG_OPEN \<Longrightarrow> snd (run_state (hw_channel_open K slot (words m 1)) st) = st"
      "label m = GDMA_AXI_MSG_RX_ARM \<Longrightarrow> snd (run_state (hw_rx_arm M K slot (words m 1) (words m 2)) st) = st"
      "label m = GDMA_AXI_MSG_TX_ARM \<Longrightarrow> snd (run_state (hw_tx_arm M K slot (words m 1) (words m 2)) st) = st"
      "label m = GDMA_AXI_MSG_RX_WAIT \<Longrightarrow> snd (run_state (hw_rx_wait M K slot) st) = st"
      "label m = GDMA_AXI_MSG_TX_WAIT \<Longrightarrow> snd (run_state (hw_tx_wait K slot) st) = st"
      using none by (auto simp: run_hw_channel_open [OF assms(1)] run_hw_rx_arm [OF roles]
          run_hw_tx_arm [OF roles] run_hw_rx_wait(2) [OF roles] run_hw_tx_wait(2) [OF roles])
    then have still: "snd (run_state (gdma_handle M K m) st) = st"
      unfolding gdma_handle_def slot_def [symmetric]
      using assms(2) by simp
    have view': "views st ! unat slot = slot_view (g_slot st ! unat slot)" if "rx_slot slot \<or> tx_slot slot"
      using that view slot_kinds(1) [of slot] by blast
    have arm: "\<not> ((label m = GDMA_AXI_MSG_RX_ARM \<and> rx_slot slot \<or> label m = GDMA_AXI_MSG_TX_ARM \<and> tx_slot slot) \<and>
        ss_open (views st ! unat slot) \<and> words m 1 \<noteq> 0 \<and> words m 2 \<noteq> 0 \<and> words m 2 \<le> DESC_MAX_LEN)"
      using none(2,3) hw view' by (auto simp: arm_ok_def slot_view_def)
    have wait: "(views st)[unat slot := (views st ! unat slot)\<lparr>ss_buf := 0\<rparr>] = views st"
      if "label m = GDMA_AXI_MSG_RX_WAIT \<and> rx_slot slot \<or> label m = GDMA_AXI_MSG_TX_WAIT \<and> tx_slot slot"
    proof -
      have "(views st ! unat slot)\<lparr>ss_buf := 0\<rparr> = views st ! unat slot"
        using that none(4,5) view' by (auto simp: slot_view_def)
      then show ?thesis by simp
    qed
    have "gdma_step m (views st) = views st"
      unfolding gdma_step_def slot_def [symmetric] Let_def
      using none(1) arm wait by (simp only: if_False if_cancel simp_thms split: if_split) blast
    with still show ?thesis
      by (intro exI [of _ "\<lambda>v. v"]) (simp add: slot_effect_none)
  qed
qed

text \<open>The contract of the server: the slots stay ready, and they follow the state machine.\<close>

lemma run_gdma_dispatch:
  "snd (run_state (gdma_dispatch M K m) st) = snd (run_state (gdma_handle M K m) st)"
  "fst (run_state (gdma_dispatch M K m) st) = \<lparr>label = 0, words = (\<lambda>_. 0)(0 := fst (run_state (gdma_handle M K m) st))\<rparr>"
  by (simp_all add: gdma_dispatch_def split: prod.splits)

lemma handle_memcpy:
  assumes "label m = GDMA_AXI_MSG_MEMCPY"
  shows "\<exists>es. snd (run_state (gdma_handle M K m) st) = st\<lparr>trace := trace st @ es\<rparr>" "gdma_step m vs = vs"
proof -
  obtain rc es where "run_state (hw_memcpy M K (words m 0) (words m 1) (words m 2)) st = (rc, st\<lparr>trace := trace st @ es\<rparr>)"
    using logs_memcpy [of M K "words m 0" "words m 1" "words m 2"] by (rule logsE)
  with assms show "\<exists>es. snd (run_state (gdma_handle M K m) st) = st\<lparr>trace := trace st @ es\<rparr>"
    by (auto simp: gdma_handle_def const_defs)
  show "gdma_step m vs = vs"
    using assms by (simp add: gdma_step_def const_defs Let_def)
qed

lemma views_length: "gdma_ready K st \<Longrightarrow> length (views st) = GDMA_AXI_SLOT_COUNT"
  by (simp add: gdma_ready_def gdma_roles_def views_def)

lemma dispatch_step:
  assumes "gdma_ready K st"
  shows "gdma_ready K (snd (run_state (gdma_dispatch M K m) st))"
    "views (snd (run_state (gdma_dispatch M K m) st)) = gdma_step m (views st)"
proof -
  let ?st' = "snd (run_state (gdma_handle M K m) st)"
  have "gdma_ready K ?st' \<and> views ?st' = gdma_step m (views st)"
  proof (cases "label m = GDMA_AXI_MSG_MEMCPY")
    case True
    then show ?thesis
      using handle_memcpy(1) [OF True, of M K st] handle_memcpy(2) [OF True] assms
      by (auto simp: gdma_ready_def gdma_roles_def views_def)
  next
    case False
    then show ?thesis
      using handle_effect [OF assms False, of M] slot_effect_views [OF _ assms] by auto
  qed
  then show "gdma_ready K (snd (run_state (gdma_dispatch M K m) st))"
    "views (snd (run_state (gdma_dispatch M K m) st)) = gdma_step m (views st)"
    by (simp_all add: run_gdma_dispatch)
qed

interpretation gdma: rpc_server "gdma_dispatch M K" "\<lambda>_. True" "gdma_ready K" views gdma_step for M K
  by unfold_locales (simp_all add: dispatch_step)

section \<open>Properties\<close>

text \<open>C24: The DMA server refines the slot state machine.  Over any sequence of requests, from any
  clients and whatever the hardware and the kernel answer, the slots are what \<open>gdma_step\<close> says:
  OPEN binds a slot to a peripheral, ARM records a transfer on a slot of the right direction and a
  length of 1 to 4095 bytes, WAIT disarms whether the transfer succeeded, failed or timed out, and
  every other request changes nothing; the channels and directions of the slots never change and
  every request is answered.\<close>

theorem gdma_serve_refines:
  assumes "gdma_ready K st"
  shows "views (snd (run_state (serve (gdma_dispatch M K) ms) st)) = fold gdma_step ms (views st) \<and>
    gdma_ready K (snd (run_state (serve (gdma_dispatch M K) ms) st)) \<and>
    length (fst (run_state (serve (gdma_dispatch M K) ms) st)) = length ms"
  using gdma.serve_abs [OF assms] gdma.serve_inv [OF assms] gdma.serve_replies by auto

definition slot_at_boot :: "nat \<Rightarrow> gdma_slot" where
  "slot_at_boot i = \<lparr>gs_notif = 3 + of_nat i, gs_irq = bd_irq (gdma_binds ! i), gs_hw_ch = bd_hw_ch (gdma_binds ! i),
     gs_is_tx = bd_is_tx (gdma_binds ! i), gs_open = False, gs_periph = 0x3F, gs_buf = 0, gs_len = 0\<rparr>"

definition gdma_boot :: "(esp_act event list \<Rightarrow> esp_act event \<Rightarrow> u32) \<Rightarrow> gdma_st" where
  "gdma_boot ans = \<lparr>trace = [], answer = ans, fault = False, g_pinmux_eps_esp = 7, g_hw = True,
     g_slot = List.map slot_at_boot [0, 1, 2, 3, 4], g_gdma_axi_eps = 8\<rparr>"

definition sample_layout :: gdma_layout where
  "sample_layout = \<lparr>slot_desc = (\<lambda>i. 0x4FF40020 + of_nat i * 0x30), mem_out_desc = 0x4FF40110\<rparr>"

lemma gdma_boot_ready: "gdma_ready sample_abi (gdma_boot ans)"
  by (simp add: gdma_ready_def roles_five gdma_boot_def slot_at_boot_def gdma_binds_def AXI_CH_MEM_def sample_abi_def)

theorem gdma_serve_refines_witness:
  "List.map (\<lambda>v. (ss_open v, ss_buf v, ss_len v)) (views (snd (run_state (serve (gdma_dispatch sample_layout sample_abi)
      [rpc 1 [1, 1], rpc 1 [2, 2], rpc 3 [1, 0x4FF50000, 16], rpc 5 [2, 0x4FF51000, 16], rpc 6 [2]])
      (gdma_boot (\<lambda>_ _. 0))))) =
    [(False, 0, 0), (True, 0x4FF50000, 16), (True, 0, 16), (False, 0, 0), (False, 0, 0)]"
proof -
  have "views (gdma_boot (\<lambda>_ _. 0)) =
      (let v = \<lparr>ss_open = False, ss_periph = 0x3F, ss_buf = 0, ss_len = 0\<rparr> in [v, v, v, v, v])"
    by (simp add: gdma_boot_def views_def slot_view_def slot_at_boot_def Let_def)
  then show ?thesis
    unfolding conjunct1 [OF gdma_serve_refines [OF gdma_boot_ready]]
    by (simp add: gdma_step_def rpc_def const_defs open_ok_def rx_slot_def tx_slot_def slot_valid_def
        GDMA_AXI_SLOT_COUNT_def GDMA_AXI_PERIPH_NONE_def DESC_MAX_LEN_def Let_def)
qed

text \<open>
  Where the linker may put the descriptors: apart from each other and from the registers.
\<close>

definition layout_ok :: "'l gdma_layout_scheme \<Rightarrow> bool" where
  "layout_ok M \<longleftrightarrow> (\<forall>i < 5. (\<forall>j < 5. i \<noteq> j \<longrightarrow> desc_words (slot_desc M i) \<inter> desc_words (slot_desc M j) = {}) \<and>
     (\<forall>n \<in> {0, 1, 2}. desc_words (slot_desc M i) \<inter> chan_regs n = {}))"

lemma chan_of_range: "chan_of slot \<in> {0, 1, 2}"
  by (simp add: chan_of_def)

lemma slot_regs_disjoint:
  assumes "layout_ok M" "slot_valid a" "slot_valid b" "chan_of a \<noteq> chan_of b"
  shows "slot_regs M a \<inter> slot_regs M b = {}"
proof -
  have ab: "unat a < 5" "unat b < 5" "unat a \<noteq> unat b"
    using assms(2-4) by (auto simp: slot_valid_def GDMA_AXI_SLOT_COUNT_def word_less_nat_alt
        word_unat_eq_iff [symmetric])
  have "desc_words (slot_desc M (unat a)) \<inter> desc_words (slot_desc M (unat b)) = {}"
    "desc_words (slot_desc M (unat a)) \<inter> chan_regs (chan_of b) = {}"
    "desc_words (slot_desc M (unat b)) \<inter> chan_regs (chan_of a) = {}"
    using assms(1) ab chan_of_range unfolding layout_ok_def by blast+
  moreover have "chan_regs (chan_of a) \<inter> chan_regs (chan_of b) = {}"
    using assms(4) chan_of_range [of a] chan_of_range [of b] chan_regs_disjoint by auto
  ultimately show ?thesis
    unfolding slot_regs_def by blast
qed


lemma sample_layout_ok: "layout_ok sample_layout"
  unfolding layout_ok_def all_five
  by (simp add: sample_layout_def desc_words_def desc_nc_def DESC_NC_OFFSET_def chan_regs_def axi_regs)


text \<open>The fields of a descriptor as the engine reads them.\<close>

lemma desc_len: "len \<le> DESC_MAX_LEN \<Longrightarrow> len AND DESC_MAX_LEN = len"
proof -
  assume "len \<le> DESC_MAX_LEN"
  then have "uint len < 2 ^ 12"
    by (simp add: DESC_MAX_LEN_def word_le_def)
  then have "len AND mask 12 = len"
    by (simp only: mask_eq_iff)
  then show ?thesis
    by (simp add: DESC_MAX_LEN_def low_mask_u32)
qed

lemma bit_desc_flags: "bit DESC_OWNER_DMA n \<longleftrightarrow> n = 31" "bit DESC_SUC_EOF n \<longleftrightarrow> n = 30"
  unfolding DESC_OWNER_DMA_def DESC_SUC_EOF_def by (simp only: bit_push_bit_iff bit_1_iff; auto)+

lemma desc_fields:
  assumes "len \<le> DESC_MAX_LEN"
  shows "field 0 12 (in_dw0 len) = len" "bit (in_dw0 len) 31"
    "field 0 12 (out_dw0 len) = len" "field 12 12 (out_dw0 len) = len" "bit (out_dw0 len) 30" "bit (out_dw0 len) 31"
proof -
  have "len AND mask 12 = len"
    using desc_len [OF assms] by (simp add: DESC_MAX_LEN_def low_mask_u32)
  then have small: "bit len n \<Longrightarrow> n < 12" for n
    by (metis bit_and_iff bit_mask_iff)
  show "field 0 12 (in_dw0 len) = len" "field 0 12 (out_dw0 len) = len" "field 12 12 (out_dw0 len) = len"
    unfolding in_dw0_def out_dw0_def desc_len [OF assms]
    by (rule bit_eqI; auto simp: bit_field bit_desc_flags bit_or_iff bit_push_bit_iff dest: small bit_imp_le_length)+
  show "bit (in_dw0 len) 31" "bit (out_dw0 len) 30" "bit (out_dw0 len) 31"
    by (simp_all add: in_dw0_def out_dw0_def bit_or_iff bit_desc_flags)
qed

lemma run_gdma_call:
  assumes "ep \<noteq> ULMK_EP_INVALID K"
  shows "run_state (gdma_axi_call K ep (ipc K (gdma_dispatch M K)) lab ws) st =
    run_state (gdma_handle M K \<lparr>label = lab, words = (\<lambda>i. if i < length ws then ws ! i else 0)\<rparr>) st"
  using assms by (simp add: gdma_axi_call_def ipc_def gdma_dispatch_def split: prod.splits)

lemma run_gdma_arm_calls:
  assumes "ep \<noteq> ULMK_EP_INVALID K"
  shows "run_state (gdma_axi_rx_arm K ep (ipc K (gdma_dispatch M K)) slot p len) st =
      run_state (hw_rx_arm M K slot p len) st"
    "run_state (gdma_axi_tx_arm K ep (ipc K (gdma_dispatch M K)) slot p len) st =
      run_state (hw_tx_arm M K slot p len) st"
    "run_state (gdma_axi_rx_wait K ep (ipc K (gdma_dispatch M K)) slot) st = run_state (hw_rx_wait M K slot) st"
    "run_state (gdma_axi_tx_wait K ep (ipc K (gdma_dispatch M K)) slot) st = run_state (hw_tx_wait K slot) st"
    "run_state (gdma_axi_channel_open K ep (ipc K (gdma_dispatch M K)) slot mux flags) st =
      run_state (hw_channel_open K slot mux) st"
    "run_state (gdma_axi_memcpy K ep (ipc K (gdma_dispatch M K)) dst src n) st = run_state (hw_memcpy M K dst src n) st"
  by (simp_all add: gdma_axi_rx_arm_def gdma_axi_tx_arm_def gdma_axi_rx_wait_def gdma_axi_tx_wait_def
      gdma_axi_channel_open_def gdma_axi_memcpy_def run_gdma_call [OF assms] gdma_handle_def const_defs
      ucast_up_ucast_id is_up)

text \<open>An arm call programs the transfer it was asked for.  On an open slot of the right direction,
  with a buffer and a length of 1 to 4095 bytes, the call returns OK after writing a descriptor whose
  size is the length, whose address is the buffer, which has no successor and belongs to the DMA, and
  after resetting the channel, selecting the peripheral the slot was opened for and clearing stale
  interrupts; the link to the descriptor and then the start pulse come last, so the engine never
  starts on an old descriptor.  Any other arm call is refused and makes no access at all.\<close>

theorem gdma_arm_programs_transfer:
  assumes "gdma_roles st" "ep \<noteq> ULMK_EP_INVALID K"
  shows "run_state (gdma_axi_rx_arm K ep (ipc K (gdma_dispatch M K)) slot p len) st =
      (if rx_slot slot \<and> arm_ok st slot p len
       then (ULMK_OK K, (armed slot p len st)\<lparr>trace := trace st @
         rx_arm_events M slot (gs_periph (g_slot st ! unat slot)) p len\<rparr>)
       else (arm_error K st (rx_slot slot) slot p len, st)) \<and>
    run_state (gdma_axi_tx_arm K ep (ipc K (gdma_dispatch M K)) slot p len) st =
      (if tx_slot slot \<and> arm_ok st slot p len
       then (ULMK_OK K, (armed slot p len st)\<lparr>trace := trace st @
         tx_arm_events M slot (gs_periph (g_slot st ! unat slot)) p len\<rparr>)
       else (arm_error K st (tx_slot slot) slot p len, st)) \<and>
    (arm_ok st slot p len \<longrightarrow>
      field 0 12 (in_dw0 len) = len \<and> bit (in_dw0 len) 31 \<and>
      field 0 12 (out_dw0 len) = len \<and> field 12 12 (out_dw0 len) = len \<and> bit (out_dw0 len) 30 \<and> bit (out_dw0 len) 31)"
  by (auto simp: run_gdma_arm_calls [OF assms(2)] run_hw_rx_arm [OF assms(1)] run_hw_tx_arm [OF assms(1)]
      desc_fields arm_ok_def)

theorem gdma_arm_programs_transfer_witness:
  "fst (run_state (gdma_axi_tx_arm sample_abi 8 (ipc sample_abi (gdma_dispatch sample_layout sample_abi)) 2 0x4FF50000 16)
      (armed 2 0 0 (opened 2 1 (gdma_boot (\<lambda>_ _. 0))))) = 0 \<and>
   fst (run_state (gdma_axi_rx_arm sample_abi 8 (ipc sample_abi (gdma_dispatch sample_layout sample_abi)) 1 0x4FF50000 16)
      (gdma_boot (\<lambda>_ _. 0))) = ULMK_ENOTSUP sample_abi"
proof -
  let ?st = "armed 2 0 0 (opened 2 1 (gdma_boot (\<lambda>_ _. 0)))"
  have ep: "8 \<noteq> ULMK_EP_INVALID sample_abi"
    by (simp add: sample_abi_def)
  have roles: "gdma_roles ?st" "gdma_roles (gdma_boot (\<lambda>_ _. 0))"
    using gdma_boot_ready by (simp_all add: roles_five gdma_ready_def armed_def opened_def gdma_boot_def slot_at_boot_def
        gdma_binds_def AXI_CH_MEM_def)
  have ok: "tx_slot 2 \<and> arm_ok ?st 2 0x4FF50000 16"
    by (simp add: tx_slot_def arm_ok_def armed_def opened_def gdma_boot_def DESC_MAX_LEN_def)
  have bad: "\<not> (rx_slot 1 \<and> arm_ok (gdma_boot (\<lambda>_ _. 0)) 1 0x4FF50000 16)"
    "arm_error sample_abi (gdma_boot (\<lambda>_ _. 0)) (rx_slot 1) 1 0x4FF50000 16 = ULMK_ENOTSUP sample_abi"
    by (simp_all add: arm_ok_def arm_error_def gdma_boot_def slot_at_boot_def rx_slot_def)
  show ?thesis
    using gdma_arm_programs_transfer [where M = sample_layout and slot = 2 and p = "0x4FF50000" and len = "16", OF roles(1) ep]
      gdma_arm_programs_transfer [where M = sample_layout and slot = 1 and p = "0x4FF50000" and len = "16", OF roles(2) ep]
      ok bad sample_abi_ok
    by simp
qed

definition memcpy_events :: "'l gdma_layout_scheme \<Rightarrow> gdma_slot \<Rightarrow> u32 \<Rightarrow> u32 \<Rightarrow> u32 \<Rightarrow> esp_act event list" where
  "memcpy_events M s dst src len =
     Dev (Dcache_clean src len) # desc_events (mem_out_desc M) (out_dw0 len) src @ desc_events (slot_desc M 0) (in_dw0 len) dst @
     [Dev (Wr32 (AXI_IN_CONF0 0) IN_RST), Dev (Wr32 (AXI_OUT_CONF0 0) OUT_RST),
      Dev (Wr32 (AXI_IN_CONF0 0) (MEM_TRANS_EN OR INDSCR_BURST_EN)),
      Dev (Wr32 (AXI_OUT_CONF0 0) (OUT_EOF_MODE OR OUTDSCR_BURST_EN)),
      Dev (Wr32 (AXI_IN_PERI_SEL 0) GDMA_AXI_PERIPH_NONE), Dev (Wr32 (AXI_OUT_PERI_SEL 0) GDMA_AXI_PERIPH_NONE),
      Dev (Wr32 (AXI_IN_INT_CLR 0) 0xFFFFFFFF), Dev (Wr32 (AXI_OUT_INT_CLR 0) 0xFFFFFFFF),
      Dev (Wr32 (AXI_OUT_LINK2 0) (mem_out_desc M)), Dev (Wr32 (AXI_IN_LINK2 0) (slot_desc M 0)),
      Dev (Wr32 (AXI_IN_LINK1 0) INLINK_START), Dev (Wr32 (AXI_OUT_LINK1 0) OUTLINK_START),
      Kern (Irq_ack (ucast (gs_irq s))), Dev (Wr32 (AXI_IN_INT_ENA 0) (IN_INT_SUC_EOF OR IN_INT_DSCR_ERR)),
      Kern (Notif_wait_timeout (gs_notif s) (push_bit GDMA_AXI_NOTIF 1) GDMA_AXI_WAIT_MS),
      Dev (Wr32 (AXI_IN_INT_ENA 0) 0)]"

text \<open>A memory copy is reported done only when it is.  A call that returns OK for a copy of at
  least one byte has written back the source, filled the sending and the receiving descriptor with
  the length and the two addresses, started the receiver before the sender, waited for the
  interrupt, read the end-of-frame flag without a descriptor error, and dropped the stale cache
  lines of the destination as its last action.\<close>

theorem gdma_memcpy_done:
  assumes "abi_ok K" "ep \<noteq> ULMK_EP_INVALID K" "len \<noteq> 0"
    and "run_state (gdma_axi_memcpy K ep (ipc K (gdma_dispatch M K)) dst src len) st = (ULMK_OK K, st')"
  shows "let es = memcpy_events M (g_slot st ! 0) dst src len;
      raw = answer st (trace st @ es) (Dev (Rd32 (AXI_IN_INT_RAW 0))) in
    st' = st\<lparr>trace := trace st @ es @ [Dev (Rd32 (AXI_IN_INT_RAW 0)), Dev (Wr32 (AXI_IN_INT_CLR 0) 0xFFFFFFFF),
      Dev (Dcache_invalidate dst len)]\<rparr> \<and>
    bit raw 1 \<and> \<not> bit raw 3 \<and> len \<le> 4095 \<and> dst \<noteq> 0 \<and> src \<noteq> 0"
proof -
  have run: "run_state (hw_memcpy M K dst src len) st = (ULMK_OK K, st')"
    using assms(2,4) by (simp add: run_gdma_arm_calls)
  then have guards: "dst \<noteq> 0" "src \<noteq> 0" "len \<le> DESC_MAX_LEN" "run_state (dma_memcpy_hw M K dst src len) st = (ULMK_OK K, st')"
    using assms(1,3) by (auto simp: hw_memcpy_def split: if_splits)
  have flags: "x AND IN_INT_DSCR_ERR = 0 \<longleftrightarrow> \<not> bit x 3" "x AND IN_INT_SUC_EOF = 0 \<longleftrightarrow> \<not> bit x 1" for x
    by (simp_all add: IN_INT_DSCR_ERR_def IN_INT_SUC_EOF_def bit_iff_and_push_bit_not_eq_0 exp_eq_zero_iff)
  show ?thesis
    using guards assms(1)
    by (simp add: dma_memcpy_hw_def wait_in_done_def memcpy_events_def Let_def flags desc_events_def
        AXI_CH_MEM_def GDMA_AXI_SLOT_MEM_def DESC_MAX_LEN_def split: if_splits)
qed

definition dma_done_answers :: "esp_act event list \<Rightarrow> esp_act event \<Rightarrow> u32" where
  "dma_done_answers t e = (if e = Dev (Rd32 (AXI_IN_INT_RAW 0)) then 2 else 0)"

theorem gdma_memcpy_done_witness:
  "last (trace (snd (run_state (gdma_axi_memcpy sample_abi 8 (ipc sample_abi (gdma_dispatch sample_layout sample_abi))
      0x4FF50000 0x4FF60000 64) (gdma_boot dma_done_answers)))) = Dev (Dcache_invalidate 0x4FF50000 64)"
proof -
  let ?r = "run_state (gdma_axi_memcpy sample_abi 8 (ipc sample_abi (gdma_dispatch sample_layout sample_abi))
      0x4FF50000 0x4FF60000 64) (gdma_boot dma_done_answers)"
  have ep: "8 \<noteq> ULMK_EP_INVALID sample_abi"
    by (simp add: sample_abi_def)
  have "fst ?r = ULMK_OK sample_abi"
    unfolding run_gdma_arm_calls [OF ep]
    by (simp add: hw_memcpy_def dma_memcpy_hw_def wait_in_done_def Let_def gdma_boot_def
        dma_done_answers_def sample_abi_def AXI_CH_MEM_def DESC_MAX_LEN_def IN_INT_DSCR_ERR_def IN_INT_SUC_EOF_def)
  then have "?r = (ULMK_OK sample_abi, snd ?r)"
    by (simp add: prod_eq_iff)
  from gdma_memcpy_done [OF sample_abi_ok ep _ this] show ?thesis
    by (simp add: Let_def)
qed

text \<open>Initialisation: the loop over the slots, one slot more in every turn.\<close>

lemma triple_try_each_upt:
  assumes "\<And>i. i < n \<Longrightarrow> triple (I i) (f i) (\<lambda>ok s. ok \<longrightarrow> I (Suc i) s)" "k \<le> n"
  shows "triple (I k) (try_each [k..<n] f) (\<lambda>ok s. ok \<longrightarrow> I n s)"
  using assms(2)
proof (induction "n - k" arbitrary: k)
  case 0
  then show ?case by (auto intro: triple_ret)
next
  case (Suc d)
  then have k: "k < n" "triple (I (Suc k)) (try_each [Suc k..<n] f) (\<lambda>ok s. ok \<longrightarrow> I n s)"
    by auto
  have "triple (\<lambda>s. ok \<longrightarrow> I (Suc k) s) (if ok then try_each [Suc k..<n] f else ret False) (\<lambda>ok s. ok \<longrightarrow> I n s)" for ok
    using k(2) by (auto intro: triple_ret)
  with assms(1) [OF k(1)] show ?case
    unfolding upt_conv_Cons [OF k(1)] try_each.simps
    by (rule triple_bind)
qed

definition slots_bound :: "ulmk_abi \<Rightarrow> u32 \<Rightarrow> nat \<Rightarrow> 'z gdma_st_scheme \<Rightarrow> bool" where
  "slots_bound K ep i st \<longleftrightarrow> length (g_slot st) = GDMA_AXI_SLOT_COUNT \<and> g_hw st \<and> g_gdma_axi_eps st = ep \<and>
     (\<forall>j < i. gs_hw_ch (g_slot st ! j) = bd_hw_ch (gdma_binds ! j) \<and>
        gs_is_tx (g_slot st ! j) = bd_is_tx (gdma_binds ! j) \<and> gs_notif (g_slot st ! j) \<noteq> ULMK_NOTIF_INVALID K)"

lemma slots_bound_init_slot:
  assumes "i < GDMA_AXI_SLOT_COUNT"
  shows "triple (slots_bound K ep i) (gdma_init_slot K i) (\<lambda>ok s. ok \<longrightarrow> slots_bound K ep (Suc i) s)"
proof (rule tripleI)
  fix s ok s'
  assume "slots_bound K ep i s" "run_state (gdma_init_slot K i) s = (ok, s')"
  moreover have "unat (of_nat i :: u8) = i"
    using assms by (simp add: GDMA_AXI_SLOT_COUNT_def unat_of_nat take_bit_nat_eq_self)
  ultimately show "ok \<longrightarrow> slots_bound K ep (Suc i) s'"
    using assms by (auto simp: gdma_init_slot_def slots_bound_def Let_def less_Suc_eq nth_list_update split: if_splits)
qed

lemma keeps_eps_init:
  "keeps (\<lambda>st. g_gdma_axi_eps st = ep \<and> length (g_slot st) = n) (gdma_axi_hw_init K)"
  "keeps (\<lambda>st. g_gdma_axi_eps st = ep \<and> length (g_slot st) = n) (try_each xs (gdma_init_slot K))"
  unfolding gdma_axi_hw_init_def gdma_init_slot_def Let_def rd32_def wr32_def set_slot_def
  by (intro keeps_intros keeps_modify keeps_kern keeps_dev; simp)+

text \<open>The last step of the initialisation, and all that follows the creation of the endpoint.\<close>

definition gdma_start :: "ulmk_abi \<Rightarrow> ('z, u32) gdma_op" where
  "gdma_start K = do {
     tid \<leftarrow> kern (Thread_create ''gdma_axi'' 2 2048);
     when_do (tid \<noteq> ULMK_TID_INVALID K) (kern_do (Cap_grant tid ''MAP_PERIPH|IRQ''));
     ret tid
   }"

definition gdma_bring_up :: "ulmk_abi \<Rightarrow> ('z, u32) gdma_op" where
  "gdma_bring_up K = do {
     rc \<leftarrow> gdma_axi_hw_init K;
     if rc \<noteq> ULMK_OK K then ret (ULMK_TID_INVALID K)
     else do {
       ok \<leftarrow> try_each [0..<GDMA_AXI_SLOT_COUNT] (gdma_init_slot K);
       if \<not> ok then ret (ULMK_TID_INVALID K) else gdma_start K
     }
   }"

lemma run_gdma_init:
  assumes "g_gdma_axi_eps st = ULMK_EP_INVALID K"
  defines "ep \<equiv> answer st (trace st) (Kern Ep_create)"
  shows "run_state (gdma_axi_init K 0) st =
    (let st1 = st\<lparr>trace := trace st @ [Kern Ep_create], g_gdma_axi_eps := ep\<rparr> in
     if ep = ULMK_EP_INVALID K then (ULMK_TID_INVALID K, st1) else run_state (gdma_bring_up K) st1)"
  unfolding gdma_bring_up_def gdma_start_def gdma_axi_init_def
  using assms(1) by (simp add: const_defs Let_def ep_def)

lemma gdma_bring_up_ready:
  assumes "abi_ok K"
  shows "triple (\<lambda>st. g_gdma_axi_eps st = ep \<and> length (g_slot st) = GDMA_AXI_SLOT_COUNT) (gdma_bring_up K)
     (\<lambda>tid st. tid \<noteq> ULMK_TID_INVALID K \<longrightarrow> slots_bound K ep GDMA_AXI_SLOT_COUNT st)"
proof -
  have hw: "triple (\<lambda>st. g_gdma_axi_eps st = ep \<and> length (g_slot st) = GDMA_AXI_SLOT_COUNT) (gdma_axi_hw_init K)
      (\<lambda>rc st. rc = ULMK_OK K \<longrightarrow> slots_bound K ep 0 st)"
    using assms by (intro tripleI) (auto simp: gdma_axi_hw_init_def slots_bound_def split: if_splits)
  have start: "triple (slots_bound K ep n) (gdma_start K) (\<lambda>tid. slots_bound K ep n)" for n
    unfolding gdma_start_def
    by (intro triple_keeps keeps_intros keeps_kern) (simp_all add: slots_bound_def)
  have slots: "triple (slots_bound K ep 0)
      (do { ok \<leftarrow> try_each [0..<GDMA_AXI_SLOT_COUNT] (gdma_init_slot K);
            if \<not> ok then ret (ULMK_TID_INVALID K) else gdma_start K })
      (\<lambda>tid st. tid \<noteq> ULMK_TID_INVALID K \<longrightarrow> slots_bound K ep GDMA_AXI_SLOT_COUNT st)"
    by (rule triple_bind [OF triple_try_each_upt [where I = "slots_bound K ep", OF slots_bound_init_slot]])
      (auto intro!: triple_if triple_ret triple_weaken [OF start])
  show ?thesis
    unfolding gdma_bring_up_def
    by (rule triple_bind [OF hw]) (auto intro!: triple_ret triple_weaken [OF slots] split: if_splits)
qed

lemma keeps_gdma_bring_up: "keeps (\<lambda>st. g_gdma_axi_eps st = ep \<and> length (g_slot st) = n) (gdma_bring_up K)"
  unfolding gdma_bring_up_def gdma_start_def
  by (intro keeps_intros keeps_eps_init keeps_kern) simp_all

text \<open>A successful initialisation establishes what the server relies on: the controller is clocked,
  all five slots have a notification of their own interrupt and the channel and direction of the
  table, and clients find the endpoint.\<close>

theorem gdma_init_establishes_ready:
  assumes "abi_ok K" "g_gdma_axi_eps st = ULMK_EP_INVALID K" "length (g_slot st) = GDMA_AXI_SLOT_COUNT"
    and "run_state (gdma_axi_init K 0) st = (tid, st')" "tid \<noteq> ULMK_TID_INVALID K"
  shows "gdma_ready K st' \<and> g_gdma_axi_eps st' \<noteq> ULMK_EP_INVALID K"
proof -
  let ?ep = "answer st (trace st) (Kern Ep_create)"
  have ep: "?ep \<noteq> ULMK_EP_INVALID K"
    and run: "run_state (gdma_bring_up K) (st\<lparr>trace := trace st @ [Kern Ep_create], g_gdma_axi_eps := ?ep\<rparr>) = (tid, st')"
    using assms(4,5) by (auto simp: run_gdma_init [OF assms(2)] Let_def split: if_splits)
  have "slots_bound K ?ep GDMA_AXI_SLOT_COUNT st'"
    using tripleD [OF gdma_bring_up_ready [OF assms(1)] _ run, of ?ep] assms(3,5) by simp
  with ep show ?thesis
    by (auto simp: slots_bound_def gdma_ready_def gdma_roles_def all_set_conv_all_nth)
qed

definition init_answers :: "esp_act event list \<Rightarrow> esp_act event \<Rightarrow> u32" where
  "init_answers t e = (case e of Dev (Rd32 a) \<Rightarrow> 0x10 | Kern Ep_create \<Rightarrow> 9 | Kern Notif_create \<Rightarrow> 5
     | Kern (Thread_create _ _ _) \<Rightarrow> 11 | _ \<Rightarrow> 0)"

theorem gdma_init_establishes_ready_witness:
  "gdma_ready sample_abi (snd (run_state (gdma_axi_init sample_abi 0)
     ((gdma_boot init_answers)\<lparr>g_hw := False, g_gdma_axi_eps := 0\<rparr>)))"
proof -
  let ?st = "(gdma_boot init_answers)\<lparr>g_hw := False, g_gdma_axi_eps := 0\<rparr>"
  have none: "g_gdma_axi_eps ?st = ULMK_EP_INVALID sample_abi" and len: "length (g_slot ?st) = GDMA_AXI_SLOT_COUNT"
    by (simp_all add: sample_abi_def gdma_boot_def GDMA_AXI_SLOT_COUNT_def)
  have "fst (run_state (gdma_axi_init sample_abi 0) ?st) = 11"
    unfolding run_gdma_init [OF none]
    by (simp add: Let_def gdma_bring_up_def gdma_start_def gdma_axi_hw_init_def gdma_init_slot_def gdma_boot_def
        sample_abi_def init_answers_def AXI_PDMA_SYS_EN_def GDMA_AXI_SLOT_COUNT_def upt_conv_Cons)
  then have "run_state (gdma_axi_init sample_abi 0) ?st = (11, snd (run_state (gdma_axi_init sample_abi 0) ?st))"
    by (simp add: prod_eq_iff)
  from gdma_init_establishes_ready [OF sample_abi_ok none len this] show ?thesis
    by (simp add: sample_abi_def)
qed

text \<open>A failed initialisation cannot be repeated.  If anything fails after the endpoint has been
  created (the clock gate, an interrupt, the thread), the endpoint stays published although no
  server reads it: every later attempt is refused at once without any action, and clients are not
  refused but block on the endpoint.  (The other drivers of the board clear the endpoint.)\<close>

theorem gdma_failed_init_is_final:
  assumes "g_gdma_axi_eps st = ULMK_EP_INVALID K"
    and "answer st (trace st) (Kern Ep_create) \<noteq> ULMK_EP_INVALID K"
    and "run_state (gdma_axi_init K 0) st = (ULMK_TID_INVALID K, st')"
  shows "g_gdma_axi_eps st' = answer st (trace st) (Kern Ep_create)"
    and "run_state (gdma_axi_init K 0) st' = (ULMK_TID_INVALID K, st')"
proof -
  let ?ep = "answer st (trace st) (Kern Ep_create)"
  have run: "run_state (gdma_bring_up K) (st\<lparr>trace := trace st @ [Kern Ep_create], g_gdma_axi_eps := ?ep\<rparr>) =
      (ULMK_TID_INVALID K, st')"
    using assms(2,3) by (simp add: run_gdma_init [OF assms(1)] Let_def)
  show "g_gdma_axi_eps st' = ?ep"
    using keeps_run [OF keeps_gdma_bring_up _ run, of ?ep "length (g_slot st)"] by simp
  with assms(2) show "run_state (gdma_axi_init K 0) st' = (ULMK_TID_INVALID K, st')"
    by (simp add: gdma_axi_init_def const_defs)
qed

text \<open>For example when the clock gate does not read back.\<close>

theorem gdma_failed_init_is_final_witness:
  "let st = gdma_boot (\<lambda>_ e. if e = Kern Ep_create then 9 else 0)\<lparr>g_gdma_axi_eps := 0\<rparr>;
       st' = snd (run_state (gdma_axi_init sample_abi 0) st) in
   run_state (gdma_axi_init sample_abi 0) st' = (0, st') \<and> g_gdma_axi_eps st' = 9"
proof -
  let ?st = "gdma_boot (\<lambda>_ e. if e = Kern Ep_create then 9 else 0)\<lparr>g_gdma_axi_eps := 0\<rparr>"
  have none: "g_gdma_axi_eps ?st = ULMK_EP_INVALID sample_abi"
    and ep: "answer ?st (trace ?st) (Kern Ep_create) \<noteq> ULMK_EP_INVALID sample_abi"
    by (simp_all add: sample_abi_def gdma_boot_def)
  have "fst (run_state (gdma_axi_init sample_abi 0) ?st) = ULMK_TID_INVALID sample_abi"
    unfolding run_gdma_init [OF none]
    using ep by (simp add: Let_def gdma_bring_up_def gdma_axi_hw_init_def gdma_boot_def sample_abi_def
        AXI_PDMA_SYS_EN_def)
  then have run: "run_state (gdma_axi_init sample_abi 0) ?st =
      (ULMK_TID_INVALID sample_abi, snd (run_state (gdma_axi_init sample_abi 0) ?st))"
    by (simp add: prod_eq_iff)
  show ?thesis
    using gdma_failed_init_is_final [OF none ep run] by (simp add: Let_def sample_abi_def gdma_boot_def)
qed

end
