(* ===== verification/Spi_Esp32.thy ===== *)
theory Spi_Esp32
  imports Gdma_Axi_Esp32 Payload
begin

text \<open>
  The SPI driver of the ESP32-P4 board, \<^verbatim>\<open>esp32p4_ev_function/drivers/spi/src/server.c\<close> (which holds
  the client functions too): two masters, each with its server thread, which copies the bytes of
  the request to a DMA buffer, configures the pads in its own address space with \<open>pinmux_apply_esp\<close>,
  arms and waits for both halves of its DMA channel through calls to the DMA server, and returns
  the received bytes.  The endpoint of the DMA server is the state's; its \<^verbatim>\<open>ulmk_ep_call\<close> is the
  argument \<open>call\<close>, which the properties instantiate with the rendezvous with the real handler.
\<close>

section \<open>Registers and tables\<close>

definition SPI_STACK :: u32 where "SPI_STACK = 1536"
definition SPI_CMD :: u32 where "SPI_CMD = 0x00"
definition SPI_CTRL :: u32 where "SPI_CTRL = 0x08"
definition SPI_CLOCK :: u32 where "SPI_CLOCK = 0x0c"
definition SPI_USER :: u32 where "SPI_USER = 0x10"
definition SPI_USER1 :: u32 where "SPI_USER1 = 0x14"
definition SPI_USER2 :: u32 where "SPI_USER2 = 0x18"
definition SPI_MS_DLEN :: u32 where "SPI_MS_DLEN = 0x1c"
definition SPI_MISC :: u32 where "SPI_MISC = 0x20"
definition SPI_DMA_CONF :: u32 where "SPI_DMA_CONF = 0x30"
definition SPI_SLAVE :: u32 where "SPI_SLAVE = 0xe0"
definition SPI_CLK_GATE :: u32 where "SPI_CLK_GATE = 0xe8"
definition SPI_CMD_UPDATE :: u32 where "SPI_CMD_UPDATE = push_bit 23 1"
definition SPI_CMD_USR :: u32 where "SPI_CMD_USR = push_bit 24 1"
definition SPI_CLK_EN :: u32 where "SPI_CLK_EN = push_bit 0 1"
definition SPI_MST_CLK_ACTIVE :: u32 where "SPI_MST_CLK_ACTIVE = push_bit 1 1"
definition SPI_RX_AFIFO_RST :: u32 where "SPI_RX_AFIFO_RST = push_bit 29 1"
definition SPI_BUF_AFIFO_RST :: u32 where "SPI_BUF_AFIFO_RST = push_bit 30 1"
definition SPI_DMA_RX_ENA :: u32 where "SPI_DMA_RX_ENA = push_bit 27 1"
definition SPI_DMA_TX_ENA :: u32 where "SPI_DMA_TX_ENA = push_bit 28 1"
definition SPI_RX_EOF_EN :: u32 where "SPI_RX_EOF_EN = push_bit 21 1"
definition HP_SOC_CLK_CTRL2 :: u32 where "HP_SOC_CLK_CTRL2 = HP_CLKRST_ESP + 0x1c"
definition HP_PERI_CLK_CTRL116 :: u32 where "HP_PERI_CLK_CTRL116 = HP_CLKRST_ESP + 0x80"
definition HP_PERI_CLK_CTRL117 :: u32 where "HP_PERI_CLK_CTRL117 = HP_CLKRST_ESP + 0x84"
definition HP_RST_EN2 :: u32 where "HP_RST_EN2 = HP_CLKRST_ESP + 0xc8"
definition ULMK_BOARD_SPI_MAX :: u8 where [const_defs]: "ULMK_BOARD_SPI_MAX = 2"
definition SPI_MSG_XFER :: u32 where [const_defs]: "SPI_MSG_XFER = 1"
definition SPI_MSG_LOOP :: u32 where [const_defs]: "SPI_MSG_LOOP = 2"
definition SPI_IPC_MAX :: u32 where [const_defs]: "SPI_IPC_MAX = 16"

record spi_hw =
  hw_base :: u32
  hw_clk_reg :: u32
  hw_sclk_gpio :: u8
  hw_mosi_gpio :: u8
  hw_miso_gpio :: u8
  hw_cs_gpio :: u8
  hw_clk_out :: u8
  hw_q_in :: u8
  hw_d_out :: u8
  hw_cs_out :: u8
  hw_sys_clk_bit :: u8
  hw_apb_clk_bit :: u8
  hw_rst_bit :: u8
  hw_clk_src_shift :: u8
  hw_hs_clk_bit :: u8
  hw_hs_div_shift :: u8
  hw_mst_div_shift :: u8
  hw_mst_clk_bit :: u8

record spi_inst =
  si_hw :: spi_hw
  si_rx_slot :: u8
  si_tx_slot :: u8
  si_ready :: bool

definition g_spi_hw :: "spi_hw list" where
  "g_spi_hw =
     [\<lparr>hw_base = 0x500D0000, hw_clk_reg = HP_PERI_CLK_CTRL116, hw_sclk_gpio = 2, hw_mosi_gpio = 3,
       hw_miso_gpio = 4, hw_cs_gpio = 5, hw_clk_out = 53, hw_q_in = 54, hw_d_out = 55, hw_cs_out = 62,
       hw_sys_clk_bit = 0, hw_apb_clk_bit = 19, hw_rst_bit = 7, hw_clk_src_shift = 0, hw_hs_clk_bit = 3,
       hw_hs_div_shift = 4, hw_mst_div_shift = 12, hw_mst_clk_bit = 20\<rparr>,
      \<lparr>hw_base = 0x500D1000, hw_clk_reg = HP_PERI_CLK_CTRL117, hw_sclk_gpio = 9, hw_mosi_gpio = 10,
       hw_miso_gpio = 11, hw_cs_gpio = 12, hw_clk_out = 47, hw_q_in = 48, hw_d_out = 49, hw_cs_out = 52,
       hw_sys_clk_bit = 1, hw_apb_clk_bit = 20, hw_rst_bit = 8, hw_clk_src_shift = 21, hw_hs_clk_bit = 24,
       hw_hs_div_shift = 0, hw_mst_div_shift = 8, hw_mst_clk_bit = 16\<rparr>]"

text \<open>The link-time addresses of the two pairs of DMA buffers.\<close>

record spi_layout = gdma_layout +
  dma_tx :: "u8 \<Rightarrow> u32"
  dma_rx :: "u8 \<Rightarrow> u32"

record spi_st = gdma_st +
  g_spi_eps :: "u32 list"
  g_spi :: "spi_inst list"

type_synonym ('z, 'a) spi_op = "('z spi_st_scheme, 'a) state"

definition spi_reg :: "spi_inst \<Rightarrow> u32 \<Rightarrow> u32" where
  "spi_reg spi off = hw_base (si_hw spi) + off"

definition bit_at :: "u8 \<Rightarrow> u32" where
  "bit_at n = push_bit (unat n) 1"

section \<open>The hardware\<close>

definition spi_clk_enable :: "spi_inst \<Rightarrow> ('z, unit) spi_op" where
  "spi_clk_enable spi = do {
     let hw = si_hw spi;
     v \<leftarrow> rd32 HP_SOC_CLK_CTRL1;
     wr32 HP_SOC_CLK_CTRL1 (v OR bit_at (hw_sys_clk_bit hw));
     v \<leftarrow> rd32 HP_SOC_CLK_CTRL2;
     wr32 HP_SOC_CLK_CTRL2 (v OR bit_at (hw_apb_clk_bit hw));
     v \<leftarrow> rd32 (hw_clk_reg hw);
     let v = v AND NOT (push_bit (unat (hw_clk_src_shift hw)) 7 OR push_bit (unat (hw_hs_div_shift hw)) 0xFF OR
                        push_bit (unat (hw_mst_div_shift hw)) 0xFF);
     let v = v OR (bit_at (hw_hs_clk_bit hw) OR bit_at (hw_mst_div_shift hw) OR bit_at (hw_mst_clk_bit hw));
     wr32 (hw_clk_reg hw) v;
     v \<leftarrow> rd32 HP_RST_EN2;
     wr32 HP_RST_EN2 (v OR bit_at (hw_rst_bit hw));
     wr32 HP_RST_EN2 (v AND NOT (bit_at (hw_rst_bit hw)))
   }"

text \<open>\<open>n\<close> further reads are left before the loop gives up.\<close>

fun spi_wait_clear :: "ulmk_abi \<Rightarrow> u32 \<Rightarrow> u32 \<Rightarrow> nat \<Rightarrow> ('z, cint) spi_op" where
  "spi_wait_clear K addr b 0 = do {
     v \<leftarrow> rd32 addr;
     if v AND b = 0 then ret (ULMK_OK K) else ret (ULMK_ETIMEOUT K)
   }"
| "spi_wait_clear K addr b (Suc n) = do {
     v \<leftarrow> rd32 addr;
     if v AND b = 0 then ret (ULMK_OK K) else spi_wait_clear K addr b n
   }"

definition spi_apply_config :: "ulmk_abi \<Rightarrow> spi_inst \<Rightarrow> ('z, unit) spi_op" where
  "spi_apply_config K spi = do {
     wr32 (spi_reg spi SPI_CMD) SPI_CMD_UPDATE;
     _ \<leftarrow> spi_wait_clear K (spi_reg spi SPI_CMD) SPI_CMD_UPDATE 100000;
     ret ()
   }"

definition spi_pins :: "ulmk_abi \<Rightarrow> spi_inst \<Rightarrow> bool \<Rightarrow> ('z, unit) spi_op" where
  "spi_pins K spi loopback = do {
     let hw = si_hw spi;
     let cfg = \<lparr>pc_port = 0, pc_pin = 0, pc_dir = PINMUX_DIR_OUT_ESP, pc_pull = PINMUX_PULL_NONE_ESP,
                pc_alt = PINMUX_ALT_MATRIX, pc_flags = PINMUX_F_PERIPH_OE, pc_matrix_out = 0, pc_matrix_in = 0\<rparr>;
     let cfg = cfg\<lparr>pc_pin := hw_sclk_gpio hw, pc_matrix_out := ucast (hw_clk_out hw), pc_matrix_in := 0\<rparr>;
     _ \<leftarrow> pinmux_apply_esp K (Some cfg);
     let cfg = cfg\<lparr>pc_pin := hw_mosi_gpio hw, pc_matrix_out := ucast (hw_d_out hw)\<rparr>;
     let cfg = (if loopback then cfg\<lparr>pc_flags := PINMUX_F_PERIPH_OE OR PINMUX_F_IE\<rparr> else cfg);
     _ \<leftarrow> pinmux_apply_esp K (Some cfg);
     let cfg = cfg\<lparr>pc_flags := PINMUX_F_PERIPH_OE\<rparr>;
     let cfg = cfg\<lparr>pc_pin := hw_cs_gpio hw, pc_matrix_out := ucast (hw_cs_out hw)\<rparr>;
     _ \<leftarrow> pinmux_apply_esp K (Some cfg);
     if loopback then
       wr32 (ULMK_BOARD_GPIO_BASE + 0x158 + 4 * ucast (hw_q_in hw)) (ucast (hw_mosi_gpio hw AND 0x3F) OR push_bit 7 1)
     else do {
       let cfg = cfg\<lparr>pc_pin := hw_miso_gpio hw, pc_dir := PINMUX_DIR_IN_ESP, pc_flags := PINMUX_F_IE,
                     pc_matrix_out := 0, pc_matrix_in := ucast (hw_q_in hw)\<rparr>;
       _ \<leftarrow> pinmux_apply_esp K (Some cfg);
       ret ()
     }
   }"

definition set_spi :: "u8 \<Rightarrow> (spi_inst \<Rightarrow> spi_inst) \<Rightarrow> ('z, unit) spi_op" where
  "set_spi n f = modify (\<lambda>st. st\<lparr>g_spi := (g_spi st)[unat n := f (g_spi st ! unat n)]\<rparr>)"

definition spi_of :: "u8 \<Rightarrow> ('z, spi_inst) spi_op" where
  "spi_of n = gets (\<lambda>st. g_spi st ! unat n)"

definition spi_hw_init :: "ulmk_abi \<Rightarrow> u8 \<Rightarrow> ('z, unit) spi_op" where
  "spi_hw_init K n = do {
     spi \<leftarrow> spi_of n;
     spi_clk_enable spi;
     wr32 (spi_reg spi SPI_CLK_GATE) (SPI_CLK_EN OR SPI_MST_CLK_ACTIVE);
     wr32 (spi_reg spi SPI_SLAVE) 0;
     wr32 (spi_reg spi SPI_USER1) 0;
     wr32 (spi_reg spi SPI_USER2) 0;
     wr32 (spi_reg spi SPI_USER) 0;
     wr32 (spi_reg spi SPI_CTRL) 0;
     wr32 (spi_reg spi SPI_MISC) 0;
     wr32 (spi_reg spi SPI_DMA_CONF) 0;
     wr32 (spi_reg spi SPI_CLOCK) (push_bit 0 19 OR push_bit 6 9 OR push_bit 12 19 OR push_bit 18 0);
     wr32 (spi_reg spi SPI_USER) (push_bit 0 1 OR push_bit 27 1 OR push_bit 28 1);
     spi_apply_config K spi;
     set_spi n (\<lambda>s. s\<lparr>si_ready := True\<rparr>)
   }"

section \<open>The transfer\<close>

text \<open>The client of the DMA server in this address space: it calls the endpoint of the state.\<close>

definition dma_call :: "(u32 \<Rightarrow> ('z, cint) spi_op) \<Rightarrow> ('z, cint) spi_op" where
  "dma_call op = do { ep \<leftarrow> gets g_gdma_axi_eps; op ep }"

definition spi_xfer_hw :: "ulmk_abi \<Rightarrow> 'z spi_st_scheme ep_call \<Rightarrow> u8 \<Rightarrow> u32 \<Rightarrow> u32 \<Rightarrow> u32 \<Rightarrow> ('z, cint) spi_op" where
  "spi_xfer_hw K call n tx rx len = do {
     spi \<leftarrow> spi_of n;
     if \<not> si_ready spi \<or> tx = 0 \<or> rx = 0 \<or> len = 0 \<or> len > 64 then ret (ULMK_EINVAL K)
     else do {
       let bits = len * 8;
       wr32 (spi_reg spi SPI_MS_DLEN) (bits - 1);
       wr32 (spi_reg spi SPI_DMA_CONF) (SPI_BUF_AFIFO_RST OR SPI_RX_AFIFO_RST);
       wr32 (spi_reg spi SPI_DMA_CONF) (SPI_DMA_RX_ENA OR SPI_DMA_TX_ENA OR SPI_RX_EOF_EN);
       rc \<leftarrow> dma_call (\<lambda>ep. gdma_axi_rx_arm K ep call (si_rx_slot spi) rx len);
       if rc \<noteq> ULMK_OK K then ret rc
       else do {
         rc \<leftarrow> dma_call (\<lambda>ep. gdma_axi_tx_arm K ep call (si_tx_slot spi) tx len);
         if rc \<noteq> ULMK_OK K then ret rc
         else do {
           spi_apply_config K spi;
           wr32 (spi_reg spi SPI_CMD) SPI_CMD_USR;
           rc \<leftarrow> dma_call (\<lambda>ep. gdma_axi_tx_wait K ep call (si_tx_slot spi));
           got \<leftarrow> dma_call (\<lambda>ep. gdma_axi_rx_wait K ep call (si_rx_slot spi));
           wr32 (spi_reg spi SPI_DMA_CONF) 0;
           ret (if rc \<noteq> ULMK_OK K then rc else if c_neg got then got else ULMK_OK K)
         }
       }
     }
   }"

section \<open>The server\<close>

definition spi_reply :: "u32 \<Rightarrow> u8 list \<Rightarrow> msg" where
  "spi_reply rc bs = \<lparr>label = 0, words = pack_loop 1 0 bs ((\<lambda>_. 0)(0 := rc))\<rparr>"

text \<open>The loop that fills the DMA buffers from words 2 to 5 of the request.\<close>

definition spi_fill :: "u32 \<Rightarrow> u32 \<Rightarrow> u8 list \<Rightarrow> ('z, unit) spi_op" where
  "spi_fill tx rx bs = for_each [0..<length bs] (\<lambda>i. do {
     dev_do (St8 (tx + of_nat i) (bs ! i));
     dev_do (St8 (rx + of_nat i) 0)
   })"

definition spi_drain :: "u32 \<Rightarrow> nat \<Rightarrow> ('z, u8 list) spi_op" where
  "spi_drain rx n = collect [0..<n] (\<lambda>i. do { v \<leftarrow> dev (Ld8 (rx + of_nat i)); ret (ucast v) })"

definition spi_dispatch :: "'l spi_layout_scheme \<Rightarrow> ulmk_abi \<Rightarrow> 'z spi_st_scheme ep_call \<Rightarrow> u8 \<Rightarrow> msg \<Rightarrow> ('z, msg) spi_op" where
  "spi_dispatch M K call n m =
     (if label m = SPI_MSG_XFER \<or> label m = SPI_MSG_LOOP then do {
        let len = words m 0;
        if len = 0 \<or> len > SPI_IPC_MAX then ret (spi_reply (ULMK_EINVAL K) [])
        else do {
          spi_fill (dma_tx M n) (dma_rx M n) (unpack_loop 2 (unat len) (words m));
          spi \<leftarrow> spi_of n;
          when_do (label m = SPI_MSG_LOOP) (spi_pins K spi True);
          rc \<leftarrow> spi_xfer_hw K call n (dma_tx M n) (dma_rx M n) len;
          if rc = ULMK_OK K then do {
            bs \<leftarrow> spi_drain (dma_rx M n) (unat len);
            ret (spi_reply rc bs)
          } else ret (spi_reply rc [])
        }
      } else ret (spi_reply (ULMK_EINVAL K) []))"

definition spi_init :: "ulmk_abi \<Rightarrow> 'z spi_st_scheme ep_call \<Rightarrow> u8 \<Rightarrow> ('z, u32) spi_op" where
  "spi_init K call n = do {
     eps \<leftarrow> gets g_spi_eps;
     if n \<ge> ULMK_BOARD_SPI_MAX then ret (ULMK_TID_INVALID K)
     else if eps ! unat n \<noteq> ULMK_EP_INVALID K \<and> eps ! unat n \<noteq> 0 then ret (ULMK_TID_INVALID K)
     else do {
       set_spi n (\<lambda>s. s\<lparr>si_hw := g_spi_hw ! unat n\<rparr>);
       set_spi n (\<lambda>s. s\<lparr>si_rx_slot := GDMA_AXI_SLOT_RX (n + 1)\<rparr>);
       set_spi n (\<lambda>s. s\<lparr>si_tx_slot := GDMA_AXI_SLOT_TX (n + 1)\<rparr>);
       spi \<leftarrow> spi_of n;
       let periph = GDMA_AXI_PERIPH_SPI2 + ucast n;
       rc \<leftarrow> dma_call (\<lambda>ep. gdma_axi_channel_open K ep call (si_rx_slot spi) periph 0);
       if rc \<noteq> ULMK_OK K then ret (ULMK_TID_INVALID K)
       else do {
         rc \<leftarrow> dma_call (\<lambda>ep. gdma_axi_channel_open K ep call (si_tx_slot spi) periph 0);
         if rc \<noteq> ULMK_OK K then ret (ULMK_TID_INVALID K)
         else do {
           spi_pins K spi True;
           spi_hw_init K n;
           ep \<leftarrow> kern Ep_create;
           if ep = ULMK_EP_INVALID K then ret (ULMK_TID_INVALID K)
           else do {
             modify (\<lambda>st. st\<lparr>g_spi_eps := (g_spi_eps st)[unat n := ep]\<rparr>);
             tid \<leftarrow> kern (Thread_create ''spi'' 2 SPI_STACK);
             if tid = ULMK_TID_INVALID K then do {
               modify (\<lambda>st. st\<lparr>g_spi_eps := (g_spi_eps st)[unat n := ULMK_EP_INVALID K]\<rparr>);
               kern_do (Ep_destroy ep);
               ret (ULMK_TID_INVALID K)
             } else do {
               kern_do (Cap_grant tid ''MAP_PERIPH'');
               dev_do (Console_printf (''spi%u: gdma-axi'' @ [CHR 0x0D, CHR 0x0A]) [ucast n + 2]);
               ret tid
             }
           }
         }
       }
     }
   }"

section \<open>The client\<close>

text \<open>
  \<open>otx\<close> is the buffer to send, \<open>None\<close> for a null pointer (zeros are sent); \<open>orx\<close> the buffer to
  receive into, returned updated.  The buffers hold at least \<open>len\<close> bytes.
\<close>

definition spi_bytes :: "u8 list option \<Rightarrow> nat \<Rightarrow> u8 list" where
  "spi_bytes otx n = (case otx of None \<Rightarrow> replicate n 0 | Some tx \<Rightarrow> take n tx)"

definition spi_call :: "ulmk_abi \<Rightarrow> 's ep_call \<Rightarrow> u32 list \<Rightarrow> u32 \<Rightarrow> u8 \<Rightarrow> u8 list option \<Rightarrow> u8 list option \<Rightarrow> u32 \<Rightarrow>
    ('s, cint \<times> u8 list option) state" where
  "spi_call K call eps lab n otx orx len =
     (if n \<ge> ULMK_BOARD_SPI_MAX \<or> eps ! unat n = ULMK_EP_INVALID K \<or> eps ! unat n = 0 then ret (ULMK_ESRCH K, orx)
      else if len = 0 \<or> len > SPI_IPC_MAX then ret (ULMK_EINVAL K, orx)
      else do {
        let ws = (\<lambda>_. 0)(0 := len, 1 := 0);
        let ws = clear_words 2 4 ws;
        (rc, m) \<leftarrow> call \<lparr>label = lab, words = pack_loop 2 0 (spi_bytes otx (unat len)) ws\<rparr>;
        if rc \<noteq> ULMK_OK K then ret (rc, orx)
        else do {
          let rc = words m 0;
          ret (rc, if rc = ULMK_OK K
                   then map_option (\<lambda>rx. unpack_loop 1 (unat len) (words m) @ drop (unat len) rx) orx else orx)
        }
      })"

definition spi_transfer :: "ulmk_abi \<Rightarrow> 's ep_call \<Rightarrow> u32 list \<Rightarrow> u8 \<Rightarrow> u8 list option \<Rightarrow> u8 list option \<Rightarrow> u32 \<Rightarrow>
    ('s, cint \<times> u8 list option) state" where
  "spi_transfer K call eps = spi_call K call eps SPI_MSG_XFER"

definition spi_loopback :: "ulmk_abi \<Rightarrow> 's ep_call \<Rightarrow> u32 list \<Rightarrow> u8 \<Rightarrow> u8 list option \<Rightarrow> u8 list option \<Rightarrow> u32 \<Rightarrow>
    ('s, cint \<times> u8 list option) state" where
  "spi_loopback K call eps = spi_call K call eps SPI_MSG_LOOP"

section \<open>The composition with the DMA server\<close>

text \<open>The rendezvous with the DMA server of the same board.\<close>

definition dma_srv :: "'l gdma_layout_scheme \<Rightarrow> ulmk_abi \<Rightarrow> 'z spi_st_scheme ep_call" where
  "dma_srv M K = ipc K (gdma_dispatch M K)"

lemma run_dma_calls:
  assumes "g_gdma_axi_eps st \<noteq> ULMK_EP_INVALID K"
  shows "run_state (dma_call (\<lambda>ep. gdma_axi_rx_arm K ep (dma_srv M K) slot p len)) st =
      run_state (hw_rx_arm M K slot p len) st"
    "run_state (dma_call (\<lambda>ep. gdma_axi_tx_arm K ep (dma_srv M K) slot p len)) st =
      run_state (hw_tx_arm M K slot p len) st"
    "run_state (dma_call (\<lambda>ep. gdma_axi_rx_wait K ep (dma_srv M K) slot)) st = run_state (hw_rx_wait M K slot) st"
    "run_state (dma_call (\<lambda>ep. gdma_axi_tx_wait K ep (dma_srv M K) slot)) st = run_state (hw_tx_wait K slot) st"
  using assms by (simp_all add: dma_call_def dma_srv_def run_gdma_arm_calls)

text \<open>The configuration of an instance, as \<open>spi_init\<close> leaves it.\<close>

definition spi_ready :: "ulmk_abi \<Rightarrow> u8 \<Rightarrow> 'z spi_st_scheme \<Rightarrow> bool" where
  "spi_ready K n st \<longleftrightarrow> n < ULMK_BOARD_SPI_MAX \<and> unat n < length (g_spi st) \<and>
     g_spi st ! unat n = \<lparr>si_hw = g_spi_hw ! unat n, si_rx_slot = GDMA_AXI_SLOT_RX (n + 1),
       si_tx_slot = GDMA_AXI_SLOT_TX (n + 1), si_ready = True\<rparr> \<and>
     gdma_ready K st \<and> g_gdma_axi_eps st \<noteq> ULMK_EP_INVALID K \<and>
     gs_open (g_slot st ! unat (GDMA_AXI_SLOT_RX (n + 1))) \<and> gs_open (g_slot st ! unat (GDMA_AXI_SLOT_TX (n + 1)))"

lemma spi_slots: "n < ULMK_BOARD_SPI_MAX \<Longrightarrow> rx_slot (GDMA_AXI_SLOT_RX (n + 1)) \<and> tx_slot (GDMA_AXI_SLOT_TX (n + 1)) \<and>
    chan_of (GDMA_AXI_SLOT_RX (n + 1)) = n + 1 \<and> chan_of (GDMA_AXI_SLOT_TX (n + 1)) = n + 1 \<and>
    (n = 0 \<or> n = 1)"
proof -
  assume "n < ULMK_BOARD_SPI_MAX"
  then have "unat n = 0 \<or> unat n = 1"
    by (auto simp: ULMK_BOARD_SPI_MAX_def word_less_nat_alt)
  then have "n = 0 \<or> n = 1"
    by (auto simp: word_unat_eq_iff [of n])
  then show ?thesis
    by (auto simp: GDMA_AXI_SLOT_RX_def GDMA_AXI_SLOT_TX_def rx_slot_def tx_slot_def chan_of_def)
qed

section \<open>What the operations log\<close>

text \<open>Neither a store to memory nor a cache operation.\<close>

definition quiet :: "esp_act event \<Rightarrow> bool" where
  "quiet e \<longleftrightarrow> (case e of Dev (St8 a b) \<Rightarrow> False | Dev (Dcache_clean p n) \<Rightarrow> False
     | Dev (Dcache_invalidate p n) \<Rightarrow> False | _ \<Rightarrow> True)"

lemma quiet_simps [simp]: "quiet (Kern c)" "quiet (Dev (Rd32 a))" "quiet (Dev (Wr32 a v))" "quiet (Dev (Ld8 a))"
  "\<not> quiet (Dev (St8 a b))" "\<not> quiet (Dev (Dcache_clean p n))" "\<not> quiet (Dev (Dcache_invalidate p n))"
  by (simp_all add: quiet_def)

lemma logs_wait_clear: "P (Dev (Rd32 a)) \<Longrightarrow> logs P (spi_wait_clear K a b n)"
  by (induction n) (auto intro!: logs_intros)

lemma logs_apply_config:
  "P (Dev (Wr32 (spi_reg spi SPI_CMD) SPI_CMD_UPDATE)) \<Longrightarrow> P (Dev (Rd32 (spi_reg spi SPI_CMD))) \<Longrightarrow>
   logs P (spi_apply_config K spi)"
  unfolding spi_apply_config_def by (intro logs_intros logs_wait_clear)

lemma logs_pins_quiet: "logs quiet (spi_pins K spi b)"
  unfolding spi_pins_def Let_def pinmux_apply_esp_def option.case
  by (intro logs_intros logs_set_oe [OF _ _ _ _ refl]) simp_all

lemma run_spi_fill:
  "run_state (spi_fill tx rx bs) st = ((), st\<lparr>trace := trace st @
     concat (List.map (\<lambda>i. [Dev (St8 (tx + of_nat i) (bs ! i)), Dev (St8 (rx + of_nat i) 0)]) [0..<length bs])\<rparr>)"
  unfolding spi_fill_def by (rule run_for_each_emits [where P = "\<lambda>_. True"]) simp_all

section \<open>A completed transfer\<close>

text \<open>
  The DMA engine completes: the interrupt of each wait arrives in time, and the flags of both halves of
  the channel say end of frame without a descriptor error.
\<close>

definition dma_completes :: "ulmk_abi \<Rightarrow> u8 \<Rightarrow> (esp_act event list \<Rightarrow> esp_act event \<Rightarrow> u32) \<Rightarrow> bool" where
  "dma_completes K ch ans \<longleftrightarrow> (\<forall>t. (\<forall>n b ms. ans t (Kern (Notif_wait_timeout n b ms)) = ULMK_OK K) \<and>
     bit (ans t (Dev (Rd32 (AXI_IN_INT_RAW ch)))) 1 \<and> \<not> bit (ans t (Dev (Rd32 (AXI_IN_INT_RAW ch)))) 3 \<and>
     bit (ans t (Dev (Rd32 (AXI_OUT_INT_RAW ch)))) 1 \<and> \<not> bit (ans t (Dev (Rd32 (AXI_OUT_INT_RAW ch)))) 2)"

lemma int_flags: "x AND IN_INT_DSCR_ERR = 0 \<longleftrightarrow> \<not> bit x 3" "x AND IN_INT_SUC_EOF = 0 \<longleftrightarrow> \<not> bit x 1"
  "x AND OUT_INT_DSCR_ERR = 0 \<longleftrightarrow> \<not> bit x 2" "x AND OUT_INT_EOF = 0 \<longleftrightarrow> \<not> bit x 1"
  by (simp_all add: IN_INT_DSCR_ERR_def IN_INT_SUC_EOF_def OUT_INT_DSCR_ERR_def OUT_INT_EOF_def
      bit_iff_and_push_bit_not_eq_0 exp_eq_zero_iff)

definition tx_wait_events :: "u8 \<Rightarrow> gdma_slot \<Rightarrow> esp_act event list" where
  "tx_wait_events ch s = [Kern (Irq_ack (ucast (gs_irq s))), Dev (Wr32 (AXI_OUT_INT_ENA ch) (OUT_INT_EOF OR OUT_INT_DSCR_ERR)),
     Kern (Notif_wait_timeout (gs_notif s) (push_bit GDMA_AXI_NOTIF 1) GDMA_AXI_WAIT_MS),
     Dev (Wr32 (AXI_OUT_INT_ENA ch) 0), Dev (Rd32 (AXI_OUT_INT_RAW ch)), Dev (Wr32 (AXI_OUT_INT_CLR ch) 0xFFFFFFFF)]"

definition rx_wait_events :: "u8 \<Rightarrow> u32 \<Rightarrow> gdma_slot \<Rightarrow> esp_act event list" where
  "rx_wait_events ch d s = [Kern (Irq_ack (ucast (gs_irq s))), Dev (Wr32 (AXI_IN_INT_ENA ch) (IN_INT_SUC_EOF OR IN_INT_DSCR_ERR)),
     Kern (Notif_wait_timeout (gs_notif s) (push_bit GDMA_AXI_NOTIF 1) GDMA_AXI_WAIT_MS),
     Dev (Wr32 (AXI_IN_INT_ENA ch) 0), Dev (Rd32 (AXI_IN_INT_RAW ch)), Dev (Wr32 (AXI_IN_INT_CLR ch) 0xFFFFFFFF),
     Dev (Rd32 (desc_nc d))]"

lemma run_tx_wait_done:
  assumes "gdma_roles st" "tx_slot slot" "gs_buf (g_slot st ! unat slot) \<noteq> 0"
    and "dma_completes K (chan_of slot) (answer st)"
  shows "run_state (hw_tx_wait K slot) st =
    (ULMK_OK K, (disarmed slot st)\<lparr>trace := trace st @ tx_wait_events (chan_of slot) (g_slot st ! unat slot)\<rparr>)"
  using slot_role [OF assms(1), of slot] slot_kinds [of slot] assms(2-4)
  by (simp add: hw_tx_wait_def wait_out_done_def disarmed_def Let_def GDMA_AXI_SLOT_MEM_def dma_completes_def
      int_flags tx_wait_events_def)

lemma run_rx_wait_done:
  assumes "gdma_roles st" "rx_slot slot" "gs_buf (g_slot st ! unat slot) \<noteq> 0"
    and "dma_completes K (chan_of slot) (answer st)"
  shows "\<exists>got. run_state (hw_rx_wait M K slot) st = (got, (disarmed slot st)\<lparr>trace := trace st @
      rx_wait_events (chan_of slot) (slot_desc M (unat slot)) (g_slot st ! unat slot) @
      [Dev (Dcache_invalidate (gs_buf (g_slot st ! unat slot)) (gs_len (g_slot st ! unat slot)))]\<rparr>) \<and>
    got \<le> gs_len (g_slot st ! unat slot)"
  using slot_role [OF assms(1), of slot] slot_kinds [of slot] assms(2-4)
  by (simp add: hw_rx_wait_def wait_in_done_def disarmed_def Let_def GDMA_AXI_SLOT_MEM_def dma_completes_def
      int_flags rx_wait_events_def not_less)

lemma wait_events_quiet: "list_all quiet (tx_wait_events ch s)" "list_all quiet (rx_wait_events ch d s)"
  by (simp_all add: tx_wait_events_def rx_wait_events_def)

lemma roles_simps [simp]:
  "gdma_roles (st\<lparr>trace := t\<rparr>) = gdma_roles st"
  "gdma_roles st \<Longrightarrow> gdma_roles (armed slot p len st)" "gdma_roles st \<Longrightarrow> gdma_roles (disarmed slot st)"
  by (cases "unat slot < length (g_slot st)";
      auto simp: gdma_roles_def armed_def disarmed_def nth_list_update list_update_beyond)+

lemma slot_nth_simps:
  "slot \<noteq> other \<Longrightarrow> g_slot (armed slot p len st) ! unat other = g_slot st ! unat other"
  "slot \<noteq> other \<Longrightarrow> g_slot (disarmed slot st) ! unat other = g_slot st ! unat other"
  "gdma_roles st \<Longrightarrow> slot_valid slot \<Longrightarrow>
     g_slot (armed slot p len st) ! unat slot = (g_slot st ! unat slot)\<lparr>gs_buf := p, gs_len := len\<rparr>"
  using slot_role(4) [of st slot] by (auto simp: armed_def disarmed_def nth_list_update word_unat_eq_iff)

lemma armed_trace [simp]:
  "armed slot p len (st\<lparr>trace := t\<rparr>) = (armed slot p len st)\<lparr>trace := t\<rparr>"
  "disarmed slot (st\<lparr>trace := t\<rparr>) = (disarmed slot st)\<lparr>trace := t\<rparr>"
  by (simp_all add: armed_def disarmed_def)

lemma armed_frame [simp]:
  "g_hw (armed slot p len st) = g_hw st" "g_hw (disarmed slot st) = g_hw st"
  "trace (armed slot p len st) = trace st" "trace (disarmed slot st) = trace st"
  "answer (armed slot p len st) = answer st" "answer (disarmed slot st) = answer st"
  "g_gdma_axi_eps (armed slot p len st) = g_gdma_axi_eps st" "g_gdma_axi_eps (disarmed slot st) = g_gdma_axi_eps st"
  by (simp_all add: armed_def disarmed_def)

text \<open>A transfer that the hardware completes: the cache protocol around it.\<close>

lemma run_spi_xfer_done:
  assumes "abi_ok K" "spi_ready K n st" "tx \<noteq> 0" "rx \<noteq> 0" "len \<noteq> 0" "len \<le> 64"
    and "dma_completes K (n + 1) (answer st)"
  shows "\<exists>e1 e2 st'. run_state (spi_xfer_hw K (dma_srv M K) n tx rx len) st = (ULMK_OK K, st') \<and>
    answer st' = answer st \<and> list_all quiet e1 \<and> list_all quiet e2 \<and>
    trace st' = trace st @ e1 @ Dev (Dcache_clean tx len) # e2 @ [Dev (Dcache_invalidate rx len),
      Dev (Wr32 (spi_reg (g_spi st ! unat n) SPI_DMA_CONF) 0)]"
proof -
  let ?spi = "g_spi st ! unat n" and ?r = "GDMA_AXI_SLOT_RX (n + 1)" and ?t = "GDMA_AXI_SLOT_TX (n + 1)"
  let ?w = "\<lambda>a v. Dev (Wr32 (spi_reg ?spi a) v)"
  have n: "n < ULMK_BOARD_SPI_MAX" and spi: "si_rx_slot ?spi = ?r" "si_tx_slot ?spi = ?t" "si_ready ?spi"
    and roles: "gdma_roles st" and hw: "g_hw st" and ep: "g_gdma_axi_eps st \<noteq> ULMK_EP_INVALID K"
    and opened: "gs_open (g_slot st ! unat ?r)" "gs_open (g_slot st ! unat ?t)"
    using assms(2) gdma_ready_simps(1) [of K st] by (auto simp: spi_ready_def)
  note slots = spi_slots [OF n]
  have rt: "rx_slot ?r" "tx_slot ?t" "slot_valid ?r" "slot_valid ?t" "?r \<noteq> ?t" "?t \<noteq> ?r" "chan_of ?r = n + 1" "chan_of ?t = n + 1"
    using slots slot_kinds(1) [of ?r] slot_kinds(1) [of ?t] slot_kinds(2) [of ?r] by auto
  have small: "len \<le> DESC_MAX_LEN"
    using assms(6) by (rule order_trans) (simp add: DESC_MAX_LEN_def)
  let ?a = "[?w SPI_MS_DLEN (len * 8 - 1), ?w SPI_DMA_CONF (SPI_BUF_AFIFO_RST OR SPI_RX_AFIFO_RST),
    ?w SPI_DMA_CONF (SPI_DMA_RX_ENA OR SPI_DMA_TX_ENA OR SPI_RX_EOF_EN)]"
  let ?s1 = "st\<lparr>trace := trace st @ ?a\<rparr>"
  let ?rx = "rx_arm_events M ?r (gs_periph (g_slot st ! unat ?r)) rx len"
  let ?s2 = "(armed ?r rx len st)\<lparr>trace := trace st @ ?a @ ?rx\<rparr>"
  have r1: "run_state (dma_call (\<lambda>ep. gdma_axi_rx_arm K ep (dma_srv M K) ?r rx len)) ?s1 = (ULMK_OK K, ?s2)"
    using ep rt small hw opened assms(4,5) roles
    by (simp add: run_dma_calls run_hw_rx_arm arm_ok_def)
  let ?tx = "tx_arm_events M ?t (gs_periph (g_slot st ! unat ?t)) tx len"
  let ?s3 = "(armed ?t tx len (armed ?r rx len st))\<lparr>trace := trace st @ ?a @ ?rx @ ?tx\<rparr>"
  have r2: "run_state (dma_call (\<lambda>ep. gdma_axi_tx_arm K ep (dma_srv M K) ?t tx len)) ?s2 = (ULMK_OK K, ?s3)"
    using ep rt small hw opened assms(3,5) roles
    by (simp add: run_dma_calls run_hw_tx_arm arm_ok_def slot_nth_simps)
  obtain rc es where cfg: "run_state (spi_apply_config K ?spi) ?s3 = (rc, ?s3\<lparr>trace := trace ?s3 @ es\<rparr>)" "list_all quiet es"
    using logs_apply_config [where P = quiet and K = K and spi = ?spi] unfolding logs_def by fastforce
  let ?b = "es @ [?w SPI_CMD SPI_CMD_USR]"
  let ?A = "armed ?t tx len (armed ?r rx len st)"
  let ?T = "trace st @ ?a @ ?rx @ ?tx @ ?b"
  let ?s4 = "?A\<lparr>trace := ?T\<rparr>"
  let ?tw = "tx_wait_events (n + 1) (g_slot ?A ! unat ?t)"
  let ?s5 = "(disarmed ?t ?A)\<lparr>trace := ?T @ ?tw\<rparr>"
  have nth: "g_slot ?A ! unat ?t = (g_slot st ! unat ?t)\<lparr>gs_buf := tx, gs_len := len\<rparr>"
    "g_slot (disarmed ?t ?A) ! unat ?r = (g_slot st ! unat ?r)\<lparr>gs_buf := rx, gs_len := len\<rparr>"
    using rt roles by (simp_all add: slot_nth_simps)
  have r3: "run_state (dma_call (\<lambda>ep. gdma_axi_tx_wait K ep (dma_srv M K) ?t)) ?s4 = (ULMK_OK K, ?s5)"
    using ep rt roles assms(3,7) nth by (simp add: run_dma_calls run_tx_wait_done)
  let ?rw = "rx_wait_events (n + 1) (slot_desc M (unat ?r)) (g_slot (disarmed ?t ?A) ! unat ?r)"
  let ?s6 = "(disarmed ?r (disarmed ?t ?A))\<lparr>trace := ?T @ ?tw @ ?rw @ [Dev (Dcache_invalidate rx len)]\<rparr>"
  have "\<exists>got. run_state (hw_rx_wait M K ?r) ?s5 = (got, ?s6) \<and> got \<le> len"
    using run_rx_wait_done [of ?s5 ?r K M] rt roles assms(4,7) nth by simp
  then obtain got where r4: "run_state (dma_call (\<lambda>ep. gdma_axi_rx_wait K ep (dma_srv M K) ?r)) ?s5 = (got, ?s6)"
      "got \<le> len"
    using ep by (auto simp: run_dma_calls)
  have got: "\<not> c_neg got"
    using not_neg_small [OF assms(6) r4(2)] .
  have run: "run_state (spi_xfer_hw K (dma_srv M K) n tx rx len) st =
      (ULMK_OK K, ?s6\<lparr>trace := trace ?s6 @ [?w SPI_DMA_CONF 0]\<rparr>)"
    using assms(3-6) spi r1 r2 cfg(1) r3 r4(1) got
    by (simp add: spi_xfer_hw_def spi_of_def Let_def not_less)
  show ?thesis
    unfolding run
    by (rule exI [of _ "?a @ ?rx"], rule exI [of _ "tl ?tx @ ?b @ ?tw @ ?rw"], rule exI)
      (use cfg(2) wait_events_quiet in \<open>auto simp: rx_arm_events_def tx_arm_events_def desc_events_def Let_def\<close>)
qed

section \<open>Memory behind the cache\<close>

text \<open>
  The byte that the processor stored last at an address; the log up to the last write-back; and whether
  the processor would see memory rather than its cache: the last store or invalidation of the log is
  an invalidation.
\<close>

definition stored :: "esp_act event list \<Rightarrow> u32 \<Rightarrow> u8" where
  "stored t a = fold (\<lambda>e b. case e of Dev (St8 p v) \<Rightarrow> (if p = a then v else b) | _ \<Rightarrow> b) t 0"

definition is_clean :: "esp_act event \<Rightarrow> bool" where
  "is_clean e \<longleftrightarrow> (case e of Dev (Dcache_clean p n) \<Rightarrow> True | _ \<Rightarrow> False)"

definition is_inval :: "esp_act event \<Rightarrow> bool" where
  "is_inval e \<longleftrightarrow> (case e of Dev (Dcache_invalidate p n) \<Rightarrow> True | _ \<Rightarrow> False)"

definition until_clean :: "esp_act event list \<Rightarrow> esp_act event list" where
  "until_clean t = rev (dropWhile (\<lambda>e. \<not> is_clean e) (rev t))"

definition fresh :: "esp_act event list \<Rightarrow> bool" where
  "fresh t = (case dropWhile quiet (rev t) of [] \<Rightarrow> False | e # _ \<Rightarrow> is_inval e)"

text \<open>
  A board whose MISO signal follows MOSI: what the receive buffer holds behind the cache is what the
  transmit buffer held when it was last written back.
\<close>

definition wired_loop :: "u32 \<Rightarrow> u32 \<Rightarrow> (esp_act event list \<Rightarrow> esp_act event \<Rightarrow> u32) \<Rightarrow> bool" where
  "wired_loop tx rx ans \<longleftrightarrow> (\<forall>t i. i < 16 \<and> fresh t \<longrightarrow>
     ans t (Dev (Ld8 (rx + of_nat i))) = ucast (stored (until_clean t) (tx + of_nat i)))"

lemma stored_quiet: "list_all quiet es \<Longrightarrow> stored (t @ es) a = stored t a"
proof (induction es rule: rev_induct)
  case (snoc e es)
  then show ?case
    by (auto simp: stored_def quiet_def simp flip: append_assoc split: event.splits esp_act.splits)
qed simp

lemma stored_other: "stored (t @ [Dev (Dcache_clean p l)]) a = stored t a"
  "stored (t @ [Dev (St8 p v)]) a = (if p = a then v else stored t a)"
  by (simp_all add: stored_def)

lemma until_clean_append:
  assumes "list_all (\<lambda>e. \<not> is_clean e) es"
  shows "until_clean (t @ Dev (Dcache_clean p l) # es) = t @ [Dev (Dcache_clean p l)]"
proof -
  have "dropWhile (\<lambda>e. \<not> is_clean e) (rev es @ Dev (Dcache_clean p l) # rev t) = Dev (Dcache_clean p l) # rev t"
    using assms by (subst dropWhile_append2) (auto simp: list_all_iff is_clean_def)
  then show ?thesis
    by (simp add: until_clean_def)
qed

lemma fresh_append:
  assumes "list_all quiet es"
  shows "fresh (t @ Dev (Dcache_invalidate p l) # es)"
proof -
  have "dropWhile quiet (rev es @ Dev (Dcache_invalidate p l) # rev t) = Dev (Dcache_invalidate p l) # rev t"
    using assms by (subst dropWhile_append2) (auto simp: list_all_iff)
  then show ?thesis
    by (simp add: fresh_def is_inval_def)
qed

lemma quiet_not_clean: "list_all quiet es \<Longrightarrow> list_all (\<lambda>e. \<not> is_clean e) es"
proof -
  have "quiet e \<Longrightarrow> \<not> is_clean e" for e
    by (auto simp: is_clean_def quiet_def split: event.splits esp_act.splits)
  then show "list_all quiet es \<Longrightarrow> list_all (\<lambda>e. \<not> is_clean e) es"
    by (simp add: list_all_iff)
qed

text \<open>The buffers of an instance are apart from each other.\<close>

definition buffers_ok :: "'l spi_layout_scheme \<Rightarrow> u8 \<Rightarrow> bool" where
  "buffers_ok M n \<longleftrightarrow> dma_tx M n \<noteq> 0 \<and> dma_rx M n \<noteq> 0 \<and>
     (\<forall>i < 16. \<forall>j < 16. dma_tx M n + of_nat i \<noteq> dma_rx M n + of_nat j)"

lemma of_nat_small_eq: "i < 16 \<Longrightarrow> j < 16 \<Longrightarrow> (a :: u32) + of_nat i = a + of_nat j \<longleftrightarrow> i = j"
  by (simp add: word_unat_eq_iff [of "of_nat i"] unat_of_nat take_bit_nat_eq_self)

definition fill_events :: "u32 \<Rightarrow> u32 \<Rightarrow> u8 list \<Rightarrow> nat \<Rightarrow> esp_act event list" where
  "fill_events tx rx bs n =
     concat (List.map (\<lambda>i. [Dev (St8 (tx + of_nat i) (bs ! i)), Dev (St8 (rx + of_nat i) 0)]) [0..<n])"

lemma stored_fill:
  assumes "buffers_ok M k" "n \<le> 16" "i < 16"
  shows "stored (t @ fill_events (dma_tx M k) (dma_rx M k) bs n) (dma_tx M k + of_nat i) =
    (if i < n then bs ! i else stored t (dma_tx M k + of_nat i))"
  using assms(2)
proof (induction n)
  case (Suc n)
  let ?tx = "dma_tx M k" and ?rx = "dma_rx M k"
  have "fill_events ?tx ?rx bs (Suc n) =
      fill_events ?tx ?rx bs n @ [Dev (St8 (?tx + of_nat n) (bs ! n)), Dev (St8 (?rx + of_nat n) 0)]"
    by (simp add: fill_events_def)
  then have split: "t @ fill_events ?tx ?rx bs (Suc n) =
      ((t @ fill_events ?tx ?rx bs n) @ [Dev (St8 (?tx + of_nat n) (bs ! n))]) @ [Dev (St8 (?rx + of_nat n) 0)]"
    by simp
  have "?rx + of_nat n \<noteq> ?tx + of_nat i" "?tx + of_nat n = ?tx + of_nat i \<longleftrightarrow> n = i"
    using assms(1,3) Suc.prems of_nat_small_eq [of n i ?tx] unfolding buffers_ok_def by (metis Suc_le_lessD)+
  then show ?case
    unfolding split stored_other using Suc by auto
qed (simp add: fill_events_def)

lemma run_spi_drain:
  assumes "\<And>ls i. list_all quiet ls \<Longrightarrow> i < n \<Longrightarrow> answer st (trace st @ ls) (Dev (Ld8 (rx + of_nat i))) = ucast (b i)"
  shows "\<exists>st'. run_state (spi_drain rx n) st = (List.map b [0..<n], st')"
proof -
  have "\<exists>st'. run_state (collect xs (\<lambda>i. do { v \<leftarrow> dev (Ld8 (rx + of_nat i)); ret (ucast v) }))
      (st\<lparr>trace := trace st @ ls\<rparr>) = (List.map b xs, st')"
    if "list_all quiet ls" "set xs \<subseteq> {0..<n}" for xs ls
    using that
  proof (induction xs arbitrary: ls)
    case (Cons x xs)
    let ?e = "Dev (Ld8 (rx + of_nat x))"
    have "list_all quiet (ls @ [?e])" "set xs \<subseteq> {0..<n}"
      using Cons.prems by auto
    from Cons.IH [OF this] obtain st' where
      "run_state (collect xs (\<lambda>i. do { v \<leftarrow> dev (Ld8 (rx + of_nat i)); ret (ucast v) }))
        (st\<lparr>trace := trace st @ ls @ [?e]\<rparr>) = (List.map b xs, st')"
      by auto
    then show ?case
      using assms [of ls x] Cons.prems by (simp add: ucast_up_ucast_id is_up)
  qed simp
  from this [of "[]" "[0..<n]"] show ?thesis
    by (simp add: spi_drain_def)
qed

section \<open>Properties\<close>

lemma spi_ready_trace [simp]: "spi_ready K n (st\<lparr>trace := t\<rparr>) = spi_ready K n st"
  by (simp add: spi_ready_def gdma_ready_def)

text \<open>The server's part of a transfer that completes on such a board.\<close>

lemma run_spi_dispatch_loop:
  assumes "abi_ok K" "spi_ready K n st" "buffers_ok M n" "words m 0 \<noteq> 0" "words m 0 \<le> SPI_IPC_MAX"
    and "label m = SPI_MSG_XFER \<or> label m = SPI_MSG_LOOP"
    and "dma_completes K (n + 1) (answer st)" "wired_loop (dma_tx M n) (dma_rx M n) (answer st)"
  shows "fst (run_state (spi_dispatch M K (dma_srv M K) n m) st) =
    spi_reply 0 (unpack_loop 2 (unat (words m 0)) (words m))"
proof -
  let ?tx = "dma_tx M n" and ?rx = "dma_rx M n" and ?len = "words m 0"
  define bs where "bs = unpack_loop 2 (unat ?len) (words m)"
  have len: "length bs = unat ?len" "unat ?len \<le> 16" "?len \<le> 64"
    using assms(5) unfolding bs_def by (auto simp: SPI_IPC_MAX_def word_le_nat_alt)
  have buf: "?tx \<noteq> 0" "?rx \<noteq> 0"
    using assms(3) by (simp_all add: buffers_ok_def)
  let ?f = "fill_events ?tx ?rx bs (unat ?len)"
  let ?s1 = "st\<lparr>trace := trace st @ ?f\<rparr>"
  have fill: "run_state (spi_fill ?tx ?rx bs) st = ((), ?s1)"
    using len by (simp add: run_spi_fill fill_events_def)
  obtain u es where pins: "run_state (when_do (label m = SPI_MSG_LOOP) (spi_pins K (g_spi st ! unat n) True)) ?s1 =
      (u, ?s1\<lparr>trace := trace ?s1 @ es\<rparr>)" "list_all quiet es"
    using logs_when_do [OF logs_pins_quiet] unfolding logs_def by blast
  let ?s2 = "?s1\<lparr>trace := trace ?s1 @ es\<rparr>"
  have "spi_ready K n ?s2" "dma_completes K (n + 1) (answer ?s2)"
    using assms(2,7) by simp_all
  from run_spi_xfer_done [OF assms(1) this(1) buf assms(4) len(3) this(2), of M]
  obtain e1 e2 st' where xfer: "run_state (spi_xfer_hw K (dma_srv M K) n ?tx ?rx ?len) ?s2 = (ULMK_OK K, st')"
    and st': "answer st' = answer st" "list_all quiet e1" "list_all quiet e2"
      "trace st' = trace st @ ?f @ es @ e1 @ Dev (Dcache_clean ?tx ?len) # e2 @ [Dev (Dcache_invalidate ?rx ?len),
        Dev (Wr32 (spi_reg (g_spi st ! unat n) SPI_DMA_CONF) 0)]"
    by auto
  let ?p = "trace st @ ?f @ es @ e1 @ [Dev (Dcache_clean ?tx ?len)]"
  have load: "answer st' (trace st' @ ls) (Dev (Ld8 (?rx + of_nat i))) = ucast (bs ! i)"
    if ls: "list_all quiet ls" and i: "i < unat ?len" for ls i
  proof -
    let ?w = "Dev (Wr32 (spi_reg (g_spi st ! unat n) SPI_DMA_CONF) 0)"
    have t: "trace st' @ ls = (trace st @ ?f @ es @ e1 @ Dev (Dcache_clean ?tx ?len) # e2) @ Dev (Dcache_invalidate ?rx ?len) # ?w # ls"
      "trace st' @ ls = (trace st @ ?f @ es @ e1) @ Dev (Dcache_clean ?tx ?len) # e2 @ Dev (Dcache_invalidate ?rx ?len) # ?w # ls"
      by (simp_all add: st'(4))
    have "fresh (trace st' @ ls)"
      unfolding t(1) using ls by (intro fresh_append) simp
    moreover have "until_clean (trace st' @ ls) = ?p"
      unfolding t(2) using ls quiet_not_clean [OF st'(3)] quiet_not_clean [OF ls]
      by (subst until_clean_append) (simp_all add: is_clean_def)
    moreover have "stored ?p (?tx + of_nat i) = bs ! i"
    proof -
      have "stored ?p (?tx + of_nat i) = stored (trace st @ ?f @ es @ e1) (?tx + of_nat i)"
        using stored_other(1) [of "trace st @ ?f @ es @ e1"] by simp
      also have "\<dots> = stored (trace st @ ?f) (?tx + of_nat i)"
        using stored_quiet [of "es @ e1" "trace st @ ?f"] pins(2) st'(2) by simp
      finally show ?thesis
        using stored_fill [OF assms(3) len(2), of i] i len(2) by simp
    qed
    ultimately show ?thesis
      using assms(8) [unfolded wired_loop_def, rule_format, of i "trace st' @ ls"] i len(2)
      unfolding st'(1) by simp
  qed
  obtain st'' where drain: "run_state (spi_drain ?rx (unat ?len)) st' = (List.map ((!) bs) [0..<unat ?len], st'')"
    using run_spi_drain [of "unat ?len" st' ?rx "(!) bs"] load by blast
  have "List.map ((!) bs) [0..<unat ?len] = bs"
    using map_nth [of bs] len(1) by simp
  with drain have drain': "run_state (spi_drain ?rx (unat ?len)) st' = (bs, st'')"
    by simp
  have guards: "(label m = SPI_MSG_XFER \<or> label m = SPI_MSG_LOOP) = True" "(?len = 0 \<or> SPI_IPC_MAX < ?len) = False"
    using assms(4-6) by auto
  have inst: "run_state (spi_of n) ?s1 = (g_spi st ! unat n, ?s1)"
    by (simp add: spi_of_def)
  have "run_state (spi_dispatch M K (dma_srv M K) n m) st = (spi_reply (ULMK_OK K) bs, st'')"
    unfolding spi_dispatch_def Let_def bs_def [symmetric] guards if_True if_False run_bind [OF fill] run_bind [OF inst]
      run_bind [OF pins(1)] run_bind [OF xfer] simp_thms run_bind [OF drain']
    by simp
  then show ?thesis
    using assms(1) by (simp add: bs_def)
qed

lemma length_spi_bytes: "(case otx of None \<Rightarrow> True | Some tx \<Rightarrow> n \<le> length tx) \<Longrightarrow> length (spi_bytes otx n) = n"
  by (auto simp: spi_bytes_def split: option.splits)

lemma spi_reply_words: "words (spi_reply rc bs) 0 = rc" "unpack_loop 1 (length bs) (words (spi_reply rc bs)) = bs"
proof -
  show "unpack_loop 1 (length bs) (words (spi_reply rc bs)) = bs"
    unfolding spi_reply_def msg.simps by (rule unpack_pack_exact) (auto simp: payload_indices_def)
qed (simp add: spi_reply_def pack_loop_below)


text \<open>A board with such answers: the receive buffer mirrors the transmit buffer.\<close>

definition loop_answers :: "u32 \<Rightarrow> u32 \<Rightarrow> esp_act event list \<Rightarrow> esp_act event \<Rightarrow> u32" where
  "loop_answers tx rx t e = (case e of Dev (Ld8 a) \<Rightarrow> ucast (stored (until_clean t) (a - rx + tx)) | Dev (Rd32 a) \<Rightarrow> 2 | _ \<Rightarrow> 0)"

definition sample_spi_layout :: spi_layout where
  "sample_spi_layout = gdma_layout.extend sample_layout
     \<lparr>dma_tx = (\<lambda>n. 0x4FF42000 + ucast n * 64), dma_rx = (\<lambda>n. 0x4FF42080 + ucast n * 64)\<rparr>"

definition spi_boot :: "(esp_act event list \<Rightarrow> esp_act event \<Rightarrow> u32) \<Rightarrow> spi_st" where
  "spi_boot ans = gdma_st.extend ((gdma_boot ans)\<lparr>g_slot := List.map (\<lambda>i. (slot_at_boot i)\<lparr>gs_open := True\<rparr>) [0, 1, 2, 3, 4]\<rparr>)
     \<lparr>g_spi_eps = [12, 13], g_spi =
       [\<lparr>si_hw = g_spi_hw ! 0, si_rx_slot = 1, si_tx_slot = 2, si_ready = True\<rparr>,
        \<lparr>si_hw = g_spi_hw ! 1, si_rx_slot = 3, si_tx_slot = 4, si_ready = True\<rparr>]\<rparr>"

lemma spi_boot_ready: "spi_ready sample_abi 0 (spi_boot ans)"
  by (simp add: spi_ready_def spi_boot_def gdma_st.extend_def gdma_boot_def gdma_ready_def roles_five slot_at_boot_def
      gdma_binds_def AXI_CH_MEM_def sample_abi_def ULMK_BOARD_SPI_MAX_def GDMA_AXI_SLOT_RX_def GDMA_AXI_SLOT_TX_def)

lemma sample_buffers: "buffers_ok sample_spi_layout 0"
proof -
  have "(0x4FF42000 :: u32) + of_nat i \<noteq> 0x4FF42080 + of_nat j" if "i < 16" "j < 16" for i j
  proof
    assume "(0x4FF42000 :: u32) + of_nat i = 0x4FF42080 + of_nat j"
    then have "unat ((0x4FF42000 :: u32) + of_nat i) = unat ((0x4FF42080 :: u32) + of_nat j)"
      by simp
    with that show False
      by (simp add: unat_word_ariths unat_of_nat take_bit_nat_eq_self)
  qed
  then show ?thesis
    by (simp add: buffers_ok_def sample_spi_layout_def gdma_layout.extend_def)
qed


section \<open>Where the input signal comes from\<close>

text \<open>
  A write that would give the master its input pad: to a register of the MISO pad, or one that
  routes its input signal to anything but the MOSI pad.
\<close>

definition miso_regs :: "spi_hw \<Rightarrow> u32 set" where
  "miso_regs hw = {IOMUX_GPIO (hw_miso_gpio hw), GPIO_PIN_REG (hw_miso_gpio hw), GPIO_FUNC_OUT_SEL (hw_miso_gpio hw)}"

definition selects_miso :: "spi_hw \<Rightarrow> esp_act event \<Rightarrow> bool" where
  "selects_miso hw e \<longleftrightarrow> (case e of Dev (Wr32 a v) \<Rightarrow>
       a \<in> miso_regs hw \<or> a = GPIO_FUNC_IN_SEL (ucast (hw_q_in hw)) \<and> v \<noteq> ucast (hw_mosi_gpio hw) OR 0x80
     | _ \<Rightarrow> False)"

lemma selects_miso_simps [simp]:
  "\<not> selects_miso hw (Kern c)" "\<not> selects_miso hw (Dev (Rd32 a))" "\<not> selects_miso hw (Dev (St8 a b))"
  "\<not> selects_miso hw (Dev (Ld8 a))" "\<not> selects_miso hw (Dev (Dcache_clean p l))"
  "\<not> selects_miso hw (Dev (Dcache_invalidate p l))" "\<not> selects_miso hw (Dev (Console_printf f xs))"
  "selects_miso hw (Dev (Wr32 a v)) \<longleftrightarrow> a \<in> miso_regs hw \<or>
     a = GPIO_FUNC_IN_SEL (ucast (hw_q_in hw)) \<and> v \<noteq> ucast (hw_mosi_gpio hw) OR 0x80"
  by (simp_all add: selects_miso_def)

text \<open>The registers that concern the input of an instance, and the linker's part: no descriptor is there.\<close>

definition input_regs :: "spi_hw \<Rightarrow> u32 set" where
  "input_regs hw = insert (GPIO_FUNC_IN_SEL (ucast (hw_q_in hw))) (miso_regs hw)"

definition descs_apart :: "'l gdma_layout_scheme \<Rightarrow> u8 \<Rightarrow> bool" where
  "descs_apart M n \<longleftrightarrow> (\<forall>i < 5. desc_words (slot_desc M i) \<inter> input_regs (g_spi_hw ! unat n) = {}) \<and>
     desc_words (mem_out_desc M) \<inter> input_regs (g_spi_hw ! unat n) = {}"

lemma not_selects: "a \<notin> input_regs hw \<Longrightarrow> \<not> selects_miso hw (Dev (Wr32 a v))"
  by (auto simp: input_regs_def)

lemma input_regs_above: "n = 0 \<or> n = 1 \<Longrightarrow> a \<in> input_regs (g_spi_hw ! unat n) \<Longrightarrow> 0x500E0000 \<le> a"
  by (auto simp: input_regs_def miso_regs_def g_spi_hw_def IOMUX_GPIO_def GPIO_PIN_REG_def GPIO_FUNC_OUT_SEL_def
      GPIO_FUNC_IN_SEL_def ULMK_BOARD_GPIO_BASE_def ULMK_BOARD_IOMUX_BASE_def)

lemma axi_reg_below: "off \<le> 0x2ff \<Longrightarrow> axi_reg off ch < 0x500E0000"
proof -
  assume "off \<le> 0x2ff"
  then have "unat off \<le> 767"
    by (simp add: word_le_nat_alt)
  moreover have "unat ch < 256"
    using unsigned_less [of ch] by simp
  then have "unat (ucast ch :: u32) < 256"
    by (simp add: unsigned_ucast_eq take_bit_nat_eq_self)
  ultimately have "unat (axi_reg off ch) = 0x5008A000 + unat off + unat (ucast ch :: u32) * 0x68"
    by (simp add: axi_reg_def AXI_BASE_def AXI_STRIDE_def unat_word_ariths take_bit_nat_eq_self)
  with \<open>unat off \<le> 767\<close> \<open>unat (ucast ch :: u32) < 256\<close> show ?thesis
    by (simp add: word_less_nat_alt)
qed

lemma axi_not_input:
  assumes "n = 0 \<or> n = 1" "off \<le> 0x2ff"
  shows "axi_reg off ch \<notin> input_regs (g_spi_hw ! unat n)"
  using input_regs_above [OF assms(1), of "axi_reg off ch"] axi_reg_below [OF assms(2), of ch] by (auto simp: not_le)

definition input_inv :: "u8 \<Rightarrow> 'z spi_st_scheme \<Rightarrow> bool" where
  "input_inv n st \<longleftrightarrow> unat n < length (g_spi st) \<and> si_hw (g_spi st ! unat n) = g_spi_hw ! unat n \<and>
     list_all (\<lambda>e. \<not> selects_miso (g_spi_hw ! unat n) e) (trace st)"

lemma keeps_input_event:
  "keeps (input_inv n) (rd32 a)" "keeps (input_inv n) (kern c)" "keeps (input_inv n) (kern_do c)"
  "\<not> selects_miso (g_spi_hw ! unat n) (Dev (Wr32 a v)) \<Longrightarrow> keeps (input_inv n) (wr32 a v)"
  "\<not> selects_miso (g_spi_hw ! unat n) (Dev d) \<Longrightarrow> keeps (input_inv n) (dev d)"
  "\<not> selects_miso (g_spi_hw ! unat n) (Dev d) \<Longrightarrow> keeps (input_inv n) (dev_do d)"
  "keeps (input_inv n) (set_slot slot f)"
  by (simp_all add: keeps_def input_inv_def del: selects_miso_simps(8))

text \<open>The DMA server, whatever it is asked for, has nothing to do with the pads.\<close>

lemma keeps_input_axi:
  assumes "n = 0 \<or> n = 1"
  shows "off \<le> 0x2ff \<Longrightarrow> keeps (input_inv n) (wr32 (axi_reg off ch) v)"
  by (rule keeps_input_event(4)) (rule not_selects [OF axi_not_input [OF assms]])

lemma keeps_input_axi_regs:
  assumes "n = 0 \<or> n = 1"
  shows "keeps (input_inv n) (wr32 (AXI_IN_INT_ENA ch) v)" "keeps (input_inv n) (wr32 (AXI_IN_INT_CLR ch) v)"
    "keeps (input_inv n) (wr32 (AXI_IN_CONF0 ch) v)" "keeps (input_inv n) (wr32 (AXI_IN_LINK1 ch) v)"
    "keeps (input_inv n) (wr32 (AXI_IN_LINK2 ch) v)" "keeps (input_inv n) (wr32 (AXI_IN_PERI_SEL ch) v)"
    "keeps (input_inv n) (wr32 (AXI_OUT_INT_ENA ch) v)" "keeps (input_inv n) (wr32 (AXI_OUT_INT_CLR ch) v)"
    "keeps (input_inv n) (wr32 (AXI_OUT_CONF0 ch) v)" "keeps (input_inv n) (wr32 (AXI_OUT_LINK1 ch) v)"
    "keeps (input_inv n) (wr32 (AXI_OUT_LINK2 ch) v)" "keeps (input_inv n) (wr32 (AXI_OUT_PERI_SEL ch) v)"
  unfolding AXI_IN_INT_ENA_def AXI_IN_INT_CLR_def AXI_IN_CONF0_def AXI_IN_LINK1_def AXI_IN_LINK2_def
    AXI_IN_PERI_SEL_def AXI_OUT_INT_ENA_def AXI_OUT_INT_CLR_def AXI_OUT_CONF0_def AXI_OUT_LINK1_def
    AXI_OUT_LINK2_def AXI_OUT_PERI_SEL_def
  by (rule keeps_input_axi [OF assms]; simp)+

lemma keeps_input_desc:
  "desc_words d \<inter> input_regs (g_spi_hw ! unat n) = {} \<Longrightarrow> keeps (input_inv n) (write_desc d dw0 buf)"
  unfolding write_desc_def
  by (intro keeps_intros keeps_input_event(4) not_selects) (auto simp: desc_words_def)

lemma keeps_input_gdma:
  assumes "n = 0 \<or> n = 1" "descs_apart M n"
  shows "keeps (input_inv n) (gdma_dispatch M K m)"
proof -
  have valid: "desc_words (slot_desc M (unat slot)) \<inter> input_regs (g_spi_hw ! unat n) = {}" if "slot_valid slot" for slot
    using assms(2) that by (simp add: descs_apart_def slot_valid_def GDMA_AXI_SLOT_COUNT_def word_less_nat_alt)
  have zero: "desc_words (slot_desc M (unat GDMA_AXI_SLOT_MEM)) \<inter> input_regs (g_spi_hw ! unat n) = {}"
    "desc_words (mem_out_desc M) \<inter> input_regs (g_spi_hw ! unat n) = {}"
    using assms(2) by (simp_all add: descs_apart_def GDMA_AXI_SLOT_MEM_def)
  note rules = keeps_intros keeps_input_axi_regs [OF assms(1)] keeps_input_event(1-3,6,7) keeps_input_desc
  have "keeps (input_inv n) (hw_memcpy M K dst src len)" for dst src len
    unfolding hw_memcpy_def dma_memcpy_hw_def wait_in_done_def slot_of_def Let_def
    using zero by (intro rules) simp_all
  moreover have "keeps (input_inv n) (hw_rx_arm M K slot p len)" "keeps (input_inv n) (hw_tx_arm M K slot p len)" for slot p len
    unfolding hw_rx_arm_def hw_tx_arm_def slot_of_def Let_def
    using valid by (intro rules; simp)+
  moreover have "keeps (input_inv n) (hw_rx_wait M K slot)" "keeps (input_inv n) (hw_tx_wait K slot)"
    "keeps (input_inv n) (hw_channel_open K slot mux)" for slot mux
    unfolding hw_rx_wait_def hw_tx_wait_def hw_channel_open_def wait_in_done_def wait_out_done_def slot_of_def Let_def
    by (intro rules; simp)+
  ultimately show ?thesis
    unfolding gdma_dispatch_def gdma_handle_def by (intro keeps_intros)
qed

lemma keeps_input_calls:
  assumes "n = 0 \<or> n = 1" "descs_apart M n"
  shows "keeps (input_inv n) (dma_call (\<lambda>ep. gdma_axi_rx_arm K ep (dma_srv M K) slot p len))"
    "keeps (input_inv n) (dma_call (\<lambda>ep. gdma_axi_tx_arm K ep (dma_srv M K) slot p len))"
    "keeps (input_inv n) (dma_call (\<lambda>ep. gdma_axi_rx_wait K ep (dma_srv M K) slot))"
    "keeps (input_inv n) (dma_call (\<lambda>ep. gdma_axi_tx_wait K ep (dma_srv M K) slot))"
    "keeps (input_inv n) (dma_call (\<lambda>ep. gdma_axi_channel_open K ep (dma_srv M K) slot mux flags))"
  unfolding dma_call_def gdma_axi_rx_arm_def gdma_axi_tx_arm_def gdma_axi_rx_wait_def gdma_axi_tx_wait_def
    gdma_axi_channel_open_def gdma_axi_call_def dma_srv_def ipc_def
  by (intro keeps_intros keeps_input_gdma [OF assms])+

lemma keeps_input_wait: "keeps (input_inv n) (spi_wait_clear K a b k)"
  by (induction k) (auto intro!: keeps_intros keeps_input_event)

text \<open>Registers of the two instances, as numbers.\<close>

lemmas spi_numbers = g_spi_hw_def miso_regs_def IOMUX_GPIO_def GPIO_PIN_REG_def GPIO_FUNC_OUT_SEL_def GPIO_FUNC_IN_SEL_def
  ULMK_BOARD_GPIO_BASE_def ULMK_BOARD_IOMUX_BASE_def GPIO_ENABLE_W1TS_def GPIO_ENABLE_W1TC_def GPIO_ENABLE1_W1TS_def
  GPIO_ENABLE1_W1TC_def spi_reg_def SPI_CMD_def SPI_CTRL_def SPI_CLOCK_def SPI_USER_def SPI_USER1_def SPI_USER2_def
  SPI_MS_DLEN_def SPI_MISC_def SPI_DMA_CONF_def SPI_SLAVE_def SPI_CLK_GATE_def HP_SOC_CLK_CTRL1_def HP_SOC_CLK_CTRL2_def
  HP_PERI_CLK_CTRL116_def HP_PERI_CLK_CTRL117_def HP_RST_EN2_def HP_CLKRST_ESP_def

lemma keeps_input_pins:
  assumes "n = 0 \<or> n = 1" "si_hw spi = g_spi_hw ! unat n"
  shows "keeps (input_inv n) (spi_pins K spi True)"
  unfolding spi_pins_def pinmux_apply_esp_def set_oe_def Let_def option.case assms(2) if_True
  using assms(1)
  by (intro keeps_intros keeps_input_event(1-6)) (auto simp: spi_numbers)

lemma keeps_input_set_spi: "(\<And>s. si_hw (f s) = si_hw s) \<Longrightarrow> keeps (input_inv n) (set_spi n f)"
  by (auto simp: keeps_def input_inv_def set_spi_def)

lemma triple_spi_of: "triple (input_inv n) (spi_of n) (\<lambda>spi st. si_hw spi = g_spi_hw ! unat n \<and> input_inv n st)"
  by (simp add: triple_def spi_of_def input_inv_def)

lemma keeps_input_spi_of:
  "(\<And>spi. si_hw spi = g_spi_hw ! unat n \<Longrightarrow> keeps (input_inv n) (f spi)) \<Longrightarrow>
   keeps (input_inv n) (State_Monad.bind (spi_of n) f)"
  by (rule keeps_triple, rule triple_bind [OF triple_spi_of], rule triple_pre, rule triple_keeps)

lemma keeps_input_hw:
  assumes "n = 0 \<or> n = 1" "descs_apart M n"
  shows "keeps (input_inv n) (spi_hw_init K n)" "keeps (input_inv n) (spi_xfer_hw K (dma_srv M K) n tx rx len)"
  unfolding spi_hw_init_def spi_xfer_hw_def spi_clk_enable_def spi_apply_config_def Let_def
  using assms(1)
  by (intro keeps_input_spi_of keeps_intros keeps_input_event(1-6) keeps_input_wait keeps_input_set_spi
      keeps_input_calls [OF assms]; auto simp: spi_numbers)+

lemma keeps_input_dispatch:
  assumes "n = 0 \<or> n = 1" "descs_apart M n"
  shows "keeps (input_inv n) (spi_dispatch M K (dma_srv M K) n m)"
  unfolding spi_dispatch_def Let_def spi_fill_def spi_drain_def
  by (intro keeps_input_spi_of keeps_intros keeps_input_event(5,6) keeps_input_pins [OF assms(1)]
      keeps_input_hw(2) [OF assms]) simp_all

lemma spi_init_input:
  assumes "n = 0 \<or> n = 1" "descs_apart M n"
  shows "triple (\<lambda>st. unat n < length (g_spi st) \<and> list_all (\<lambda>e. \<not> selects_miso (g_spi_hw ! unat n) e) (trace st))
    (spi_init K (dma_srv M K) n) (\<lambda>tid st. tid \<noteq> ULMK_TID_INVALID K \<longrightarrow> input_inv n st)"
proof -
  let ?P = "\<lambda>st. unat n < length (g_spi st) \<and> list_all (\<lambda>e. \<not> selects_miso (g_spi_hw ! unat n) e) (trace st)"
  have set_hw: "triple ?P (set_spi n (\<lambda>s. s\<lparr>si_hw := g_spi_hw ! unat n\<rparr>)) (\<lambda>_. input_inv n)"
    by (simp add: triple_def set_spi_def input_inv_def)
  have eps: "keeps (input_inv n) (modify (\<lambda>st. st\<lparr>g_spi_eps := f st\<rparr>))" for f
    by (rule keeps_modify) (simp add: input_inv_def)
  show ?thesis
    unfolding spi_init_def Let_def
    by (rule triple_bind [OF triple_gets [where Q = "\<lambda>_. ?P"]], simp)
      (intro triple_if triple_ret triple_bind [OF set_hw]
        triple_weaken [where Q = "\<lambda>_. input_inv n" and P = "input_inv n", OF triple_keeps]
        keeps_input_spi_of keeps_intros keeps_input_set_spi keeps_input_calls [OF assms] keeps_input_pins [OF assms(1)]
        keeps_input_hw(1) [OF assms] keeps_input_event(2,3,6) eps; simp)
qed

text \<open>C27: A transfer never reads the MISO pin.  After a successful initialisation, over any sequence of
  requests (transfers and loopbacks, whatever the hardware answers) the driver has never written a
  register of the instance's MISO pad, so its input stays disabled, and has never routed the master's
  input signal to anything but the instance's own MOSI pad: \<open>spi_transfer\<close> receives what it sends,
  not what a device on the bus answers.  (The branch of \<open>spi_pins\<close> that configures the MISO pad is
  never reached, both calls ask for the loopback.)\<close>

theorem spi_transfer_never_reads_miso:
  assumes "n < ULMK_BOARD_SPI_MAX" "descs_apart M n" "unat n < length (g_spi st)"
    and "list_all (\<lambda>e. \<not> selects_miso (g_spi_hw ! unat n) e) (trace st)"
    and "run_state (spi_init K (dma_srv M K) n) st = (tid, st1)" "tid \<noteq> ULMK_TID_INVALID K"
  shows "list_all (\<lambda>e. \<not> selects_miso (g_spi_hw ! unat n) e)
    (trace (snd (run_state (serve (spi_dispatch M K (dma_srv M K) n) ms) st1)))"
proof -
  have n: "n = 0 \<or> n = 1"
    using spi_slots [OF assms(1)] by simp
  have "input_inv n st1"
    using tripleD [OF spi_init_input [OF n assms(2)] _ assms(5)] assms(3,4,6) by simp
  then have "input_inv n (snd (run_state (serve (spi_dispatch M K (dma_srv M K) n) ms) st1))"
    by (rule keepsD [OF keeps_serve, rotated]) (rule keeps_input_dispatch [OF n assms(2)])
  then show ?thesis
    by (simp add: input_inv_def)
qed

lemma run_wait_clear_first:
  "answer st (trace st) (Dev (Rd32 a)) AND b = 0 \<Longrightarrow>
   run_state (spi_wait_clear K a b n) st = (ULMK_OK K, st\<lparr>trace := trace st @ [Dev (Rd32 a)]\<rparr>)"
  by (cases n) simp_all

definition spi_init_answers :: "esp_act event list \<Rightarrow> esp_act event \<Rightarrow> u32" where
  "spi_init_answers t e = (case e of Kern Ep_create \<Rightarrow> 20 | Kern (Thread_create _ _ _) \<Rightarrow> 21 | _ \<Rightarrow> 0)"

lemma sample_descs_apart: "descs_apart sample_spi_layout 0"
  unfolding descs_apart_def all_five
  by (simp add: sample_spi_layout_def gdma_layout.extend_def sample_layout_def desc_words_def desc_nc_def
      DESC_NC_OFFSET_def input_regs_def spi_numbers)

theorem spi_transfer_never_reads_miso_witness:
  "let st = (spi_boot spi_init_answers)\<lparr>g_spi_eps := [0, 0]\<rparr>;
       st1 = snd (run_state (spi_init sample_abi (dma_srv sample_spi_layout sample_abi) 0) st) in
   list_all (\<lambda>e. \<not> selects_miso (g_spi_hw ! 0) e)
     (trace (snd (run_state (serve (spi_dispatch sample_spi_layout sample_abi (dma_srv sample_spi_layout sample_abi) 0)
       [rpc 1 [2, 0, 0xBEEF]]) st1)))"
proof -
  let ?st = "(spi_boot spi_init_answers)\<lparr>g_spi_eps := [0, 0]\<rparr>"
  let ?run = "run_state (spi_init sample_abi (dma_srv sample_spi_layout sample_abi) 0) ?st"
  have "fst ?run = 21"
    by (simp add: spi_init_def spi_boot_def gdma_st.extend_def gdma_boot_def set_spi_def spi_of_def Let_def const_defs
        dma_call_def run_gdma_arm_calls dma_srv_def hw_channel_open_def slot_valid_def slot_at_boot_def
        GDMA_AXI_SLOT_COUNT_def gdma_binds_def AXI_CH_MEM_def GDMA_AXI_SLOT_RX_def GDMA_AXI_SLOT_TX_def
        GDMA_AXI_SLOT_MEM_def GDMA_AXI_PERIPH_SPI2_def GDMA_AXI_PERIPH_NONE_def sample_abi_def
        spi_pins_def pinmux_apply_esp_def gpio_ok_def set_oe_def g_spi_hw_def
        spi_hw_init_def spi_clk_enable_def spi_apply_config_def run_wait_clear_first spi_init_answers_def)
  then have run: "?run = (21, snd ?run)" "21 \<noteq> ULMK_TID_INVALID sample_abi"
    by (simp_all add: prod_eq_iff sample_abi_def)
  have n: "0 < ULMK_BOARD_SPI_MAX" "unat (0 :: u8) < length (g_spi ?st)"
    "list_all (\<lambda>e. \<not> selects_miso (g_spi_hw ! unat (0 :: u8)) e) (trace ?st)"
    by (simp_all add: ULMK_BOARD_SPI_MAX_def spi_boot_def gdma_st.extend_def gdma_boot_def)
  show ?thesis
    using spi_transfer_never_reads_miso [OF n(1) sample_descs_apart n(2,3) run, of "[rpc 1 [2, 0, 0xBEEF]]"]
    by (simp add: Let_def del: serve.simps)
qed

end
