(* ===== verification/I2c_Esp32.thy ===== *)
theory I2c_Esp32
  imports Pinmux_Esp32 Payload
begin

text \<open>
  The I2C driver of the ESP32-P4 board, \<^verbatim>\<open>esp32p4_ev_function/drivers/i2c/src/server.c\<close> and
  \<^verbatim>\<open>client.c\<close>: a command list and a FIFO in the controller, one interrupt per transfer.  The server
  configures the pads with \<open>pinmux_apply_esp\<close> in its own address space.
\<close>

section \<open>Registers\<close>

definition I2C_STACK_ESP :: u32 where "I2C_STACK_ESP = 2048"
definition I2C_NOTIF_EV :: nat where "I2C_NOTIF_EV = 0"
definition I2C_SCL_GPIO :: u8 where "I2C_SCL_GPIO = 8"
definition I2C_SDA_GPIO :: u8 where "I2C_SDA_GPIO = 7"
definition I2C0_SCL_SIG :: u16 where "I2C0_SCL_SIG = 68"
definition I2C0_SDA_SIG :: u16 where "I2C0_SDA_SIG = 69"
definition I2C_BASE_ESP :: u32 where [const_defs]: "I2C_BASE_ESP = 0x500C4000"
definition I2C_HP_SOC_CLK_CTRL2 :: u32 where "I2C_HP_SOC_CLK_CTRL2 = 0x500E6000 + 0x1c"
definition HP_PERI_CLK_CTRL10 :: u32 where "HP_PERI_CLK_CTRL10 = 0x500E6000 + 0x40"
definition I2C_HP_RST_EN1 :: u32 where "I2C_HP_RST_EN1 = 0x500E6000 + 0xc4"
definition I2C0_APB_EN :: u32 where "I2C0_APB_EN = push_bit 12 1"
definition I2C0_RST_EN :: u32 where "I2C0_RST_EN = push_bit 22 1"
definition I2C0_CLK_EN :: u32 where "I2C0_CLK_EN = push_bit 1 1"
definition I2C0_CLK_CFG_MASK :: u32 where "I2C0_CLK_CFG_MASK = 0x03FFFFFD"
definition I2C_SCL_LOW :: u32 where [const_defs]: "I2C_SCL_LOW = I2C_BASE_ESP + 0x00"
definition I2C_CTR :: u32 where [const_defs]: "I2C_CTR = I2C_BASE_ESP + 0x04"
definition I2C_SR :: u32 where [const_defs]: "I2C_SR = I2C_BASE_ESP + 0x08"
definition I2C_TO :: u32 where [const_defs]: "I2C_TO = I2C_BASE_ESP + 0x0c"
definition I2C_FIFO_CONF :: u32 where [const_defs]: "I2C_FIFO_CONF = I2C_BASE_ESP + 0x18"
definition I2C_DATA :: u32 where [const_defs]: "I2C_DATA = I2C_BASE_ESP + 0x1c"
definition I2C_INT_RAW :: u32 where [const_defs]: "I2C_INT_RAW = I2C_BASE_ESP + 0x20"
definition I2C_INT_CLR :: u32 where [const_defs]: "I2C_INT_CLR = I2C_BASE_ESP + 0x24"
definition I2C_INT_ENA :: u32 where [const_defs]: "I2C_INT_ENA = I2C_BASE_ESP + 0x28"
definition I2C_SDA_HOLD :: u32 where [const_defs]: "I2C_SDA_HOLD = I2C_BASE_ESP + 0x30"
definition I2C_SDA_SAMPLE :: u32 where [const_defs]: "I2C_SDA_SAMPLE = I2C_BASE_ESP + 0x34"
definition I2C_SCL_HIGH :: u32 where [const_defs]: "I2C_SCL_HIGH = I2C_BASE_ESP + 0x38"
definition I2C_SCL_START_HOLD :: u32 where [const_defs]: "I2C_SCL_START_HOLD = I2C_BASE_ESP + 0x40"
definition I2C_SCL_RSTART_SETUP :: u32 where [const_defs]: "I2C_SCL_RSTART_SETUP = I2C_BASE_ESP + 0x44"
definition I2C_SCL_STOP_HOLD :: u32 where [const_defs]: "I2C_SCL_STOP_HOLD = I2C_BASE_ESP + 0x48"
definition I2C_SCL_STOP_SETUP :: u32 where [const_defs]: "I2C_SCL_STOP_SETUP = I2C_BASE_ESP + 0x4c"
definition I2C_FILTER_CFG :: u32 where [const_defs]: "I2C_FILTER_CFG = I2C_BASE_ESP + 0x50"
definition I2C_COMD :: "u32 \<Rightarrow> u32" where [const_defs]: "I2C_COMD n = I2C_BASE_ESP + 0x58 + n * 4"
definition I2C_CTR_MS_MODE :: u32 where "I2C_CTR_MS_MODE = push_bit 4 1"
definition I2C_CTR_TRANS_START :: u32 where "I2C_CTR_TRANS_START = push_bit 5 1"
definition I2C_CTR_FSM_RST :: u32 where "I2C_CTR_FSM_RST = push_bit 10 1"
definition I2C_CTR_CONF_UPGATE :: u32 where "I2C_CTR_CONF_UPGATE = push_bit 11 1"
definition I2C_FIFO_RX_RST :: u32 where "I2C_FIFO_RX_RST = push_bit 12 1"
definition I2C_FIFO_TX_RST :: u32 where "I2C_FIFO_TX_RST = push_bit 13 1"
definition I2C_SR_BUS_BUSY :: u32 where "I2C_SR_BUS_BUSY = push_bit 4 1"
definition I2C_INT_END_DETECT :: u32 where "I2C_INT_END_DETECT = push_bit 3 1"
definition I2C_INT_ARBIT_LOST :: u32 where "I2C_INT_ARBIT_LOST = push_bit 5 1"
definition I2C_INT_TRANS_COMPLETE :: u32 where "I2C_INT_TRANS_COMPLETE = push_bit 7 1"
definition I2C_INT_TIMEOUT :: u32 where "I2C_INT_TIMEOUT = push_bit 8 1"
definition I2C_INT_NACK :: u32 where "I2C_INT_NACK = push_bit 10 1"
definition I2C_MASTER_EV_MASK :: u32 where
  "I2C_MASTER_EV_MASK = I2C_INT_END_DETECT OR I2C_INT_ARBIT_LOST OR I2C_INT_TRANS_COMPLETE OR I2C_INT_TIMEOUT OR
     I2C_INT_NACK"
definition I2C_CMD_WRITE :: u8 where "I2C_CMD_WRITE = 1"
definition I2C_CMD_STOP :: u8 where "I2C_CMD_STOP = 2"
definition I2C_CMD_READ :: u8 where "I2C_CMD_READ = 3"
definition I2C_CMD_RSTART :: u8 where "I2C_CMD_RSTART = 6"
definition I2C_CMD_ACK_VALUE :: u32 where "I2C_CMD_ACK_VALUE = push_bit 10 1"
definition I2C_MSG_PROBE_ESP :: u32 where [const_defs]: "I2C_MSG_PROBE_ESP = 1"
definition I2C_MSG_WRITE_ESP :: u32 where [const_defs]: "I2C_MSG_WRITE_ESP = 2"
definition I2C_MSG_READ_ESP :: u32 where [const_defs]: "I2C_MSG_READ_ESP = 3"
definition I2C_XFER_MAX_ESP :: u32 where [const_defs]: "I2C_XFER_MAX_ESP = 32"
definition ULMK_BOARD_IRQ_I2C0 :: u32 where "ULMK_BOARD_IRQ_I2C0 = 2"
definition ULMK_BOARD_CLIC_IRQ_I2C0 :: u32 where "ULMK_BOARD_CLIC_IRQ_I2C0 = 17"
definition I2C_CLIC_BASE :: u32 where "I2C_CLIC_BASE = 0x20800000"

record i2c_esp_st = pads_esp +
  g_i2c_ep_esp :: u32
  g_i2c_notif_esp :: u32
  g_i2c_tid_esp :: u32
  g_i2c_hw_ok :: bool

type_synonym ('z, 'a) i2c_esp_op = "('z i2c_esp_st_scheme, 'a) state"

section \<open>The controller\<close>

definition make_cmd :: "u8 \<Rightarrow> u8 \<Rightarrow> bool \<Rightarrow> u32" where
  "make_cmd op nbytes ack_en =
     (let c = ucast nbytes;
          c = (if ack_en then c OR push_bit 8 1 else c) in
      c OR push_bit 11 (ucast op))"

definition i2c_pins_esp :: "ulmk_abi \<Rightarrow> ('z, unit) esp_op" where
  "i2c_pins_esp K = do {
     let out_w1ts = ULMK_BOARD_GPIO_BASE + 0x08;
     let cfg = \<lparr>pc_port = 0, pc_pin = 0, pc_dir = PINMUX_DIR_OUT_ESP, pc_pull = PINMUX_PULL_UP_ESP,
                pc_alt = PINMUX_ALT_MATRIX,
                pc_flags = PINMUX_F_OPENDRAIN_ESP OR PINMUX_F_IE OR PINMUX_F_PERIPH_OE, pc_matrix_out = 0, pc_matrix_in = 0\<rparr>;
     let cfg = cfg\<lparr>pc_pin := I2C_SCL_GPIO, pc_matrix_out := I2C0_SCL_SIG, pc_matrix_in := I2C0_SCL_SIG\<rparr>;
     _ \<leftarrow> pinmux_apply_esp K (Some cfg);
     wr32 out_w1ts (push_bit (unat I2C_SCL_GPIO) 1);
     let cfg = cfg\<lparr>pc_pin := I2C_SDA_GPIO, pc_matrix_out := I2C0_SDA_SIG, pc_matrix_in := I2C0_SDA_SIG\<rparr>;
     _ \<leftarrow> pinmux_apply_esp K (Some cfg);
     wr32 out_w1ts (push_bit (unat I2C_SDA_GPIO) 1)
   }"

definition i2c_hw_init_esp :: "ulmk_abi \<Rightarrow> ('z, unit) i2c_esp_op" where
  "i2c_hw_init_esp K = do {
     let half = (200 :: u32);
     v \<leftarrow> rd32 I2C_HP_SOC_CLK_CTRL2;
     wr32 I2C_HP_SOC_CLK_CTRL2 (v OR I2C0_APB_EN);
     v \<leftarrow> rd32 I2C_HP_RST_EN1;
     wr32 I2C_HP_RST_EN1 (v OR I2C0_RST_EN);
     wr32 I2C_HP_RST_EN1 (v AND NOT I2C0_RST_EN);
     v \<leftarrow> rd32 HP_PERI_CLK_CTRL10;
     wr32 HP_PERI_CLK_CTRL10 ((v AND NOT I2C0_CLK_CFG_MASK) OR I2C0_CLK_EN);
     i2c_pins_esp K;
     let wait_h = half div 2 - 2;
     let scl_h = half - wait_h;
     wr32 I2C_SCL_LOW (half - 1);
     wr32 I2C_SCL_HIGH (scl_h OR push_bit 9 wait_h);
     wr32 I2C_SDA_HOLD (half div 4 - 1);
     wr32 I2C_SDA_SAMPLE (half div 2 - 1);
     wr32 I2C_SCL_START_HOLD (half - 1);
     wr32 I2C_SCL_RSTART_SETUP (half - 1);
     wr32 I2C_SCL_STOP_HOLD (half - 1);
     wr32 I2C_SCL_STOP_SETUP (half - 1);
     wr32 I2C_TO (push_bit 0 20 OR push_bit 5 1);
     wr32 I2C_FILTER_CFG (push_bit 0 7 OR push_bit 4 7 OR push_bit 8 1 OR push_bit 9 1);
     wr32 I2C_CTR (I2C_CTR_MS_MODE OR I2C_CTR_CONF_UPGATE);
     v \<leftarrow> rd32 I2C_FIFO_CONF;
     wr32 I2C_FIFO_CONF (v OR I2C_FIFO_RX_RST OR I2C_FIFO_TX_RST);
     wr32 I2C_FIFO_CONF (v AND NOT (I2C_FIFO_RX_RST OR I2C_FIFO_TX_RST));
     wr32 I2C_INT_CLR 0x3FFF;
     wr32 I2C_INT_ENA I2C_MASTER_EV_MASK;
     modify (\<lambda>st. st\<lparr>g_i2c_hw_ok := True\<rparr>);
     dev_do (Console_printf (''ulmk: i2c0 hw ready'' @ [CHR 0x0A]) [])
   }"

definition wait_ev_esp :: "ulmk_abi \<Rightarrow> ('z, cint) i2c_esp_op" where
  "wait_ev_esp K = do {
     notif \<leftarrow> gets g_i2c_notif_esp;
     kern_do (Irq_ack ULMK_BOARD_IRQ_I2C0);
     rc \<leftarrow> kern (Notif_wait_timeout notif (push_bit I2C_NOTIF_EV 1) 50);
     kern_do (Irq_ack ULMK_BOARD_IRQ_I2C0);
     if rc \<noteq> ULMK_OK K then do {
       raw \<leftarrow> rd32 I2C_INT_RAW;
       if raw AND I2C_MASTER_EV_MASK \<noteq> 0 then ret (ULMK_OK K) else ret rc
     } else ret rc
   }"

text \<open>How the raw interrupt flags are judged once the wait has ended.\<close>

definition xfer_status :: "ulmk_abi \<Rightarrow> cint \<Rightarrow> u32 \<Rightarrow> cint" where
  "xfer_status K rc raw =
     (if rc \<noteq> ULMK_OK K then rc
      else if raw AND I2C_INT_NACK \<noteq> 0 then ULMK_ESRCH K
      else if raw AND (I2C_INT_TIMEOUT OR I2C_INT_ARBIT_LOST) \<noteq> 0 then ULMK_EINVAL K
      else if raw AND (I2C_INT_TRANS_COMPLETE OR I2C_INT_END_DETECT) \<noteq> 0 then ULMK_OK K
      else ULMK_EINVAL K)"

definition finish_xfer_esp :: "ulmk_abi \<Rightarrow> ('z, cint) i2c_esp_op" where
  "finish_xfer_esp K = do {
     rc \<leftarrow> wait_ev_esp K;
     raw \<leftarrow> rd32 I2C_INT_RAW;
     wr32 I2C_INT_CLR 0x3FFF;
     ret (xfer_status K rc raw)
   }"

definition xfer_begin_esp :: "('z, unit) i2c_esp_op" where
  "xfer_begin_esp = do {
     notif \<leftarrow> gets g_i2c_notif_esp;
     kern_do (Notif_poll notif (push_bit I2C_NOTIF_EV 1));
     wr32 I2C_INT_CLR 0x3FFF;
     sr \<leftarrow> rd32 I2C_SR;
     when_do (sr AND I2C_SR_BUS_BUSY \<noteq> 0) (do {
       c \<leftarrow> rd32 I2C_CTR;
       wr32 I2C_CTR (c OR I2C_CTR_FSM_RST)
     });
     v \<leftarrow> rd32 I2C_FIFO_CONF;
     wr32 I2C_FIFO_CONF (v OR I2C_FIFO_RX_RST OR I2C_FIFO_TX_RST);
     wr32 I2C_FIFO_CONF (v AND NOT (I2C_FIFO_RX_RST OR I2C_FIFO_TX_RST))
   }"

definition xfer_start_esp :: "('z, unit) esp_op" where
  "xfer_start_esp = do {
     c \<leftarrow> rd32 I2C_CTR;
     wr32 I2C_CTR (c OR I2C_CTR_CONF_UPGATE);
     c \<leftarrow> rd32 I2C_CTR;
     wr32 I2C_CTR (c OR I2C_CTR_TRANS_START)
   }"

definition i2c_do_probe_esp :: "ulmk_abi \<Rightarrow> u8 \<Rightarrow> ('z, cint) i2c_esp_op" where
  "i2c_do_probe_esp K addr7 = do {
     ok \<leftarrow> gets g_i2c_hw_ok;
     if \<not> ok then ret (ULMK_ENOTSUP K)
     else do {
       xfer_begin_esp;
       wr32 I2C_DATA (push_bit 1 (ucast addr7));
       wr32 (I2C_COMD 0) (make_cmd I2C_CMD_RSTART 0 False);
       wr32 (I2C_COMD 1) (make_cmd I2C_CMD_WRITE 1 True);
       wr32 (I2C_COMD 2) (make_cmd I2C_CMD_STOP 0 False);
       xfer_start_esp;
       finish_xfer_esp K
     }
   }"

definition i2c_do_write_esp :: "ulmk_abi \<Rightarrow> u8 \<Rightarrow> u8 list \<Rightarrow> ('z, cint) i2c_esp_op" where
  "i2c_do_write_esp K addr7 data = do {
     ok \<leftarrow> gets g_i2c_hw_ok;
     let len = (of_nat (length data) :: u32);
     if \<not> ok then ret (ULMK_ENOTSUP K)
     else if len + 1 > I2C_XFER_MAX_ESP then ret (ULMK_EINVAL K)
     else do {
       xfer_begin_esp;
       wr32 I2C_DATA (push_bit 1 (ucast addr7));
       for_each data (\<lambda>b. wr32 I2C_DATA (ucast b));
       wr32 (I2C_COMD 0) (make_cmd I2C_CMD_RSTART 0 False);
       wr32 (I2C_COMD 1) (make_cmd I2C_CMD_WRITE (ucast (len + 1)) True);
       wr32 (I2C_COMD 2) (make_cmd I2C_CMD_STOP 0 False);
       xfer_start_esp;
       finish_xfer_esp K
     }
   }"

definition i2c_do_read_esp :: "ulmk_abi \<Rightarrow> u8 \<Rightarrow> u32 \<Rightarrow> ('z, cint \<times> u8 list) i2c_esp_op" where
  "i2c_do_read_esp K addr7 len = do {
     ok \<leftarrow> gets g_i2c_hw_ok;
     if \<not> ok \<or> len = 0 \<or> len > I2C_XFER_MAX_ESP then ret (if \<not> ok then ULMK_ENOTSUP K else ULMK_EINVAL K, [])
     else do {
       xfer_begin_esp;
       wr32 I2C_DATA (push_bit 1 (ucast addr7) OR 1);
       wr32 (I2C_COMD 0) (make_cmd I2C_CMD_RSTART 0 False);
       wr32 (I2C_COMD 1) (make_cmd I2C_CMD_WRITE 1 True);
       let n = (if len > 1 then 3 else 2);
       when_do (len > 1) (wr32 (I2C_COMD 2) (make_cmd I2C_CMD_READ (ucast (len - 1)) False));
       wr32 (I2C_COMD n) (make_cmd I2C_CMD_READ 1 False OR I2C_CMD_ACK_VALUE);
       wr32 (I2C_COMD (n + 1)) (make_cmd I2C_CMD_STOP 0 False);
       xfer_start_esp;
       rc \<leftarrow> finish_xfer_esp K;
       if rc \<noteq> ULMK_OK K then ret (ULMK_EINVAL K, [])
       else do {
         bs \<leftarrow> collect [0..<unat len] (\<lambda>_. do { v \<leftarrow> rd32 I2C_DATA; ret (ucast (v AND 0xFF)) });
         ret (ULMK_OK K, bs)
       }
     }
   }"

section \<open>The server\<close>

text \<open>The words of a reply that the server sets; the others, which no client reads, are zero here.\<close>

definition i2c_reply_esp :: "cint \<Rightarrow> u8 list \<Rightarrow> msg" where
  "i2c_reply_esp rc bs = \<lparr>label = 0, words = pack_loop 1 0 bs ((\<lambda>_. 0)(0 := rc))\<rparr>"

definition i2c_dispatch_esp :: "ulmk_abi \<Rightarrow> msg \<Rightarrow> ('z, msg) i2c_esp_op" where
  "i2c_dispatch_esp K m =
     (if label m = I2C_MSG_PROBE_ESP then do {
        rc \<leftarrow> i2c_do_probe_esp K (ucast (words m 0));
        ret (i2c_reply_esp rc [])
      } else if label m = I2C_MSG_WRITE_ESP then do {
        let len = words m 1;
        let len = (if len > I2C_XFER_MAX_ESP then I2C_XFER_MAX_ESP else len);
        rc \<leftarrow> i2c_do_write_esp K (ucast (words m 0)) (unpack_loop 2 (unat len) (words m));
        ret (i2c_reply_esp rc [])
      } else if label m = I2C_MSG_READ_ESP then do {
        let len = words m 1;
        let len = (if len > 12 then 12 else len);
        (rc, bs) \<leftarrow> i2c_do_read_esp K (ucast (words m 0)) len;
        ret (i2c_reply_esp rc (if rc = ULMK_OK K then bs else []))
      } else ret (i2c_reply_esp (ULMK_EINVAL K) []))"

definition i2c_server_start_esp :: "ulmk_abi \<Rightarrow> ('z, unit) i2c_esp_op" where
  "i2c_server_start_esp K = do {
     dev_do (Console_printf (''ulmk: i2c0 server'' @ [CHR 0x0A]) []);
     i2c_hw_init_esp K
   }"

definition i2c_init_esp :: "ulmk_abi \<Rightarrow> u8 \<Rightarrow> ('z, u32) i2c_esp_op" where
  "i2c_init_esp K n = do {
     cur \<leftarrow> gets g_i2c_ep_esp;
     tid \<leftarrow> gets g_i2c_tid_esp;
     if n \<noteq> 0 then ret (ULMK_TID_INVALID K)
     else if cur \<noteq> ULMK_EP_INVALID K \<and> cur \<noteq> 0 then ret tid
     else do {
       ep \<leftarrow> kern Ep_create;
       modify (\<lambda>st. st\<lparr>g_i2c_ep_esp := ep\<rparr>);
       notif \<leftarrow> kern Notif_create;
       modify (\<lambda>st. st\<lparr>g_i2c_notif_esp := notif\<rparr>);
       if ep = ULMK_EP_INVALID K \<or> notif = ULMK_NOTIF_INVALID K then ret (ULMK_TID_INVALID K)
       else do {
         let clic_reg = I2C_CLIC_BASE + 0x1000 + ULMK_BOARD_CLIC_IRQ_I2C0 * 4;
         rc \<leftarrow> kern (Irq_bind_hw ULMK_BOARD_IRQ_I2C0 notif (of_nat I2C_NOTIF_EV) clic_reg);
         if rc \<noteq> ULMK_OK K then ret (ULMK_TID_INVALID K)
         else do {
           rc \<leftarrow> kern (Irq_enable ULMK_BOARD_IRQ_I2C0);
           if rc \<noteq> ULMK_OK K then ret (ULMK_TID_INVALID K)
           else do {
             tid \<leftarrow> kern (Thread_create ''i2c0'' 2 I2C_STACK_ESP);
             if tid = ULMK_TID_INVALID K then ret (ULMK_TID_INVALID K)
             else do {
               modify (\<lambda>st. st\<lparr>g_i2c_tid_esp := tid\<rparr>);
               kern_do (Cap_grant tid ''MAP_PERIPH'');
               kern_do (Cap_grant tid ''IRQ'');
               ret tid
             }
           }
         }
       }
     }
   }"

section \<open>The client\<close>

text \<open>
  \<open>junk\<close> are the words of the uninitialised message on the client's stack.  A call is answered
  with the status of the rendezvous and the message.
\<close>

definition i2c_call_esp :: "ulmk_abi \<Rightarrow> u32 \<Rightarrow> 's ep_call \<Rightarrow> msg \<Rightarrow> ('s, cint \<times> msg) state" where
  "i2c_call_esp K ep call m =
     (if ep = ULMK_EP_INVALID K \<or> ep = 0 then ret (ULMK_ESRCH K, m) else call m)"

definition i2c_probe_esp :: "ulmk_abi \<Rightarrow> u32 \<Rightarrow> 's ep_call \<Rightarrow> (nat \<Rightarrow> u32) \<Rightarrow> u8 \<Rightarrow> ('s, cint) state" where
  "i2c_probe_esp K ep call junk addr7 = do {
     (rc, m) \<leftarrow> i2c_call_esp K ep call
       \<lparr>label = I2C_MSG_PROBE_ESP, words = junk(0 := ucast addr7, 1 := 0, 2 := 0, 3 := 0)\<rparr>;
     ret (if rc \<noteq> ULMK_OK K then rc else words m 0)
   }"

definition i2c_write_esp :: "ulmk_abi \<Rightarrow> u32 \<Rightarrow> 's ep_call \<Rightarrow> (nat \<Rightarrow> u32) \<Rightarrow> u8 \<Rightarrow> u8 list option \<Rightarrow> u32 \<Rightarrow>
    ('s, cint) state" where
  "i2c_write_esp K ep call junk addr7 odata len =
     (if len > I2C_XFER_MAX_ESP then ret (ULMK_EINVAL K)
      else do {
        let ws = junk(0 := ucast addr7, 1 := len, 2 := 0, 3 := 0);
        let ws = clear_words 2 4 ws;
        let bs = (case odata of None \<Rightarrow> replicate (unat len) 0 | Some data \<Rightarrow> take (unat len) data);
        let ws = pack_loop 2 0 (take 16 bs) ws;
        (rc, m) \<leftarrow> i2c_call_esp K ep call \<lparr>label = I2C_MSG_WRITE_ESP, words = ws\<rparr>;
        ret (if rc \<noteq> ULMK_OK K then rc else words m 0)
      })"

definition i2c_read_esp :: "ulmk_abi \<Rightarrow> u32 \<Rightarrow> 's ep_call \<Rightarrow> (nat \<Rightarrow> u32) \<Rightarrow> u8 \<Rightarrow> u8 list option \<Rightarrow> u32 \<Rightarrow>
    ('s, cint \<times> u8 list option) state" where
  "i2c_read_esp K ep call junk addr7 odata len =
     (case odata of
        None \<Rightarrow> ret (ULMK_EINVAL K, odata)
      | Some data \<Rightarrow>
          if len = 0 \<or> len > 12 then ret (ULMK_EINVAL K, odata)
          else do {
            (rc, m) \<leftarrow> i2c_call_esp K ep call
              \<lparr>label = I2C_MSG_READ_ESP, words = junk(0 := ucast addr7, 1 := len, 2 := 0, 3 := 0)\<rparr>;
            if rc \<noteq> ULMK_OK K then ret (rc, odata)
            else if words m 0 \<noteq> ULMK_OK K then ret (words m 0, odata)
            else ret (ULMK_OK K, Some (unpack_loop 1 (unat len) (words m) @ drop (unat len) data))
          })"

section \<open>What a transfer logs\<close>

text \<open>The bytes and the commands that a log hands to the controller, and the rest.\<close>

definition cmd_regs :: "u32 list" where
  "cmd_regs = [I2C_COMD 0, I2C_COMD 1, I2C_COMD 2, I2C_COMD 3, I2C_COMD 4]"

definition fifo_written :: "esp_act event list \<Rightarrow> u32 list" where
  "fifo_written es = concat (List.map (\<lambda>e. case e of Dev (Wr32 a v) \<Rightarrow> (if a = I2C_DATA then [v] else []) | _ \<Rightarrow> []) es)"

definition commands :: "esp_act event list \<Rightarrow> (u32 \<times> u32) list" where
  "commands es = concat (List.map (\<lambda>e. case e of Dev (Wr32 a v) \<Rightarrow> (if a \<in> set cmd_regs then [(a, v)] else []) | _ \<Rightarrow> []) es)"

definition i2c_other :: "esp_act event \<Rightarrow> bool" where
  "i2c_other e \<longleftrightarrow> (case e of Dev (Wr32 a v) \<Rightarrow> a \<noteq> I2C_DATA \<and> a \<notin> set cmd_regs | Dev (Rd32 a) \<Rightarrow> a \<noteq> I2C_DATA | _ \<Rightarrow> True)"

lemma i2c_other_simps [simp]:
  "i2c_other (Kern c)" "i2c_other (Dev (Wr32 a v)) \<longleftrightarrow> a \<noteq> I2C_DATA \<and> a \<notin> set cmd_regs"
  "i2c_other (Dev (Rd32 a)) \<longleftrightarrow> a \<noteq> I2C_DATA"
  by (simp_all add: i2c_other_def)

lemma projections_append [simp]:
  "fifo_written (es @ es') = fifo_written es @ fifo_written es'" "commands (es @ es') = commands es @ commands es'"
  by (simp_all add: fifo_written_def commands_def)

lemma projections_other:
  assumes "list_all i2c_other es"
  shows "fifo_written es = []" "commands es = []"
  using assms
  by (induction es) (auto simp: fifo_written_def commands_def i2c_other_def split: event.splits esp_act.splits)

lemma projections_one [simp]:
  "fifo_written [] = []" "commands [] = []"
  "fifo_written (Dev (Wr32 a v) # es) = (if a = I2C_DATA then v # fifo_written es else fifo_written es)"
  "commands (Dev (Wr32 a v) # es) = (if a \<in> set cmd_regs then (a, v) # commands es else commands es)"
  by (simp_all add: fifo_written_def commands_def)

text \<open>The registers are different.\<close>

lemma i2c_regs_apart [simp]:
  "I2C_CTR \<noteq> I2C_DATA" "I2C_SR \<noteq> I2C_DATA" "I2C_FIFO_CONF \<noteq> I2C_DATA" "I2C_INT_RAW \<noteq> I2C_DATA" "I2C_INT_CLR \<noteq> I2C_DATA"
  "I2C_CTR \<notin> set cmd_regs" "I2C_FIFO_CONF \<notin> set cmd_regs" "I2C_INT_CLR \<notin> set cmd_regs" "I2C_DATA \<notin> set cmd_regs"
  "I2C_COMD 0 \<in> set cmd_regs" "I2C_COMD 1 \<in> set cmd_regs" "I2C_COMD 2 \<in> set cmd_regs" "I2C_COMD 3 \<in> set cmd_regs"
  "I2C_COMD 4 \<in> set cmd_regs"
  "I2C_COMD 0 \<noteq> I2C_DATA" "I2C_COMD 1 \<noteq> I2C_DATA" "I2C_COMD 2 \<noteq> I2C_DATA" "I2C_COMD 3 \<noteq> I2C_DATA" "I2C_COMD 4 \<noteq> I2C_DATA"
  by (simp_all add: const_defs cmd_regs_def)

lemma logs_xfer_begin: "logs i2c_other xfer_begin_esp"
  unfolding xfer_begin_esp_def by (intro logs_intros) simp_all

definition start_events :: "u32 \<Rightarrow> u32 \<Rightarrow> esp_act event list" where
  "start_events c d = [Dev (Rd32 I2C_CTR), Dev (Wr32 I2C_CTR (c OR I2C_CTR_CONF_UPGATE)), Dev (Rd32 I2C_CTR),
     Dev (Wr32 I2C_CTR (d OR I2C_CTR_TRANS_START))]"

lemma run_xfer_start: "\<exists>c d. run_state xfer_start_esp st = ((), st\<lparr>trace := trace st @ start_events c d\<rparr>)"
  by (simp add: xfer_start_esp_def start_events_def) (rule exI, rule exI, rule refl)

text \<open>The end of a transfer: the status is that of the wait and of the flags read after it.\<close>

lemma run_finish_xfer:
  "\<exists>rc raw es. run_state (finish_xfer_esp K) st = (xfer_status K rc raw, st\<lparr>trace := trace st @ es\<rparr>) \<and> list_all i2c_other es"
  by (auto simp: finish_xfer_esp_def wait_ev_esp_def)

text \<open>A write: what goes to the FIFO and the command list before the start, and the status.\<close>

definition write_commands :: "u32 \<Rightarrow> (u32 \<times> u32) list" where
  "write_commands len = [(I2C_COMD 0, make_cmd I2C_CMD_RSTART 0 False),
     (I2C_COMD 1, make_cmd I2C_CMD_WRITE (ucast (len + 1)) True), (I2C_COMD 2, make_cmd I2C_CMD_STOP 0 False)]"

lemma run_write_fifo:
  "run_state (for_each data (\<lambda>b. wr32 I2C_DATA (ucast b))) st =
    ((), st\<lparr>trace := trace st @ List.map (\<lambda>b. Dev (Wr32 I2C_DATA (ucast b))) data\<rparr>)"
  by (induction data arbitrary: st) simp_all

lemma fifo_written_map [simp]:
  "fifo_written (List.map (\<lambda>b. Dev (Wr32 I2C_DATA (f b))) data) = List.map f data"
  "commands (List.map (\<lambda>b. Dev (Wr32 I2C_DATA (f b))) data) = []"
  by (induction data) simp_all

lemma run_i2c_do_write:
  assumes "g_i2c_hw_ok st" "length data \<le> 31"
  shows "\<exists>rc raw pre c d post. run_state (i2c_do_write_esp K addr7 data) st =
      (xfer_status K rc raw, st\<lparr>trace := trace st @ pre @ start_events c d @ post\<rparr>) \<and>
    fifo_written pre = push_bit 1 (ucast addr7) # List.map ucast data \<and>
    commands pre = write_commands (of_nat (length data)) \<and> list_all i2c_other post"
proof -
  let ?len = "of_nat (length data) :: u32"
  have len: "\<not> ?len + 1 > I2C_XFER_MAX_ESP"
    using assms(2) by (simp add: const_defs word_less_nat_alt unat_word_ariths unat_of_nat take_bit_nat_eq_self)
  obtain u es where beg: "run_state xfer_begin_esp st = (u, st\<lparr>trace := trace st @ es\<rparr>)" "list_all i2c_other es"
    using logs_xfer_begin by (rule logsE)
  let ?fill = "es @ Dev (Wr32 I2C_DATA (push_bit 1 (ucast addr7))) # List.map (\<lambda>b. Dev (Wr32 I2C_DATA (ucast b))) data @
    [Dev (Wr32 (I2C_COMD 0) (make_cmd I2C_CMD_RSTART 0 False)),
     Dev (Wr32 (I2C_COMD 1) (make_cmd I2C_CMD_WRITE (ucast (?len + 1)) True)),
     Dev (Wr32 (I2C_COMD 2) (make_cmd I2C_CMD_STOP 0 False))]"
  let ?s1 = "st\<lparr>trace := trace st @ ?fill\<rparr>"
  obtain c d where start: "run_state xfer_start_esp ?s1 = ((), ?s1\<lparr>trace := trace ?s1 @ start_events c d\<rparr>)"
    using run_xfer_start by blast
  let ?s2 = "?s1\<lparr>trace := trace ?s1 @ start_events c d\<rparr>"
  obtain rc raw post where finish: "run_state (finish_xfer_esp K) ?s2 =
      (xfer_status K rc raw, ?s2\<lparr>trace := trace ?s2 @ post\<rparr>)" "list_all i2c_other post"
    using run_finish_xfer by blast
  have "run_state (i2c_do_write_esp K addr7 data) st =
      (xfer_status K rc raw, st\<lparr>trace := trace st @ ?fill @ start_events c d @ post\<rparr>)"
    using assms(1) len beg(1) start finish(1) by (simp add: i2c_do_write_esp_def Let_def run_write_fifo)
  moreover have "fifo_written ?fill = push_bit 1 (ucast addr7) # List.map ucast data"
    "commands ?fill = write_commands ?len"
    using projections_other [OF beg(2)] by (simp_all add: write_commands_def)
  ultimately show ?thesis
    using finish(2) by blast
qed

text \<open>The bytes that the server unpacks from the client's message.\<close>

lemma sent_bytes:
  assumes "length bs = len" "len \<le> 32"
  shows "unpack_loop 2 len (pack_loop 2 0 (take 16 bs) (clear_words 2 4 ws)) =
    take 16 bs @ List.map (\<lambda>i. word_byte (ws (2 + i div 4)) (i mod 4)) [16..<len]"
proof -
  let ?k = "min 16 len" and ?ws = "pack_loop 2 0 (take 16 bs) (clear_words 2 4 ws)"
  have "unpack_loop 2 len ?ws = unpack_loop 2 ?k ?ws @ List.map (\<lambda>i. word_byte (?ws (2 + i div 4)) (i mod 4)) [?k..<len]"
    using upt_add_eq_append [of 0 ?k "len - ?k"] by (simp add: unpack_loop_def flip: map_append)
  also have "unpack_loop 2 ?k ?ws = take 16 bs"
    using unpack_pack_cleared [of "take 16 bs" 4 2 ws] assms(1) by (simp add: min.commute)
  also have "List.map (\<lambda>i. word_byte (?ws (2 + i div 4)) (i mod 4)) [?k..<len] =
      List.map (\<lambda>i. word_byte (ws (2 + i div 4)) (i mod 4)) [16..<len]"
  proof (cases "len \<le> 16")
    case False
    have "?ws (2 + i div 4) = ws (2 + i div 4)" if "16 \<le> i" for i
    proof -
      have "4 \<le> i div 4"
        using div_le_mono [OF that, of 4] by simp
      moreover have "(0 + length (take 16 bs) - 1) div 4 < 4"
        by simp
      ultimately show ?thesis
        by (subst pack_loop_above) (auto simp: clear_words_apply)
    qed
    with False show ?thesis by simp
  qed simp
  finally show ?thesis .
qed

text \<open>C28: What an I2C write puts on the bus.  A write of up to 31 bytes hands the controller the address
  byte and then the message bytes, with a command list of a start condition, a write of exactly that many
  bytes whose acknowledge is checked, and a stop condition, all before the transfer is started; the
  status is that of the wait and the interrupt flags.  Up to 16 bytes are exactly the caller's.  From
  the seventeenth on the bytes are not the caller's but what its stack held in the message words
  that the client never packs, although the call accepts the length.\<close>

theorem i2c_write_esp_sends:
  assumes "abi_ok K" "g_i2c_hw_ok st" "ep \<noteq> ULMK_EP_INVALID K" "ep \<noteq> 0" "unat len \<le> 31" "unat len \<le> length data"
  shows "\<exists>rc raw pre c d post.
    run_state (i2c_write_esp K ep (ipc K (i2c_dispatch_esp K)) junk addr7 (Some data) len) st =
      (xfer_status K rc raw, st\<lparr>trace := trace st @ pre @ start_events c d @ post\<rparr>) \<and>
    fifo_written pre = push_bit 1 (ucast addr7) # List.map ucast (take 16 (take (unat len) data)) @
      List.map (\<lambda>i. ucast (word_byte (junk (2 + i div 4)) (i mod 4))) [16..<unat len] \<and>
    commands pre = write_commands len \<and> list_all i2c_other post"
proof -
  let ?bs = "take (unat len) data"
  define ws where "ws = pack_loop 2 0 (take 16 ?bs) (clear_words 2 4 (junk(0 := ucast addr7, 1 := len, 2 := 0, 3 := 0)))"
  define sent where "sent = take 16 ?bs @ List.map (\<lambda>i. word_byte (junk (2 + i div 4)) (i mod 4)) [16..<unat len]"
  have len: "\<not> len > I2C_XFER_MAX_ESP"
    using assms(5) by (simp add: const_defs word_less_nat_alt)
  have ws: "ws 0 = ucast addr7" "ws 1 = len"
    by (simp_all add: ws_def pack_loop_below clear_words_apply)
  have junk: "(junk(0 := ucast addr7, 1 := len, 2 := 0, 3 := 0)) (2 + i div 4) = junk (2 + i div 4)" if "16 \<le> i" for i
    using div_le_mono [OF that, of 4] by simp
  have "unpack_loop 2 (unat len) ws = take 16 ?bs @
      List.map (\<lambda>i. word_byte ((junk(0 := ucast addr7, 1 := len, 2 := 0, 3 := 0)) (2 + i div 4)) (i mod 4)) [16..<unat len]"
    unfolding ws_def using assms(5,6) by (intro sent_bytes) simp_all
  also have "\<dots> = sent"
    using junk by (simp add: sent_def)
  finally have unpack: "unpack_loop 2 (unat len) ws = sent" .
  have n: "length sent = unat len"
    unfolding unpack [symmetric] by simp
  obtain rc raw pre c d post where w: "run_state (i2c_do_write_esp K addr7 sent) st =
      (xfer_status K rc raw, st\<lparr>trace := trace st @ pre @ start_events c d @ post\<rparr>)"
    "fifo_written pre = push_bit 1 (ucast addr7) # List.map ucast sent" "commands pre = write_commands len"
    "list_all i2c_other post"
    using run_i2c_do_write [OF assms(2), of sent K addr7] assms(5) unfolding n by auto
  have "run_state (i2c_dispatch_esp K \<lparr>label = I2C_MSG_WRITE_ESP, words = ws\<rparr>) st =
      (i2c_reply_esp (xfer_status K rc raw) [], st\<lparr>trace := trace st @ pre @ start_events c d @ post\<rparr>)"
    using len w(1) ws by (simp add: i2c_dispatch_esp_def const_defs Let_def unpack ucast_up_ucast_id is_up del: One_nat_def)
  then have "run_state (i2c_write_esp K ep (ipc K (i2c_dispatch_esp K)) junk addr7 (Some data) len) st =
      (xfer_status K rc raw, st\<lparr>trace := trace st @ pre @ start_events c d @ post\<rparr>)"
    using len assms(3,4) unfolding ws_def
    by (simp add: i2c_write_esp_def i2c_call_esp_def ipc_def Let_def i2c_reply_esp_def pack_loop_below del: One_nat_def)
  with w(2-4) show ?thesis
    by (intro exI [of _ rc] exI) (auto simp: comp_def sent_def)
qed

definition i2c_esp_boot :: "(esp_act event list \<Rightarrow> esp_act event \<Rightarrow> u32) \<Rightarrow> i2c_esp_st" where
  "i2c_esp_boot ans = \<lparr>trace = [], answer = ans, fault = False, g_pinmux_eps_esp = 7, g_i2c_ep_esp = 12, g_i2c_notif_esp = 3,
     g_i2c_tid_esp = 21, g_i2c_hw_ok = True\<rparr>"

lemma projections_start [simp]: "fifo_written (start_events c d) = []" "commands (start_events c d) = []"
  by (simp_all add: start_events_def fifo_written_def commands_def)

theorem i2c_write_esp_sends_witness:
  "fifo_written (trace (snd (run_state (i2c_write_esp sample_abi 12 (ipc sample_abi (i2c_dispatch_esp sample_abi))
      (\<lambda>_. 0xAABBCCDD) 0x50 (Some (replicate 20 7)) 20) (i2c_esp_boot (\<lambda>_ _. 0))))) =
    0xA0 # replicate 16 7 @ [0xDD, 0xCC, 0xBB, 0xAA]"
proof -
  have pre: "g_i2c_hw_ok (i2c_esp_boot (\<lambda>_ _. 0))" "(12 :: u32) \<noteq> ULMK_EP_INVALID sample_abi" "(12 :: u32) \<noteq> 0"
    "unat (20 :: u32) \<le> 31" "unat (20 :: u32) \<le> length (replicate 20 (7 :: u8))"
    by (simp_all add: i2c_esp_boot_def sample_abi_def)
  have "List.map (\<lambda>i. ucast (word_byte (0xAABBCCDD :: u32) (i mod 4))) [16..<20] = [0xDD, 0xCC, 0xBB, 0xAA :: u32]"
    by (simp add: upt_rec word_byte_def)
  with i2c_write_esp_sends [OF sample_abi_ok pre, of "\<lambda>_. 0xAABBCCDD" "0x50"] show ?thesis
    by (auto simp: projections_other i2c_esp_boot_def)
qed

section \<open>Reading\<close>

text \<open>
  The receive FIFO: the next byte is the one whose number is the count of reads since the last reset;
  and a controller whose transfers end well.
\<close>

definition fifo_reads :: "esp_act event list \<Rightarrow> nat" where
  "fifo_reads t = length (filter (\<lambda>e. e = Dev (Rd32 I2C_DATA))
     (takeWhile (\<lambda>e. case e of Dev (Wr32 a v) \<Rightarrow> a \<noteq> I2C_FIFO_CONF | _ \<Rightarrow> True) (rev t)))"

definition rx_fifo :: "u8 list \<Rightarrow> (esp_act event list \<Rightarrow> esp_act event \<Rightarrow> u32) \<Rightarrow> bool" where
  "rx_fifo bs ans \<longleftrightarrow> (\<forall>t. fifo_reads t < length bs \<longrightarrow> ucast (ans t (Dev (Rd32 I2C_DATA))) = bs ! fifo_reads t)"

definition xfer_completes :: "ulmk_abi \<Rightarrow> (esp_act event list \<Rightarrow> esp_act event \<Rightarrow> u32) \<Rightarrow> bool" where
  "xfer_completes K ans \<longleftrightarrow> (\<forall>t. (\<forall>n b ms. ans t (Kern (Notif_wait_timeout n b ms)) = ULMK_OK K) \<and>
     xfer_status K (ULMK_OK K) (ans t (Dev (Rd32 I2C_INT_RAW))) = ULMK_OK K)"

text \<open>After a FIFO reset nothing has been read yet; an access elsewhere does not count.\<close>

definition no_fifo :: "esp_act event \<Rightarrow> bool" where
  "no_fifo e \<longleftrightarrow> (case e of Dev (Wr32 a v) \<Rightarrow> a \<noteq> I2C_FIFO_CONF | Dev (Rd32 a) \<Rightarrow> a \<noteq> I2C_DATA | _ \<Rightarrow> True)"

lemma no_fifo_simps [simp]: "no_fifo (Kern c)" "no_fifo (Dev (Wr32 a v)) \<longleftrightarrow> a \<noteq> I2C_FIFO_CONF"
  "no_fifo (Dev (Rd32 a)) \<longleftrightarrow> a \<noteq> I2C_DATA"
  by (simp_all add: no_fifo_def)

lemma fifo_reads_snoc:
  "no_fifo e \<Longrightarrow> fifo_reads (t @ [e]) = fifo_reads t"
  "fifo_reads (t @ [Dev (Rd32 I2C_DATA)]) = Suc (fifo_reads t)"
  "fifo_reads (t @ [Dev (Wr32 I2C_FIFO_CONF v)]) = 0"
  by (auto simp: fifo_reads_def no_fifo_def split: event.splits esp_act.splits)

lemma fifo_reads_quiet: "list_all no_fifo es \<Longrightarrow> fifo_reads (t @ es) = fifo_reads t"
proof (induction es rule: rev_induct)
  case (snoc e es)
  then show ?case
    using fifo_reads_snoc(1) [of e "t @ es"] by simp
qed simp

lemma fifo_regs_apart [simp]: "I2C_CTR \<noteq> I2C_FIFO_CONF" "I2C_INT_CLR \<noteq> I2C_FIFO_CONF" "I2C_DATA \<noteq> I2C_FIFO_CONF"
  "I2C_COMD 0 \<noteq> I2C_FIFO_CONF" "I2C_COMD 1 \<noteq> I2C_FIFO_CONF" "I2C_COMD 2 \<noteq> I2C_FIFO_CONF"
  "I2C_COMD 3 \<noteq> I2C_FIFO_CONF" "I2C_COMD 4 \<noteq> I2C_FIFO_CONF"
  by (simp_all add: const_defs)

lemma run_xfer_begin_reset:
  "\<exists>es. run_state xfer_begin_esp st = ((), st\<lparr>trace := trace st @ es\<rparr>) \<and> list_all i2c_other es \<and>
    fifo_reads (trace st @ es) = 0"
proof -
  obtain u es where es: "run_state xfer_begin_esp st = (u, st\<lparr>trace := trace st @ es\<rparr>)" "list_all i2c_other es"
    using logs_xfer_begin by (rule logsE)
  have "\<exists>t v. trace (snd (run_state xfer_begin_esp st)) = t @ [Dev (Wr32 I2C_FIFO_CONF v)]"
    by (simp add: xfer_begin_esp_def)
  then have "fifo_reads (trace st @ es) = 0"
    using es(1) fifo_reads_snoc(3) by auto
  with es show ?thesis by auto
qed

lemma run_finish_done:
  assumes "xfer_completes K (answer st)"
  shows "\<exists>es. run_state (finish_xfer_esp K) st = (ULMK_OK K, st\<lparr>trace := trace st @ es\<rparr>) \<and>
    list_all i2c_other es \<and> list_all no_fifo es"
proof -
  let ?es = "[Kern (Irq_ack ULMK_BOARD_IRQ_I2C0),
      Kern (Notif_wait_timeout (g_i2c_notif_esp st) (2 ^ I2C_NOTIF_EV) 50), Kern (Irq_ack ULMK_BOARD_IRQ_I2C0),
      Dev (Rd32 I2C_INT_RAW), Dev (Wr32 I2C_INT_CLR 16383)]"
  have "run_state (finish_xfer_esp K) st = (ULMK_OK K, st\<lparr>trace := trace st @ ?es\<rparr>)"
    using assms by (simp add: finish_xfer_esp_def wait_ev_esp_def xfer_completes_def)
  moreover have "list_all i2c_other ?es" "list_all no_fifo ?es"
    by simp_all
  ultimately show ?thesis
    by blast
qed

lemma run_read_fifo:
  assumes "rx_fifo bs (answer st)" "fifo_reads (trace st) = k" "k + n \<le> length bs"
  shows "run_state (collect [k..<k + n] (\<lambda>_. do { v \<leftarrow> rd32 I2C_DATA; ret (ucast (v AND 0xFF)) })) st =
    (take n (drop k bs), st\<lparr>trace := trace st @ replicate n (Dev (Rd32 I2C_DATA))\<rparr>)"
  using assms
proof (induction n arbitrary: k st)
  case (Suc n)
  let ?s = "st\<lparr>trace := trace st @ [Dev (Rd32 I2C_DATA)]\<rparr>"
  have byte: "ucast (answer st (trace st) (Dev (Rd32 I2C_DATA)) AND 0xFF) = bs ! k"
    unfolding ucast_low_byte using Suc.prems by (simp add: rx_fifo_def)
  have "run_state (collect [Suc k..<Suc k + n] (\<lambda>_. do { v \<leftarrow> rd32 I2C_DATA; ret (ucast (v AND 0xFF)) })) ?s =
      (take n (drop (Suc k) bs), ?s\<lparr>trace := trace ?s @ replicate n (Dev (Rd32 I2C_DATA))\<rparr>)"
    using Suc.prems by (intro Suc.IH) (simp_all add: fifo_reads_snoc)
  moreover have "[k..<k + Suc n] = k # [Suc k..<Suc k + n]"
    by (simp add: upt_conv_Cons)
  moreover have "take (Suc n) (drop k bs) = bs ! k # take n (drop (Suc k) bs)"
    using Suc.prems(3) by (simp add: Cons_nth_drop_Suc [symmetric])
  ultimately show ?case
    using byte by simp
qed simp

definition read_commands :: "u32 \<Rightarrow> (u32 \<times> u32) list" where
  "read_commands len =
     (I2C_COMD 0, make_cmd I2C_CMD_RSTART 0 False) # (I2C_COMD 1, make_cmd I2C_CMD_WRITE 1 True) #
     (if len > 1
      then [(I2C_COMD 2, make_cmd I2C_CMD_READ (ucast (len - 1)) False),
            (I2C_COMD 3, make_cmd I2C_CMD_READ 1 False OR I2C_CMD_ACK_VALUE), (I2C_COMD 4, make_cmd I2C_CMD_STOP 0 False)]
      else [(I2C_COMD 2, make_cmd I2C_CMD_READ 1 False OR I2C_CMD_ACK_VALUE), (I2C_COMD 3, make_cmd I2C_CMD_STOP 0 False)])"

lemma no_fifo_pending [simp]:
  "I2C_INT_RAW \<noteq> I2C_DATA" "I2C_CTR \<noteq> I2C_DATA" "list_all no_fifo (start_events c d)"
  by (simp_all add: start_events_def)

lemma run_i2c_do_read:
  assumes "g_i2c_hw_ok st" "len \<noteq> 0" "len \<le> 12" "unat len \<le> length bs"
    and "rx_fifo bs (answer st)" "xfer_completes K (answer st)"
  shows "\<exists>pre c d post. run_state (i2c_do_read_esp K addr7 len) st =
      ((ULMK_OK K, take (unat len) bs),
        st\<lparr>trace := trace st @ pre @ start_events c d @ post @ replicate (unat len) (Dev (Rd32 I2C_DATA))\<rparr>) \<and>
    fifo_written pre = [push_bit 1 (ucast addr7) OR 1] \<and> commands pre = read_commands len \<and> list_all i2c_other post"
proof -
  have guard: "\<not> (\<not> g_i2c_hw_ok st \<or> len = 0 \<or> len > I2C_XFER_MAX_ESP)"
    using assms(1-3) by (auto simp: const_defs word_less_nat_alt word_le_nat_alt)
  obtain es where beg: "run_state xfer_begin_esp st = ((), st\<lparr>trace := trace st @ es\<rparr>)" "list_all i2c_other es"
    "fifo_reads (trace st @ es) = 0"
    using run_xfer_begin_reset by blast
  define cmds where "cmds = Dev (Wr32 I2C_DATA (push_bit 1 (ucast addr7) OR 1)) #
    List.map (\<lambda>(a, v). Dev (Wr32 a v)) (read_commands len)"
  let ?s1 = "st\<lparr>trace := trace st @ es @ cmds\<rparr>"
  obtain c d where start: "run_state xfer_start_esp ?s1 = ((), ?s1\<lparr>trace := trace ?s1 @ start_events c d\<rparr>)"
    using run_xfer_start by blast
  let ?s2 = "?s1\<lparr>trace := trace ?s1 @ start_events c d\<rparr>"
  obtain post where fin: "run_state (finish_xfer_esp K) ?s2 = (ULMK_OK K, ?s2\<lparr>trace := trace ?s2 @ post\<rparr>)"
    "list_all i2c_other post" "list_all no_fifo post"
    using run_finish_done [of K ?s2] assms(6) by auto
  let ?s3 = "?s2\<lparr>trace := trace ?s2 @ post\<rparr>"
  have quiet: "list_all no_fifo (cmds @ start_events c d @ post)"
    using fin(3) by (simp add: cmds_def read_commands_def)
  have "fifo_reads (trace ?s3) = 0"
    using fifo_reads_quiet [OF quiet, of "trace st @ es"] beg(3) by simp
  then have bytes: "run_state (collect [0..<unat len] (\<lambda>_. do { v \<leftarrow> rd32 I2C_DATA; ret (ucast (v AND 0xFF)) })) ?s3 =
      (take (unat len) bs, ?s3\<lparr>trace := trace ?s3 @ replicate (unat len) (Dev (Rd32 I2C_DATA))\<rparr>)"
    using run_read_fifo [of bs ?s3 0 "unat len"] assms(4,5) by simp
  have "run_state (i2c_do_read_esp K addr7 len) st = ((ULMK_OK K, take (unat len) bs),
      st\<lparr>trace := trace st @ (es @ cmds) @ start_events c d @ post @ replicate (unat len) (Dev (Rd32 I2C_DATA))\<rparr>)"
    using guard beg(1) start fin(1) bytes
    by (simp add: i2c_do_read_esp_def Let_def cmds_def read_commands_def split: if_splits)
  moreover have "fifo_written (es @ cmds) = [push_bit 1 (ucast addr7) OR 1]" "commands (es @ cmds) = read_commands len"
    using projections_other [OF beg(2)] by (simp_all add: cmds_def read_commands_def)
  ultimately show ?thesis
    using fin(2) by blast
qed

lemma unpack_reply: "unpack_loop 1 (length bs) (words (i2c_reply_esp rc bs)) = bs"
proof -
  have "((\<lambda>_. 0)(0 := rc)) m = 0" if "m \<in> payload_indices 1 (length bs)" for m
    using payload_indices_bound [OF that] by simp
  then show ?thesis
    by (simp only: i2c_reply_esp_def msg.select_convs unpack_pack_exact)
qed

text \<open>C29: A read of up to twelve bytes returns what the device sent.  If the transfer completes, the call
  returns the first bytes of the receive FIFO, in order, in the front of the caller's buffer and
  leaves the rest of the buffer alone; the controller has been given the address with the read bit and the
  command list start, address, all bytes but the last acknowledged, the last one not, stop; and the FIFO has
  been reset before and popped exactly once per byte.\<close>

theorem i2c_read_esp_returns:
  assumes "abi_ok K" "g_i2c_hw_ok st" "ep \<noteq> ULMK_EP_INVALID K" "ep \<noteq> 0" "len \<noteq> 0" "len \<le> 12"
    and "unat len \<le> length bs" "rx_fifo bs (answer st)" "xfer_completes K (answer st)"
  shows "\<exists>pre c d post.
    run_state (i2c_read_esp K ep (ipc K (i2c_dispatch_esp K)) junk addr7 (Some data) len) st =
      ((ULMK_OK K, Some (take (unat len) bs @ drop (unat len) data)),
        st\<lparr>trace := trace st @ pre @ start_events c d @ post @ replicate (unat len) (Dev (Rd32 I2C_DATA))\<rparr>) \<and>
    fifo_written pre = [push_bit 1 (ucast addr7) OR 1] \<and> commands pre = read_commands len \<and> list_all i2c_other post"
proof -
  obtain pre c d post where r: "run_state (i2c_do_read_esp K addr7 len) st =
      ((ULMK_OK K, take (unat len) bs),
        st\<lparr>trace := trace st @ pre @ start_events c d @ post @ replicate (unat len) (Dev (Rd32 I2C_DATA))\<rparr>)"
    "fifo_written pre = [push_bit 1 (ucast addr7) OR 1]" "commands pre = read_commands len" "list_all i2c_other post"
    using run_i2c_do_read [OF assms(2,5-9), of addr7] by blast
  define ws where "ws = junk(0 := ucast addr7, 1 := len, 2 := 0, 3 := 0)"
  have ws: "ws 0 = ucast addr7" "ws 1 = len"
    by (simp_all add: ws_def)
  have le: "\<not> len > 12"
    using assms(6) by simp
  have "run_state (i2c_dispatch_esp K \<lparr>label = I2C_MSG_READ_ESP, words = ws\<rparr>) st =
      (i2c_reply_esp (ULMK_OK K) (take (unat len) bs),
        st\<lparr>trace := trace st @ pre @ start_events c d @ post @ replicate (unat len) (Dev (Rd32 I2C_DATA))\<rparr>)"
    using r(1) ws le
    by (simp add: i2c_dispatch_esp_def I2C_MSG_PROBE_ESP_def I2C_MSG_WRITE_ESP_def I2C_MSG_READ_ESP_def Let_def
      ucast_up_ucast_id is_up del: One_nat_def)
  moreover have "unpack_loop 1 (unat len) (words (i2c_reply_esp (ULMK_OK K) (take (unat len) bs))) = take (unat len) bs"
    using assms(7) unpack_reply [of "take (unat len) bs" "ULMK_OK K"] by simp
  moreover have "words (i2c_reply_esp (ULMK_OK K) bs') 0 = ULMK_OK K" for bs'
    by (simp add: i2c_reply_esp_def pack_loop_below)
  ultimately have "run_state (i2c_read_esp K ep (ipc K (i2c_dispatch_esp K)) junk addr7 (Some data) len) st =
      ((ULMK_OK K, Some (take (unat len) bs @ drop (unat len) data)),
        st\<lparr>trace := trace st @ pre @ start_events c d @ post @ replicate (unat len) (Dev (Rd32 I2C_DATA))\<rparr>)"
    using assms(3-5) le unfolding ws_def
    by (simp add: i2c_read_esp_def i2c_call_esp_def ipc_def Let_def del: One_nat_def)
  with r(2-4) show ?thesis
    by blast
qed

text \<open>A controller whose FIFO delivers the bytes \<open>bs\<close> and whose transfers complete.\<close>

definition rx_answers :: "u8 list \<Rightarrow> esp_act event list \<Rightarrow> esp_act event \<Rightarrow> u32" where
  "rx_answers bs t e =
     (if e = Dev (Rd32 I2C_DATA) then ucast (bs ! fifo_reads t)
      else if e = Dev (Rd32 I2C_INT_RAW) then I2C_INT_TRANS_COMPLETE
      else 0)"

theorem i2c_read_esp_returns_witness:
  "fst (run_state (i2c_read_esp sample_abi 12 (ipc sample_abi (i2c_dispatch_esp sample_abi)) (\<lambda>_. 0xAABBCCDD) 0x50
      (Some [0, 0, 0, 9]) 3) (i2c_esp_boot (rx_answers [0xCA, 0xFE, 0x42]))) = (0, Some [0xCA, 0xFE, 0x42, 9])"
proof -
  let ?st = "i2c_esp_boot (rx_answers [0xCA, 0xFE, 0x42])"
  have ans: "answer ?st = rx_answers [0xCA, 0xFE, 0x42]"
    by (simp add: i2c_esp_boot_def)
  have "rx_fifo [0xCA, 0xFE, 0x42] (answer ?st)"
    unfolding ans rx_fifo_def rx_answers_def by (simp add: ucast_up_ucast_id is_up)
  moreover have "xfer_completes sample_abi (answer ?st)"
    unfolding ans xfer_completes_def rx_answers_def
    by (simp add: xfer_status_def sample_abi_def I2C_INT_TRANS_COMPLETE_def I2C_INT_NACK_def I2C_INT_TIMEOUT_def
      I2C_INT_ARBIT_LOST_def I2C_INT_END_DETECT_def)
  moreover have "g_i2c_hw_ok ?st" "(12 :: u32) \<noteq> ULMK_EP_INVALID sample_abi" "(12 :: u32) \<noteq> 0" "(3 :: u32) \<noteq> 0" "(3 :: u32) \<le> 12"
    "unat (3 :: u32) \<le> length [0xCA, 0xFE, 0x42 :: u8]"
    by (simp_all add: i2c_esp_boot_def sample_abi_def)
  ultimately show ?thesis
    using i2c_read_esp_returns [OF sample_abi_ok, of ?st 12 3 "[0xCA, 0xFE, 0x42]" "\<lambda>_. 0xAABBCCDD" "0x50" "[0, 0, 0, 9]"]
    by (auto simp: sample_abi_def)
qed

end
