(* ===== verification/Uart_Esp32.thy ===== *)
theory Uart_Esp32
  imports Pinmux_Esp32
begin

text \<open>
  The UART driver of the ESP32-P4 board, \<^verbatim>\<open>esp32p4_ev_function/drivers/uart/src/server.c\<close> and
  \<^verbatim>\<open>client.c\<close>: five controllers, one server each, a transmit FIFO that blocks on its interrupt.
  \<^verbatim>\<open>reg_commit\<close> spins without a bound: the spin has fuel here, and an operation whose fuel ends
  while it spins has no result.
\<close>

section \<open>Registers\<close>

definition UART_MAX_INST :: nat where [const_defs]: "UART_MAX_INST = 5"
definition UART_MSG_TXB :: u32 where [const_defs]: "UART_MSG_TXB = 1"
definition UART_MSG_TXBUF :: u32 where [const_defs]: "UART_MSG_TXBUF = 2"
definition UART_MSG_RXB :: u32 where [const_defs]: "UART_MSG_RXB = 3"
definition UART_MSG_BAUD :: u32 where [const_defs]: "UART_MSG_BAUD = 4"
definition ULMK_BOARD_UART0_BASE :: u32 where "ULMK_BOARD_UART0_BASE = 0x500CA000"
definition UART_STRIDE :: u32 where "UART_STRIDE = 0x1000"
definition UART_FIFO :: u32 where [const_defs]: "UART_FIFO = 0x00"
definition UART_INT_ENA :: u32 where [const_defs]: "UART_INT_ENA = 0x0c"
definition UART_INT_CLR :: u32 where [const_defs]: "UART_INT_CLR = 0x10"
definition UART_CLKDIV :: u32 where [const_defs]: "UART_CLKDIV = 0x14"
definition UART_STATUS :: u32 where [const_defs]: "UART_STATUS = 0x1c"
definition UART_CONF0 :: u32 where [const_defs]: "UART_CONF0 = 0x20"
definition UART_CONF1 :: u32 where [const_defs]: "UART_CONF1 = 0x24"
definition UART_CLK_CONF :: u32 where [const_defs]: "UART_CLK_CONF = 0x88"
definition UART_REG_UPD :: u32 where [const_defs]: "UART_REG_UPD = 0x98"
definition INT_TXFIFO_EMPTY :: u32 where "INT_TXFIFO_EMPTY = push_bit 1 1"
definition TXFIFO_CNT_SHIFT :: nat where [const_defs]: "TXFIFO_CNT_SHIFT = 16"
definition TXFIFO_CNT_MASK :: u32 where [const_defs]: "TXFIFO_CNT_MASK = 0xFF"
definition TXFIFO_DEPTH :: u32 where [const_defs]: "TXFIFO_DEPTH = 128"
definition TX_EMPTY_THRHD :: u32 where "TX_EMPTY_THRHD = 32"
definition CONF1_TX_THRHD_SHIFT :: nat where "CONF1_TX_THRHD_SHIFT = 8"
definition CONF1_TX_THRHD_MASK :: u32 where "CONF1_TX_THRHD_MASK = 0xFF"
definition RXFIFO_CNT_MASK :: u32 where "RXFIFO_CNT_MASK = 0xFF"
definition CLK_CONF_TX_SCLK_EN :: u32 where "CLK_CONF_TX_SCLK_EN = push_bit 24 1"
definition CLK_CONF_RX_SCLK_EN :: u32 where "CLK_CONF_RX_SCLK_EN = push_bit 25 1"
definition UART_HP_SOC_CLK_CTRL2 :: u32 where [const_defs]: "UART_HP_SOC_CLK_CTRL2 = 0x500E6000 + 0x1c"
definition UART_SIG_IDX :: "u8 \<Rightarrow> u32" where "UART_SIG_IDX n = 10 + 3 * ucast n"
definition UART_NOTIF_TX :: nat where "UART_NOTIF_TX = 0"
definition ULMK_BOARD_IRQ_UART_BASE :: u32 where "ULMK_BOARD_IRQ_UART_BASE = 4"
definition ULMK_BOARD_CLIC_IRQ_UART_BASE :: u32 where "ULMK_BOARD_CLIC_IRQ_UART_BASE = 19"
definition UART_CLIC_BASE :: u32 where "UART_CLIC_BASE = 0x20800000"

record uart_inst =
  ui_base :: u32
  ui_notif :: u32
  ui_irq :: u8
  ui_index :: u8
  ui_ready :: bool

record uart_esp_st = pads_esp +
  g_uart_eps_esp :: "u32 list"
  g_inst :: "uart_inst list"

type_synonym ('z, 'a) uart_op = "('z uart_esp_st_scheme, 'a) state"

section \<open>The controller\<close>

text \<open>The loop of \<^verbatim>\<open>reg_commit\<close>: whether the bit has been seen clear.\<close>

fun commit_spin :: "nat \<Rightarrow> u32 \<Rightarrow> ('z, bool) esp_op" where
  "commit_spin 0 a = ret False"
| "commit_spin (Suc f) a = do {
     v \<leftarrow> rd32 a;
     if v AND 1 \<noteq> 0 then commit_spin f a else ret True
   }"

definition reg_commit :: "nat \<Rightarrow> uart_inst \<Rightarrow> ('z, bool) esp_op" where
  "reg_commit f u = do {
     wr32 (ui_base u + UART_REG_UPD) 1;
     commit_spin f (ui_base u + UART_REG_UPD)
   }"

definition tx_used :: "uart_inst \<Rightarrow> ('z, u32) esp_op" where
  "tx_used u = do {
     v \<leftarrow> rd32 (ui_base u + UART_STATUS);
     ret (drop_bit TXFIFO_CNT_SHIFT v AND TXFIFO_CNT_MASK)
   }"

definition uart_hw_init :: "nat \<Rightarrow> uart_inst \<Rightarrow> u32 \<Rightarrow> ('z, bool) esp_op" where
  "uart_hw_init f u baud = do {
     v \<leftarrow> rd32 UART_HP_SOC_CLK_CTRL2;
     wr32 UART_HP_SOC_CLK_CTRL2 (v OR push_bit (unat (12 + ucast (ui_index u) :: u32)) 1);
     wr32 (ui_base u + UART_CLK_CONF) (CLK_CONF_TX_SCLK_EN OR CLK_CONF_RX_SCLK_EN);
     let d = push_bit 4 40000000 div baud;
     wr32 (ui_base u + UART_CLKDIV) d;
     wr32 (ui_base u + UART_CONF0) (push_bit 0 3);
     reg_commit f u
   }"

definition uart_pins :: "ulmk_abi \<Rightarrow> u8 \<Rightarrow> u8 \<Rightarrow> u8 \<Rightarrow> ('z, unit) esp_op" where
  "uart_pins K n tx rx = do {
     let cfg = \<lparr>pc_port = 0, pc_pin = tx, pc_dir = PINMUX_DIR_OUT_ESP, pc_pull = PINMUX_PULL_NONE_ESP,
                pc_alt = PINMUX_ALT_MATRIX, pc_flags = PINMUX_F_PERIPH_OE,
                pc_matrix_out = ucast (UART_SIG_IDX n), pc_matrix_in = 0\<rparr>;
     _ \<leftarrow> pinmux_apply_esp K (Some cfg);
     let cfg = cfg\<lparr>pc_pin := rx, pc_dir := PINMUX_DIR_IN_ESP, pc_pull := PINMUX_PULL_NONE_ESP,
                pc_alt := PINMUX_ALT_MATRIX, pc_flags := PINMUX_F_IE, pc_matrix_out := 0,
                pc_matrix_in := ucast (UART_SIG_IDX n)\<rparr>;
     _ \<leftarrow> pinmux_apply_esp K (Some cfg);
     ret ()
   }"

definition tx_wait_space :: "uart_inst \<Rightarrow> ('z, unit) esp_op" where
  "tx_wait_space u = do {
     used \<leftarrow> tx_used u;
     if used < TXFIFO_DEPTH then ret ()
     else do {
       wr32 (ui_base u + UART_INT_CLR) INT_TXFIFO_EMPTY;
       kern_do (Irq_ack (ucast (ui_irq u)));
       wr32 (ui_base u + UART_INT_ENA) INT_TXFIFO_EMPTY;
       kern_do (Notif_wait (ui_notif u) (push_bit UART_NOTIF_TX 1));
       wr32 (ui_base u + UART_INT_ENA) 0;
       wr32 (ui_base u + UART_INT_CLR) INT_TXFIFO_EMPTY
     }
   }"

definition hw_tx_byte :: "ulmk_abi \<Rightarrow> uart_inst \<Rightarrow> u8 \<Rightarrow> ('z, cint) esp_op" where
  "hw_tx_byte K u b =
     (if \<not> ui_ready u then ret (ULMK_ENOTSUP K)
      else do {
        tx_wait_space u;
        wr32 (ui_base u + UART_FIFO) (ucast b);
        ret (ULMK_OK K)
      })"

text \<open>The loop over the client's buffer, which the server reads through the client's pointer.\<close>

fun tx_buf_loop :: "ulmk_abi \<Rightarrow> uart_inst \<Rightarrow> u32 \<Rightarrow> nat list \<Rightarrow> ('z, cint) esp_op" where
  "tx_buf_loop K u p [] = ret (ULMK_OK K)"
| "tx_buf_loop K u p (i # is) = do {
     b \<leftarrow> dev (Ld8 (p + of_nat i));
     rc \<leftarrow> hw_tx_byte K u (ucast b);
     if rc \<noteq> ULMK_OK K then ret rc else tx_buf_loop K u p is
   }"

section \<open>The server\<close>

text \<open>The words of a reply that the server does not set, and no client reads, are zero here.\<close>

definition uart_reply :: "cint \<Rightarrow> u32 \<Rightarrow> msg" where
  "uart_reply rc w = \<lparr>label = 0, words = (\<lambda>_. 0)(0 := rc, 1 := w)\<rparr>"

definition uart_dispatch :: "nat \<Rightarrow> ulmk_abi \<Rightarrow> nat \<Rightarrow> msg \<Rightarrow> ('z, msg option) uart_op" where
  "uart_dispatch f K n m = do {
     u \<leftarrow> gets (\<lambda>st. g_inst st ! n);
     if label m = UART_MSG_TXB then do {
       rc \<leftarrow> hw_tx_byte K u (ucast (words m 0));
       ret (Some (uart_reply rc 0))
     } else if label m = UART_MSG_TXBUF then do {
       rc \<leftarrow> tx_buf_loop K u (words m 0) [0..<unat (words m 1)];
       ret (Some (uart_reply rc 0))
     } else if label m = UART_MSG_RXB then do {
       v \<leftarrow> rd32 (ui_base u + UART_STATUS);
       if v AND RXFIFO_CNT_MASK = 0 then ret (Some (uart_reply (ULMK_ETIMEOUT K) 0))
       else do {
         w \<leftarrow> rd32 (ui_base u + UART_FIFO);
         ret (Some (uart_reply (ULMK_OK K) (w AND 0xFF)))
       }
     } else if label m = UART_MSG_BAUD then
       (if words m 0 \<noteq> 0 then do {
          ok \<leftarrow> uart_hw_init f u (words m 0);
          ret (if ok then Some (uart_reply (ULMK_OK K) 0) else None)
        } else ret (Some (uart_reply (ULMK_EINVAL K) 0)))
     else ret (Some (uart_reply (ULMK_EINVAL K) 0))
   }"

text \<open>The loop of the server over a sequence of requests; it ends where a spin does not.\<close>

fun uart_server :: "nat \<Rightarrow> ulmk_abi \<Rightarrow> nat \<Rightarrow> msg list \<Rightarrow> ('z, msg list option) uart_op" where
  "uart_server f K n [] = ret (Some [])"
| "uart_server f K n (m # ms) = do {
     r \<leftarrow> uart_dispatch f K n m;
     case r of
       None \<Rightarrow> ret None
     | Some r \<Rightarrow> do {
         rs \<leftarrow> uart_server f K n ms;
         ret (map_option (\<lambda>rs. r # rs) rs)
       }
   }"

definition uart_names :: "string list" where
  "uart_names = [''uart0'', ''uart1'', ''uart2'', ''uart3'', ''uart4'']"

definition set_inst :: "nat \<Rightarrow> (uart_inst \<Rightarrow> uart_inst) \<Rightarrow> ('z, unit) uart_op" where
  "set_inst i g = modify (\<lambda>st. st\<lparr>g_inst := (g_inst st)[i := g (g_inst st ! i)]\<rparr>)"

definition uart_init :: "nat \<Rightarrow> ulmk_abi \<Rightarrow> u8 \<Rightarrow> (u8 \<times> u8) option \<Rightarrow> u32 \<Rightarrow> ('z, u32 option) uart_op" where
  "uart_init f K n pins baud =
     (if unat n \<ge> UART_MAX_INST then ret (Some (ULMK_TID_INVALID K))
      else do {
        let i = unat n;
        u \<leftarrow> gets (\<lambda>st. g_inst st ! i);
        if ui_ready u then ret (Some (ULMK_TID_INVALID K))
        else do {
          set_inst i (\<lambda>u. u\<lparr>ui_index := n, ui_base := ULMK_BOARD_UART0_BASE + ucast n * UART_STRIDE,
            ui_irq := ucast (ULMK_BOARD_IRQ_UART_BASE + ucast n)\<rparr>);
          ep \<leftarrow> kern Ep_create;
          modify (\<lambda>st. st\<lparr>g_uart_eps_esp := (g_uart_eps_esp st)[i := ep]\<rparr>);
          if ep = ULMK_EP_INVALID K then ret (Some (ULMK_TID_INVALID K))
          else do {
            notif \<leftarrow> kern Notif_create;
            set_inst i (\<lambda>u. u\<lparr>ui_notif := notif\<rparr>);
            if notif = ULMK_NOTIF_INVALID K then ret (Some (ULMK_TID_INVALID K))
            else do {
              u \<leftarrow> gets (\<lambda>st. g_inst st ! i);
              (case pins of None \<Rightarrow> ret () | Some (tx, rx) \<Rightarrow> uart_pins K n tx rx);
              ok \<leftarrow> (if baud \<noteq> 0 then uart_hw_init f u baud else ret True);
              if \<not> ok then ret None
              else do {
                wr32 (ui_base u + UART_INT_ENA) 0;
                wr32 (ui_base u + UART_INT_CLR) 0xFFFFFFFF;
                v \<leftarrow> rd32 (ui_base u + UART_CONF1);
                let v = v AND NOT (push_bit CONF1_TX_THRHD_SHIFT CONF1_TX_THRHD_MASK);
                let v = v OR push_bit CONF1_TX_THRHD_SHIFT TX_EMPTY_THRHD;
                wr32 (ui_base u + UART_CONF1) v;
                ok \<leftarrow> reg_commit f u;
                if \<not> ok then ret None
                else do {
                  let clic_reg = UART_CLIC_BASE + 0x1000 + (ULMK_BOARD_CLIC_IRQ_UART_BASE + ucast n) * 4;
                  rc \<leftarrow> kern (Irq_bind_hw (ucast (ui_irq u)) (ui_notif u) (of_nat UART_NOTIF_TX) clic_reg);
                  if rc \<noteq> ULMK_OK K then ret (Some (ULMK_TID_INVALID K))
                  else do {
                    rc \<leftarrow> kern (Irq_enable (ucast (ui_irq u)));
                    if rc \<noteq> ULMK_OK K then ret (Some (ULMK_TID_INVALID K))
                    else do {
                      set_inst i (\<lambda>u. u\<lparr>ui_ready := True\<rparr>);
                      tid \<leftarrow> kern (Thread_create (uart_names ! i) 2 2048);
                      when_do (tid \<noteq> ULMK_TID_INVALID K) (kern_do (Cap_grant tid ''MAP_PERIPH|IRQ''));
                      ret (Some tid)
                    }
                  }
                }
              }
            }
          }
        }
      })"

section \<open>The client\<close>

text \<open>
  \<open>call ep\<close> is the rendezvous with endpoint \<open>ep\<close>; \<open>junk\<close> are the words of the uninitialised message.  A
  buffer is its address, with the null pointer 0; a call to a server that spins does not return.
\<close>

definition inst_ep :: "ulmk_abi \<Rightarrow> u32 list \<Rightarrow> u8 \<Rightarrow> u32" where
  "inst_ep K eps n = (if unat n \<ge> UART_MAX_INST then ULMK_EP_INVALID K else eps ! unat n)"

type_synonym 's uart_call = "u32 \<Rightarrow> msg \<Rightarrow> ('s, (cint \<times> msg) option) state"

definition uart_tx_byte :: "ulmk_abi \<Rightarrow> u32 list \<Rightarrow> 's uart_call \<Rightarrow> (nat \<Rightarrow> u32) \<Rightarrow> u8 \<Rightarrow> u8 \<Rightarrow> ('s, cint option) state" where
  "uart_tx_byte K eps call junk n b =
     (let ep = inst_ep K eps n in
      if ep = ULMK_EP_INVALID K then ret (Some (ULMK_EINVAL K))
      else do {
        r \<leftarrow> call ep \<lparr>label = UART_MSG_TXB, words = junk(0 := ucast b)\<rparr>;
        ret (map_option (\<lambda>(rc, m). if rc \<noteq> ULMK_OK K then rc else words m 0) r)
      })"

definition uart_tx_buf :: "ulmk_abi \<Rightarrow> u32 list \<Rightarrow> 's uart_call \<Rightarrow> (nat \<Rightarrow> u32) \<Rightarrow> u8 \<Rightarrow> u32 \<Rightarrow> u32 \<Rightarrow>
    ('s, cint option) state" where
  "uart_tx_buf K eps call junk n buf len =
     (let ep = inst_ep K eps n in
      if ep = ULMK_EP_INVALID K \<or> buf = 0 \<or> len = 0 then ret (Some (ULMK_EINVAL K))
      else do {
        r \<leftarrow> call ep \<lparr>label = UART_MSG_TXBUF, words = junk(0 := buf, 1 := len)\<rparr>;
        ret (map_option (\<lambda>(rc, m). if rc \<noteq> ULMK_OK K then rc else words m 0) r)
      })"

definition uart_rx_byte :: "ulmk_abi \<Rightarrow> u32 list \<Rightarrow> 's uart_call \<Rightarrow> (nat \<Rightarrow> u32) \<Rightarrow> u8 \<Rightarrow> u8 option \<Rightarrow>
    ('s, (cint \<times> u8 option) option) state" where
  "uart_rx_byte K eps call junk n ob =
     (let ep = inst_ep K eps n in
      if ep = ULMK_EP_INVALID K \<or> ob = None then ret (Some (ULMK_EINVAL K, ob))
      else do {
        r \<leftarrow> call ep \<lparr>label = UART_MSG_RXB, words = junk\<rparr>;
        ret (map_option (\<lambda>(rc, m). if rc \<noteq> ULMK_OK K then (rc, ob)
          else if words m 0 \<noteq> ULMK_OK K then (words m 0, ob)
          else (ULMK_OK K, Some (ucast (words m 1)))) r)
      })"

definition uart_set_baud :: "ulmk_abi \<Rightarrow> u32 list \<Rightarrow> 's uart_call \<Rightarrow> (nat \<Rightarrow> u32) \<Rightarrow> u8 \<Rightarrow> u32 \<Rightarrow>
    ('s, cint option) state" where
  "uart_set_baud K eps call junk n baud =
     (let ep = inst_ep K eps n in
      if ep = ULMK_EP_INVALID K then ret (Some (ULMK_EINVAL K))
      else do {
        r \<leftarrow> call ep \<lparr>label = UART_MSG_BAUD, words = junk(0 := baud)\<rparr>;
        ret (map_option (\<lambda>(rc, m). if rc \<noteq> ULMK_OK K then rc else words m 0) r)
      })"

text \<open>The rendezvous with the server of instance \<open>n\<close>.\<close>

definition uart_ipc :: "nat \<Rightarrow> ulmk_abi \<Rightarrow> nat \<Rightarrow> 'z uart_esp_st_scheme uart_call" where
  "uart_ipc f K n ep m = do { r \<leftarrow> uart_dispatch f K n m; ret (map_option (\<lambda>r. (ULMK_OK K, r)) r) }"

section \<open>The transmit FIFO\<close>

text \<open>
  \<open>level\<close> is the number of bytes in the FIFO after a log.  The FIFO only gains a byte by a write to its
  register, the status register tells whether it has room for one, and the transmit notification is only
  sent when it does (the threshold of the interrupt is below the depth).
\<close>

definition fifo_reg :: "uart_inst \<Rightarrow> u32" where
  "fifo_reg u = ui_base u + UART_FIFO"

definition tx_fifo :: "uart_inst \<Rightarrow> (esp_act event list \<Rightarrow> nat) \<Rightarrow> (esp_act event list \<Rightarrow> esp_act event \<Rightarrow> u32) \<Rightarrow> bool" where
  "tx_fifo u level ans \<longleftrightarrow>
     (\<forall>t e. (\<forall>v. e \<noteq> Dev (Wr32 (fifo_reg u) v)) \<longrightarrow> level (t @ [e]) \<le> level t) \<and>
     (\<forall>t. drop_bit TXFIFO_CNT_SHIFT (ans t (Dev (Rd32 (ui_base u + UART_STATUS)))) AND TXFIFO_CNT_MASK < TXFIFO_DEPTH \<longleftrightarrow>
        level t < 128) \<and>
     (\<forall>t. level (t @ [Kern (Notif_wait (ui_notif u) (push_bit UART_NOTIF_TX 1))]) < 128)"

text \<open>No byte has been written to a full FIFO.\<close>

definition no_overrun :: "uart_inst \<Rightarrow> (esp_act event list \<Rightarrow> nat) \<Rightarrow> esp_act event list \<Rightarrow> bool" where
  "no_overrun u level t \<longleftrightarrow> (\<forall>pre v post. t = pre @ Dev (Wr32 (fifo_reg u) v) # post \<longrightarrow> level pre < 128)"

lemma no_overrun_snoc:
  "no_overrun u level (t @ [e]) \<longleftrightarrow> no_overrun u level t \<and> ((\<exists>v. e = Dev (Wr32 (fifo_reg u) v)) \<longrightarrow> level t < 128)"
  (is "?l \<longleftrightarrow> ?r")
proof
  assume l: ?l
  have "level pre < 128" if "t = pre @ Dev (Wr32 (fifo_reg u) v) # post" for pre v post
    using l that unfolding no_overrun_def by (metis append_Cons append_assoc)
  with l show ?r
    unfolding no_overrun_def by blast
next
  assume r: ?r
  have "level pre < 128" if "t @ [e] = pre @ Dev (Wr32 (fifo_reg u) v) # post" for pre v post
    using r that by (cases post rule: rev_cases) (auto simp: no_overrun_def)
  then show ?l
    unfolding no_overrun_def by blast
qed

lemma no_overrun_Nil [simp]: "no_overrun u level []"
  by (simp add: no_overrun_def)

text \<open>What the server of instance \<open>n\<close> keeps, and the same with room for a byte.\<close>

definition uart_inv :: "nat \<Rightarrow> uart_inst \<Rightarrow> (esp_act event list \<Rightarrow> nat) \<Rightarrow> 'z uart_esp_st_scheme \<Rightarrow> bool" where
  "uart_inv n u level st \<longleftrightarrow> tx_fifo u level (answer st) \<and> g_inst st ! n = u \<and> no_overrun u level (trace st)"

definition uart_room :: "nat \<Rightarrow> uart_inst \<Rightarrow> (esp_act event list \<Rightarrow> nat) \<Rightarrow> 'z uart_esp_st_scheme \<Rightarrow> bool" where
  "uart_room n u level st \<longleftrightarrow> uart_inv n u level st \<and> level (trace st) < 128"

named_theorems uart_rules \<open>steps of the UART server\<close>

lemma inv_event:
  assumes "\<And>v. e \<noteq> Dev (Wr32 (fifo_reg u) v)"
  shows "uart_inv n u level st \<Longrightarrow> uart_inv n u level (st\<lparr>trace := trace st @ [e]\<rparr>)"
    "uart_room n u level st \<Longrightarrow> uart_room n u level (st\<lparr>trace := trace st @ [e]\<rparr>)"
proof -
  have inv: "uart_inv n u level (st\<lparr>trace := trace st @ [e]\<rparr>)" if "uart_inv n u level st"
    using that assms unfolding uart_inv_def by (simp add: no_overrun_snoc)
  have "level (trace st @ [e]) \<le> level (trace st)" if "uart_inv n u level st"
    using that assms unfolding uart_inv_def tx_fifo_def by blast
  with inv show "uart_inv n u level st \<Longrightarrow> uart_inv n u level (st\<lparr>trace := trace st @ [e]\<rparr>)"
    "uart_room n u level st \<Longrightarrow> uart_room n u level (st\<lparr>trace := trace st @ [e]\<rparr>)"
    unfolding uart_room_def using le_less_trans by (blast, auto)
qed

lemma keeps_uart_event [uart_rules]:
  "a \<noteq> fifo_reg u \<Longrightarrow> keeps (uart_inv n u level) (wr32 a v)" "a \<noteq> fifo_reg u \<Longrightarrow> keeps (uart_room n u level) (wr32 a v)"
  "keeps (uart_inv n u level) (rd32 a)" "keeps (uart_inv n u level) (kern_do c)" "keeps (uart_inv n u level) (dev (Ld8 p))"
  by (simp_all add: keeps_def inv_event)

lemma fifo_reg_apart [simp]:
  "ui_base u + UART_INT_CLR \<noteq> fifo_reg u" "ui_base u + UART_INT_ENA \<noteq> fifo_reg u" "ui_base u + UART_CLK_CONF \<noteq> fifo_reg u"
  "ui_base u + UART_CLKDIV \<noteq> fifo_reg u" "ui_base u + UART_CONF0 \<noteq> fifo_reg u" "ui_base u + UART_REG_UPD \<noteq> fifo_reg u"
  by (simp_all add: fifo_reg_def const_defs)

lemma room_after_wait:
  "triple (uart_inv n u level) (kern_do (Notif_wait (ui_notif u) (push_bit UART_NOTIF_TX 1))) (\<lambda>_. uart_room n u level)"
proof (rule tripleI)
  fix st :: "'a uart_esp_st_scheme" and x st'
  let ?e = "Kern (Notif_wait (ui_notif u) (push_bit UART_NOTIF_TX 1))"
  assume inv: "uart_inv n u level st" and "run_state (kern_do (Notif_wait (ui_notif u) (push_bit UART_NOTIF_TX 1))) st = (x, st')"
  then have "st' = st\<lparr>trace := trace st @ [?e]\<rparr>"
    by simp
  moreover have "level (trace st @ [?e]) < 128"
    using inv unfolding uart_inv_def tx_fifo_def by blast
  ultimately show "uart_room n u level st'"
    using inv_event(1) [OF _ inv, of ?e] by (simp add: uart_room_def)
qed

lemma room_by_status:
  "triple (uart_inv n u level) (tx_used u) (\<lambda>used st. if used < TXFIFO_DEPTH then uart_room n u level st else uart_inv n u level st)"
proof (rule tripleI)
  fix st :: "'a uart_esp_st_scheme" and used st'
  let ?e = "Dev (Rd32 (ui_base u + UART_STATUS))"
  assume inv: "uart_inv n u level st" and run: "run_state (tx_used u) st = (used, st')"
  then have st': "st' = st\<lparr>trace := trace st @ [?e]\<rparr>" and
    used: "used = drop_bit TXFIFO_CNT_SHIFT (answer st (trace st) ?e) AND TXFIFO_CNT_MASK"
    by (auto simp: tx_used_def)
  have "level (trace st) < 128" if "used < TXFIFO_DEPTH"
    using inv that unfolding used uart_inv_def tx_fifo_def by blast
  then show "if used < TXFIFO_DEPTH then uart_room n u level st' else uart_inv n u level st'"
    unfolding st' using inv_event [of ?e u n level st] inv by (simp add: uart_room_def)
qed

lemma room_ensured: "triple (uart_inv n u level) (tx_wait_space u) (\<lambda>_. uart_room n u level)"
  unfolding tx_wait_space_def
proof (rule triple_bind [OF room_by_status], rule triple_if)
  fix used :: u32
  assume "used < TXFIFO_DEPTH"
  then show "triple (\<lambda>st. if used < TXFIFO_DEPTH then uart_room n u level st else uart_inv n u level st) (ret ())
      (\<lambda>_. uart_room n u level)"
    by (simp add: triple_ret)
next
  fix used :: u32
  assume "\<not> used < TXFIFO_DEPTH"
  then show "triple (\<lambda>st. if used < TXFIFO_DEPTH then uart_room n u level st else uart_inv n u level st)
      (do {
        wr32 (ui_base u + UART_INT_CLR) INT_TXFIFO_EMPTY;
        kern_do (Irq_ack (ucast (ui_irq u)));
        wr32 (ui_base u + UART_INT_ENA) INT_TXFIFO_EMPTY;
        kern_do (Notif_wait (ui_notif u) (push_bit UART_NOTIF_TX 1));
        wr32 (ui_base u + UART_INT_ENA) 0;
        wr32 (ui_base u + UART_INT_CLR) INT_TXFIFO_EMPTY
      }) (\<lambda>_. uart_room n u level)"
    by (simp only: if_False, intro triple_step [OF keeps_uart_event(1)] triple_step [OF keeps_uart_event(4) [where c = "Irq_ack x" for x]]
        triple_bind [OF room_after_wait] triple_step [OF keeps_uart_event(2)]
        triple_keeps [OF keeps_uart_event(2)]) simp_all
qed

lemma byte_sent: "triple (uart_room n u level) (wr32 (ui_base u + UART_FIFO) v) (\<lambda>_. uart_inv n u level)"
  by (rule tripleI) (auto simp: uart_room_def uart_inv_def no_overrun_snoc fifo_reg_def)

lemma keeps_hw_tx_byte [uart_rules]: "keeps (uart_inv n u level) (hw_tx_byte K u b)"
  unfolding hw_tx_byte_def
  by (intro keeps_intros keeps_triple [OF triple_bind [OF room_ensured]] triple_bind [OF byte_sent] triple_ret)

lemma keeps_tx_buf_loop [uart_rules]: "keeps (uart_inv n u level) (tx_buf_loop K u p is)"
  by (induction "is") (auto intro!: keeps_intros uart_rules)

lemma keeps_commit_spin [uart_rules]: "keeps (uart_inv n u level) (commit_spin f a)"
  by (induction f) (auto intro!: keeps_intros uart_rules)

text \<open>The controllers lie apart from the clock registers.\<close>

definition uart_at :: "nat \<Rightarrow> uart_inst \<Rightarrow> bool" where
  "uart_at n u \<longleftrightarrow> n < UART_MAX_INST \<and> ui_base u = ULMK_BOARD_UART0_BASE + of_nat n * UART_STRIDE"

lemma clk_apart: "uart_at n u \<Longrightarrow> UART_HP_SOC_CLK_CTRL2 \<noteq> fifo_reg u"
proof -
  assume at: "uart_at n u"
  then have "n = 0 \<or> n = 1 \<or> n = 2 \<or> n = 3 \<or> n = 4"
    unfolding uart_at_def UART_MAX_INST_def by arith
  with at show ?thesis
    by (elim disjE) (simp_all add: uart_at_def fifo_reg_def const_defs ULMK_BOARD_UART0_BASE_def UART_STRIDE_def)
qed

lemma keeps_uart_hw_init: "uart_at n u \<Longrightarrow> keeps (uart_inv n u level) (uart_hw_init f u baud)"
  unfolding uart_hw_init_def reg_commit_def Let_def
  by (intro keeps_intros uart_rules) (auto dest: clk_apart)

lemma keeps_gets_inst: "keeps (uart_inv n u level) (g u) \<Longrightarrow> keeps (uart_inv n u level) (State_Monad.bind (gets (\<lambda>st. g_inst st ! n)) g)"
  by (simp add: keeps_def uart_inv_def)

lemma keeps_uart_dispatch: "uart_at n u \<Longrightarrow> keeps (uart_inv n u level) (uart_dispatch f K n m)"
  unfolding uart_dispatch_def by (intro keeps_gets_inst keeps_intros uart_rules keeps_uart_hw_init)

lemma keeps_uart_server: "uart_at n u \<Longrightarrow> keeps (uart_inv n u level) (uart_server f K n ms)"
  by (induction ms) (auto intro!: keeps_intros keeps_uart_dispatch split: option.splits)

text \<open>C30: The transmit FIFO never overruns.  In the environment of \<open>tx_fifo\<close> (only a write to the register
  fills the FIFO, the status register counts it, and the notification comes from its interrupt) no
  sequence of requests to the server, with any buffers and any changes of the baud rate in between,
  makes it write a byte into a full FIFO.\<close>

theorem uart_server_never_overruns:
  assumes "uart_at n u" "uart_inv n u level st"
  shows "uart_inv n u level (snd (run_state (uart_server f K n ms) st))"
  using keepsD [OF keeps_uart_server [OF assms(1)] assms(2)] .

text \<open>
  A controller that sends everything whenever the server blocks and nothing before, and that
  accepts a new divisor on the second poll; the client's buffer lies at 0x4FF50000.
\<close>

definition sample_level :: "uart_inst \<Rightarrow> esp_act event list \<Rightarrow> nat" where
  "sample_level u t = length (filter (\<lambda>e. case e of Dev (Wr32 a v) \<Rightarrow> a = fifo_reg u | _ \<Rightarrow> False)
     (takeWhile (\<lambda>e. e \<noteq> Kern (Notif_wait (ui_notif u) (push_bit UART_NOTIF_TX 1))) (rev t)))"

definition sample_uart :: uart_inst where
  "sample_uart = \<lparr>ui_base = 0x500CB000, ui_notif = 31, ui_irq = 5, ui_index = 1, ui_ready = True\<rparr>"

definition uart_answers :: "u8 list \<Rightarrow> esp_act event list \<Rightarrow> esp_act event \<Rightarrow> u32" where
  "uart_answers data t e =
     (if e = Dev (Rd32 (ui_base sample_uart + UART_STATUS)) then (if sample_level sample_uart t < 128 then 0 else 0x800000)
      else if e = Dev (Rd32 (ui_base sample_uart + UART_REG_UPD)) then
        (if last t = Dev (Rd32 (ui_base sample_uart + UART_REG_UPD)) then 0 else 1)
      else case e of Dev (Ld8 a) \<Rightarrow> ucast (data ! unat (a - 0x4FF50000)) | _ \<Rightarrow> 0)"

definition uart_boot :: "u8 list \<Rightarrow> uart_esp_st" where
  "uart_boot data = \<lparr>trace = [], answer = uart_answers data, fault = False, g_pinmux_eps_esp = 7,
     g_uart_eps_esp = [40, 41, 42, 43, 44], g_inst = replicate 5 sample_uart\<rparr>"

lemma sample_uart_ready: "uart_at (unat (1 :: u8)) sample_uart" "ui_ready sample_uart"
  by (simp_all add: uart_at_def sample_uart_def const_defs ULMK_BOARD_UART0_BASE_def UART_STRIDE_def)

lemma sample_fifo: "tx_fifo sample_uart (sample_level sample_uart) (uart_answers data)"
  unfolding tx_fifo_def
proof (intro conjI allI impI)
  fix t e
  assume "\<forall>v. e \<noteq> Dev (Wr32 (fifo_reg sample_uart) v)"
  then show "sample_level sample_uart (t @ [e]) \<le> sample_level sample_uart t"
    by (auto simp: sample_level_def split: event.splits esp_act.splits)
qed (simp_all add: sample_level_def uart_answers_def const_defs)

lemma uart_boot_inv: "uart_inv (unat (1 :: u8)) sample_uart (sample_level sample_uart) (uart_boot data)"
  by (simp add: uart_inv_def uart_boot_def sample_fifo)

theorem uart_server_never_overruns_witness:
  "no_overrun sample_uart (sample_level sample_uart) (trace (snd (run_state
     (uart_server 2 sample_abi 1 [rpc 2 [0x4FF50000, 200], rpc 4 [9600], rpc 1 [65]]) (uart_boot (replicate 200 7)))))"
  using uart_server_never_overruns [OF sample_uart_ready(1) uart_boot_inv, of 2 sample_abi
      "[rpc 2 [0x4FF50000, 200], rpc 4 [9600], rpc 1 [65]]" "replicate 200 7"]
  by (simp add: uart_inv_def del: uart_server.simps)

section \<open>Sending a buffer\<close>

text \<open>The bytes that a log puts into the FIFO.\<close>

definition tx_bytes :: "uart_inst \<Rightarrow> esp_act event list \<Rightarrow> u8 list" where
  "tx_bytes u es = concat (List.map (\<lambda>e. case e of Dev (Wr32 a v) \<Rightarrow> (if a = fifo_reg u then [ucast v] else []) | _ \<Rightarrow> []) es)"

lemma tx_bytes_simps [simp]:
  "tx_bytes u [] = []" "tx_bytes u (es @ es') = tx_bytes u es @ tx_bytes u es'"
  "tx_bytes u (Dev (Wr32 a v) # es) = (if a = fifo_reg u then ucast v # tx_bytes u es else tx_bytes u es)"
  "tx_bytes u (Dev (Rd32 a) # es) = tx_bytes u es" "tx_bytes u (Dev (Ld8 a) # es) = tx_bytes u es"
  "tx_bytes u (Kern c # es) = tx_bytes u es"
  by (simp_all add: tx_bytes_def)

lemma tx_bytes_none: "list_all (\<lambda>e. \<forall>v. e \<noteq> Dev (Wr32 (fifo_reg u) v)) es \<Longrightarrow> tx_bytes u es = []"
  by (induction es) (auto simp: tx_bytes_def split: event.splits esp_act.splits)

lemma run_tx_wait_space:
  "\<exists>es. run_state (tx_wait_space u) st = ((), st\<lparr>trace := trace st @ es\<rparr>) \<and> tx_bytes u es = []"
proof -
  have "logs (\<lambda>e. \<forall>v. e \<noteq> Dev (Wr32 (fifo_reg u) v)) (tx_wait_space u)"
    unfolding tx_wait_space_def tx_used_def by (intro logs_intros) simp_all
  then obtain a es where "run_state (tx_wait_space u) st = (a, st\<lparr>trace := trace st @ es\<rparr>)"
    "list_all (\<lambda>e. \<forall>v. e \<noteq> Dev (Wr32 (fifo_reg u) v)) es"
    by (rule logsE)
  then show ?thesis
    by (auto dest: tx_bytes_none)
qed

lemma run_hw_tx_byte:
  assumes "ui_ready u"
  shows "\<exists>es. run_state (hw_tx_byte K u b) st = (ULMK_OK K, st\<lparr>trace := trace st @ es\<rparr>) \<and> tx_bytes u es = [b]"
proof -
  obtain es where "run_state (tx_wait_space u) st = ((), st\<lparr>trace := trace st @ es\<rparr>)" "tx_bytes u es = []"
    using run_tx_wait_space by blast
  with assms show ?thesis
    by (intro exI [of _ "es @ [Dev (Wr32 (fifo_reg u) (ucast b))]"])
      (simp add: hw_tx_byte_def fifo_reg_def ucast_up_ucast_id is_up)
qed

text \<open>The client's buffer at \<open>p\<close> holds the bytes \<open>data\<close> and does not change.\<close>

definition holds_bytes :: "u32 \<Rightarrow> u8 list \<Rightarrow> (esp_act event list \<Rightarrow> esp_act event \<Rightarrow> u32) \<Rightarrow> bool" where
  "holds_bytes p data ans \<longleftrightarrow> (\<forall>t i. i < length data \<longrightarrow> ucast (ans t (Dev (Ld8 (p + of_nat i)))) = data ! i)"

lemma run_tx_buf_loop:
  assumes "ui_ready u" "holds_bytes p data (answer st)" "\<forall>i \<in> set is. i < length data"
  shows "\<exists>es. run_state (tx_buf_loop K u p is) st = (ULMK_OK K, st\<lparr>trace := trace st @ es\<rparr>) \<and>
    tx_bytes u es = List.map ((!) data) is"
  using assms(2,3)
proof (induction "is" arbitrary: st)
  case (Cons i "is")
  let ?s1 = "st\<lparr>trace := trace st @ [Dev (Ld8 (p + of_nat i))]\<rparr>"
  have b: "ucast (answer st (trace st) (Dev (Ld8 (p + of_nat i)))) = data ! i"
    using Cons.prems by (simp add: holds_bytes_def)
  obtain es where es: "run_state (hw_tx_byte K u (data ! i)) ?s1 = (ULMK_OK K, ?s1\<lparr>trace := trace ?s1 @ es\<rparr>)"
    "tx_bytes u es = [data ! i]"
    using run_hw_tx_byte [OF assms(1), of K "data ! i" ?s1] by blast
  let ?s2 = "?s1\<lparr>trace := trace ?s1 @ es\<rparr>"
  obtain es' where "run_state (tx_buf_loop K u p is) ?s2 = (ULMK_OK K, ?s2\<lparr>trace := trace ?s2 @ es'\<rparr>)"
    "tx_bytes u es' = List.map ((!) data) is"
    using Cons.IH [of ?s2] Cons.prems by auto
  with es b show ?case
    by (intro exI [of _ "Dev (Ld8 (p + of_nat i)) # es @ es'"]) simp
qed (auto intro: exI [of _ "[]"])

text \<open>C31: A buffer is sent as it is.  \<open>uart_tx_buf\<close> on a ready instance answers OK after putting exactly the
  bytes of the caller's buffer into the transmit FIFO, in order, each of them while the FIFO had room
  for it, however full the FIFO was before and however often the server had to block.\<close>

theorem uart_tx_buf_delivers:
  assumes "abi_ok K" "uart_at (unat n) u" "ui_ready u" "uart_inv (unat n) u level st"
    and "eps ! unat n \<noteq> ULMK_EP_INVALID K" "buf \<noteq> 0" "data \<noteq> []" "length data < 2 ^ 32" "holds_bytes buf data (answer st)"
  shows "\<exists>es. run_state (uart_tx_buf K eps (uart_ipc f K (unat n)) junk n buf (of_nat (length data))) st =
      (Some (ULMK_OK K), st\<lparr>trace := trace st @ es\<rparr>) \<and>
    tx_bytes u es = data \<and> no_overrun u level (trace st @ es)"
proof -
  let ?len = "of_nat (length data) :: u32"
  let ?m = "\<lparr>label = UART_MSG_TXBUF, words = junk(0 := buf, 1 := ?len)\<rparr>"
  have len: "unat ?len = length data" "?len \<noteq> 0"
    using assms(7,8) by (simp_all add: unat_of_nat take_bit_nat_eq_self word_unat_eq_iff)
  obtain es where es: "run_state (tx_buf_loop K u buf [0..<length data]) st = (ULMK_OK K, st\<lparr>trace := trace st @ es\<rparr>)"
    "tx_bytes u es = data"
    using run_tx_buf_loop [OF assms(3,9), of "[0..<length data]" K] by (auto simp: map_nth)
  have u: "g_inst st ! unat n = u"
    using assms(4) by (simp add: uart_inv_def)
  have run: "run_state (uart_dispatch f K (unat n) ?m) st =
      (Some (uart_reply (ULMK_OK K) 0), st\<lparr>trace := trace st @ es\<rparr>)"
    using es(1) u len(1) by (simp add: uart_dispatch_def UART_MSG_TXB_def UART_MSG_TXBUF_def del: One_nat_def)
  have "uart_inv (unat n) u level (st\<lparr>trace := trace st @ es\<rparr>)"
    using keeps_run [OF keeps_uart_dispatch [OF assms(2)] assms(4) run] .
  then have "no_overrun u level (trace st @ es)"
    by (simp add: uart_inv_def)
  moreover have "run_state (uart_tx_buf K eps (uart_ipc f K (unat n)) junk n buf ?len) st =
      (Some (ULMK_OK K), st\<lparr>trace := trace st @ es\<rparr>)"
    using assms(2,5,6) len(2) run
    by (simp add: uart_tx_buf_def inst_ep_def uart_at_def uart_ipc_def uart_reply_def del: One_nat_def)
  ultimately show ?thesis
    using es(2) by blast
qed

theorem uart_tx_buf_delivers_witness:
  "let r = run_state (uart_tx_buf sample_abi [40, 41, 42, 43, 44] (uart_ipc 2 sample_abi (unat (1 :: u8))) (\<lambda>_. 0xAABBCCDD) 1
       0x4FF50000 3) (uart_boot [0x68, 0x69, 0x0A])
   in fst r = Some 0 \<and> tx_bytes sample_uart (trace (snd r)) = [0x68, 0x69, 0x0A]"
proof -
  have "holds_bytes 0x4FF50000 [0x68, 0x69, 0x0A] (answer (uart_boot [0x68, 0x69, 0x0A]))"
    unfolding holds_bytes_def
  proof (intro allI impI)
    fix t and i :: nat
    assume i: "i < length [0x68, 0x69, 0x0A :: u8]"
    then have "unat (of_nat i :: u32) = i"
      by (simp add: unat_of_nat take_bit_nat_eq_self)
    then show "ucast (answer (uart_boot [0x68, 0x69, 0x0A]) t (Dev (Ld8 (0x4FF50000 + of_nat i)))) = [0x68, 0x69, 0x0A :: u8] ! i"
      by (simp add: uart_boot_def uart_answers_def ucast_up_ucast_id is_up)
  qed
  moreover have "[40, 41, 42, 43, 44] ! unat (1 :: u8) \<noteq> ULMK_EP_INVALID sample_abi"
    by (simp add: sample_abi_def)
  ultimately obtain es where
    "run_state (uart_tx_buf sample_abi [40, 41, 42, 43, 44] (uart_ipc 2 sample_abi (unat (1 :: u8))) (\<lambda>_. 0xAABBCCDD) 1
       0x4FF50000 3) (uart_boot [0x68, 0x69, 0x0A]) =
      (Some 0, uart_boot [0x68, 0x69, 0x0A]\<lparr>trace := trace (uart_boot [0x68, 0x69, 0x0A]) @ es\<rparr>)"
    "tx_bytes sample_uart es = [0x68, 0x69, 0x0A]"
    using uart_tx_buf_delivers [OF sample_abi_ok sample_uart_ready uart_boot_inv, of "[40, 41, 42, 43, 44]" "0x4FF50000"
        "[0x68, 0x69, 0x0A]" "[0x68, 0x69, 0x0A]" 2 "\<lambda>_. 0xAABBCCDD"]
    by (auto simp: sample_abi_def)
  then show ?thesis
    by (simp add: Let_def) (simp add: uart_boot_def)
qed

section \<open>The commit of a register\<close>

lemma commit_spin_iff:
  "fst (run_state (commit_spin f a) st) \<longleftrightarrow>
     (\<exists>k < f. answer st (trace st @ replicate k (Dev (Rd32 a))) (Dev (Rd32 a)) AND 1 = 0)"
proof (induction f arbitrary: st)
  case (Suc f)
  let ?s = "st\<lparr>trace := trace st @ [Dev (Rd32 a)]\<rparr>"
  have "fst (run_state (commit_spin f a) ?s) \<longleftrightarrow>
      (\<exists>k < f. answer st (trace st @ replicate (Suc k) (Dev (Rd32 a))) (Dev (Rd32 a)) AND 1 = 0)"
    unfolding Suc.IH by simp
  moreover have "(\<exists>k < Suc f. P k) \<longleftrightarrow> P 0 \<or> (\<exists>k < f. P (Suc k))" for P
    by (auto simp: less_Suc_eq_0_disj)
  ultimately show ?case
    by simp
qed simp

text \<open>What changing the baud rate logs before it waits; \<open>v\<close> is the clock register as it was.\<close>

definition baud_log :: "uart_inst \<Rightarrow> u32 \<Rightarrow> u32 \<Rightarrow> esp_act event list" where
  "baud_log u baud v =
     [Dev (Rd32 UART_HP_SOC_CLK_CTRL2),
      Dev (Wr32 UART_HP_SOC_CLK_CTRL2 (v OR push_bit (unat (12 + ucast (ui_index u) :: u32)) 1)),
      Dev (Wr32 (ui_base u + UART_CLK_CONF) (CLK_CONF_TX_SCLK_EN OR CLK_CONF_RX_SCLK_EN)),
      Dev (Wr32 (ui_base u + UART_CLKDIV) (640000000 div baud)), Dev (Wr32 (ui_base u + UART_CONF0) 3),
      Dev (Wr32 (ui_base u + UART_REG_UPD) 1)]"

text \<open>C32: When a change of the baud rate returns.  \<open>uart_set_baud\<close> programs the divisor and answers OK exactly
  when some poll of the commit register finds the bit clear, and takes as many polls as that
  needs; on a controller that never clears it the call, and with it the server, never returns,
  however long it is given.\<close>

theorem uart_set_baud_returns:
  assumes "abi_ok K" "uart_at (unat n) u" "g_inst st ! unat n = u" "eps ! unat n \<noteq> ULMK_EP_INVALID K" "baud \<noteq> 0"
  shows "fst (run_state (uart_set_baud K eps (uart_ipc f K (unat n)) junk n baud) st) =
    (if \<exists>k < f. answer st (trace st @ baud_log u baud (answer st (trace st) (Dev (Rd32 UART_HP_SOC_CLK_CTRL2))) @
          replicate k (Dev (Rd32 (ui_base u + UART_REG_UPD)))) (Dev (Rd32 (ui_base u + UART_REG_UPD))) AND 1 = 0
     then Some (ULMK_OK K) else None)"
proof -
  let ?s = "st\<lparr>trace := trace st @ baud_log u baud (answer st (trace st) (Dev (Rd32 UART_HP_SOC_CLK_CTRL2)))\<rparr>"
  have n: "\<not> UART_MAX_INST \<le> unat n"
    using assms(2) by (simp add: uart_at_def)
  have "run_state (uart_hw_init f u baud) st = run_state (commit_spin f (ui_base u + UART_REG_UPD)) ?s"
    by (simp add: uart_hw_init_def reg_commit_def baud_log_def Let_def)
  then have "fst (run_state (uart_dispatch f K (unat n) \<lparr>label = UART_MSG_BAUD, words = junk(0 := baud)\<rparr>) st) =
      (if fst (run_state (commit_spin f (ui_base u + UART_REG_UPD)) ?s) then Some (uart_reply (ULMK_OK K) 0) else None)"
    using assms(3,5) by (simp add: uart_dispatch_def UART_MSG_TXB_def UART_MSG_TXBUF_def UART_MSG_RXB_def UART_MSG_BAUD_def
      split: prod.splits)
  then have "fst (run_state (uart_set_baud K eps (uart_ipc f K (unat n)) junk n baud) st) =
      (if fst (run_state (commit_spin f (ui_base u + UART_REG_UPD)) ?s) then Some (ULMK_OK K) else None)"
    using n assms(4) by (auto simp: uart_set_baud_def inst_ep_def uart_ipc_def uart_reply_def case_prod_beta)
  then show ?thesis
    unfolding commit_spin_iff by simp
qed

theorem uart_set_baud_returns_witness:
  "fst (run_state (uart_set_baud sample_abi [40, 41, 42, 43, 44] (uart_ipc 2 sample_abi (unat (1 :: u8))) (\<lambda>_. 0) 1 9600)
     (uart_boot [])) = Some 0"
proof -
  have pre: "g_inst (uart_boot []) ! unat (1 :: u8) = sample_uart" "[40, 41, 42, 43, 44] ! unat (1 :: u8) \<noteq> ULMK_EP_INVALID sample_abi"
    "(9600 :: u32) \<noteq> 0"
    by (simp_all add: uart_boot_def sample_abi_def)
  have "answer (uart_boot []) (t @ [Dev (Rd32 (ui_base sample_uart + UART_REG_UPD))])
      (Dev (Rd32 (ui_base sample_uart + UART_REG_UPD))) AND 1 = 0" for t
    by (simp add: uart_boot_def uart_answers_def const_defs)
  then have "\<exists>k < 2. answer (uart_boot []) (trace (uart_boot []) @ t @
      replicate k (Dev (Rd32 (ui_base sample_uart + UART_REG_UPD)))) (Dev (Rd32 (ui_base sample_uart + UART_REG_UPD))) AND 1 = 0" for t
    by (intro exI [of _ 1]) (simp flip: append_assoc)
  then show ?thesis
    unfolding uart_set_baud_returns [OF sample_abi_ok sample_uart_ready(1) pre] by (simp add: sample_abi_def)
qed

end
