(* ===== verification/Dma_Ahb_Esp32.thy ===== *)
theory Dma_Ahb_Esp32
  imports Pinmux_Esp32
begin

text \<open>
  The AHB DMA driver of the ESP32-P4 board: \<^verbatim>\<open>esp32p4_ev_function/drivers/dma/src/server.c\<close> and
  \<^verbatim>\<open>client.c\<close>.  Channel 0 copies memory, channel 1 receives from a peripheral.  A descriptor is
  three words, written through the non-cached alias; where the linker puts the descriptors is the
  record \<open>ahb_layout\<close>.
\<close>

section \<open>Registers\<close>

definition DMA_CH_MEM :: u8 where [const_defs]: "DMA_CH_MEM = 0"
definition DMA_NCH :: u8 where [const_defs]: "DMA_NCH = 2"
definition PDMA_BASE :: u32 where [const_defs]: "PDMA_BASE = 0x50085000"
definition PDMA_IN_INT_RAW :: "u8 \<Rightarrow> u32" where [const_defs]: "PDMA_IN_INT_RAW n = PDMA_BASE + 0x000 + ucast n * 0x10"
definition PDMA_IN_INT_ENA :: "u8 \<Rightarrow> u32" where [const_defs]: "PDMA_IN_INT_ENA n = PDMA_BASE + 0x008 + ucast n * 0x10"
definition PDMA_IN_INT_CLR :: "u8 \<Rightarrow> u32" where [const_defs]: "PDMA_IN_INT_CLR n = PDMA_BASE + 0x00c + ucast n * 0x10"
definition PDMA_OUT_INT_CLR :: "u8 \<Rightarrow> u32" where [const_defs]: "PDMA_OUT_INT_CLR n = PDMA_BASE + 0x03c + ucast n * 0x10"
definition PDMA_CH :: "u8 \<Rightarrow> u32" where [const_defs]: "PDMA_CH n = PDMA_BASE + 0x070 + ucast n * 0xc0"
definition PDMA_IN_CONF0 :: "u8 \<Rightarrow> u32" where [const_defs]: "PDMA_IN_CONF0 n = PDMA_CH n + 0x00"
definition PDMA_IN_LINK :: "u8 \<Rightarrow> u32" where [const_defs]: "PDMA_IN_LINK n = PDMA_CH n + 0x10"
definition PDMA_IN_PERI_SEL :: "u8 \<Rightarrow> u32" where [const_defs]: "PDMA_IN_PERI_SEL n = PDMA_CH n + 0x30"
definition PDMA_OUT_CONF0 :: "u8 \<Rightarrow> u32" where [const_defs]: "PDMA_OUT_CONF0 n = PDMA_CH n + 0x60"
definition PDMA_OUT_LINK :: "u8 \<Rightarrow> u32" where [const_defs]: "PDMA_OUT_LINK n = PDMA_CH n + 0x70"
definition PDMA_IN_LINK_ADDR :: "u8 \<Rightarrow> u32" where [const_defs]: "PDMA_IN_LINK_ADDR n = PDMA_BASE + 0x3ac + ucast n * 4"
definition PDMA_OUT_LINK_ADDR :: "u8 \<Rightarrow> u32" where [const_defs]: "PDMA_OUT_LINK_ADDR n = PDMA_BASE + 0x3b8 + ucast n * 4"
definition AHB_IN_RST :: u32 where "AHB_IN_RST = push_bit 0 1"
definition AHB_INDSCR_BURST_EN :: u32 where "AHB_INDSCR_BURST_EN = push_bit 2 1"
definition IN_DATA_BURST_EN :: u32 where "IN_DATA_BURST_EN = push_bit 3 1"
definition AHB_MEM_TRANS_EN :: u32 where "AHB_MEM_TRANS_EN = push_bit 4 1"
definition AHB_OUT_RST :: u32 where "AHB_OUT_RST = push_bit 0 1"
definition AHB_INLINK_START :: u32 where "AHB_INLINK_START = push_bit 2 1"
definition AHB_OUTLINK_START :: u32 where "AHB_OUTLINK_START = push_bit 1 1"
definition AHB_IN_INT_SUC_EOF :: u32 where "AHB_IN_INT_SUC_EOF = push_bit 1 1"
definition AHB_IN_INT_DSCR_ERR :: u32 where "AHB_IN_INT_DSCR_ERR = push_bit 3 1"
definition AHB_HP_SOC_CLK_CTRL1 :: u32 where [const_defs]: "AHB_HP_SOC_CLK_CTRL1 = 0x500E6000 + 0x18"
definition AHB_HP_RST_EN1 :: u32 where [const_defs]: "AHB_HP_RST_EN1 = 0x500E6000 + 0xc4"
definition AHB_PDMA_SYS_EN :: u32 where "AHB_PDMA_SYS_EN = push_bit 3 1"
definition RST_EN_AHB_PDMA :: u32 where "RST_EN_AHB_PDMA = push_bit 1 1"
definition AHB_DESC_SUC_EOF :: u32 where "AHB_DESC_SUC_EOF = push_bit 30 1"
definition AHB_DESC_OWNER_DMA :: u32 where "AHB_DESC_OWNER_DMA = push_bit 31 1"
definition AHB_DESC_MAX_LEN :: u32 where "AHB_DESC_MAX_LEN = 0xFFF"
definition AHB_DESC_NC_OFFSET :: u32 where "AHB_DESC_NC_OFFSET = 0x40000000"
definition DMA_NOTIF_IRQ :: nat where "DMA_NOTIF_IRQ = 0"
definition DMA_WAIT_MS :: u32 where "DMA_WAIT_MS = 100"
definition DMA_PERIPH_NONE :: u32 where "DMA_PERIPH_NONE = 0x3F"
definition DMA_PERIPH_ADC0 :: u32 where "DMA_PERIPH_ADC0 = 8"
definition DMA_SLOT_PERI :: u8 where "DMA_SLOT_PERI = 1"
definition DMA_MAX_INST :: u8 where [const_defs]: "DMA_MAX_INST = 1"
definition AHB_MSG_OPEN :: u32 where [const_defs]: "AHB_MSG_OPEN = 1"
definition AHB_MSG_MEMCPY :: u32 where [const_defs]: "AHB_MSG_MEMCPY = 2"
definition AHB_MSG_RX_ARM :: u32 where [const_defs]: "AHB_MSG_RX_ARM = 3"
definition AHB_MSG_RX_WAIT :: u32 where [const_defs]: "AHB_MSG_RX_WAIT = 4"
definition AHB_IRQ_PDMA_IN_CH0 :: u32 where "AHB_IRQ_PDMA_IN_CH0 = 10"
definition AHB_CLIC_IRQ_PDMA_IN_CH0 :: u32 where "AHB_CLIC_IRQ_PDMA_IN_CH0 = 25"
definition AHB_CLIC_BASE :: u32 where "AHB_CLIC_BASE = 0x20800000"

section \<open>State\<close>

record ahb_layout =
  in_desc :: "nat \<Rightarrow> u32"
  out_desc :: "nat \<Rightarrow> u32"

record ahb_ch =
  ac_notif :: u32
  ac_irq :: u8
  ac_open :: bool
  ac_periph :: u8
  ac_rx_dst :: u32
  ac_rx_len :: u32

record ahb_st = "esp_act io" +
  g_hw_ahb :: bool
  g_ch :: "ahb_ch list"
  g_dma_eps :: u32

type_synonym ('z, 'a) ahb_op = "('z ahb_st_scheme, 'a) state"

definition ch_of :: "u8 \<Rightarrow> ('z, ahb_ch) ahb_op" where
  "ch_of n = gets (\<lambda>st. g_ch st ! unat n)"

definition set_ch :: "u8 \<Rightarrow> (ahb_ch \<Rightarrow> ahb_ch) \<Rightarrow> ('z, unit) ahb_op" where
  "set_ch n f = modify (\<lambda>st. st\<lparr>g_ch := (g_ch st)[unat n := f (g_ch st ! unat n)]\<rparr>)"

definition desc_nc_ahb :: "u32 \<Rightarrow> u32" where
  "desc_nc_ahb d = d + AHB_DESC_NC_OFFSET"

text \<open>The three stores that fill a descriptor.\<close>

definition write_desc_ahb :: "u32 \<Rightarrow> u32 \<Rightarrow> u32 \<Rightarrow> ('z, unit) esp_op" where
  "write_desc_ahb d dw0 buf = do {
     wr32 (desc_nc_ahb d) dw0;
     wr32 (desc_nc_ahb d + 4) buf;
     wr32 (desc_nc_ahb d + 8) 0
   }"

section \<open>The hardware\<close>

definition dma_wait_done :: "u8 \<Rightarrow> ('z, cint) ahb_op" where
  "dma_wait_done n = do {
     c \<leftarrow> ch_of n;
     kern_do (Irq_ack (ucast (ac_irq c)));
     wr32 (PDMA_IN_INT_ENA n) (AHB_IN_INT_SUC_EOF OR AHB_IN_INT_DSCR_ERR);
     rc \<leftarrow> kern (Notif_wait_timeout (ac_notif c) (push_bit DMA_NOTIF_IRQ 1) DMA_WAIT_MS);
     wr32 (PDMA_IN_INT_ENA n) 0;
     ret rc
   }"

definition dma_hw_init :: "ulmk_abi \<Rightarrow> ('z, cint) ahb_op" where
  "dma_hw_init K = do {
     v \<leftarrow> rd32 AHB_HP_SOC_CLK_CTRL1;
     wr32 AHB_HP_SOC_CLK_CTRL1 (v OR AHB_PDMA_SYS_EN);
     v \<leftarrow> rd32 AHB_HP_SOC_CLK_CTRL1;
     if v AND AHB_PDMA_SYS_EN = 0 then do {
       modify (\<lambda>st. st\<lparr>g_hw_ahb := False\<rparr>);
       ret (ULMK_ENOTSUP K)
     } else do {
       v \<leftarrow> rd32 AHB_HP_RST_EN1;
       wr32 AHB_HP_RST_EN1 (v OR RST_EN_AHB_PDMA);
       wr32 AHB_HP_RST_EN1 (v AND NOT RST_EN_AHB_PDMA);
       modify (\<lambda>st. st\<lparr>g_hw_ahb := True\<rparr>);
       ret (ULMK_OK K)
     }
   }"

definition ahb_channel_open :: "ulmk_abi \<Rightarrow> u8 \<Rightarrow> u32 \<Rightarrow> ('z, cint) ahb_op" where
  "ahb_channel_open K slot mux = do {
     hw \<leftarrow> gets g_hw_ahb;
     c \<leftarrow> ch_of slot;
     if slot \<ge> DMA_NCH then ret (ULMK_EINVAL K)
     else if mux \<noteq> DMA_PERIPH_NONE \<and> mux > 0x3F then ret (ULMK_EINVAL K)
     else if \<not> hw then ret (ULMK_ENOTSUP K)
     else if ac_notif c = ULMK_NOTIF_INVALID K then ret (ULMK_ENOTSUP K)
     else do {
       set_ch slot (\<lambda>c. c\<lparr>ac_periph := ucast mux\<rparr>);
       set_ch slot (\<lambda>c. c\<lparr>ac_open := True\<rparr>);
       when_do (mux \<noteq> DMA_PERIPH_NONE) (wr32 (PDMA_IN_PERI_SEL slot) (mux AND 0x3F));
       ret (ULMK_OK K)
     }
   }"

definition ahb_rx_arm :: "'l ahb_layout_scheme \<Rightarrow> ulmk_abi \<Rightarrow> u8 \<Rightarrow> u32 \<Rightarrow> u32 \<Rightarrow> ('z, cint) ahb_op" where
  "ahb_rx_arm M K slot dst len = do {
     hw \<leftarrow> gets g_hw_ahb;
     c \<leftarrow> ch_of slot;
     if slot \<ge> DMA_NCH \<or> dst = 0 \<or> len = 0 then ret (ULMK_EINVAL K)
     else if \<not> hw \<or> \<not> ac_open c then ret (ULMK_ENOTSUP K)
     else if ucast (ac_periph c) = DMA_PERIPH_NONE then ret (ULMK_EINVAL K)
     else if len > AHB_DESC_MAX_LEN then ret (ULMK_EINVAL K)
     else do {
       write_desc_ahb (in_desc M (unat slot)) ((len AND AHB_DESC_MAX_LEN) OR AHB_DESC_OWNER_DMA) dst;
       set_ch slot (\<lambda>c. c\<lparr>ac_rx_dst := dst\<rparr>);
       set_ch slot (\<lambda>c. c\<lparr>ac_rx_len := len\<rparr>);
       wr32 (PDMA_IN_CONF0 slot) AHB_IN_RST;
       wr32 (PDMA_IN_CONF0 slot) (AHB_INDSCR_BURST_EN OR IN_DATA_BURST_EN);
       wr32 (PDMA_IN_PERI_SEL slot) (ucast (ac_periph c) AND 0x3F);
       wr32 (PDMA_IN_INT_CLR slot) 0xFFFFFFFF;
       wr32 (PDMA_IN_LINK_ADDR slot) (in_desc M (unat slot));
       wr32 (PDMA_IN_LINK slot) AHB_INLINK_START;
       ret (ULMK_OK K)
     }
   }"

definition ahb_rx_wait :: "'l ahb_layout_scheme \<Rightarrow> ulmk_abi \<Rightarrow> u8 \<Rightarrow> ('z, cint) ahb_op" where
  "ahb_rx_wait M K slot = do {
     c \<leftarrow> ch_of slot;
     if slot \<ge> DMA_NCH then ret (ULMK_EINVAL K)
     else if ac_rx_dst c = 0 then ret (ULMK_EINVAL K)
     else do {
       rc \<leftarrow> dma_wait_done slot;
       if rc \<noteq> ULMK_OK K then do {
         wr32 (PDMA_IN_INT_CLR slot) 0xFFFFFFFF;
         set_ch slot (\<lambda>c. c\<lparr>ac_rx_dst := 0\<rparr>);
         ret (ULMK_ETIMEOUT K)
       } else do {
         raw \<leftarrow> rd32 (PDMA_IN_INT_RAW slot);
         wr32 (PDMA_IN_INT_CLR slot) 0xFFFFFFFF;
         dw0 \<leftarrow> rd32 (desc_nc_ahb (in_desc M (unat slot)));
         let got = drop_bit 12 dw0 AND AHB_DESC_MAX_LEN;
         let got = (if got > ac_rx_len c then ac_rx_len c else got);
         dev_do (Dcache_invalidate (ac_rx_dst c) (ac_rx_len c));
         set_ch slot (\<lambda>c. c\<lparr>ac_rx_dst := 0\<rparr>);
         ret (if raw AND AHB_IN_INT_DSCR_ERR \<noteq> 0 then ULMK_EINVAL K
              else if raw AND AHB_IN_INT_SUC_EOF = 0 then ULMK_ETIMEOUT K else got)
       }
     }
   }"

definition ahb_memcpy_hw :: "'l ahb_layout_scheme \<Rightarrow> ulmk_abi \<Rightarrow> u32 \<Rightarrow> u32 \<Rightarrow> u32 \<Rightarrow> ('z, cint) ahb_op" where
  "ahb_memcpy_hw M K dst src len = do {
     let n = DMA_CH_MEM;
     dev_do (Dcache_clean src len);
     write_desc_ahb (out_desc M (unat n))
       ((len AND AHB_DESC_MAX_LEN) OR push_bit 12 (len AND AHB_DESC_MAX_LEN) OR AHB_DESC_SUC_EOF OR AHB_DESC_OWNER_DMA) src;
     write_desc_ahb (in_desc M (unat n)) ((len AND AHB_DESC_MAX_LEN) OR AHB_DESC_OWNER_DMA) dst;
     wr32 (PDMA_IN_CONF0 n) AHB_IN_RST;
     wr32 (PDMA_OUT_CONF0 n) AHB_OUT_RST;
     wr32 (PDMA_IN_CONF0 n) (AHB_MEM_TRANS_EN OR AHB_INDSCR_BURST_EN OR IN_DATA_BURST_EN);
     wr32 (PDMA_OUT_CONF0 n) 0;
     wr32 (PDMA_IN_INT_CLR n) 0xFFFFFFFF;
     wr32 (PDMA_OUT_INT_CLR n) 0xFFFFFFFF;
     wr32 (PDMA_OUT_LINK_ADDR n) (out_desc M (unat n));
     wr32 (PDMA_IN_LINK_ADDR n) (in_desc M (unat n));
     wr32 (PDMA_IN_LINK n) AHB_INLINK_START;
     wr32 (PDMA_OUT_LINK n) AHB_OUTLINK_START;
     rc \<leftarrow> dma_wait_done n;
     if rc \<noteq> ULMK_OK K then do {
       wr32 (PDMA_IN_INT_CLR n) 0xFFFFFFFF;
       ret (ULMK_ETIMEOUT K)
     } else do {
       raw \<leftarrow> rd32 (PDMA_IN_INT_RAW n);
       wr32 (PDMA_IN_INT_CLR n) 0xFFFFFFFF;
       if raw AND AHB_IN_INT_DSCR_ERR \<noteq> 0 then ret (ULMK_EINVAL K)
       else if raw AND AHB_IN_INT_SUC_EOF = 0 then ret (ULMK_ETIMEOUT K)
       else do {
         dev_do (Dcache_invalidate dst len);
         ret (ULMK_OK K)
       }
     }
   }"

definition ahb_memcpy :: "'l ahb_layout_scheme \<Rightarrow> ulmk_abi \<Rightarrow> u32 \<Rightarrow> u32 \<Rightarrow> u32 \<Rightarrow> ('z, cint) ahb_op" where
  "ahb_memcpy M K dst src len = do {
     hw \<leftarrow> gets g_hw_ahb;
     if dst = 0 \<or> src = 0 then ret (ULMK_EINVAL K)
     else if \<not> hw then ret (ULMK_ENOTSUP K)
     else if len = 0 then ret (ULMK_OK K)
     else if len > AHB_DESC_MAX_LEN then ret (ULMK_EINVAL K)
     else ahb_memcpy_hw M K dst src len
   }"

section \<open>The server\<close>

definition ahb_handle :: "'l ahb_layout_scheme \<Rightarrow> ulmk_abi \<Rightarrow> msg \<Rightarrow> ('z, cint) ahb_op" where
  "ahb_handle M K m =
     (if label m = AHB_MSG_OPEN then ahb_channel_open K (ucast (words m 0)) (words m 1)
      else if label m = AHB_MSG_MEMCPY then ahb_memcpy M K (words m 0) (words m 1) (words m 2)
      else if label m = AHB_MSG_RX_ARM then ahb_rx_arm M K (ucast (words m 0)) (words m 1) (words m 2)
      else if label m = AHB_MSG_RX_WAIT then ahb_rx_wait M K (ucast (words m 0))
      else ret (ULMK_EINVAL K))"

text \<open>Only word 0 of the reply is set; the others, indeterminate in C and read by no client, are 0 here.\<close>

definition ahb_dispatch :: "'l ahb_layout_scheme \<Rightarrow> ulmk_abi \<Rightarrow> msg \<Rightarrow> ('z, msg) ahb_op" where
  "ahb_dispatch M K m = do {
     rc \<leftarrow> ahb_handle M K m;
     ret \<lparr>label = 0, words = (\<lambda>_. 0)(0 := rc)\<rparr>
   }"

text \<open>One turn of the loop over the channels; \<open>False\<close> is the early return.\<close>

definition ahb_init_ch :: "ulmk_abi \<Rightarrow> nat \<Rightarrow> ('z, bool) ahb_op" where
  "ahb_init_ch K i = do {
     let j = of_nat i;
     set_ch j (\<lambda>c. c\<lparr>ac_periph := ucast DMA_PERIPH_NONE\<rparr>);
     notif \<leftarrow> kern Notif_create;
     set_ch j (\<lambda>c. c\<lparr>ac_notif := notif\<rparr>);
     if notif = ULMK_NOTIF_INVALID K then ret False
     else do {
       let irq = (ucast (AHB_IRQ_PDMA_IN_CH0 + of_nat i) :: u8);
       set_ch j (\<lambda>c. c\<lparr>ac_irq := irq\<rparr>);
       let clic_reg = AHB_CLIC_BASE + 0x1000 + (AHB_CLIC_IRQ_PDMA_IN_CH0 + of_nat i) * 4;
       rc \<leftarrow> kern (Irq_bind_hw (ucast irq) notif (of_nat DMA_NOTIF_IRQ) clic_reg);
       if rc \<noteq> ULMK_OK K then ret False
       else do {
         rc \<leftarrow> kern (Irq_enable (ucast irq));
         ret (rc = ULMK_OK K)
       }
     }
   }"

definition dma_init_ahb :: "ulmk_abi \<Rightarrow> u8 \<Rightarrow> ('z, u32) ahb_op" where
  "dma_init_ahb K n = do {
     cur \<leftarrow> gets g_dma_eps;
     if n \<ge> DMA_MAX_INST then ret (ULMK_TID_INVALID K)
     else if cur \<noteq> ULMK_EP_INVALID K then ret (ULMK_TID_INVALID K)
     else do {
       ep \<leftarrow> kern Ep_create;
       modify (\<lambda>st. st\<lparr>g_dma_eps := ep\<rparr>);
       if ep = ULMK_EP_INVALID K then ret (ULMK_TID_INVALID K)
       else do {
         rc \<leftarrow> dma_hw_init K;
         if rc \<noteq> ULMK_OK K then ret (ULMK_TID_INVALID K)
         else do {
           ok \<leftarrow> try_each [0..<unat DMA_NCH] (ahb_init_ch K);
           if \<not> ok then ret (ULMK_TID_INVALID K)
           else do {
             tid \<leftarrow> kern (Thread_create ''ahbdma'' 2 2048);
             when_do (tid \<noteq> ULMK_TID_INVALID K) (kern_do (Cap_grant tid ''MAP_PERIPH|IRQ''));
             ret tid
           }
         }
       }
     }
   }"

section \<open>The client\<close>

text \<open>A word that the client leaves uninitialised is 0 here; the server reads none of them.\<close>

definition dma_call_ahb :: "ulmk_abi \<Rightarrow> u32 \<Rightarrow> 's ep_call \<Rightarrow> u32 \<Rightarrow> u32 list \<Rightarrow> ('s, cint) state" where
  "dma_call_ahb K ep call lab ws =
     (if ep = ULMK_EP_INVALID K then ret (ULMK_EINVAL K)
      else do {
        (rc, m) \<leftarrow> call \<lparr>label = lab, words = (\<lambda>i. if i < length ws then ws ! i else 0)\<rparr>;
        if rc \<noteq> ULMK_OK K then ret (ULMK_EINVAL K) else ret (words m 0)
      })"

definition dma_channel_open_ahb :: "ulmk_abi \<Rightarrow> u32 \<Rightarrow> 's ep_call \<Rightarrow> u8 \<Rightarrow> u32 \<Rightarrow> u32 \<Rightarrow> ('s, cint) state" where
  "dma_channel_open_ahb K ep call slot mux flags = dma_call_ahb K ep call AHB_MSG_OPEN [ucast slot, mux, flags]"

definition dma_memcpy_ahb :: "ulmk_abi \<Rightarrow> u32 \<Rightarrow> 's ep_call \<Rightarrow> u32 \<Rightarrow> u32 \<Rightarrow> u32 \<Rightarrow> ('s, cint) state" where
  "dma_memcpy_ahb K ep call dst src len = dma_call_ahb K ep call AHB_MSG_MEMCPY [dst, src, len]"

definition dma_rx_arm :: "ulmk_abi \<Rightarrow> u32 \<Rightarrow> 's ep_call \<Rightarrow> u8 \<Rightarrow> u32 \<Rightarrow> u32 \<Rightarrow> ('s, cint) state" where
  "dma_rx_arm K ep call slot dst len = dma_call_ahb K ep call AHB_MSG_RX_ARM [ucast slot, dst, len]"

definition dma_rx_wait :: "ulmk_abi \<Rightarrow> u32 \<Rightarrow> 's ep_call \<Rightarrow> u8 \<Rightarrow> ('s, cint) state" where
  "dma_rx_wait K ep call slot = dma_call_ahb K ep call AHB_MSG_RX_WAIT [ucast slot]"

section \<open>What an operation does\<close>

lemma run_ch_of [simp, run_simps]: "run_state (ch_of n) st = (g_ch st ! unat n, st)"
  by (simp add: ch_of_def)

lemma run_set_ch [simp, run_simps]:
  "run_state (set_ch n f) st = ((), st\<lparr>g_ch := (g_ch st)[unat n := f (g_ch st ! unat n)]\<rparr>)"
  by (simp add: set_ch_def)

text \<open>The server behind the client's calls.\<close>

definition ahb_srv :: "'l ahb_layout_scheme \<Rightarrow> ulmk_abi \<Rightarrow> 'z ahb_st_scheme ep_call" where
  "ahb_srv M K = ipc K (ahb_dispatch M K)"

lemma run_ahb_calls:
  "run_state (dma_rx_arm K ep (ahb_srv M K) slot dst len) st =
     (if ep = ULMK_EP_INVALID K then (ULMK_EINVAL K, st) else run_state (ahb_rx_arm M K slot dst len) st)"
  "run_state (dma_rx_wait K ep (ahb_srv M K) slot) st =
     (if ep = ULMK_EP_INVALID K then (ULMK_EINVAL K, st) else run_state (ahb_rx_wait M K slot) st)"
  "run_state (dma_memcpy_ahb K ep (ahb_srv M K) dst src len) st =
     (if ep = ULMK_EP_INVALID K then (ULMK_EINVAL K, st) else run_state (ahb_memcpy M K dst src len) st)"
  "run_state (dma_channel_open_ahb K ep (ahb_srv M K) slot mux flags) st =
     (if ep = ULMK_EP_INVALID K then (ULMK_EINVAL K, st) else run_state (ahb_channel_open K slot mux) st)"
  by (simp_all add: dma_rx_arm_def dma_rx_wait_def dma_memcpy_ahb_def dma_channel_open_ahb_def dma_call_ahb_def ahb_srv_def
      ipc_def ahb_dispatch_def ahb_handle_def const_defs ucast_up_ucast_id is_up case_prod_beta)

text \<open>The accesses of a successful arm, in order: descriptor, reset, peripheral, link, start.\<close>

definition ahb_arm_events :: "'l ahb_layout_scheme \<Rightarrow> u8 \<Rightarrow> u8 \<Rightarrow> u32 \<Rightarrow> u32 \<Rightarrow> esp_act event list" where
  "ahb_arm_events M slot periph dst len =
     (let d = in_desc M (unat slot) in
      [Dev (Wr32 (desc_nc_ahb d) ((len AND AHB_DESC_MAX_LEN) OR AHB_DESC_OWNER_DMA)),
       Dev (Wr32 (desc_nc_ahb d + 4) dst), Dev (Wr32 (desc_nc_ahb d + 8) 0),
       Dev (Wr32 (PDMA_IN_CONF0 slot) AHB_IN_RST),
       Dev (Wr32 (PDMA_IN_CONF0 slot) (AHB_INDSCR_BURST_EN OR IN_DATA_BURST_EN)),
       Dev (Wr32 (PDMA_IN_PERI_SEL slot) (ucast periph AND 0x3F)),
       Dev (Wr32 (PDMA_IN_INT_CLR slot) 0xFFFFFFFF), Dev (Wr32 (PDMA_IN_LINK_ADDR slot) d),
       Dev (Wr32 (PDMA_IN_LINK slot) AHB_INLINK_START)])"

definition ahb_armed :: "u8 \<Rightarrow> u32 \<Rightarrow> u32 \<Rightarrow> 'z ahb_st_scheme \<Rightarrow> 'z ahb_st_scheme" where
  "ahb_armed slot dst len st = st\<lparr>g_ch := (g_ch st)[unat slot := (g_ch st ! unat slot)\<lparr>ac_rx_dst := dst, ac_rx_len := len\<rparr>]\<rparr>"

definition ahb_arm_ok :: "'z ahb_st_scheme \<Rightarrow> u8 \<Rightarrow> u32 \<Rightarrow> u32 \<Rightarrow> bool" where
  "ahb_arm_ok st slot dst len \<longleftrightarrow> slot < DMA_NCH \<and> dst \<noteq> 0 \<and> len \<noteq> 0 \<and> len \<le> AHB_DESC_MAX_LEN \<and> g_hw_ahb st \<and>
     ac_open (g_ch st ! unat slot) \<and> ucast (ac_periph (g_ch st ! unat slot)) \<noteq> DMA_PERIPH_NONE"

lemma run_ahb_rx_arm:
  assumes "length (g_ch st) = 2"
  shows "ahb_arm_ok st slot dst len \<Longrightarrow> run_state (ahb_rx_arm M K slot dst len) st = (ULMK_OK K, (ahb_armed slot dst len st)
      \<lparr>trace := trace st @ ahb_arm_events M slot (ac_periph (g_ch st ! unat slot)) dst len\<rparr>)"
    "\<not> ahb_arm_ok st slot dst len \<Longrightarrow>
      \<exists>rc. run_state (ahb_rx_arm M K slot dst len) st = (rc, st) \<and> (rc = ULMK_EINVAL K \<or> rc = ULMK_ENOTSUP K)"
proof -
  assume ok: "ahb_arm_ok st slot dst len"
  then have "\<not> DMA_NCH \<le> slot" "\<not> AHB_DESC_MAX_LEN < len"
    by (simp_all add: ahb_arm_ok_def not_le not_less)
  moreover from this(1) have "unat slot < length (g_ch st)"
    using assms by (simp add: DMA_NCH_def word_le_nat_alt)
  ultimately show "run_state (ahb_rx_arm M K slot dst len) st = (ULMK_OK K, (ahb_armed slot dst len st)
      \<lparr>trace := trace st @ ahb_arm_events M slot (ac_periph (g_ch st ! unat slot)) dst len\<rparr>)"
    using ok by (simp add: ahb_rx_arm_def ahb_arm_ok_def ahb_armed_def ahb_arm_events_def write_desc_ahb_def Let_def)
qed (auto simp: ahb_rx_arm_def ahb_arm_ok_def not_le not_less)

text \<open>A wait disarms the channel, and logs accesses to the channel and its descriptor.\<close>

definition ahb_disarmed :: "u8 \<Rightarrow> 'z ahb_st_scheme \<Rightarrow> 'z ahb_st_scheme" where
  "ahb_disarmed slot st = st\<lparr>g_ch := (g_ch st)[unat slot := (g_ch st ! unat slot)\<lparr>ac_rx_dst := 0\<rparr>]\<rparr>"

definition wait_start :: "u8 \<Rightarrow> ahb_ch \<Rightarrow> esp_act event list" where
  "wait_start slot c = [Kern (Irq_ack (ucast (ac_irq c))),
     Dev (Wr32 (PDMA_IN_INT_ENA slot) (AHB_IN_INT_SUC_EOF OR AHB_IN_INT_DSCR_ERR)),
     Kern (Notif_wait_timeout (ac_notif c) (push_bit DMA_NOTIF_IRQ 1) DMA_WAIT_MS), Dev (Wr32 (PDMA_IN_INT_ENA slot) 0)]"

definition wait_end :: "'l ahb_layout_scheme \<Rightarrow> u8 \<Rightarrow> ahb_ch \<Rightarrow> esp_act event list" where
  "wait_end M slot c = [Dev (Rd32 (PDMA_IN_INT_RAW slot)), Dev (Wr32 (PDMA_IN_INT_CLR slot) 0xFFFFFFFF),
     Dev (Rd32 (desc_nc_ahb (in_desc M (unat slot)))), Dev (Dcache_invalidate (ac_rx_dst c) (ac_rx_len c))]"

text \<open>A channel whose interrupt arrives in time and which has stored \<open>n\<close> bytes.\<close>

definition ahb_completes :: "'l ahb_layout_scheme \<Rightarrow> ulmk_abi \<Rightarrow> u8 \<Rightarrow> u32 \<Rightarrow> (esp_act event list \<Rightarrow> esp_act event \<Rightarrow> u32) \<Rightarrow> bool" where
  "ahb_completes M K slot n ans \<longleftrightarrow> (\<forall>t. (\<forall>h b ms. ans t (Kern (Notif_wait_timeout h b ms)) = ULMK_OK K) \<and>
     ans t (Dev (Rd32 (PDMA_IN_INT_RAW slot))) AND AHB_IN_INT_DSCR_ERR = 0 \<and>
     ans t (Dev (Rd32 (PDMA_IN_INT_RAW slot))) AND AHB_IN_INT_SUC_EOF \<noteq> 0 \<and>
     drop_bit 12 (ans t (Dev (Rd32 (desc_nc_ahb (in_desc M (unat slot)))))) AND AHB_DESC_MAX_LEN = n)"

lemma run_ahb_rx_wait_done:
  assumes "slot < DMA_NCH" "length (g_ch st) = 2" "ac_rx_dst (g_ch st ! unat slot) \<noteq> 0"
    and "ahb_completes M K slot n (answer st)" "n \<le> ac_rx_len (g_ch st ! unat slot)"
  shows "run_state (ahb_rx_wait M K slot) st = (n, (ahb_disarmed slot st)
    \<lparr>trace := trace st @ wait_start slot (g_ch st ! unat slot) @ wait_end M slot (g_ch st ! unat slot)\<rparr>)"
proof -
  have "\<not> DMA_NCH \<le> slot" "\<not> ac_rx_len (g_ch st ! unat slot) < n"
    using assms(1,5) by (simp_all add: not_le not_less)
  with assms(2-4) show ?thesis
    by (simp add: ahb_rx_wait_def dma_wait_done_def ahb_completes_def ahb_disarmed_def wait_start_def wait_end_def Let_def)
qed

text \<open>Whatever happens, a wait stays off the start register, and in the state it only disarms.\<close>

lemma run_ahb_rx_wait:
  assumes "slot < DMA_NCH" "length (g_ch st) = 2"
  shows "\<exists>rc es. run_state (ahb_rx_wait M K slot) st = (rc, (if ac_rx_dst (g_ch st ! unat slot) = 0 then st else
      (ahb_disarmed slot st)\<lparr>trace := trace st @ es\<rparr>)) \<and>
    list_all (\<lambda>e. \<forall>a v. e = Dev (Wr32 a v) \<longrightarrow> a = PDMA_IN_INT_ENA slot \<or> a = PDMA_IN_INT_CLR slot) es"
proof (cases "ac_rx_dst (g_ch st ! unat slot) = 0")
  case True
  then show ?thesis
    using assms(1) by (auto simp: ahb_rx_wait_def intro: exI [of _ "[]"])
next
  case False
  let ?c = "g_ch st ! unat slot"
  let ?w = "wait_start slot ?c"
  let ?rc = "answer st (trace st @ take 2 ?w) (?w ! 2)"
  let ?fail = "?w @ [Dev (Wr32 (PDMA_IN_INT_CLR slot) 0xFFFFFFFF)]"
  have "\<exists>rc. run_state (ahb_rx_wait M K slot) st = (rc, (ahb_disarmed slot st)
      \<lparr>trace := trace st @ (if ?rc = ULMK_OK K then ?w @ wait_end M slot ?c else ?fail)\<rparr>)"
    using assms False
    by (simp add: ahb_rx_wait_def dma_wait_done_def ahb_disarmed_def wait_start_def wait_end_def Let_def not_le)
  then obtain rc where "run_state (ahb_rx_wait M K slot) st = (rc, (ahb_disarmed slot st)
      \<lparr>trace := trace st @ (if ?rc = ULMK_OK K then ?w @ wait_end M slot ?c else ?fail)\<rparr>)"
    by blast
  with False show ?thesis
    by (intro exI [of _ rc] exI [of _ "if ?rc = ULMK_OK K then ?w @ wait_end M slot ?c else ?fail"])
      (simp add: wait_start_def wait_end_def)
qed

section \<open>A copy leaves the receiver alone\<close>

text \<open>
  The registers of a channel, its link addresses and its descriptors; nothing of it is shared with
  the other channel.
\<close>

definition ahb_chan_regs :: "'l ahb_layout_scheme \<Rightarrow> u8 \<Rightarrow> u32 set" where
  "ahb_chan_regs M n = {PDMA_IN_INT_RAW n, PDMA_IN_INT_ENA n, PDMA_IN_INT_CLR n, PDMA_OUT_INT_CLR n, PDMA_IN_CONF0 n,
     PDMA_IN_LINK n, PDMA_IN_PERI_SEL n, PDMA_OUT_CONF0 n, PDMA_OUT_LINK n, PDMA_IN_LINK_ADDR n, PDMA_OUT_LINK_ADDR n} \<union>
     (\<lambda>i. desc_nc_ahb (in_desc M (unat n)) + i) ` {0, 4, 8} \<union> (\<lambda>i. desc_nc_ahb (out_desc M (unat n)) + i) ` {0, 4, 8}"

definition ahb_apart :: "'l ahb_layout_scheme \<Rightarrow> bool" where
  "ahb_apart M \<longleftrightarrow> ahb_chan_regs M 0 \<inter> ahb_chan_regs M 1 = {}"

definition touches :: "u32 set \<Rightarrow> esp_act event \<Rightarrow> bool" where
  "touches A e \<longleftrightarrow> (case e of Dev (Rd32 a) \<Rightarrow> a \<in> A | Dev (Wr32 a v) \<Rightarrow> a \<in> A | _ \<Rightarrow> False)"

lemma touches_simps [simp]:
  "touches A (Dev (Rd32 a)) \<longleftrightarrow> a \<in> A" "touches A (Dev (Wr32 a v)) \<longleftrightarrow> a \<in> A" "\<not> touches A (Kern c)"
  "\<not> touches A (Dev (Dcache_clean p n))" "\<not> touches A (Dev (Dcache_invalidate p n))"
  by (simp_all add: touches_def)

text \<open>\<open>chan_keep A i c\<close>: channel \<open>i\<close> is as recorded and the log since has not touched \<open>A\<close>.\<close>

definition chan_keep :: "u32 set \<Rightarrow> nat \<Rightarrow> ahb_ch \<Rightarrow> esp_act event list \<Rightarrow> 'z ahb_st_scheme \<Rightarrow> bool" where
  "chan_keep A i c t st \<longleftrightarrow> g_ch st ! i = c \<and> (\<exists>es. trace st = t @ es \<and> list_all (\<lambda>e. \<not> touches A e) es)"

lemma chan_keep_event: "chan_keep A i c t st \<Longrightarrow> \<not> touches A e \<Longrightarrow> chan_keep A i c t (st\<lparr>trace := trace st @ [e]\<rparr>)"
  by (auto simp: chan_keep_def)

lemma keeps_chan_event [keeps_intros]:
  "a \<notin> A \<Longrightarrow> keeps (chan_keep A i c t) (rd32 a)" "a \<notin> A \<Longrightarrow> keeps (chan_keep A i c t) (wr32 a v)"
  "keeps (chan_keep A i c t) (kern k)" "keeps (chan_keep A i c t) (kern_do k)"
  "keeps (chan_keep A i c t) (dev_do (Dcache_clean p n))" "keeps (chan_keep A i c t) (dev_do (Dcache_invalidate p n))"
  by (simp_all add: keeps_def chan_keep_event)

lemma keeps_chan_set [keeps_intros]: "unat n \<noteq> i \<Longrightarrow> keeps (chan_keep A i c t) (set_ch n f)"
  by (simp add: keeps_def chan_keep_def)

lemma keeps_chan_of [keeps_intros]: "keeps (chan_keep A i c t) (ch_of n)"
  by (simp add: ch_of_def keeps_gets)

text \<open>What a request may name: not the receiving channel.\<close>

definition spares_rx :: "msg \<Rightarrow> bool" where
  "spares_rx m \<longleftrightarrow> label m = AHB_MSG_MEMCPY \<or> (ucast (words m 0) :: u8) \<noteq> DMA_SLOT_PERI"

lemma slot_cases: "slot < DMA_NCH \<Longrightarrow> slot \<noteq> DMA_SLOT_PERI \<Longrightarrow> slot = 0"
proof -
  assume "slot < DMA_NCH" "slot \<noteq> DMA_SLOT_PERI"
  then have "unat slot < 2" "unat slot \<noteq> 1"
    by (auto simp: DMA_NCH_def DMA_SLOT_PERI_def word_less_nat_alt word_unat_eq_iff)
  then show "slot = 0"
    by (simp add: word_unat_eq_iff)
qed

lemma apart_regs:
  assumes "ahb_apart M" "a \<in> ahb_chan_regs M 0"
  shows "a \<notin> ahb_chan_regs M 1"
  using assms by (auto simp: ahb_apart_def)

lemma keeps_ahb_dispatch:
  assumes apart: "ahb_apart M" and spare: "spares_rx m"
  shows "keeps (chan_keep (ahb_chan_regs M 1) 1 c t) (ahb_dispatch M K m)"
proof -
  let ?P = "chan_keep (ahb_chan_regs M 1) 1 c t"
  have regs: "a \<in> ahb_chan_regs M 0 \<Longrightarrow> a \<notin> ahb_chan_regs M 1" for a
    using apart_regs [OF apart] .
  have wait: "keeps ?P (dma_wait_done 0)"
    unfolding dma_wait_done_def by (intro keeps_intros regs) (simp_all add: ahb_chan_regs_def)
  have copy: "keeps ?P (ahb_memcpy M K dst src len)" for dst src len
    unfolding ahb_memcpy_def ahb_memcpy_hw_def write_desc_ahb_def Let_def DMA_CH_MEM_def
    by (intro keeps_intros wait regs) (simp_all add: ahb_chan_regs_def)
  have op: "keeps ?P (ahb_channel_open K slot mux)" if "slot \<noteq> DMA_SLOT_PERI" for slot mux
  proof (cases "slot < DMA_NCH")
    case True
    then have "slot = 0" using that by (rule slot_cases)
    then show ?thesis
      unfolding ahb_channel_open_def by (intro keeps_intros regs) (simp_all add: ahb_chan_regs_def)
  qed (auto simp: ahb_channel_open_def not_less intro!: keeps_intros)
  have arm: "keeps ?P (ahb_rx_arm M K slot dst len)" if "slot \<noteq> DMA_SLOT_PERI" for slot dst len
  proof (cases "slot < DMA_NCH")
    case True
    then have "slot = 0" using that by (rule slot_cases)
    then show ?thesis
      unfolding ahb_rx_arm_def write_desc_ahb_def by (intro keeps_intros regs) (simp_all add: ahb_chan_regs_def)
  qed (auto simp: ahb_rx_arm_def not_less intro!: keeps_intros)
  have rxw: "keeps ?P (ahb_rx_wait M K slot)" if "slot \<noteq> DMA_SLOT_PERI" for slot
  proof (cases "slot < DMA_NCH")
    case True
    then have "slot = 0" using that by (rule slot_cases)
    then show ?thesis
      unfolding ahb_rx_wait_def Let_def using wait by (intro keeps_intros regs) (simp_all add: ahb_chan_regs_def)
  qed (auto simp: ahb_rx_wait_def not_less intro!: keeps_intros)
  show ?thesis
    unfolding ahb_dispatch_def ahb_handle_def
    using spare copy op arm rxw by (intro keeps_intros) (auto simp: spares_rx_def const_defs)
qed

text \<open>C33: A copy leaves the receiver alone.  Whatever the hardware and the kernel answer, no sequence of
  copies, however many fail, and no other request that does not name channel 1 changes the record of
  channel 1 or accesses one of its registers or descriptors: a frame that the ADC is receiving is
  not disturbed by an unrelated copy.\<close>

theorem ahb_copy_spares_receiver:
  assumes "ahb_apart M" "list_all spares_rx ms"
  shows "\<exists>es. trace (snd (run_state (serve (ahb_dispatch M K) ms) st)) = trace st @ es \<and>
    list_all (\<lambda>e. \<not> touches (ahb_chan_regs M 1) e) es \<and>
    g_ch (snd (run_state (serve (ahb_dispatch M K) ms) st)) ! 1 = g_ch st ! 1"
proof -
  have "keeps (chan_keep (ahb_chan_regs M 1) 1 (g_ch st ! 1) (trace st)) (serve (ahb_dispatch M K) ms)"
    using assms(2) by (induction ms) (auto intro!: keeps_intros keeps_ahb_dispatch [OF assms(1)] simp del: One_nat_def)
  moreover have "chan_keep (ahb_chan_regs M 1) 1 (g_ch st ! 1) (trace st) st"
    by (simp add: chan_keep_def)
  ultimately have "chan_keep (ahb_chan_regs M 1) 1 (g_ch st ! 1) (trace st) (snd (run_state (serve (ahb_dispatch M K) ms) st))"
    by (rule keepsD)
  then show ?thesis
    by (auto simp: chan_keep_def)
qed

definition sample_ahb_layout :: ahb_layout where
  "sample_ahb_layout = \<lparr>in_desc = (\<lambda>i. 0x4FF48000 + of_nat i * 0x40), out_desc = (\<lambda>i. 0x4FF48010 + of_nat i * 0x40)\<rparr>"

definition ahb_boot :: "(esp_act event list \<Rightarrow> esp_act event \<Rightarrow> u32) \<Rightarrow> ahb_st" where
  "ahb_boot ans = \<lparr>trace = [], answer = ans, fault = False, g_hw_ahb = True,
     g_ch = [\<lparr>ac_notif = 50, ac_irq = 10, ac_open = True, ac_periph = 0x3F, ac_rx_dst = 0, ac_rx_len = 0\<rparr>,
             \<lparr>ac_notif = 51, ac_irq = 11, ac_open = True, ac_periph = 8, ac_rx_dst = 0x4FF60000, ac_rx_len = 64\<rparr>],
     g_dma_eps = 9\<rparr>"

lemma sample_ahb_apart: "ahb_apart sample_ahb_layout"
  by (simp add: ahb_apart_def ahb_chan_regs_def sample_ahb_layout_def const_defs desc_nc_ahb_def AHB_DESC_NC_OFFSET_def)

theorem ahb_copy_spares_receiver_witness:
  "g_ch (snd (run_state (serve (ahb_dispatch sample_ahb_layout sample_abi)
     [rpc 2 [0x4FF70000, 0x4FF71000, 64], rpc 1 [0, 0x3F], rpc 2 [0x4FF70000, 0x4FF71000, 5000]]) (ahb_boot (\<lambda>_ _. 2)))) ! 1 =
   \<lparr>ac_notif = 51, ac_irq = 11, ac_open = True, ac_periph = 8, ac_rx_dst = 0x4FF60000, ac_rx_len = 64\<rparr>"
proof -
  have "list_all spares_rx [rpc 2 [0x4FF70000, 0x4FF71000, 64], rpc 1 [0, 0x3F], rpc 2 [0x4FF70000, 0x4FF71000, 5000]]"
    by (simp add: spares_rx_def rpc_def AHB_MSG_MEMCPY_def DMA_SLOT_PERI_def)
  from ahb_copy_spares_receiver [OF sample_ahb_apart this, of sample_abi "ahb_boot (\<lambda>_ _. 2)"] show ?thesis
    by (auto simp: ahb_boot_def)
qed

end
