(* ===== verification/Adc_Esp32.thy ===== *)
theory Adc_Esp32
  imports Dma_Ahb_Esp32
begin

text \<open>
  The ADC driver of the ESP32-P4 board: \<^verbatim>\<open>esp32p4_ev_function/drivers/adc/src/adc_hw.c\<close>,
  \<^verbatim>\<open>server.c\<close> and \<^verbatim>\<open>client.c\<close>.  The digital controller scans four channels and pushes one frame of
  sixteen results into channel 1 of the AHB DMA, whose server (\<open>Dma_Ahb_Esp32\<close>) is called by message.
\<close>

section \<open>Registers\<close>

definition LPPERI_BASE :: u32 where "LPPERI_BASE = 0x50120000"
definition ADC_LPPERI_CLK_EN :: u32 where "ADC_LPPERI_CLK_EN = LPPERI_BASE + 0x00"
definition LPPERI_RST_EN :: u32 where "LPPERI_RST_EN = LPPERI_BASE + 0x04"
definition LP_ADC_BASE :: u32 where "LP_ADC_BASE = 0x50127000"
definition READER1_CTRL :: u32 where "READER1_CTRL = LP_ADC_BASE + 0x00"
definition MEAS1_CTRL2 :: u32 where "MEAS1_CTRL2 = LP_ADC_BASE + 0x0c"
definition MEAS1_MUX :: u32 where "MEAS1_MUX = LP_ADC_BASE + 0x10"
definition ATTEN1 :: u32 where "ATTEN1 = LP_ADC_BASE + 0x14"
definition FORCE_WPD :: u32 where "FORCE_WPD = LP_ADC_BASE + 0x3c"
definition CK_EN_LP_ADC :: u32 where "CK_EN_LP_ADC = push_bit 23 1"
definition RST_EN_LP_ADC :: u32 where "RST_EN_LP_ADC = push_bit 23 1"
definition CK_EN_LP_I2CMST :: u32 where "CK_EN_LP_I2CMST = push_bit 27 1"
definition XPD_SAR_PU :: u32 where "XPD_SAR_PU = 3"
definition ANA_MST_BASE :: u32 where "ANA_MST_BASE = 0x50124000"
definition ANA_MST_I2C0_CTRL :: u32 where "ANA_MST_I2C0_CTRL = ANA_MST_BASE + 0x00"
definition ANA_MST_ANA_CONF1 :: u32 where "ANA_MST_ANA_CONF1 = ANA_MST_BASE + 0x1c"
definition ANA_MST_ANA_CONF2 :: u32 where "ANA_MST_ANA_CONF2 = ANA_MST_BASE + 0x20"
definition ANA_MST_CLK160M :: u32 where "ANA_MST_CLK160M = ANA_MST_BASE + 0x34"
definition ANA_MST_SEL_160M :: u32 where "ANA_MST_SEL_160M = push_bit 0 1"
definition ANA_MST_SAR_SEL :: u32 where "ANA_MST_SAR_SEL = push_bit 7 1"
definition I2C_CTRL_BUSY :: u32 where "I2C_CTRL_BUSY = push_bit 25 1"
definition I2C_CTRL_WRITE :: u32 where "I2C_CTRL_WRITE = push_bit 24 1"
definition I2C_CTRL_DATA_S :: nat where "I2C_CTRL_DATA_S = 16"
definition I2C_CTRL_ADDR_S :: nat where "I2C_CTRL_ADDR_S = 8"
definition REGI2C_SAR_BLOCK :: u32 where "REGI2C_SAR_BLOCK = 0x69"
definition SAR1_CFG_ADDR :: u8 where "SAR1_CFG_ADDR = 0x02"
definition SAR1_SAMPLE_CYCLE :: u8 where "SAR1_SAMPLE_CYCLE = 2"
definition SAR1_DREF :: u8 where "SAR1_DREF = 4"
definition START_FORCE :: u32 where "START_FORCE = push_bit 18 1"
definition EN_PAD_FORCE :: u32 where "EN_PAD_FORCE = push_bit 31 1"
definition SAR1_DIG_FORCE :: u32 where "SAR1_DIG_FORCE = push_bit 31 1"
definition ADC_BASE :: u32 where "ADC_BASE = 0x500DE000"
definition ADC_CTRL :: u32 where "ADC_CTRL = ADC_BASE + 0x00"
definition ADC_CTRL2 :: u32 where "ADC_CTRL2 = ADC_BASE + 0x04"
definition ADC_FSM_WAIT :: u32 where "ADC_FSM_WAIT = ADC_BASE + 0x0c"
definition ADC_PATT_TAB :: "u32 \<Rightarrow> u32" where "ADC_PATT_TAB i = ADC_BASE + 0x18 + i * 4"
definition ADC_DMA_CONF :: u32 where "ADC_DMA_CONF = ADC_BASE + 0x60"
definition CTRL_SAR_CLK_GATED :: u32 where "CTRL_SAR_CLK_GATED = push_bit 5 1"
definition CTRL_SAR_CLK_DIV_S :: nat where "CTRL_SAR_CLK_DIV_S = 6"
definition CTRL_SAR1_PATT_LEN_S :: nat where "CTRL_SAR1_PATT_LEN_S = 14"
definition CTRL_SAR1_PATT_P_CLEAR :: u32 where "CTRL_SAR1_PATT_P_CLEAR = push_bit 22 1"
definition CTRL_DATA_SAR_SEL :: u32 where "CTRL_DATA_SAR_SEL = push_bit 24 1"
definition CTRL_XPD_SAR1_FORCE_S :: nat where "CTRL_XPD_SAR1_FORCE_S = 26"
definition CTRL2_TIMER_SEL :: u32 where "CTRL2_TIMER_SEL = push_bit 11 1"
definition CTRL2_TIMER_TARGET_S :: nat where "CTRL2_TIMER_TARGET_S = 12"
definition CTRL2_TIMER_EN :: u32 where "CTRL2_TIMER_EN = push_bit 24 1"
definition DMA_CONF_RESET_FSM :: u32 where "DMA_CONF_RESET_FSM = push_bit 30 1"
definition DMA_CONF_TRANS :: u32 where "DMA_CONF_TRANS = push_bit 31 1"
definition ADC_HP_SOC_CLK_CTRL2 :: u32 where "ADC_HP_SOC_CLK_CTRL2 = 0x500E6000 + 0x1c"
definition HP_PERI_CLK_CTRL22 :: u32 where "HP_PERI_CLK_CTRL22 = 0x500E6000 + 0x9c"
definition HP_PERI_CLK_CTRL23 :: u32 where "HP_PERI_CLK_CTRL23 = 0x500E6000 + 0xa0"
definition ADC_HP_RST_EN2 :: u32 where "ADC_HP_RST_EN2 = 0x500E6000 + 0xc8"
definition ADC_APB_CLK_EN :: u32 where "ADC_APB_CLK_EN = push_bit 5 1"
definition ADC_CLK_EN :: u32 where "ADC_CLK_EN = push_bit 0 1"
definition RST_EN_ADC :: u32 where "RST_EN_ADC = push_bit 10 1"
definition ADC_SRC_HZ :: u32 where "ADC_SRC_HZ = 40000000"
definition ADC_CLK_DIV_NUM :: u32 where "ADC_CLK_DIV_NUM = 15"
definition ADC_CLK_DIV_A :: u32 where "ADC_CLK_DIV_A = 0"
definition ADC_CLK_DIV_B :: u32 where "ADC_CLK_DIV_B = 1"
definition ADC_SAMPLE_HZ :: u32 where "ADC_SAMPLE_HZ = 20000"
definition ADC_ATTEN :: u8 where "ADC_ATTEN = 3"
definition ADC_CH_MAX :: nat where "ADC_CH_MAX = 4"
definition ADC_PASSES :: nat where "ADC_PASSES = 4"
definition ADC_FRAME_CONV :: nat where "ADC_FRAME_CONV = ADC_CH_MAX * ADC_PASSES"
definition ADC_FRAME_BYTES :: u32 where "ADC_FRAME_BYTES = of_nat (ADC_FRAME_CONV * 4)"
definition RES_DATA :: "u32 \<Rightarrow> u32" where "RES_DATA w = w AND 0xfff"
definition RES_CHAN :: "u32 \<Rightarrow> u32" where "RES_CHAN w = drop_bit 13 w AND 0xf"
definition RES_UNIT :: "u32 \<Rightarrow> u32" where "RES_UNIT w = drop_bit 17 w AND 0x1"
definition ADC_IOMUX_GPIO :: "u8 \<Rightarrow> u32" where "ADC_IOMUX_GPIO n = ULMK_BOARD_IOMUX_BASE + 0x04 + 4 * ucast n"
definition g_ch_gpio :: "u8 list" where "g_ch_gpio = [16, 17, 18, 19]"
definition REGI2C_SETTLE :: nat where "REGI2C_SETTLE = 1000"
definition ADC_MSG_READ :: u32 where [const_defs]: "ADC_MSG_READ = 1"
definition ADC_MSG_SCAN :: u32 where [const_defs]: "ADC_MSG_SCAN = 2"

section \<open>State\<close>

record adc_layout = ahb_layout +
  g_frame :: u32

record adc_st = ahb_st +
  g_adc_ep :: u32
  g_adc_hw_ok :: bool

type_synonym ('z, 'a) adc_op = "('z adc_st_scheme, 'a) state"

section \<open>The analog bus and the pads\<close>

text \<open>The bounded spin on the busy bit.\<close>

fun regi2c_spin :: "nat \<Rightarrow> ('z, unit) esp_op" where
  "regi2c_spin 0 = ret ()"
| "regi2c_spin (Suc n) = do {
     v \<leftarrow> rd32 ANA_MST_I2C0_CTRL;
     if v AND I2C_CTRL_BUSY = 0 then ret () else regi2c_spin n
   }"

definition regi2c_idle :: "('z, unit) esp_op" where
  "regi2c_idle = regi2c_spin REGI2C_SETTLE"

definition regi2c_xfer :: "u8 \<Rightarrow> bool \<Rightarrow> u8 \<Rightarrow> ('z, u8) esp_op" where
  "regi2c_xfer reg write data = do {
     wr32 ANA_MST_ANA_CONF2 0;
     wr32 ANA_MST_ANA_CONF1 0;
     wr32 ANA_MST_ANA_CONF2 ANA_MST_SAR_SEL;
     regi2c_idle;
     let cmd = REGI2C_SAR_BLOCK OR push_bit I2C_CTRL_ADDR_S (ucast reg);
     let cmd = (if write then cmd OR (I2C_CTRL_WRITE OR push_bit I2C_CTRL_DATA_S (ucast data)) else cmd);
     wr32 ANA_MST_I2C0_CTRL cmd;
     regi2c_idle;
     v \<leftarrow> rd32 ANA_MST_I2C0_CTRL;
     ret (ucast (drop_bit I2C_CTRL_DATA_S v AND 0xFF))
   }"

text \<open>The new value of an analog register whose field \<open>msb..lsb\<close> is set.\<close>

definition regi2c_field :: "u8 \<Rightarrow> u8 \<Rightarrow> u8 \<Rightarrow> u8 \<Rightarrow> u8" where
  "regi2c_field msb lsb val cur =
     (let mask = (push_bit (unat lsb) (drop_bit (unat (7 - (ucast msb - ucast lsb) :: u32)) 0xFF) :: u32) in
      ucast ((ucast cur AND NOT mask) OR (push_bit (unat lsb) (ucast val) AND mask)))"

definition regi2c_write_field :: "u8 \<Rightarrow> u8 \<Rightarrow> u8 \<Rightarrow> u8 \<Rightarrow> ('z, unit) esp_op" where
  "regi2c_write_field reg msb lsb val = do {
     cur \<leftarrow> regi2c_xfer reg False 0;
     _ \<leftarrow> regi2c_xfer reg True (regi2c_field msb lsb val cur);
     ret ()
   }"

definition adc_analog_init :: "('z, unit) esp_op" where
  "adc_analog_init = do {
     v \<leftarrow> rd32 ADC_LPPERI_CLK_EN;
     wr32 ADC_LPPERI_CLK_EN (v OR CK_EN_LP_I2CMST);
     v \<leftarrow> rd32 ANA_MST_CLK160M;
     wr32 ANA_MST_CLK160M (v OR ANA_MST_SEL_160M);
     regi2c_write_field SAR1_CFG_ADDR 2 0 SAR1_SAMPLE_CYCLE;
     regi2c_write_field SAR1_CFG_ADDR 6 4 SAR1_DREF
   }"

definition adc_pin_analog :: "u8 \<Rightarrow> ('z, unit) esp_op" where
  "adc_pin_analog gpio = do {
     mux \<leftarrow> rd32 (ADC_IOMUX_GPIO gpio);
     let mux = mux AND NOT (push_bit 12 7);
     let mux = mux AND NOT (push_bit 9 1 OR push_bit 8 1 OR push_bit 7 1);
     wr32 (ADC_IOMUX_GPIO gpio) mux
   }"

section \<open>The digital controller\<close>

text \<open>The new value of a word of the pattern table with entry \<open>idx\<close> set.\<close>

definition adc_pattern_word :: "u32 \<Rightarrow> u8 \<Rightarrow> u8 \<Rightarrow> u32 \<Rightarrow> u32" where
  "adc_pattern_word idx ch atten tab =
     (let shift = unat ((idx mod 4) * 6);
          entry = (ucast (atten AND 0x3) OR push_bit 2 (ucast (ch AND 0xf)) :: u32);
          tab = tab AND NOT (drop_bit shift 0xFC0000) in
      tab OR drop_bit shift (push_bit 18 (entry AND 0x3F)))"

definition adc_pattern_set :: "u32 \<Rightarrow> u8 \<Rightarrow> u8 \<Rightarrow> ('z, unit) esp_op" where
  "adc_pattern_set idx ch atten = do {
     let word = idx div 4;
     tab \<leftarrow> rd32 (ADC_PATT_TAB word);
     wr32 (ADC_PATT_TAB word) (adc_pattern_word idx ch atten tab)
   }"

definition adc_clk_init :: "('z, unit) esp_op" where
  "adc_clk_init = do {
     v \<leftarrow> rd32 ADC_HP_SOC_CLK_CTRL2;
     wr32 ADC_HP_SOC_CLK_CTRL2 (v OR ADC_APB_CLK_EN);
     v \<leftarrow> rd32 ADC_HP_RST_EN2;
     wr32 ADC_HP_RST_EN2 (v OR RST_EN_ADC);
     wr32 ADC_HP_RST_EN2 (v AND NOT RST_EN_ADC);
     v \<leftarrow> rd32 HP_PERI_CLK_CTRL23;
     let v = v AND NOT (push_bit 1 0xFF OR push_bit 9 0xFF OR push_bit 17 0xFF);
     let v = v OR (push_bit 1 ADC_CLK_DIV_NUM OR push_bit 9 ADC_CLK_DIV_A OR push_bit 17 ADC_CLK_DIV_B OR ADC_CLK_EN);
     wr32 HP_PERI_CLK_CTRL23 v;
     v \<leftarrow> rd32 HP_PERI_CLK_CTRL22;
     wr32 HP_PERI_CLK_CTRL22 (v AND NOT (push_bit 30 0x3))
   }"

definition adc_trigger_interval :: u32 where
  "adc_trigger_interval = (let d = ADC_CLK_DIV_NUM + 1 in ADC_SRC_HZ div d div 2 div ADC_SAMPLE_HZ)"

text \<open>The registers that \<^verbatim>\<open>adc_hw_init\<close> sets up, in order; then it binds the receiving channel.\<close>

definition adc_hw_setup :: "('z, unit) esp_op" where
  "adc_hw_setup = do {
     v \<leftarrow> rd32 ADC_LPPERI_CLK_EN;
     wr32 ADC_LPPERI_CLK_EN (v OR CK_EN_LP_ADC);
     v \<leftarrow> rd32 LPPERI_RST_EN;
     wr32 LPPERI_RST_EN (v OR RST_EN_LP_ADC);
     wr32 LPPERI_RST_EN (v AND NOT RST_EN_LP_ADC);
     wr32 FORCE_WPD XPD_SAR_PU;
     wr32 ATTEN1 0xFFFFFFFF;
     wr32 READER1_CTRL (push_bit 0 2 OR push_bit 28 1);
     wr32 MEAS1_MUX SAR1_DIG_FORCE;
     wr32 MEAS1_CTRL2 (START_FORCE OR EN_PAD_FORCE);
     for_each [0..<ADC_CH_MAX] (\<lambda>i. adc_pin_analog (g_ch_gpio ! i));
     adc_analog_init;
     adc_clk_init;
     wr32 ADC_FSM_WAIT (push_bit 16 100 OR push_bit 8 8 OR 5);
     wr32 ADC_CTRL (CTRL_SAR_CLK_GATED OR push_bit CTRL_SAR_CLK_DIV_S 1 OR CTRL_DATA_SAR_SEL OR
       push_bit CTRL_SAR1_PATT_LEN_S (of_nat ADC_CH_MAX - 1) OR push_bit CTRL_XPD_SAR1_FORCE_S XPD_SAR_PU);
     for_each [0..<4] (\<lambda>i. wr32 (ADC_PATT_TAB (of_nat i)) 0xFFFFFF);
     for_each [0..<ADC_CH_MAX] (\<lambda>i. adc_pattern_set (of_nat i) (of_nat i) ADC_ATTEN);
     wr32 ADC_CTRL2 (CTRL2_TIMER_SEL OR push_bit CTRL2_TIMER_TARGET_S adc_trigger_interval);
     wr32 ADC_DMA_CONF (of_nat ADC_FRAME_CONV)
   }"

definition adc_hw_init :: "ulmk_abi \<Rightarrow> 'z adc_st_scheme ep_call \<Rightarrow> ('z, cint) adc_op" where
  "adc_hw_init K call = do {
     adc_hw_setup;
     ep \<leftarrow> gets g_dma_eps;
     dma_channel_open_ahb K ep call DMA_SLOT_PERI DMA_PERIPH_ADC0 0
   }"

definition adc_run :: "bool \<Rightarrow> ('z, unit) esp_op" where
  "adc_run on = do {
     ctrl2 \<leftarrow> rd32 ADC_CTRL2;
     if on then do {
       wr32 ADC_DMA_CONF (of_nat ADC_FRAME_CONV OR DMA_CONF_TRANS);
       wr32 ADC_CTRL2 (ctrl2 OR CTRL2_TIMER_EN)
     } else do {
       wr32 ADC_CTRL2 (ctrl2 AND NOT CTRL2_TIMER_EN);
       wr32 ADC_DMA_CONF (of_nat ADC_FRAME_CONV)
     }
   }"

text \<open>The loop over the frame: the sums and counts per channel.\<close>

fun adc_sum_loop :: "u32 \<Rightarrow> nat list \<Rightarrow> u32 list \<times> u32 list \<Rightarrow> ('z, u32 list \<times> u32 list) esp_op" where
  "adc_sum_loop frame [] acc = ret acc"
| "adc_sum_loop frame (i # is) (sums, cnts) = do {
     w \<leftarrow> rd32 (frame + of_nat i * 4);
     let ch = RES_CHAN w;
     if RES_UNIT w \<noteq> 0 \<or> ch \<ge> of_nat ADC_CH_MAX then adc_sum_loop frame is (sums, cnts)
     else adc_sum_loop frame is
       (sums[unat ch := sums ! unat ch + RES_DATA w], cnts[unat ch := cnts ! unat ch + 1])
   }"

text \<open>The loop over the channels: the means, unless a channel has no result.\<close>

fun adc_mean_loop :: "nat list \<Rightarrow> u32 list \<times> u32 list \<Rightarrow> u16 list option" where
  "adc_mean_loop [] acc = Some []"
| "adc_mean_loop (i # is) (sums, cnts) =
     (if cnts ! i = 0 then None
      else map_option (\<lambda>xs. ucast (sums ! i div cnts ! i) # xs) (adc_mean_loop is (sums, cnts)))"

text \<open>Before a frame: the controller is stopped and its state machine and pattern pointer restarted.\<close>

definition adc_scan_prep :: "('z, unit) esp_op" where
  "adc_scan_prep = do {
     adc_run False;
     wr32 ADC_DMA_CONF (of_nat ADC_FRAME_CONV OR DMA_CONF_RESET_FSM);
     wr32 ADC_DMA_CONF (of_nat ADC_FRAME_CONV);
     ctrl \<leftarrow> rd32 ADC_CTRL;
     wr32 ADC_CTRL (ctrl OR CTRL_SAR1_PATT_P_CLEAR);
     wr32 ADC_CTRL ctrl
   }"

text \<open>The frame: status and, when it is OK, the four values.\<close>

definition adc_scan_frame :: "'l adc_layout_scheme \<Rightarrow> ulmk_abi \<Rightarrow> 'z adc_st_scheme ep_call \<Rightarrow> u32 \<Rightarrow> ('z, cint \<times> u16 list) adc_op" where
  "adc_scan_frame M K call ep = do {
     got \<leftarrow> dma_rx_arm K ep call DMA_SLOT_PERI (g_frame M) ADC_FRAME_BYTES;
     if got \<noteq> ULMK_OK K then ret (got, [])
     else do {
       adc_run True;
       got \<leftarrow> dma_rx_wait K ep call DMA_SLOT_PERI;
       adc_run False;
       if c_neg got then ret (got, [])
       else do {
         acc \<leftarrow> adc_sum_loop (g_frame M) [0..<min (unat (got div 4)) ADC_FRAME_CONV]
           (replicate ADC_CH_MAX 0, replicate ADC_CH_MAX 0);
         ret (case adc_mean_loop [0..<ADC_CH_MAX] acc of None \<Rightarrow> (ULMK_ETIMEOUT K, []) | Some xs \<Rightarrow> (ULMK_OK K, xs))
       }
     }
   }"

definition adc_hw_scan :: "'l adc_layout_scheme \<Rightarrow> ulmk_abi \<Rightarrow> 'z adc_st_scheme ep_call \<Rightarrow> ('z, cint \<times> u16 list) adc_op" where
  "adc_hw_scan M K call = do {
     adc_scan_prep;
     ep \<leftarrow> gets g_dma_eps;
     adc_scan_frame M K call ep
   }"

definition adc_hw_read :: "'l adc_layout_scheme \<Rightarrow> ulmk_abi \<Rightarrow> 'z adc_st_scheme ep_call \<Rightarrow> u8 \<Rightarrow> ('z, cint \<times> u16 option) adc_op" where
  "adc_hw_read M K call ch =
     (if ch \<ge> of_nat ADC_CH_MAX then ret (ULMK_EINVAL K, None)
      else do {
        (rc, xs) \<leftarrow> adc_hw_scan M K call;
        ret (if rc \<noteq> ULMK_OK K then (rc, None) else (ULMK_OK K, Some (xs ! unat ch)))
      })"

section \<open>The server\<close>

text \<open>
  The words of a reply that the server does not set are zero here, and so is the value of a failed
  read (in C what the variable held before): no client looks at them.
\<close>

definition adc_dispatch :: "'l adc_layout_scheme \<Rightarrow> ulmk_abi \<Rightarrow> 'z adc_st_scheme ep_call \<Rightarrow> msg \<Rightarrow> ('z, msg) adc_op" where
  "adc_dispatch M K call m = do {
     ok \<leftarrow> gets g_adc_hw_ok;
     if \<not> ok then ret \<lparr>label = 0, words = (\<lambda>_. 0)(0 := ULMK_ENOTSUP K)\<rparr>
     else if label m = ADC_MSG_READ then do {
       (rc, v) \<leftarrow> adc_hw_read M K call (ucast (words m 0));
       ret \<lparr>label = 0, words = (\<lambda>_. 0)(0 := rc, 1 := (case v of None \<Rightarrow> 0 | Some x \<Rightarrow> ucast x))\<rparr>
     } else if label m = ADC_MSG_SCAN then do {
       (rc, xs) \<leftarrow> adc_hw_scan M K call;
       ret \<lparr>label = 0, words = (if rc = ULMK_OK K
         then (\<lambda>i. if i = 0 then rc else if i \<le> 4 then ucast (xs ! (i - 1)) else 0)
         else (\<lambda>_. 0)(0 := rc))\<rparr>
     } else ret \<lparr>label = 0, words = (\<lambda>_. 0)(0 := ULMK_EINVAL K)\<rparr>
   }"

definition adc_server_start :: "ulmk_abi \<Rightarrow> 'z adc_st_scheme ep_call \<Rightarrow> ('z, unit) adc_op" where
  "adc_server_start K call = do {
     rc \<leftarrow> adc_hw_init K call;
     modify (\<lambda>st. st\<lparr>g_adc_hw_ok := (rc = ULMK_OK K)\<rparr>)
   }"

definition adc_init :: "ulmk_abi \<Rightarrow> u8 \<Rightarrow> ('z, u32) adc_op" where
  "adc_init K n = do {
     ep \<leftarrow> kern Ep_create;
     modify (\<lambda>st. st\<lparr>g_adc_ep := ep\<rparr>);
     if ep = ULMK_EP_INVALID K then ret (ULMK_TID_INVALID K)
     else do {
       tid \<leftarrow> kern (Thread_create ''adc'' 1 1536);
       when_do (tid \<noteq> ULMK_TID_INVALID K) (kern_do (Cap_grant tid ''MAP_PERIPH''));
       ret tid
     }
   }"

section \<open>The client\<close>

text \<open>\<open>junk\<close> are the words of the uninitialised message on the client's stack.\<close>

definition adc_read :: "ulmk_abi \<Rightarrow> 's ep_call \<Rightarrow> (nat \<Rightarrow> u32) \<Rightarrow> u8 \<Rightarrow> u16 option \<Rightarrow> ('s, cint \<times> u16 option) state" where
  "adc_read K call junk ch ov =
     (case ov of
        None \<Rightarrow> ret (ULMK_EINVAL K, None)
      | Some old \<Rightarrow> do {
          (rc, m) \<leftarrow> call \<lparr>label = ADC_MSG_READ, words = junk(0 := ucast ch)\<rparr>;
          if rc \<noteq> ULMK_OK K then ret (rc, ov)
          else if words m 0 \<noteq> ULMK_OK K then ret (words m 0, ov)
          else ret (ULMK_OK K, Some (ucast (words m 1)))
        })"

definition adc_scan_all :: "ulmk_abi \<Rightarrow> 's ep_call \<Rightarrow> (nat \<Rightarrow> u32) \<Rightarrow> u16 list option \<Rightarrow> ('s, cint \<times> u16 list option) state" where
  "adc_scan_all K call junk ov =
     (case ov of
        None \<Rightarrow> ret (ULMK_EINVAL K, None)
      | Some old \<Rightarrow> do {
          (rc, m) \<leftarrow> call \<lparr>label = ADC_MSG_SCAN, words = junk\<rparr>;
          if rc \<noteq> ULMK_OK K then ret (rc, ov)
          else if words m 0 \<noteq> ULMK_OK K then ret (words m 0, ov)
          else ret (ULMK_OK K, Some (List.map (\<lambda>i. if i < 4 then ucast (words m (1 + i)) else 0) [0..<ADC_CH_MAX] @ drop ADC_CH_MAX old))
        })"

section \<open>The means of a frame\<close>

text \<open>What one result adds to the sums and the counts, and the results of a channel.\<close>

definition accumulate :: "u32 \<Rightarrow> u32 list \<times> u32 list \<Rightarrow> u32 list \<times> u32 list" where
  "accumulate w acc = (case acc of (sums, cnts) \<Rightarrow>
     (let ch = RES_CHAN w in
      if RES_UNIT w \<noteq> 0 \<or> ch \<ge> of_nat ADC_CH_MAX then (sums, cnts)
      else (sums[unat ch := sums ! unat ch + RES_DATA w], cnts[unat ch := cnts ! unat ch + 1])))"

lemma accumulate_pair:
  "accumulate w (sums, cnts) =
     (if RES_UNIT w \<noteq> 0 \<or> RES_CHAN w \<ge> of_nat ADC_CH_MAX then (sums, cnts)
      else (sums[unat (RES_CHAN w) := sums ! unat (RES_CHAN w) + RES_DATA w],
            cnts[unat (RES_CHAN w) := cnts ! unat (RES_CHAN w) + 1]))"
  by (simp add: accumulate_def Let_def)

definition chan_data :: "u32 list \<Rightarrow> nat \<Rightarrow> nat list" where
  "chan_data ws c = List.map (\<lambda>w. unat (RES_DATA w)) (filter (\<lambda>w. RES_UNIT w = 0 \<and> unat (RES_CHAN w) = c) ws)"

text \<open>The reference: the mean of the results of each channel, rounded down.\<close>

definition chan_means :: "u32 list \<Rightarrow> u16 list option" where
  "chan_means ws =
     (if list_all (\<lambda>c. chan_data ws c \<noteq> []) [0..<ADC_CH_MAX]
      then Some (List.map (\<lambda>c. of_nat (sum_list (chan_data ws c) div length (chan_data ws c))) [0..<ADC_CH_MAX])
      else None)"

lemma run_adc_sum_loop:
  assumes "\<And>es i. list_all (\<lambda>e. \<exists>a. e = Dev (Rd32 a)) es \<Longrightarrow> i \<in> set is \<Longrightarrow>
      answer st (trace st @ es) (Dev (Rd32 (frame + of_nat i * 4))) = ws ! i"
  shows "run_state (adc_sum_loop frame is acc) st = (fold accumulate (List.map ((!) ws) is) acc,
    st\<lparr>trace := trace st @ List.map (\<lambda>i. Dev (Rd32 (frame + of_nat i * 4))) is\<rparr>)"
  using assms
proof (induction "is" arbitrary: acc st)
  case (Cons i "is")
  let ?e = "Dev (Rd32 (frame + of_nat i * 4))"
  obtain sums cnts where acc: "acc = (sums, cnts)"
    by (cases acc)
  have w: "answer st (trace st) ?e = ws ! i"
    using Cons.prems [of "[]" i] by simp
  have "run_state (adc_sum_loop frame is acc') (st\<lparr>trace := trace st @ [?e]\<rparr>) = (fold accumulate (List.map ((!) ws) is) acc',
      st\<lparr>trace := trace st @ ?e # List.map (\<lambda>i. Dev (Rd32 (frame + of_nat i * 4))) is\<rparr>)" for acc'
    using Cons.IH [of "st\<lparr>trace := trace st @ [?e]\<rparr>" acc'] Cons.prems [of "?e # es" for es] by simp
  then show ?case
    by (simp add: acc w accumulate_pair Let_def)
qed simp

lemma res_bounds: "unat (RES_DATA w) \<le> 4095"
proof -
  have "RES_DATA w \<le> 0xfff"
    unfolding RES_DATA_def by (rule word_and_le1)
  then show ?thesis
    by (simp add: word_le_nat_alt)
qed

lemma chan_data_bound: "sum_list (chan_data ws c) \<le> 4095 * length (chan_data ws c)" "length (chan_data ws c) \<le> length ws"
proof -
  show "sum_list (chan_data ws c) \<le> 4095 * length (chan_data ws c)"
    unfolding chan_data_def by (induction ws) (auto intro: add_mono res_bounds)
  show "length (chan_data ws c) \<le> length ws"
    by (simp add: chan_data_def)
qed

lemma chan_data_snoc: "chan_data (ws @ [w]) c =
    chan_data ws c @ (if RES_UNIT w = 0 \<and> unat (RES_CHAN w) = c then [unat (RES_DATA w)] else [])"
  by (simp add: chan_data_def)

lemma fold_accumulate:
  "fold accumulate ws (replicate ADC_CH_MAX 0, replicate ADC_CH_MAX 0) =
    (List.map (\<lambda>c. of_nat (sum_list (chan_data ws c))) [0..<ADC_CH_MAX],
     List.map (\<lambda>c. of_nat (length (chan_data ws c))) [0..<ADC_CH_MAX])"
proof (induction ws rule: rev_induct)
  case Nil
  show ?case
    by (auto simp: chan_data_def map_replicate_const)
next
  case (snoc w ws)
  let ?s = "List.map (\<lambda>c. of_nat (sum_list (chan_data ws c)) :: u32) [0..<ADC_CH_MAX]"
  let ?n = "List.map (\<lambda>c. of_nat (length (chan_data ws c)) :: u32) [0..<ADC_CH_MAX]"
  show ?case
  proof (cases "RES_UNIT w \<noteq> 0 \<or> RES_CHAN w \<ge> of_nat ADC_CH_MAX")
    case True
    then have "\<not> (RES_UNIT w = 0 \<and> unat (RES_CHAN w) = c)" if "c < ADC_CH_MAX" for c
      using that by (auto simp: ADC_CH_MAX_def word_le_nat_alt)
    with True snoc show ?thesis
      by (auto simp: accumulate_pair chan_data_snoc)
  next
    case False
    then have ch: "RES_UNIT w = 0" "unat (RES_CHAN w) < ADC_CH_MAX"
      by (auto simp: ADC_CH_MAX_def word_le_nat_alt)
    have "?s[unat (RES_CHAN w) := ?s ! unat (RES_CHAN w) + RES_DATA w] =
        List.map (\<lambda>c. of_nat (sum_list (chan_data (ws @ [w]) c))) [0..<ADC_CH_MAX]"
      using ch by (intro nth_equalityI) (auto simp: nth_list_update chan_data_snoc)
    moreover have "?n[unat (RES_CHAN w) := ?n ! unat (RES_CHAN w) + 1] =
        List.map (\<lambda>c. of_nat (length (chan_data (ws @ [w]) c))) [0..<ADC_CH_MAX]"
      using ch by (intro nth_equalityI) (auto simp: nth_list_update chan_data_snoc)
    ultimately show ?thesis
      using False snoc by (simp add: accumulate_pair)
  qed
qed

lemma adc_mean_loop_spec:
  assumes "\<And>i. i \<in> set is \<Longrightarrow> sums ! i = of_nat (s i) \<and> cnts ! i = of_nat (n i) \<and> s i \<le> 4095 * n i \<and> n i \<le> 16"
  shows "adc_mean_loop is (sums, cnts) =
    (if list_all (\<lambda>i. n i \<noteq> 0) is then Some (List.map (\<lambda>i. of_nat (s i div n i)) is) else None)"
  using assms
proof (induction "is")
  case (Cons i "is")
  have i: "sums ! i = of_nat (s i)" "cnts ! i = of_nat (n i)" "s i \<le> 65520" "n i \<le> 16"
    using Cons.prems [of i] by auto
  then have u: "unat (sums ! i) = s i" "unat (cnts ! i) = n i"
    by (simp_all add: unat_of_nat take_bit_nat_eq_self)
  have "cnts ! i = 0 \<longleftrightarrow> n i = 0"
    using u(2) by (auto simp: unat_eq_0 [symmetric])
  moreover have "ucast (sums ! i div cnts ! i) = (of_nat (s i div n i) :: u16)"
    by (metis u unat_div_distrib of_nat_unat)
  ultimately show ?case
    using Cons.IH Cons.prems by auto
qed simp

lemma means_of_frame:
  assumes "length ws \<le> 16"
  shows "adc_mean_loop [0..<ADC_CH_MAX] (fold accumulate ws (replicate ADC_CH_MAX 0, replicate ADC_CH_MAX 0)) = chan_means ws"
  unfolding fold_accumulate chan_means_def
  by (subst adc_mean_loop_spec [where s = "\<lambda>c. sum_list (chan_data ws c)" and n = "\<lambda>c. length (chan_data ws c)"])
    (use chan_data_bound [of ws] assms in \<open>auto intro: le_trans simp: list_all_iff\<close>)

section \<open>A scan\<close>

text \<open>The driver as its server's start leaves it, on top of the DMA server.\<close>

definition adc_ready :: "ulmk_abi \<Rightarrow> 'z adc_st_scheme \<Rightarrow> bool" where
  "adc_ready K st \<longleftrightarrow> g_adc_hw_ok st \<and> g_hw_ahb st \<and> g_dma_eps st \<noteq> ULMK_EP_INVALID K \<and> length (g_ch st) = 2 \<and>
     ac_open (g_ch st ! 1) \<and> ac_periph (g_ch st ! 1) = ucast DMA_PERIPH_ADC0"

text \<open>The frame in memory, as the CPU reads it once the stale cache lines have been dropped.\<close>

definition frame_arrives :: "u32 \<Rightarrow> u32 list \<Rightarrow> (esp_act event list \<Rightarrow> esp_act event \<Rightarrow> u32) \<Rightarrow> bool" where
  "frame_arrives frame ws ans \<longleftrightarrow> (\<forall>t i. i < length ws \<and> Dev (Dcache_invalidate frame ADC_FRAME_BYTES) \<in> set t \<longrightarrow>
     ans t (Dev (Rd32 (frame + of_nat i * 4))) = ws ! i)"

lemma logs_adc_run: "P (Dev (Rd32 ADC_CTRL2)) \<Longrightarrow> (\<And>v. P (Dev (Wr32 ADC_DMA_CONF v))) \<Longrightarrow> (\<And>v. P (Dev (Wr32 ADC_CTRL2 v))) \<Longrightarrow>
    logs P (adc_run on)"
  unfolding adc_run_def by (intro logs_intros)

lemma run_adc_run: "\<exists>es. run_state (adc_run on) st = ((), st\<lparr>trace := trace st @ es\<rparr>)"
  by (rule logsE [OF logs_adc_run [of "\<lambda>_. True" on], of st]) auto

lemma run_adc_scan_prep: "\<exists>es. run_state adc_scan_prep st = ((), st\<lparr>trace := trace st @ es\<rparr>)"
proof -
  have "logs (\<lambda>_. True) adc_scan_prep"
    unfolding adc_scan_prep_def by (intro logs_intros logs_adc_run TrueI)
  then show ?thesis
    by (rule logsE [where st = st]) auto
qed

lemma ready_simps [simp]:
  "adc_ready K (st\<lparr>trace := t\<rparr>) = adc_ready K st"
  "trace (ahb_armed slot dst len st) = trace st" "answer (ahb_armed slot dst len st) = answer st"
  "trace (ahb_disarmed slot st) = trace st" "answer (ahb_disarmed slot st) = answer st"
  "g_dma_eps (ahb_armed slot dst len st) = g_dma_eps st" "length (g_ch (ahb_armed slot dst len st)) = length (g_ch st)"
  "(ahb_armed slot dst len st)\<lparr>trace := t\<rparr> = ahb_armed slot dst len (st\<lparr>trace := t\<rparr>)"
  "(ahb_disarmed slot st)\<lparr>trace := t\<rparr> = ahb_disarmed slot (st\<lparr>trace := t\<rparr>)"
  by (simp_all add: adc_ready_def ahb_armed_def ahb_disarmed_def)

lemma peri_slot: "unat DMA_SLOT_PERI = 1" "DMA_SLOT_PERI < DMA_NCH" "ucast (ucast DMA_PERIPH_ADC0 :: u8) \<noteq> DMA_PERIPH_NONE"
  "ADC_FRAME_BYTES = 64" "(64 :: u32) \<le> AHB_DESC_MAX_LEN"
  by (simp_all add: DMA_SLOT_PERI_def DMA_NCH_def DMA_PERIPH_ADC0_def DMA_PERIPH_NONE_def ADC_FRAME_BYTES_def ADC_FRAME_CONV_def
      ADC_CH_MAX_def ADC_PASSES_def AHB_DESC_MAX_LEN_def)

lemma run_adc_scan:
  assumes "abi_ok K" "adc_ready K st" "g_frame M \<noteq> 0"
    and "ahb_completes M K DMA_SLOT_PERI (of_nat (4 * length ws)) (answer st)" "length ws \<le> 16"
    and "frame_arrives (g_frame M) ws (answer st)"
  shows "fst (run_state (adc_hw_scan M K (ahb_srv M K)) st) =
    (case chan_means ws of None \<Rightarrow> (ULMK_ETIMEOUT K, []) | Some xs \<Rightarrow> (ULMK_OK K, xs))"
proof -
  let ?call = "ahb_srv M K" and ?n = "of_nat (4 * length ws) :: u32"
  obtain e1 where run1: "run_state adc_scan_prep st = ((), st\<lparr>trace := trace st @ e1\<rparr>)"
    using run_adc_scan_prep by blast
  define s1 where "s1 = st\<lparr>trace := trace st @ e1\<rparr>"
  have s1: "adc_ready K s1" "answer s1 = answer st" "g_dma_eps s1 = g_dma_eps st"
    using assms(2) by (simp_all add: s1_def)
  have ep: "g_dma_eps s1 \<noteq> ULMK_EP_INVALID K" "length (g_ch s1) = 2"
    using s1(1) by (simp_all add: adc_ready_def)
  have "ahb_arm_ok s1 DMA_SLOT_PERI (g_frame M) ADC_FRAME_BYTES"
    using s1(1) assms(3) by (simp add: ahb_arm_ok_def adc_ready_def peri_slot)
  from run_ahb_rx_arm(1) [OF ep(2) this, of M K] obtain e2 where
    arm: "run_state (dma_rx_arm K (g_dma_eps st) ?call DMA_SLOT_PERI (g_frame M) ADC_FRAME_BYTES) s1 =
      (ULMK_OK K, ahb_armed DMA_SLOT_PERI (g_frame M) ADC_FRAME_BYTES (s1\<lparr>trace := trace s1 @ e2\<rparr>))"
    using ep(1) unfolding run_ahb_calls s1(3) by simp
  define s2 where "s2 = ahb_armed DMA_SLOT_PERI (g_frame M) ADC_FRAME_BYTES (s1\<lparr>trace := trace s1 @ e2\<rparr>)"
  obtain e3 where run3: "run_state (adc_run True) s2 = ((), s2\<lparr>trace := trace s2 @ e3\<rparr>)"
    using run_adc_run by blast
  define s3 where "s3 = s2\<lparr>trace := trace s2 @ e3\<rparr>"
  have s3: "answer s3 = answer st" "length (g_ch s3) = 2" "g_dma_eps s3 = g_dma_eps st"
    "ac_rx_dst (g_ch s3 ! unat DMA_SLOT_PERI) = g_frame M" "ac_rx_len (g_ch s3 ! unat DMA_SLOT_PERI) = ADC_FRAME_BYTES"
    using ep(2) s1 by (simp_all add: s3_def s2_def ahb_armed_def peri_slot)
  have "unat ?n = 4 * length ws"
    using assms(5) by (simp add: unat_of_nat take_bit_nat_eq_self del: of_nat_mult)
  then have n: "?n \<le> 64" "unat (?n div 4) = length ws"
    using assms(5) by (simp_all add: word_le_nat_alt unat_div_distrib del: of_nat_mult)
  have "run_state (ahb_rx_wait M K DMA_SLOT_PERI) s3 = (?n, (ahb_disarmed DMA_SLOT_PERI s3)
    \<lparr>trace := trace s3 @ wait_start DMA_SLOT_PERI (g_ch s3 ! unat DMA_SLOT_PERI) @
       wait_end M DMA_SLOT_PERI (g_ch s3 ! unat DMA_SLOT_PERI)\<rparr>)"
    using assms(3,4) n(1) s3 by (intro run_ahb_rx_wait_done) (simp_all add: peri_slot)
  then obtain e4 where wait: "run_state (dma_rx_wait K (g_dma_eps st) ?call DMA_SLOT_PERI) s3 =
      (?n, ahb_disarmed DMA_SLOT_PERI (s3\<lparr>trace := trace s3 @ e4\<rparr>))"
    and inv: "Dev (Dcache_invalidate (g_frame M) ADC_FRAME_BYTES) \<in> set e4"
    using ep(1) s3(4,5) unfolding run_ahb_calls s1(3) by (simp add: wait_end_def)
  define s4 where "s4 = ahb_disarmed DMA_SLOT_PERI (s3\<lparr>trace := trace s3 @ e4\<rparr>)"
  obtain e5 where run5: "run_state (adc_run False) s4 = ((), s4\<lparr>trace := trace s4 @ e5\<rparr>)"
    using run_adc_run by blast
  define s5 where "s5 = s4\<lparr>trace := trace s4 @ e5\<rparr>"
  have s5: "answer s5 = answer st" "Dev (Dcache_invalidate (g_frame M) ADC_FRAME_BYTES) \<in> set (trace s5)"
    using s3(1) inv by (simp_all add: s5_def s4_def)
  have "List.map ((!) ws) [0..<length ws] = ws"
    by (rule map_nth)
  then obtain s6 where sums: "run_state (adc_sum_loop (g_frame M) [0..<length ws] (replicate ADC_CH_MAX 0, replicate ADC_CH_MAX 0)) s5 =
      (fold accumulate ws (replicate ADC_CH_MAX 0, replicate ADC_CH_MAX 0), s6)"
    using run_adc_sum_loop [of "[0..<length ws]" s5 "g_frame M" ws] assms(6) s5 unfolding frame_arrives_def by simp
  have len: "min (unat (?n div 4)) ADC_FRAME_CONV = length ws"
    using assms(5) n(2) by (simp add: ADC_FRAME_CONV_def ADC_CH_MAX_def ADC_PASSES_def)
  have pro: "run_state (adc_hw_scan M K ?call) st = run_state (adc_scan_frame M K ?call (g_dma_eps st)) s1"
    using run1 by (simp add: adc_hw_scan_def s1_def)
  show ?thesis
    unfolding pro adc_scan_frame_def run_bind [OF arm [folded s2_def]] run_bind [OF run3 [folded s3_def]] run_bind [OF wait [folded s4_def]]
      run_bind [OF run5 [folded s5_def]] simp_thms if_False if_True
    using not_neg_small [of "?n" "?n"] n(1) sums len means_of_frame [OF assms(5)] by simp
qed

lemma length_chan_means: "chan_means ws = Some vs \<Longrightarrow> length vs = ADC_CH_MAX"
  by (auto simp: chan_means_def split: if_splits)

text \<open>C34: A scan returns the means of the frame.  When the DMA has stored a frame of up to sixteen results
  in time, \<open>adc_scan_all\<close>, through both servers, answers with the mean of the results of each channel,
  rounded down (results of the other converter or of channels that do not exist are ignored, and
  nothing overflows), and \<open>adc_read\<close> with that of one channel; when a channel has no result at all,
  both report a timeout and leave the caller's variables alone.\<close>

theorem adc_reads_are_means:
  assumes "abi_ok K" "adc_ready K st" "g_frame M \<noteq> 0" "length ws \<le> 16" "ch < 4"
    and "ahb_completes M K DMA_SLOT_PERI (of_nat (4 * length ws)) (answer st)" "frame_arrives (g_frame M) ws (answer st)"
  shows "fst (run_state (adc_scan_all K (ipc K (adc_dispatch M K (ahb_srv M K))) junk (Some old)) st) =
      (case chan_means ws of None \<Rightarrow> (ULMK_ETIMEOUT K, Some old) | Some vs \<Rightarrow> (ULMK_OK K, Some (vs @ drop 4 old))) \<and>
    fst (run_state (adc_read K (ipc K (adc_dispatch M K (ahb_srv M K))) junk ch (Some v)) st) =
      (case chan_means ws of None \<Rightarrow> (ULMK_ETIMEOUT K, Some v) | Some vs \<Rightarrow> (ULMK_OK K, Some (vs ! unat ch)))"
proof -
  obtain st' where scan: "run_state (adc_hw_scan M K (ahb_srv M K)) st =
      ((case chan_means ws of None \<Rightarrow> (ULMK_ETIMEOUT K, []) | Some xs \<Rightarrow> (ULMK_OK K, xs)), st')"
    using run_adc_scan [OF assms(1-3,6,4,7)] by (cases "run_state (adc_hw_scan M K (ahb_srv M K)) st") auto
  have ok: "g_adc_hw_ok st" "ULMK_ETIMEOUT K \<noteq> ULMK_OK K"
    using assms(1,2) by (auto simp: adc_ready_def abi_ok_def abi_errors_def)
  have ch: "\<not> of_nat ADC_CH_MAX \<le> ch"
    using assms(5) by (simp add: ADC_CH_MAX_def not_le)
  have four: "[0..<ADC_CH_MAX] = [0, 1, 2, 3]" "ADC_CH_MAX = 4"
    by (simp_all add: ADC_CH_MAX_def upt_rec)
  have nth4: "[vs ! 0, vs ! Suc 0, vs ! Suc (Suc 0), vs ! (ADC_CH_MAX - Suc 0)] = vs" if "length vs = ADC_CH_MAX" for vs :: "u16 list"
    using that by (auto simp: ADC_CH_MAX_def numeral_eq_Suc length_Suc_conv)
  show ?thesis
  proof (cases "chan_means ws")
    case None
    then show ?thesis
      using scan ok ch
      by (simp add: adc_scan_all_def adc_read_def ipc_def adc_dispatch_def adc_hw_read_def const_defs ucast_up_ucast_id is_up)
  next
    case (Some vs)
    then show ?thesis
      using scan ok ch nth4 [of vs] length_chan_means [OF Some] four
      by (simp add: adc_scan_all_def adc_read_def ipc_def adc_dispatch_def adc_hw_read_def const_defs ucast_up_ucast_id is_up
          ucast_down_ucast_id)
  qed
qed

section \<open>When the controller samples\<close>

text \<open>The marks of a log: the sampling timer going on or off, and the receiving channel starting to listen.\<close>

datatype adc_mark = Timer bool | Listening

definition marks :: "esp_act event list \<Rightarrow> adc_mark list" where
  "marks es = concat (List.map (\<lambda>e. case e of
     Dev (Wr32 a v) \<Rightarrow> (if a = ADC_CTRL2 then [Timer (v AND CTRL2_TIMER_EN \<noteq> 0)]
       else if a = PDMA_IN_LINK DMA_SLOT_PERI then [Listening] else [])
   | _ \<Rightarrow> []) es)"

lemma marks_simps [simp]:
  "marks [] = []" "marks (es @ es') = marks es @ marks es'" "marks (Kern c # es) = marks es"
  "marks (Dev (Rd32 a) # es) = marks es" "marks (Dev (Dcache_invalidate p n) # es) = marks es"
  "marks (Dev (Wr32 a v) # es) = (if a = ADC_CTRL2 then Timer (v AND CTRL2_TIMER_EN \<noteq> 0) # marks es
     else if a = PDMA_IN_LINK DMA_SLOT_PERI then Listening # marks es else marks es)"
  by (simp_all add: marks_def)

definition unmarked :: "esp_act event \<Rightarrow> bool" where
  "unmarked e \<longleftrightarrow> (\<forall>a v. e = Dev (Wr32 a v) \<longrightarrow> a \<noteq> ADC_CTRL2 \<and> a \<noteq> PDMA_IN_LINK DMA_SLOT_PERI)"

lemma marks_unmarked: "list_all unmarked es \<Longrightarrow> marks es = []"
  by (induction es) (auto simp: marks_def unmarked_def split: event.splits esp_act.splits)

lemma adc_regs_apart:
  "ADC_DMA_CONF \<noteq> ADC_CTRL2" "ADC_CTRL \<noteq> ADC_CTRL2" "PDMA_IN_LINK DMA_SLOT_PERI \<noteq> ADC_CTRL2"
  "ADC_DMA_CONF \<noteq> PDMA_IN_LINK DMA_SLOT_PERI" "ADC_CTRL \<noteq> PDMA_IN_LINK DMA_SLOT_PERI"
  "PDMA_IN_CONF0 DMA_SLOT_PERI \<noteq> ADC_CTRL2" "PDMA_IN_PERI_SEL DMA_SLOT_PERI \<noteq> ADC_CTRL2"
  "PDMA_IN_INT_CLR DMA_SLOT_PERI \<noteq> ADC_CTRL2" "PDMA_IN_LINK_ADDR DMA_SLOT_PERI \<noteq> ADC_CTRL2"
  "PDMA_IN_INT_ENA DMA_SLOT_PERI \<noteq> ADC_CTRL2"
  "PDMA_IN_CONF0 DMA_SLOT_PERI \<noteq> PDMA_IN_LINK DMA_SLOT_PERI" "PDMA_IN_PERI_SEL DMA_SLOT_PERI \<noteq> PDMA_IN_LINK DMA_SLOT_PERI"
  "PDMA_IN_INT_CLR DMA_SLOT_PERI \<noteq> PDMA_IN_LINK DMA_SLOT_PERI" "PDMA_IN_LINK_ADDR DMA_SLOT_PERI \<noteq> PDMA_IN_LINK DMA_SLOT_PERI"
  "PDMA_IN_INT_ENA DMA_SLOT_PERI \<noteq> PDMA_IN_LINK DMA_SLOT_PERI"
  by (simp_all add: ADC_DMA_CONF_def ADC_CTRL_def ADC_CTRL2_def ADC_BASE_def const_defs DMA_SLOT_PERI_def)

lemma timer_bit: "CTRL2_TIMER_EN \<noteq> 0" "(v AND NOT CTRL2_TIMER_EN) AND CTRL2_TIMER_EN = 0"
  by (simp add: CTRL2_TIMER_EN_def) (auto intro!: bit_eqI simp: bit_simps)

lemma adc_run_marks: "\<exists>es. run_state (adc_run on) st = ((), st\<lparr>trace := trace st @ es\<rparr>) \<and> marks es = [Timer on]"
proof (cases on)
  case True
  then show ?thesis
    by (intro exI [of _ "[Dev (Rd32 ADC_CTRL2), Dev (Wr32 ADC_DMA_CONF (of_nat ADC_FRAME_CONV OR DMA_CONF_TRANS)),
      Dev (Wr32 ADC_CTRL2 (answer st (trace st) (Dev (Rd32 ADC_CTRL2)) OR CTRL2_TIMER_EN))]"])
      (simp add: adc_run_def timer_bit adc_regs_apart)
next
  case False
  then show ?thesis
    by (intro exI [of _ "[Dev (Rd32 ADC_CTRL2),
      Dev (Wr32 ADC_CTRL2 (answer st (trace st) (Dev (Rd32 ADC_CTRL2)) AND NOT CTRL2_TIMER_EN)),
      Dev (Wr32 ADC_DMA_CONF (of_nat ADC_FRAME_CONV))]"])
      (simp add: adc_run_def timer_bit adc_regs_apart)
qed

lemma adc_prep_marks: "\<exists>es. run_state adc_scan_prep st = ((), st\<lparr>trace := trace st @ es\<rparr>) \<and> marks es = [Timer False]"
proof -
  obtain es where es: "run_state (adc_run False) st = ((), st\<lparr>trace := trace st @ es\<rparr>)" "marks es = [Timer False]"
    using adc_run_marks by blast
  have "\<exists>ls. run_state adc_scan_prep st = ((), st\<lparr>trace := trace st @ es @ ls\<rparr>) \<and> list_all unmarked ls"
    using es(1) by (auto simp: adc_scan_prep_def unmarked_def adc_regs_apart)
  with es(2) show ?thesis
    by (auto simp: marks_unmarked)
qed

text \<open>The frame: either the channel refuses, or it listens, samples and stops.\<close>

definition desc_apart :: "'l adc_layout_scheme \<Rightarrow> bool" where
  "desc_apart M \<longleftrightarrow> (\<forall>i \<in> {0, 4, 8}. desc_nc_ahb (in_desc M 1) + i \<noteq> ADC_CTRL2 \<and>
     desc_nc_ahb (in_desc M 1) + i \<noteq> PDMA_IN_LINK DMA_SLOT_PERI)"

lemma arm_marks: "desc_apart M \<Longrightarrow> marks (ahb_arm_events M DMA_SLOT_PERI p dst len) = [Listening]"
  by (simp add: ahb_arm_events_def Let_def desc_apart_def peri_slot adc_regs_apart)

lemma adc_sum_loop_marks: "\<exists>r es. run_state (adc_sum_loop frame is acc) st = (r, st\<lparr>trace := trace st @ es\<rparr>) \<and> marks es = []"
proof -
  have "logs unmarked (adc_sum_loop frame is acc)"
  proof (induction "is" arbitrary: acc)
    case (Cons i "is")
    then show ?case
      by (cases acc) (auto simp: Let_def unmarked_def intro!: logs_intros)
  qed (simp add: logs_intros)
  then show ?thesis
    by (rule logsE [where st = st]) (auto dest: marks_unmarked)
qed

definition adc_block :: "adc_mark list \<Rightarrow> bool" where
  "adc_block ms \<longleftrightarrow> ms = [] \<or> ms = [Timer False] \<or> ms = [Timer False, Listening, Timer True, Timer False]"

definition adc_quiet_step :: "('z, 'a) adc_op \<Rightarrow> bool" where
  "adc_quiet_step m \<longleftrightarrow> (\<forall>st. length (g_ch st) = 2 \<longrightarrow>
     (\<exists>es. trace (snd (run_state m st)) = trace st @ es \<and> adc_block (marks es) \<and>
        length (g_ch (snd (run_state m st))) = 2))"

lemma adc_scan_marks:
  assumes "abi_ok K" "desc_apart M" "length (g_ch st) = 2"
  shows "\<exists>es. trace (snd (run_state (adc_hw_scan M K (ahb_srv M K)) st)) = trace st @ es \<and> adc_block (marks es) \<and>
    length (g_ch (snd (run_state (adc_hw_scan M K (ahb_srv M K)) st))) = 2"
proof -
  let ?call = "ahb_srv M K" and ?run = "run_state (adc_hw_scan M K (ahb_srv M K)) st"
  obtain e1 where e1: "run_state adc_scan_prep st = ((), st\<lparr>trace := trace st @ e1\<rparr>)" "marks e1 = [Timer False]"
    using adc_prep_marks by blast
  define s1 where "s1 = st\<lparr>trace := trace st @ e1\<rparr>"
  have scan: "?run = run_state (adc_scan_frame M K ?call (g_dma_eps st)) s1"
    using e1(1) by (simp add: adc_hw_scan_def s1_def)
  have l1: "length (g_ch s1) = 2"
    using assms(3) by (simp add: s1_def)
  let ?arm = "run_state (dma_rx_arm K (g_dma_eps st) ?call DMA_SLOT_PERI (g_frame M) ADC_FRAME_BYTES) s1"
  have err: "ULMK_EINVAL K \<noteq> ULMK_OK K" "ULMK_ENOTSUP K \<noteq> ULMK_OK K"
    using abi_ok_neg [OF assms(1)] assms(1) by (auto simp: c_neg_def)
  show "\<exists>es. trace (snd ?run) = trace st @ es \<and> adc_block (marks es) \<and> length (g_ch (snd ?run)) = 2"
  proof (cases "g_dma_eps st \<noteq> ULMK_EP_INVALID K \<and> ahb_arm_ok s1 DMA_SLOT_PERI (g_frame M) ADC_FRAME_BYTES")
    case False
    then obtain rc where "?arm = (rc, s1)" "rc \<noteq> ULMK_OK K"
      using err run_ahb_rx_arm(2) [OF l1, of DMA_SLOT_PERI "g_frame M" ADC_FRAME_BYTES M K]
      unfolding run_ahb_calls by (cases "g_dma_eps st = ULMK_EP_INVALID K") auto
    then have "snd ?run = s1"
      unfolding scan adc_scan_frame_def by simp
    with e1(2) l1 show ?thesis
      by (simp add: s1_def adc_block_def)
  next
    case True
    define e2 where "e2 = ahb_arm_events M DMA_SLOT_PERI (ac_periph (g_ch s1 ! unat DMA_SLOT_PERI)) (g_frame M) ADC_FRAME_BYTES"
    define s2 where "s2 = ahb_armed DMA_SLOT_PERI (g_frame M) ADC_FRAME_BYTES (s1\<lparr>trace := trace s1 @ e2\<rparr>)"
    have arm: "?arm = (ULMK_OK K, s2)"
      using run_ahb_rx_arm(1) [OF l1, of DMA_SLOT_PERI "g_frame M" ADC_FRAME_BYTES M K] True
      unfolding run_ahb_calls by (simp add: s2_def e2_def)
    obtain e3 where e3: "run_state (adc_run True) s2 = ((), s2\<lparr>trace := trace s2 @ e3\<rparr>)" "marks e3 = [Timer True]"
      using adc_run_marks by blast
    define s3 where "s3 = s2\<lparr>trace := trace s2 @ e3\<rparr>"
    have l3: "length (g_ch s3) = 2"
      using l1 by (simp add: s3_def s2_def)
    from run_ahb_rx_wait [OF peri_slot(2) l3, of M K] obtain rc e4 where
      "run_state (ahb_rx_wait M K DMA_SLOT_PERI) s3 = (rc, (if ac_rx_dst (g_ch s3 ! unat DMA_SLOT_PERI) = 0 then s3 else
         (ahb_disarmed DMA_SLOT_PERI s3)\<lparr>trace := trace s3 @ e4\<rparr>))"
      and e4: "list_all (\<lambda>e. \<forall>a v. e = Dev (Wr32 a v) \<longrightarrow> a = PDMA_IN_INT_ENA DMA_SLOT_PERI \<or> a = PDMA_IN_INT_CLR DMA_SLOT_PERI) e4"
      by blast
    then obtain s4 e4' where wait: "run_state (dma_rx_wait K (g_dma_eps st) ?call DMA_SLOT_PERI) s3 = (rc, s4)"
      and s4: "trace s4 = trace s3 @ e4'" "length (g_ch s4) = 2" "e4' = [] \<or> e4' = e4"
      using True l3 unfolding run_ahb_calls by (auto simp: ahb_disarmed_def split: if_splits)
    have "list_all unmarked e4'"
      using s4(3) e4 by (elim disjE) (auto simp: unmarked_def adc_regs_apart adc_regs_apart [symmetric] elim!: list.pred_mono_strong)
    then have m4: "marks e4' = []"
      by (rule marks_unmarked)
    obtain e5 where e5: "run_state (adc_run False) s4 = ((), s4\<lparr>trace := trace s4 @ e5\<rparr>)" "marks e5 = [Timer False]"
      using adc_run_marks by blast
    define s5 where "s5 = s4\<lparr>trace := trace s4 @ e5\<rparr>"
    have "\<exists>e6. snd ?run = s5\<lparr>trace := trace s5 @ e6\<rparr> \<and> marks e6 = []"
    proof (cases "c_neg rc")
      case True
      then have "snd ?run = s5"
        unfolding scan adc_scan_frame_def run_bind [OF arm] run_bind [OF e3(1) [folded s3_def]] run_bind [OF wait]
          run_bind [OF e5(1) [folded s5_def]] simp_thms if_False if_True by simp
      then show ?thesis
        by (intro exI [of _ "[]"]) simp
    next
      case False
      obtain r e6 where "run_state (adc_sum_loop (g_frame M) [0..<min (unat (rc div 4)) ADC_FRAME_CONV]
          (replicate ADC_CH_MAX 0, replicate ADC_CH_MAX 0)) s5 = (r, s5\<lparr>trace := trace s5 @ e6\<rparr>)" "marks e6 = []"
        using adc_sum_loop_marks by blast
      moreover from this(1) False have "snd ?run = s5\<lparr>trace := trace s5 @ e6\<rparr>"
        unfolding scan adc_scan_frame_def run_bind [OF arm] run_bind [OF e3(1) [folded s3_def]] run_bind [OF wait]
          run_bind [OF e5(1) [folded s5_def]] simp_thms if_False if_True by simp
      ultimately show ?thesis
        by blast
    qed
    then obtain e6 where e6: "snd ?run = s5\<lparr>trace := trace s5 @ e6\<rparr>" "marks e6 = []"
      by blast
    have "marks e2 = [Listening]"
      using arm_marks [OF assms(2)] by (simp add: e2_def)
    with e6 e1(2) e3(2) m4 e5(2) s4(1,2) show ?thesis
      by (intro exI [of _ "e1 @ e2 @ e3 @ e4' @ e5 @ e6"]) (simp add: s5_def s3_def s2_def s1_def adc_block_def)
  qed
qed

lemma adc_scan_block: "abi_ok K \<Longrightarrow> desc_apart M \<Longrightarrow> adc_quiet_step (adc_hw_scan M K (ahb_srv M K))"
  unfolding adc_quiet_step_def using adc_scan_marks by blast

named_theorems quiet_rules \<open>steps whose log is one block\<close>

lemma quiet_step_ret [quiet_rules]: "adc_quiet_step (ret x)"
  by (simp add: adc_quiet_step_def adc_block_def)

lemma quiet_step_then_ret [quiet_rules]: "adc_quiet_step m \<Longrightarrow> adc_quiet_step (do { (a, b) \<leftarrow> m; ret (f a b) })"
  by (simp add: adc_quiet_step_def case_prod_beta)

lemma quiet_step_if [quiet_rules]: "adc_quiet_step m \<Longrightarrow> adc_quiet_step n \<Longrightarrow> adc_quiet_step (if b then m else n)"
  by simp

lemma quiet_step_gets [quiet_rules]: "(\<And>x. adc_quiet_step (f x)) \<Longrightarrow> adc_quiet_step (State_Monad.bind (gets g) f)"
  by (simp add: adc_quiet_step_def)

lemma adc_dispatch_block:
  assumes "abi_ok K" "desc_apart M"
  shows "adc_quiet_step (adc_dispatch M K (ahb_srv M K) m)"
  unfolding adc_dispatch_def adc_hw_read_def by (intro quiet_rules adc_scan_block [OF assms])


section \<open>The start of the server\<close>

lemma logs_regi2c: "logs (\<lambda>_. True) (regi2c_xfer r w d)"
proof -
  have "logs (\<lambda>_. True) (regi2c_spin n)" for n
    by (induction n) (auto intro!: logs_intros)
  then show ?thesis
    unfolding regi2c_xfer_def regi2c_idle_def Let_def by (intro logs_intros TrueI)
qed

lemma logs_for_each: "(\<And>x. logs P (f x)) \<Longrightarrow> logs P (for_each xs f)"
  by (induction xs) (auto intro!: logs_intros)

text \<open>On a running DMA server with a notification for channel 1, the start leaves the driver ready.\<close>

lemma logs_adc_setup: "logs (\<lambda>_. True) adc_hw_setup"
  unfolding adc_hw_setup_def adc_pin_analog_def adc_analog_init_def regi2c_write_field_def adc_clk_init_def adc_pattern_set_def Let_def
  by (intro logs_intros logs_for_each logs_regi2c TrueI)

lemma adc_start_ready:
  assumes "abi_ok K" "g_hw_ahb st" "g_dma_eps st \<noteq> ULMK_EP_INVALID K" "length (g_ch st) = 2"
    and "ac_notif (g_ch st ! 1) \<noteq> ULMK_NOTIF_INVALID K"
  shows "adc_ready K (snd (run_state (adc_server_start K (ahb_srv M K)) st))"
proof -
  obtain u es where es: "run_state adc_hw_setup st = (u, st\<lparr>trace := trace st @ es\<rparr>)"
    using logs_adc_setup by (rule logsE)
  have "\<not> DMA_NCH \<le> DMA_SLOT_PERI" "DMA_PERIPH_ADC0 \<noteq> DMA_PERIPH_NONE" "\<not> 0x3F < DMA_PERIPH_ADC0"
    using peri_slot(2) by (simp_all add: not_le DMA_PERIPH_ADC0_def DMA_PERIPH_NONE_def)
  then show ?thesis
    using assms es by (simp add: adc_server_start_def adc_hw_init_def run_ahb_calls ahb_channel_open_def adc_ready_def peri_slot)
qed

section \<open>A board\<close>

definition sample_adc_layout :: adc_layout where
  "sample_adc_layout = ahb_layout.extend sample_ahb_layout \<lparr>g_frame = 0x4FF60000\<rparr>"

text \<open>A frame of two passes, and a board that delivers it.\<close>

definition sample_adc_frame :: "u32 list" where
  "sample_adc_frame = [0, 8292, 16584, 24876, 400, 8692, 16984, 25276]"

definition adc_answers :: "esp_act event list \<Rightarrow> esp_act event \<Rightarrow> u32" where
  "adc_answers t e =
     (if e = Dev (Rd32 (PDMA_IN_INT_RAW DMA_SLOT_PERI)) then 2
      else if e = Dev (Rd32 (desc_nc_ahb (in_desc sample_adc_layout 1))) then 0x20000
      else case e of Dev (Rd32 a) \<Rightarrow> (if 0x4FF60000 \<le> a \<and> a < 0x4FF60020 then sample_adc_frame ! (unat (a - 0x4FF60000) div 4) else 0)
        | _ \<Rightarrow> 0)"

definition adc_boot :: adc_st where
  "adc_boot = ahb_st.extend (ahb_boot adc_answers) \<lparr>g_adc_ep = 14, g_adc_hw_ok = True\<rparr>"

lemma adc_boot_ready: "adc_ready sample_abi adc_boot" "length (g_ch adc_boot) = 2" "answer adc_boot = adc_answers"
  "trace adc_boot = []"
  by (simp_all add: adc_ready_def adc_boot_def ahb_boot_def ahb_st.extend_def sample_abi_def DMA_PERIPH_ADC0_def)

lemma sample_adc_apart: "desc_apart sample_adc_layout"
  by (simp add: desc_apart_def sample_adc_layout_def ahb_layout.extend_def sample_ahb_layout_def desc_nc_ahb_def
      AHB_DESC_NC_OFFSET_def ADC_CTRL2_def ADC_BASE_def const_defs DMA_SLOT_PERI_def)

lemma sample_adc_frame_arrives: "frame_arrives (g_frame sample_adc_layout) sample_adc_frame (answer adc_boot)"
proof -
  have "list_all (\<lambda>i. adc_answers [] (Dev (Rd32 (0x4FF60000 + of_nat i * 4))) = sample_adc_frame ! i) [0..<8]"
    by code_simp
  then have "adc_answers t (Dev (Rd32 (0x4FF60000 + of_nat i * 4))) = sample_adc_frame ! i" if "i < 8" for t i
    using that by (simp add: list_all_iff adc_answers_def)
  moreover have "length sample_adc_frame = 8"
    by (simp add: sample_adc_frame_def)
  ultimately show ?thesis
    by (simp add: frame_arrives_def adc_boot_ready sample_adc_layout_def ahb_layout.extend_def)
qed

lemma sample_adc_frame_completes:
  "ahb_completes sample_adc_layout sample_abi DMA_SLOT_PERI (of_nat (4 * length sample_adc_frame)) (answer adc_boot)"
  by (simp add: ahb_completes_def adc_boot_ready adc_answers_def sample_abi_def sample_adc_frame_def peri_slot
      AHB_IN_INT_DSCR_ERR_def AHB_IN_INT_SUC_EOF_def AHB_DESC_MAX_LEN_def sample_adc_layout_def ahb_layout.extend_def
      sample_ahb_layout_def desc_nc_ahb_def AHB_DESC_NC_OFFSET_def const_defs DMA_SLOT_PERI_def)

theorem adc_reads_are_means_witness:
  "fst (run_state (adc_scan_all sample_abi (ipc sample_abi (adc_dispatch sample_adc_layout sample_abi
      (ahb_srv sample_adc_layout sample_abi))) (\<lambda>_. 0) (Some [0, 0, 0, 0])) adc_boot) = (0, Some [200, 300, 400, 500]) \<and>
   fst (run_state (adc_read sample_abi (ipc sample_abi (adc_dispatch sample_adc_layout sample_abi
      (ahb_srv sample_adc_layout sample_abi))) (\<lambda>_. 0) 2 (Some 7)) adc_boot) = (0, Some 400)"
proof -
  have "[0..<ADC_CH_MAX] = [0, 1, 2, 3]"
    by (simp add: ADC_CH_MAX_def upt_rec)
  moreover have "RES_UNIT 0 = 0" "RES_UNIT 8292 = 0" "RES_UNIT 16584 = 0" "RES_UNIT 24876 = 0"
    "RES_UNIT 400 = 0" "RES_UNIT 8692 = 0" "RES_UNIT 16984 = 0" "RES_UNIT 25276 = 0"
    by (simp_all add: RES_UNIT_def)
  moreover have "unat (RES_CHAN 0) = 0" "unat (RES_CHAN 8292) = 1" "unat (RES_CHAN 16584) = 2" "unat (RES_CHAN 24876) = 3"
    "unat (RES_CHAN 400) = 0" "unat (RES_CHAN 8692) = 1" "unat (RES_CHAN 16984) = 2" "unat (RES_CHAN 25276) = 3"
    by (simp_all add: RES_CHAN_def)
  moreover have "unat (RES_DATA 0) = 0" "unat (RES_DATA 8292) = 100" "unat (RES_DATA 16584) = 200" "unat (RES_DATA 24876) = 300"
    "unat (RES_DATA 400) = 400" "unat (RES_DATA 8692) = 500" "unat (RES_DATA 16984) = 600" "unat (RES_DATA 25276) = 700"
    by (simp_all add: RES_DATA_def)
  ultimately have "chan_means sample_adc_frame = Some [200, 300, 400, 500]"
    by (simp add: chan_means_def chan_data_def sample_adc_frame_def flip: numeral_2_eq_2)
  moreover have "g_frame sample_adc_layout \<noteq> 0" "length sample_adc_frame \<le> 16" "(2 :: u8) < 4"
    by (simp_all add: sample_adc_layout_def ahb_layout.extend_def sample_adc_frame_def)
  ultimately show ?thesis
    using adc_reads_are_means [OF sample_abi_ok adc_boot_ready(1) _ _ _ sample_adc_frame_completes sample_adc_frame_arrives,
        of 2 "\<lambda>_. 0" "[0, 0, 0, 0]" 7]
    by (simp add: sample_abi_def)
qed


end
