(* ===== verification/Can_Esp32.thy ===== *)
theory Can_Esp32
  imports Pinmux_Esp32 Payload
begin

text \<open>
  The CAN driver of the ESP32-P4 board, \<^verbatim>\<open>esp32p4_ev_function/drivers/can/src/server.c\<close> and
  \<^verbatim>\<open>client.c\<close>: the TWAI controller in self-test mode, which files its own frames.  The server keeps the
  last frame it received; \<^verbatim>\<open>can_recv\<close> returns it.
\<close>

section \<open>Registers\<close>

definition TWAI_BASE :: u32 where [const_defs]: "TWAI_BASE = 0x500D7000"
definition TWAI_MODE :: u32 where [const_defs]: "TWAI_MODE = TWAI_BASE + 0x00"
definition TWAI_CMD :: u32 where [const_defs]: "TWAI_CMD = TWAI_BASE + 0x04"
definition TWAI_STATUS :: u32 where [const_defs]: "TWAI_STATUS = TWAI_BASE + 0x08"
definition TWAI_INT :: u32 where [const_defs]: "TWAI_INT = TWAI_BASE + 0x0c"
definition TWAI_INT_ENA :: u32 where [const_defs]: "TWAI_INT_ENA = TWAI_BASE + 0x10"
definition TWAI_BUS_TIMING_0 :: u32 where [const_defs]: "TWAI_BUS_TIMING_0 = TWAI_BASE + 0x18"
definition TWAI_BUS_TIMING_1 :: u32 where [const_defs]: "TWAI_BUS_TIMING_1 = TWAI_BASE + 0x1c"
definition TWAI_RX_ERR :: u32 where [const_defs]: "TWAI_RX_ERR = TWAI_BASE + 0x38"
definition TWAI_TX_ERR :: u32 where [const_defs]: "TWAI_TX_ERR = TWAI_BASE + 0x3c"
definition TWAI_DATA :: "u32 \<Rightarrow> u32" where [const_defs]: "TWAI_DATA n = TWAI_BASE + 0x40 + 4 * n"
definition MODE_RESET :: u32 where "MODE_RESET = push_bit 0 1"
definition MODE_SELF_TEST :: u32 where "MODE_SELF_TEST = push_bit 2 1"
definition CMD_ABORT :: u32 where "CMD_ABORT = push_bit 1 1"
definition CMD_RELEASE_RX :: u32 where "CMD_RELEASE_RX = push_bit 2 1"
definition CMD_SELF_RX :: u32 where "CMD_SELF_RX = push_bit 4 1"
definition ST_RXBUF :: u32 where "ST_RXBUF = push_bit 0 1"
definition ST_TXBUF :: u32 where "ST_TXBUF = push_bit 2 1"
definition INT_RX :: u32 where "INT_RX = push_bit 0 1"
definition INT_TX :: u32 where "INT_TX = push_bit 1 1"
definition CAN_NOTIF_IRQ :: nat where "CAN_NOTIF_IRQ = 0"
definition CAN_WAIT_MS :: u32 where "CAN_WAIT_MS = 50"
definition TWAI_TX_OUT :: u16 where "TWAI_TX_OUT = 80"
definition TWAI_RX_IN :: u16 where "TWAI_RX_IN = 80"
definition CAN_HP_SOC_CLK_CTRL2 :: u32 where "CAN_HP_SOC_CLK_CTRL2 = 0x500E6000 + 0x1c"
definition HP_PERI_CLK_CTRL115 :: u32 where "HP_PERI_CLK_CTRL115 = 0x500E6000 + 0x7c"
definition CAN_HP_RST_EN1 :: u32 where "CAN_HP_RST_EN1 = 0x500E6000 + 0xc4"
definition TWAI0_APB_EN :: u32 where "TWAI0_APB_EN = push_bit 24 1"
definition TWAI0_CLK_EN :: u32 where "TWAI0_CLK_EN = push_bit 25 1"
definition TWAI_TX_GPIO :: u8 where "TWAI_TX_GPIO = 16"
definition TWAI0_IRQ :: u32 where "TWAI0_IRQ = 9"
definition TWAI0_CLIC_IRQ :: u32 where "TWAI0_CLIC_IRQ = 24"
definition TWAI_CLIC_BASE :: u32 where "TWAI_CLIC_BASE = 0x20800000"
definition CAN_MAX_INST_ESP :: u8 where [const_defs]: "CAN_MAX_INST_ESP = 1"
definition CAN_MSG_SEND_ESP :: u32 where [const_defs]: "CAN_MSG_SEND_ESP = 1"
definition CAN_MSG_RECV_ESP :: u32 where [const_defs]: "CAN_MSG_RECV_ESP = 2"

text \<open>The single instance; the eight bytes of \<^verbatim>\<open>last\<close> keep what shorter frames do not overwrite.\<close>

record can_inst_esp =
  ci_index :: u8
  ci_ready :: bool
  ci_irq :: u8
  ci_notif :: u32
  ci_last_id :: u32
  ci_last :: "u8 list"
  ci_last_len :: u8

record can_esp_st = pads_esp +
  g_can_ep :: u32
  g_can :: can_inst_esp

type_synonym ('z, 'a) can_esp_op = "('z can_esp_st_scheme, 'a) state"

definition set_can :: "(can_inst_esp \<Rightarrow> can_inst_esp) \<Rightarrow> ('z, unit) can_esp_op" where
  "set_can f = modify (\<lambda>st. st\<lparr>g_can := f (g_can st)\<rparr>)"

section \<open>The controller\<close>

definition can_pins_esp :: "ulmk_abi \<Rightarrow> ('z, unit) esp_op" where
  "can_pins_esp K = do {
     _ \<leftarrow> pinmux_apply_esp K (Some \<lparr>pc_port = 0, pc_pin = TWAI_TX_GPIO, pc_dir = PINMUX_DIR_OUT_ESP,
       pc_pull = PINMUX_PULL_UP_ESP, pc_alt = PINMUX_ALT_MATRIX, pc_flags = PINMUX_F_PERIPH_OE OR PINMUX_F_IE,
       pc_matrix_out = TWAI_TX_OUT, pc_matrix_in = TWAI_RX_IN\<rparr>);
     ret ()
   }"

definition twai_wait_int :: "can_inst_esp \<Rightarrow> u32 \<Rightarrow> ('z, cint) esp_op" where
  "twai_wait_int c ints = do {
     _ \<leftarrow> rd32 TWAI_INT;
     kern_do (Irq_ack (ucast (ci_irq c)));
     wr32 TWAI_INT_ENA ints;
     rc \<leftarrow> kern (Notif_wait_timeout (ci_notif c) (push_bit CAN_NOTIF_IRQ 1) CAN_WAIT_MS);
     wr32 TWAI_INT_ENA 0;
     _ \<leftarrow> rd32 TWAI_INT;
     ret rc
   }"

text \<open>Unless the status bit is set already, wait for its interrupt (both waits of \<^verbatim>\<open>hw_send\<close>).\<close>

definition await_status :: "ulmk_abi \<Rightarrow> can_inst_esp \<Rightarrow> u32 \<Rightarrow> u32 \<Rightarrow> ('z, cint) esp_op" where
  "await_status K c flag ints = do {
     s \<leftarrow> rd32 TWAI_STATUS;
     if s AND flag = 0 then twai_wait_int c ints else ret (ULMK_OK K)
   }"

definition rx_drain :: "('z, unit) can_esp_op" where
  "rx_drain = do {
     s \<leftarrow> rd32 TWAI_STATUS;
     if s AND ST_RXBUF = 0 then ret ()
     else do {
       d0 \<leftarrow> rd32 (TWAI_DATA 0);
       let dlc = (ucast (d0 AND 0x0F) :: u8);
       d1 \<leftarrow> rd32 (TWAI_DATA 1);
       d2 \<leftarrow> rd32 (TWAI_DATA 2);
       let rid = (push_bit 3 d1 OR drop_bit 5 d2) AND 0x7FF;
       let n = (if dlc > 8 then 8 else dlc);
       set_can (\<lambda>c. c\<lparr>ci_last_id := rid\<rparr>);
       set_can (\<lambda>c. c\<lparr>ci_last_len := n\<rparr>);
       for_each [0..<unat n] (\<lambda>i. do {
         v \<leftarrow> rd32 (TWAI_DATA (3 + of_nat i));
         set_can (\<lambda>c. c\<lparr>ci_last := (ci_last c)[i := ucast v]\<rparr>)
       });
       wr32 TWAI_CMD CMD_RELEASE_RX
     }
   }"

text \<open>The frame into the transmit buffer.\<close>

definition can_load_frame :: "u32 \<Rightarrow> u8 list \<Rightarrow> nat \<Rightarrow> ('z, unit) esp_op" where
  "can_load_frame ident data len = do {
     wr32 (TWAI_DATA 0) (of_nat len AND 0x0F);
     wr32 (TWAI_DATA 1) (drop_bit 3 ident AND 0xFF);
     wr32 (TWAI_DATA 2) (push_bit 5 ident AND 0xE0);
     for_each [0..<len] (\<lambda>i. wr32 (TWAI_DATA (3 + of_nat i)) (ucast (data ! i)))
   }"

definition can_hw_send :: "ulmk_abi \<Rightarrow> u32 \<Rightarrow> u8 list \<Rightarrow> u8 \<Rightarrow> ('z, cint) can_esp_op" where
  "can_hw_send K ident data len = do {
     c \<leftarrow> gets g_can;
     if \<not> ci_ready c then ret (ULMK_EINVAL K)
     else do {
       let len = (if len > 8 then 8 else len);
       rc \<leftarrow> await_status K c ST_TXBUF INT_TX;
       if rc \<noteq> ULMK_OK K then ret (ULMK_ETIMEOUT K)
       else do {
         can_load_frame ident data (unat len);
         wr32 TWAI_CMD CMD_SELF_RX;
         rc \<leftarrow> await_status K c ST_RXBUF INT_RX;
         if rc \<noteq> ULMK_OK K then do {
           wr32 TWAI_CMD CMD_ABORT;
           ret (ULMK_ETIMEOUT K)
         } else do {
           rx_drain;
           ret (ULMK_OK K)
         }
       }
     }
   }"

section \<open>The server\<close>

text \<open>The words of a reply that the server does not set are zero here; no client reads them.\<close>

definition can_dispatch_esp :: "ulmk_abi \<Rightarrow> msg \<Rightarrow> ('z, msg) can_esp_op" where
  "can_dispatch_esp K m =
     (if label m = CAN_MSG_SEND_ESP then do {
        let buf = unpack_loop 2 8 (words m);
        rc \<leftarrow> can_hw_send K (words m 0) buf (ucast (words m 1));
        ret \<lparr>label = 0, words = (\<lambda>_. 0)(0 := rc)\<rparr>
      } else if label m = CAN_MSG_RECV_ESP then do {
        c \<leftarrow> gets g_can;
        let n = unat (ci_last_len c);
        ret \<lparr>label = 0, words = pack_loop 3 0 (take n (ci_last c))
          ((\<lambda>_. 0)(0 := ULMK_OK K, 1 := ci_last_id c, 2 := ucast (ci_last_len c)))\<rparr>
      } else ret \<lparr>label = 0, words = (\<lambda>_. 0)(0 := ULMK_EINVAL K)\<rparr>)"

text \<open>Clocks, reset, self-test mode, bit timing and the accept-all filter.\<close>

definition can_hw_setup :: "('z, unit) esp_op" where
  "can_hw_setup = do {
     v \<leftarrow> rd32 CAN_HP_SOC_CLK_CTRL2;
     wr32 CAN_HP_SOC_CLK_CTRL2 (v OR TWAI0_APB_EN);
     v \<leftarrow> rd32 HP_PERI_CLK_CTRL115;
     wr32 HP_PERI_CLK_CTRL115 (v OR TWAI0_CLK_EN);
     v \<leftarrow> rd32 CAN_HP_RST_EN1;
     wr32 CAN_HP_RST_EN1 (v OR push_bit 26 1);
     wr32 CAN_HP_RST_EN1 (v AND NOT (push_bit 26 1));
     v \<leftarrow> rd32 TWAI_MODE;
     wr32 TWAI_MODE (v OR MODE_RESET);
     wr32 TWAI_MODE (MODE_RESET OR MODE_SELF_TEST);
     wr32 TWAI_INT_ENA 0;
     wr32 TWAI_BUS_TIMING_0 0x04;
     wr32 TWAI_BUS_TIMING_1 0x1c;
     for_each [0..<4] (\<lambda>i. do {
       wr32 (TWAI_DATA (of_nat i)) 0;
       wr32 (TWAI_DATA (4 + of_nat i)) 0xFF
     });
     wr32 TWAI_RX_ERR 0;
     wr32 TWAI_TX_ERR 0;
     wr32 TWAI_MODE MODE_SELF_TEST;
     _ \<leftarrow> rd32 TWAI_INT;
     ret ()
   }"

definition can_init_esp :: "ulmk_abi \<Rightarrow> u8 \<Rightarrow> ('z, u32) can_esp_op" where
  "can_init_esp K n =
     (if n \<ge> CAN_MAX_INST_ESP then ret (ULMK_TID_INVALID K)
      else do {
        c \<leftarrow> gets g_can;
        if ci_ready c then ret (ULMK_TID_INVALID K)
        else do {
          set_can (\<lambda>c. c\<lparr>ci_index := n, ci_irq := ucast TWAI0_IRQ, ci_last_id := 0, ci_last_len := 0\<rparr>);
          ep \<leftarrow> kern Ep_create;
          modify (\<lambda>st. st\<lparr>g_can_ep := ep\<rparr>);
          if ep = ULMK_EP_INVALID K then ret (ULMK_TID_INVALID K)
          else do {
            notif \<leftarrow> kern Notif_create;
            set_can (\<lambda>c. c\<lparr>ci_notif := notif\<rparr>);
            if notif = ULMK_NOTIF_INVALID K then ret (ULMK_TID_INVALID K)
            else do {
              can_pins_esp K;
              can_hw_setup;
              let clic_reg = TWAI_CLIC_BASE + 0x1000 + TWAI0_CLIC_IRQ * 4;
              rc \<leftarrow> kern (Irq_bind_hw (ucast (ucast TWAI0_IRQ :: u8)) notif (of_nat CAN_NOTIF_IRQ) clic_reg);
              if rc \<noteq> ULMK_OK K then ret (ULMK_TID_INVALID K)
              else do {
                rc \<leftarrow> kern (Irq_enable (ucast (ucast TWAI0_IRQ :: u8)));
                if rc \<noteq> ULMK_OK K then ret (ULMK_TID_INVALID K)
                else do {
                  set_can (\<lambda>c. c\<lparr>ci_ready := True\<rparr>);
                  tid \<leftarrow> kern (Thread_create ''twai0'' 2 2048);
                  when_do (tid \<noteq> ULMK_TID_INVALID K) (kern_do (Cap_grant tid ''MAP_PERIPH|IRQ''));
                  ret tid
                }
              }
            }
          }
        }
      })"

section \<open>The client\<close>

text \<open>\<open>junk\<close> are the words of the uninitialised message; a null pointer is \<open>None\<close> in \<open>can_recv_esp\<close>.\<close>

definition can_send_esp :: "ulmk_abi \<Rightarrow> u32 \<Rightarrow> 's ep_call \<Rightarrow> (nat \<Rightarrow> u32) \<Rightarrow> u32 \<Rightarrow> u8 list \<Rightarrow> u8 \<Rightarrow> ('s, cint) state" where
  "can_send_esp K ep call junk ident data len =
     (if ep = ULMK_EP_INVALID K then ret (ULMK_EINVAL K)
      else do {
        let len = (if len > 8 then 8 else len);
        (rc, m) \<leftarrow> call \<lparr>label = CAN_MSG_SEND_ESP, words = pack_loop 2 0 (take (unat len) data)
          (junk(0 := ident, 1 := ucast len, 2 := 0, 3 := 0))\<rparr>;
        if rc \<noteq> ULMK_OK K then ret (ULMK_EINVAL K) else ret (words m 0)
      })"

definition can_recv_esp :: "ulmk_abi \<Rightarrow> u32 \<Rightarrow> 's ep_call \<Rightarrow> (nat \<Rightarrow> u32) \<Rightarrow> u32 option \<Rightarrow> u8 list option \<Rightarrow> u8 option \<Rightarrow>
    ('s, cint \<times> u32 option \<times> u8 list option \<times> u8 option) state" where
  "can_recv_esp K ep call junk oid odata olen =
     (if ep = ULMK_EP_INVALID K then ret (ULMK_EINVAL K, oid, odata, olen)
      else do {
        (rc, m) \<leftarrow> call \<lparr>label = CAN_MSG_RECV_ESP, words = junk\<rparr>;
        if rc \<noteq> ULMK_OK K then ret (ULMK_EINVAL K, oid, odata, olen)
        else if words m 0 \<noteq> ULMK_OK K then ret (words m 0, oid, odata, olen)
        else do {
          let n = (ucast (words m 2) :: u8);
          let n = (if n > 8 then 8 else n);
          ret (ULMK_OK K, map_option (\<lambda>_. words m 1) oid,
            map_option (\<lambda>data. unpack_loop 3 (unat n) (words m) @ drop (unat n) data) odata,
            map_option (\<lambda>_. n) olen)
        }
      })"

section \<open>The receive FIFO of the controller\<close>

text \<open>
  \<open>reg_value a t\<close> is the last value written to a register; \<open>tx_image t\<close> are the eleven data registers
  as a transmission finds them.  \<open>decode_frame\<close> reads identifier and payload out of such an image.
\<close>

type_synonym frame_image = "nat \<Rightarrow> u32"

definition reg_value :: "u32 \<Rightarrow> esp_act event list \<Rightarrow> u32" where
  "reg_value a t = foldl (\<lambda>v e. case e of Dev (Wr32 b w) \<Rightarrow> if b = a then w else v | _ \<Rightarrow> v) 0 t"

definition tx_image :: "esp_act event list \<Rightarrow> frame_image" where
  "tx_image t n = reg_value (TWAI_DATA (of_nat n)) t"

definition frame_len :: "frame_image \<Rightarrow> u8" where
  "frame_len r = (let dlc = ucast (r 0 AND 0x0F) in if dlc > 8 then 8 else dlc)"

definition frame_id :: "frame_image \<Rightarrow> u32" where
  "frame_id r = (push_bit 3 (r 1) OR drop_bit 5 (r 2)) AND 0x7FF"

definition frame_bytes :: "frame_image \<Rightarrow> u8 list" where
  "frame_bytes r = List.map (\<lambda>i. ucast (r (3 + i))) [0..<unat (frame_len r)]"

definition decode_frame :: "frame_image \<Rightarrow> u32 \<times> u8 list" where
  "decode_frame r = (frame_id r, frame_bytes r)"

definition no_cmd :: "esp_act event \<Rightarrow> bool" where
  "no_cmd e \<longleftrightarrow> (case e of Dev (Wr32 a v) \<Rightarrow> a \<noteq> TWAI_CMD | _ \<Rightarrow> True)"

text \<open>
  The controller in self-test mode: \<open>frames t\<close> are the frames accepted and not released, oldest first,
  and the first \<open>filed t\<close> of them have reached the receive FIFO.  Only commands change the
  frames; a frame arrives in the FIFO at any later moment; the status register and the data registers show
  the FIFO; and the wait for the receive interrupt ends well only when the FIFO is not empty.
\<close>

definition twai_board :: "ulmk_abi \<Rightarrow> (esp_act event list \<Rightarrow> esp_act event \<Rightarrow> u32) \<Rightarrow>
    (esp_act event list \<Rightarrow> frame_image list) \<Rightarrow> (esp_act event list \<Rightarrow> nat) \<Rightarrow> bool" where
  "twai_board K ans frames filed \<longleftrightarrow>
     (\<forall>t. filed t \<le> length (frames t)) \<and>
     (\<forall>t e. no_cmd e \<longrightarrow> frames (t @ [e]) = frames t \<and> filed t \<le> filed (t @ [e])) \<and>
     (\<forall>t. frames (t @ [Dev (Wr32 TWAI_CMD CMD_SELF_RX)]) = frames t @ [tx_image t] \<and>
        filed t \<le> filed (t @ [Dev (Wr32 TWAI_CMD CMD_SELF_RX)])) \<and>
     (\<forall>t. 0 < filed t \<longrightarrow> frames (t @ [Dev (Wr32 TWAI_CMD CMD_RELEASE_RX)]) = tl (frames t)) \<and>
     (\<forall>t. frames (t @ [Dev (Wr32 TWAI_CMD CMD_ABORT)]) = take (filed t) (frames t) \<and>
        filed (t @ [Dev (Wr32 TWAI_CMD CMD_ABORT)]) = filed t) \<and>
     (\<forall>t. ans t (Dev (Rd32 TWAI_STATUS)) AND ST_RXBUF = 0 \<longleftrightarrow> filed t = 0) \<and>
     (\<forall>t n. 0 < filed t \<longrightarrow> n < 11 \<longrightarrow> ans t (Dev (Rd32 (TWAI_DATA (of_nat n)))) = hd (frames t) n) \<and>
     (\<forall>t n b ms. reg_value TWAI_INT_ENA t = INT_RX \<longrightarrow> ans t (Kern (Notif_wait_timeout n b ms)) = ULMK_OK K \<longrightarrow>
        0 < filed (t @ [Kern (Notif_wait_timeout n b ms)]))"

lemma reg_value_snoc [simp]:
  "reg_value a (t @ [Dev (Wr32 b w)]) = (if b = a then w else reg_value a t)"
  "reg_value a (t @ [Dev (Rd32 b)]) = reg_value a t"
  "reg_value a (t @ [Kern k]) = reg_value a t"
  by (simp_all add: reg_value_def)

lemma no_cmd_simps [simp]:
  "no_cmd (Kern k)" "no_cmd (Dev (Rd32 a))" "no_cmd (Dev (Wr32 a v)) \<longleftrightarrow> a \<noteq> TWAI_CMD"
  by (simp_all add: no_cmd_def)

lemma twai_data_apart:
  "n < 11 \<Longrightarrow> k < 11 \<Longrightarrow> TWAI_DATA (of_nat n) = TWAI_DATA (of_nat k) \<longleftrightarrow> n = k"
  "n < 11 \<Longrightarrow> TWAI_DATA (of_nat n) \<noteq> TWAI_CMD"
proof -
  have a: "TWAI_DATA (of_nat n) = of_nat (0x500D7040 + 4 * n)" for n
    by (simp add: const_defs)
  have t: "take_bit 32 (0x500D7040 + 4 * n) = 0x500D7040 + 4 * n" if "n < 11" for n :: nat
    using that by (simp add: take_bit_nat_eq_self)
  show "n < 11 \<Longrightarrow> k < 11 \<Longrightarrow> TWAI_DATA (of_nat n) = TWAI_DATA (of_nat k) \<longleftrightarrow> n = k"
    unfolding a by (simp add: word_of_nat_eq_iff t del: of_nat_add of_nat_mult)
  have c: "TWAI_CMD = of_nat 0x500D7004"
    by (simp add: const_defs)
  show "n < 11 \<Longrightarrow> TWAI_DATA (of_nat n) \<noteq> TWAI_CMD"
    unfolding a c by (simp add: word_of_nat_eq_iff t del: of_nat_add of_nat_mult of_nat_numeral)
qed

lemma twai_regs_apart [simp]: "TWAI_INT_ENA \<noteq> TWAI_CMD" "TWAI_DATA 0 \<noteq> TWAI_CMD" "TWAI_DATA 1 \<noteq> TWAI_CMD"
  "TWAI_DATA 2 \<noteq> TWAI_CMD"
  by (simp_all add: const_defs)

section \<open>Frame images\<close>

definition load_events :: "u32 \<Rightarrow> u8 list \<Rightarrow> nat \<Rightarrow> esp_act event list" where
  "load_events ident data len =
     [Dev (Wr32 (TWAI_DATA 0) (of_nat len AND 0x0F)), Dev (Wr32 (TWAI_DATA 1) (drop_bit 3 ident AND 0xFF)),
      Dev (Wr32 (TWAI_DATA 2) (push_bit 5 ident AND 0xE0))] @
     List.map (\<lambda>i. Dev (Wr32 (TWAI_DATA (3 + of_nat i)) (ucast (data ! i)))) [0..<len]"

lemma run_can_load_frame:
  "run_state (can_load_frame ident data len) st = ((), st\<lparr>trace := trace st @ load_events ident data len\<rparr>)"
proof -
  have "run_state (for_each is (\<lambda>i. wr32 (f i) (g i))) s =
      ((), s\<lparr>trace := trace s @ List.map (\<lambda>i. Dev (Wr32 (f i) (g i))) is\<rparr>)" for "is" and f g :: "nat \<Rightarrow> u32"
    and s :: "(esp_act, 'a) io_scheme"
    by (induction "is" arbitrary: s) simp_all
  then show ?thesis
    by (simp add: can_load_frame_def load_events_def)
qed

lemma tx_image_payload:
  assumes "n < 11" "len \<le> 8"
  shows "tx_image (t @ List.map (\<lambda>i. Dev (Wr32 (TWAI_DATA (3 + of_nat i)) (f i))) [0..<len]) n =
    (if 3 \<le> n \<and> n < 3 + len then f (n - 3) else tx_image t n)"
  using assms(2)
proof (induction len)
  case (Suc len)
  have "TWAI_DATA (3 + of_nat len) = TWAI_DATA (of_nat n) \<longleftrightarrow> n = 3 + len"
    using twai_data_apart(1) [of "3 + len" n] assms(1) Suc.prems by auto
  with Suc show ?case
    by (auto simp: tx_image_def simp flip: append_assoc)
qed auto

lemma tx_image_load:
  assumes "len \<le> 8"
  shows "tx_image (t @ load_events ident data len) 0 = of_nat len AND 0x0F"
    "tx_image (t @ load_events ident data len) 1 = drop_bit 3 ident AND 0xFF"
    "tx_image (t @ load_events ident data len) 2 = push_bit 5 ident AND 0xE0"
    "i < len \<Longrightarrow> tx_image (t @ load_events ident data len) (3 + i) = ucast (data ! i)"
proof -
  let ?h = "t @ [Dev (Wr32 (TWAI_DATA 0) (of_nat len AND 0x0F)), Dev (Wr32 (TWAI_DATA 1) (drop_bit 3 ident AND 0xFF)),
      Dev (Wr32 (TWAI_DATA 2) (push_bit 5 ident AND 0xE0))]"
  have img: "tx_image (t @ load_events ident data len) n =
      (if 3 \<le> n \<and> n < 3 + len then ucast (data ! (n - 3)) else tx_image ?h n)" if "n < 11" for n
    using tx_image_payload [OF that assms, of ?h "\<lambda>i. ucast (data ! i)"] by (simp only: load_events_def append_assoc)
  have "tx_image ?h 0 = of_nat len AND 0x0F" "tx_image ?h 1 = drop_bit 3 ident AND 0xFF"
    "tx_image ?h 2 = push_bit 5 ident AND 0xE0"
    by (simp_all add: tx_image_def reg_value_def const_defs)
  then show "tx_image (t @ load_events ident data len) 0 = of_nat len AND 0x0F"
    "tx_image (t @ load_events ident data len) 1 = drop_bit 3 ident AND 0xFF"
    "tx_image (t @ load_events ident data len) 2 = push_bit 5 ident AND 0xE0"
    "i < len \<Longrightarrow> tx_image (t @ load_events ident data len) (3 + i) = ucast (data ! i)"
    using img assms by auto
qed

lemma frame_len_small: "n \<le> 8 \<Longrightarrow> r 0 = of_nat n AND 0x0F \<Longrightarrow> unat (frame_len r) = n"
proof -
  assume "n \<le> 8" and r: "r 0 = of_nat n AND 0x0F"
  then have "n = 0 \<or> n = 1 \<or> n = 2 \<or> n = 3 \<or> n = 4 \<or> n = 5 \<or> n = 6 \<or> n = 7 \<or> n = 8"
    by arith
  then show ?thesis
    unfolding frame_len_def Let_def r by (elim disjE) simp_all
qed

lemma unat_frame_len: "unat (frame_len r) \<le> 8"
proof (cases "(ucast (r 0 AND 0x0F) :: u8) > 8")
  case False
  then have "(ucast (r 0 AND 0x0F) :: u8) \<le> 8"
    by simp
  with False show ?thesis
    by (simp add: frame_len_def Let_def word_le_nat_alt)
qed (simp add: frame_len_def)

lemma frame_id_split: "(push_bit 3 (drop_bit 3 x AND 0xFF) OR drop_bit 5 (push_bit 5 x AND 0xE0)) AND 0x7FF = (x :: u32) AND 0x7FF"
proof -
  have m: "(0x7FF :: u32) = mask 11" "(0xE0 :: u32) = push_bit 5 (mask 3)" "(0xFF :: u32) = mask 8"
    by (simp_all add: mask_eq_exp_minus_1)
  show ?thesis
    unfolding m by (rule bit_eqI) (auto simp: bit_simps, metis le_add_diff_inverse not_le)
qed

text \<open>What the transmit buffer holds once a frame is loaded.\<close>

lemma decode_loaded:
  assumes "len \<le> 8" "len \<le> length data"
  shows "decode_frame (tx_image (t @ load_events ident data len)) = (ident AND 0x7FF, take len data)"
proof -
  let ?r = "tx_image (t @ load_events ident data len)"
  have n: "unat (frame_len ?r) = len"
    using assms(1) tx_image_load(1) [OF assms(1), of t ident data] by (rule frame_len_small)
  have "frame_bytes ?r = take len data"
    using assms tx_image_load(4) [OF assms(1), of _ t ident data]
    by (intro nth_equalityI) (simp_all add: frame_bytes_def n ucast_up_ucast_id is_up)
  moreover have "frame_id ?r = ident AND 0x7FF"
    unfolding frame_id_def tx_image_load(2,3) [OF assms(1)] by (rule frame_id_split)
  ultimately show ?thesis
    by (simp add: decode_frame_def)
qed

section \<open>The frames through one transmission\<close>

lemma twai_boardD:
  assumes "twai_board K ans frames filed"
  shows "filed t \<le> length (frames t)"
    and "no_cmd e \<Longrightarrow> frames (t @ [e]) = frames t" "no_cmd e \<Longrightarrow> filed t \<le> filed (t @ [e])"
    and "frames (t @ [Dev (Wr32 TWAI_CMD CMD_SELF_RX)]) = frames t @ [tx_image t]"
    and "filed t \<le> filed (t @ [Dev (Wr32 TWAI_CMD CMD_SELF_RX)])"
    and "0 < filed t \<Longrightarrow> frames (t @ [Dev (Wr32 TWAI_CMD CMD_RELEASE_RX)]) = tl (frames t)"
    and "frames (t @ [Dev (Wr32 TWAI_CMD CMD_ABORT)]) = take (filed t) (frames t)"
    and "filed (t @ [Dev (Wr32 TWAI_CMD CMD_ABORT)]) = filed t"
    and "ans t (Dev (Rd32 TWAI_STATUS)) AND ST_RXBUF = 0 \<longleftrightarrow> filed t = 0"
    and "0 < filed t \<Longrightarrow> n < 11 \<Longrightarrow> ans t (Dev (Rd32 (TWAI_DATA (of_nat n)))) = hd (frames t) n"
    and "reg_value TWAI_INT_ENA t = INT_RX \<Longrightarrow> ans t (Kern (Notif_wait_timeout h b ms)) = ULMK_OK K \<Longrightarrow>
      0 < filed (t @ [Kern (Notif_wait_timeout h b ms)])"
  using assms by (simp_all add: twai_board_def)

lemma calm:
  assumes "twai_board K ans frames filed" "list_all no_cmd es"
  shows "frames (t @ es) = frames t" "filed t \<le> filed (t @ es)"
proof -
  have "frames (t @ es) = frames t \<and> filed t \<le> filed (t @ es)"
    using assms(2)
  proof (induction es rule: rev_induct)
    case (snoc e es)
    with twai_boardD(2,3) [OF assms(1), of e "t @ es"] show ?case
      by auto
  qed simp
  then show "frames (t @ es) = frames t" "filed t \<le> filed (t @ es)"
    by simp_all
qed

lemma calm_head:
  assumes "twai_board K ans frames filed" "0 < filed t" "list_all no_cmd es" "n < 11"
  shows "ans (t @ es) (Dev (Rd32 (TWAI_DATA (of_nat n)))) = hd (frames t) n"
  using calm [OF assms(1,3), of t] twai_boardD(10) [OF assms(1), of "t @ es" n] assms(2,4) by simp

lemma logs_await: "logs no_cmd (await_status K c flag ints)"
  unfolding await_status_def twai_wait_int_def by (intro logs_intros) simp_all

text \<open>A successful wait for the receive interrupt leaves a frame in the FIFO.\<close>

lemma await_rx:
  assumes "twai_board K (answer st) frames filed"
    and "run_state (await_status K c ST_RXBUF INT_RX) st = (ULMK_OK K, st')"
  shows "0 < filed (trace st')"
proof (cases "answer st (trace st) (Dev (Rd32 TWAI_STATUS)) AND ST_RXBUF = 0")
  case True
  define t where "t = trace st @ [Dev (Rd32 TWAI_STATUS), Dev (Rd32 TWAI_INT), Kern (Irq_ack (ucast (ci_irq c))),
      Dev (Wr32 TWAI_INT_ENA INT_RX)]"
  define w :: "esp_act event" where "w = Kern (Notif_wait_timeout (ci_notif c) (push_bit CAN_NOTIF_IRQ 1) CAN_WAIT_MS)"
  have run: "answer st t w = ULMK_OK K" "trace st' = (t @ [w]) @ [Dev (Wr32 TWAI_INT_ENA 0), Dev (Rd32 TWAI_INT)]"
    using assms(2) True by (auto simp: await_status_def twai_wait_int_def t_def w_def)
  have "reg_value TWAI_INT_ENA t = INT_RX"
    by (simp add: t_def reg_value_def)
  then have "0 < filed (t @ [w])"
    using run(1) twai_boardD(11) [OF assms(1)] unfolding w_def by blast
  moreover have "list_all no_cmd [Dev (Wr32 TWAI_INT_ENA 0), Dev (Rd32 TWAI_INT)]"
    by simp
  ultimately show ?thesis
    using calm(2) [OF assms(1)] run(2) by (metis less_le_trans)
next
  case False
  then have "0 < filed (trace st)" "trace st' = trace st @ [Dev (Rd32 TWAI_STATUS)]"
    using assms(2) twai_boardD(9) [OF assms(1)] by (auto simp: await_status_def)
  then show ?thesis
    using twai_boardD(3) [OF assms(1), of "Dev (Rd32 TWAI_STATUS)" "trace st"] by simp
qed

text \<open>The instance after a frame has been taken in.\<close>

definition take_frame :: "frame_image \<Rightarrow> can_inst_esp \<Rightarrow> can_inst_esp" where
  "take_frame r c = c\<lparr>ci_last_id := frame_id r, ci_last_len := frame_len r,
     ci_last := frame_bytes r @ drop (unat (frame_len r)) (ci_last c)\<rparr>"

lemma run_drain_bytes:
  assumes "twai_board K (answer st) frames filed" "0 < filed (trace st)" "n \<le> 8" "n \<le> length (ci_last (g_can st))"
  shows "run_state (for_each [0..<n] (\<lambda>i. do {
         v \<leftarrow> rd32 (TWAI_DATA (3 + of_nat i));
         set_can (\<lambda>c. c\<lparr>ci_last := (ci_last c)[i := ucast v]\<rparr>)
       })) st =
    ((), st\<lparr>g_can := (g_can st)\<lparr>ci_last := List.map (\<lambda>i. ucast (hd (frames (trace st)) (3 + i))) [0..<n] @ drop n (ci_last (g_can st))\<rparr>,
      trace := trace st @ List.map (\<lambda>i. Dev (Rd32 (TWAI_DATA (3 + of_nat i)))) [0..<n]\<rparr>)"
  using assms(3,4)
proof (induction n)
  case (Suc n)
  let ?es = "List.map (\<lambda>i. Dev (Rd32 (TWAI_DATA (3 + of_nat i)))) [0..<n]"
  have "list_all no_cmd ?es"
    by (simp add: list_all_iff)
  then have v: "answer st (trace st @ ?es) (Dev (Rd32 (TWAI_DATA (3 + of_nat n)))) = hd (frames (trace st)) (3 + n)"
    using calm_head [OF assms(1,2), of ?es "3 + n"] Suc.prems by simp
  have "(xs @ drop n ys)[n := v] = xs @ v # drop (Suc n) ys" if "length xs = n" "n < length ys" for xs ys and v :: u8
    using that by (simp add: list_update_append Cons_nth_drop_Suc [symmetric])
  then show ?case
    using Suc v by (simp add: for_each_append set_can_def)
qed simp

lemma run_rx_drain:
  assumes "twai_board K (answer st) frames filed" "0 < filed (trace st)" "length (ci_last (g_can st)) = 8"
  shows "\<exists>es. run_state rx_drain st =
      ((), st\<lparr>g_can := take_frame (hd (frames (trace st))) (g_can st),
        trace := trace st @ es @ [Dev (Wr32 TWAI_CMD CMD_RELEASE_RX)]\<rparr>) \<and> list_all no_cmd es"
proof -
  let ?r = "hd (frames (trace st))" and ?hd = "[Dev (Rd32 TWAI_STATUS), Dev (Rd32 (TWAI_DATA 0)), Dev (Rd32 (TWAI_DATA 1)),
    Dev (Rd32 (TWAI_DATA 2))]"
  let ?n = "unat (frame_len ?r)"
  let ?es = "?hd @ List.map (\<lambda>i. Dev (Rd32 (TWAI_DATA (3 + of_nat i)))) [0..<?n]"
  let ?s = "st\<lparr>trace := trace st @ ?hd, g_can := (g_can st)\<lparr>ci_last_id := frame_id ?r, ci_last_len := frame_len ?r\<rparr>\<rparr>"
  note head = calm_head [OF assms(1,2)]
  have rx: "\<not> answer st (trace st) (Dev (Rd32 TWAI_STATUS)) AND ST_RXBUF = 0"
    using twai_boardD(9) [OF assms(1)] assms(2) by simp
  have d: "answer st (trace st @ [Dev (Rd32 TWAI_STATUS)]) (Dev (Rd32 (TWAI_DATA 0))) = ?r 0"
    "answer st (trace st @ [Dev (Rd32 TWAI_STATUS), Dev (Rd32 (TWAI_DATA 0))]) (Dev (Rd32 (TWAI_DATA 1))) = ?r 1"
    "answer st (trace st @ [Dev (Rd32 TWAI_STATUS), Dev (Rd32 (TWAI_DATA 0)), Dev (Rd32 (TWAI_DATA 1))])
      (Dev (Rd32 (TWAI_DATA 2))) = ?r 2"
    using head [of "[Dev (Rd32 TWAI_STATUS)]" 0] head [of "[Dev (Rd32 TWAI_STATUS), Dev (Rd32 (TWAI_DATA 0))]" 1]
      head [of "[Dev (Rd32 TWAI_STATUS), Dev (Rd32 (TWAI_DATA 0)), Dev (Rd32 (TWAI_DATA 1))]" 2] by simp_all
  have calm_hd: "list_all no_cmd ?hd"
    by simp
  have fr: "frames (trace ?s) = frames (trace st)" "0 < filed (trace ?s)"
    using calm [OF assms(1) calm_hd, of "trace st"] assms(2) by simp_all
  have bytes: "run_state (for_each [0..<?n] (\<lambda>i. do {
         v \<leftarrow> rd32 (TWAI_DATA (3 + of_nat i));
         set_can (\<lambda>c. c\<lparr>ci_last := (ci_last c)[i := ucast v]\<rparr>)
       })) ?s =
    ((), ?s\<lparr>g_can := (g_can ?s)\<lparr>ci_last := List.map (\<lambda>i. ucast (?r (3 + i))) [0..<?n] @ drop ?n (ci_last (g_can ?s))\<rparr>,
      trace := trace ?s @ List.map (\<lambda>i. Dev (Rd32 (TWAI_DATA (3 + of_nat i)))) [0..<?n]\<rparr>)"
    using run_drain_bytes [of K ?s frames filed ?n] assms fr unat_frame_len [of ?r] by simp
  have "run_state rx_drain st =
      ((), st\<lparr>g_can := take_frame ?r (g_can st), trace := trace st @ ?es @ [Dev (Wr32 TWAI_CMD CMD_RELEASE_RX)]\<rparr>)"
    using rx d bytes
    by (simp add: rx_drain_def Let_def set_can_def frame_id_def frame_len_def take_frame_def frame_bytes_def)
  moreover have "list_all no_cmd ?es"
    by (simp add: list_all_iff)
  ultimately show ?thesis
    by blast
qed

lemma load_events_calm: "len \<le> 8 \<Longrightarrow> list_all no_cmd (load_events ident data len)"
  using twai_data_apart(2) [of "3 + i" for i] by (auto simp: load_events_def list_all_iff)

text \<open>A send up to the command that starts the transmission.\<close>

lemma frames_after_start:
  assumes "twai_board K ans frames filed" "list_all no_cmd es" "len \<le> 8" "len \<le> length data"
    and "t = trace st @ es @ load_events ident data len @ [Dev (Wr32 TWAI_CMD CMD_SELF_RX)]"
  shows "List.map decode_frame (frames t) = List.map decode_frame (frames (trace st)) @ [(ident AND 0x7FF, take len data)]"
    "filed (trace st) \<le> filed t"
proof -
  let ?t = "trace st @ es @ load_events ident data len"
  have calm_es: "list_all no_cmd (es @ load_events ident data len)"
    using assms(2) load_events_calm [OF assms(3)] by simp
  have "frames (?t @ [Dev (Wr32 TWAI_CMD CMD_SELF_RX)]) = frames (trace st) @ [tx_image ?t]"
    using twai_boardD(4) [OF assms(1), of ?t] calm(1) [OF assms(1) calm_es, of "trace st"] by simp
  then show "List.map decode_frame (frames t) = List.map decode_frame (frames (trace st)) @ [(ident AND 0x7FF, take len data)]"
    using decode_loaded [OF assms(3,4), of "trace st @ es" ident] assms(5) by simp
  show "filed (trace st) \<le> filed t"
    using twai_boardD(5) [OF assms(1), of ?t] calm(2) [OF assms(1) calm_es, of "trace st"] assms(5) by simp
qed

lemma run_can_hw_send:
  assumes "abi_ok K" "twai_board K (answer st) frames filed" "ci_ready (g_can st)" "length (ci_last (g_can st)) = 8"
    and "len \<le> 8" "unat len \<le> length data" "run_state (can_hw_send K ident data len) st = (ULMK_OK K, st')"
  defines "queue \<equiv> List.map decode_frame (frames (trace st)) @ [(ident AND 0x7FF, take (unat len) data)]"
  shows "\<exists>r. st' = st\<lparr>g_can := take_frame r (g_can st), trace := trace st'\<rparr> \<and> decode_frame r = hd queue \<and>
    List.map decode_frame (frames (trace st')) = tl queue"
proof -
  let ?go = "[Dev (Wr32 TWAI_CMD CMD_SELF_RX)]"
  have n: "unat len \<le> 8" "\<not> len > 8"
    using assms(5) by (auto simp: word_le_nat_alt not_less)
  obtain rc1 es1 where tx: "run_state (await_status K (g_can st) ST_TXBUF INT_TX) st = (rc1, st\<lparr>trace := trace st @ es1\<rparr>)"
    "list_all no_cmd es1"
    using logs_await by (rule logsE)
  define t1 where "t1 = trace st @ es1 @ load_events ident data (unat len) @ ?go"
  obtain rc2 es2 where rx: "run_state (await_status K (g_can st) ST_RXBUF INT_RX) (st\<lparr>trace := t1\<rparr>) =
      (rc2, st\<lparr>trace := t1 @ es2\<rparr>)" "list_all no_cmd es2"
    by (rule logsE [OF logs_await, where st = "st\<lparr>trace := t1\<rparr>"]) auto
  have rc1: "rc1 = ULMK_OK K"
    using assms(1,3,7) n(2) tx(1) by (auto simp: can_hw_send_def split: if_splits)
  have rc2: "rc2 = ULMK_OK K"
    using assms(1,3,7) n(2) tx(1) rx(1) rc1
    by (auto simp: can_hw_send_def run_can_load_frame t1_def split: if_splits)
  have some: "0 < filed (t1 @ es2)"
    using await_rx [of K "st\<lparr>trace := t1\<rparr>" frames filed "g_can st"] assms(2) rx(1) rc2 by simp
  have q: "List.map decode_frame (frames (t1 @ es2)) = queue"
    using frames_after_start(1) [OF assms(2) tx(2) n(1) assms(6) t1_def] calm(1) [OF assms(2) rx(2), of t1]
    by (simp add: queue_def)
  then have hd: "decode_frame (hd (frames (t1 @ es2))) = hd queue"
    unfolding q [symmetric] using some twai_boardD(1) [OF assms(2), of "t1 @ es2"] by (cases "frames (t1 @ es2)") auto
  obtain es3 where drain: "run_state rx_drain (st\<lparr>trace := t1 @ es2\<rparr>) =
      ((), st\<lparr>g_can := take_frame (hd (frames (t1 @ es2))) (g_can st),
        trace := (t1 @ es2 @ es3) @ [Dev (Wr32 TWAI_CMD CMD_RELEASE_RX)]\<rparr>)" "list_all no_cmd es3"
    using run_rx_drain [of K "st\<lparr>trace := t1 @ es2\<rparr>" frames filed] assms(2,4) some by auto
  have st': "st' = st\<lparr>g_can := take_frame (hd (frames (t1 @ es2))) (g_can st),
        trace := (t1 @ es2 @ es3) @ [Dev (Wr32 TWAI_CMD CMD_RELEASE_RX)]\<rparr>"
    using assms(3,7) n(2) tx(1) rx(1) rc1 rc2 drain(1)
    by (auto simp: can_hw_send_def run_can_load_frame t1_def)
  have "frames (t1 @ es2 @ es3) = frames (t1 @ es2)" "0 < filed (t1 @ es2 @ es3)"
    using calm [OF assms(2) drain(2), of "t1 @ es2"] some by simp_all
  then have "frames (trace st') = tl (frames (t1 @ es2))"
    unfolding st' using twai_boardD(6) [OF assms(2), of "t1 @ es2 @ es3"] by simp
  then have "List.map decode_frame (frames (trace st')) = tl queue"
    unfolding q [symmetric] by (simp add: map_tl)
  moreover have "st' = st\<lparr>g_can := take_frame (hd (frames (t1 @ es2))) (g_can st), trace := trace st'\<rparr>"
    by (simp add: st')
  ultimately show ?thesis
    using hd by blast
qed

section \<open>The calls\<close>

definition clip8 :: "u8 \<Rightarrow> u8" where
  "clip8 len = (if len > 8 then 8 else len)"

lemma clip8_le: "clip8 len \<le> 8" "\<not> clip8 len > 8" "unat (clip8 len) \<le> 8"
  by (auto simp: clip8_def not_less word_le_nat_alt)

text \<open>The server sees the caller's bytes.\<close>

lemma run_can_send_esp:
  assumes "ep \<noteq> ULMK_EP_INVALID K" "unat (clip8 len) \<le> length data"
  obtains buf where "take (unat (clip8 len)) buf = take (unat (clip8 len)) data" "length buf = 8"
    "run_state (can_send_esp K ep (ipc K (can_dispatch_esp K)) junk ident data len) st =
      run_state (can_hw_send K ident buf (clip8 len)) st"
proof
  let ?n = "unat (clip8 len)"
  define ws where "ws = pack_loop 2 0 (take ?n data) (junk(0 := ident, 1 := ucast (clip8 len), 2 := 0, 3 := 0))"
  have zero: "(junk(0 := ident, 1 := ucast (clip8 len), 2 := 0, 3 := 0)) m = 0" if m: "m \<in> payload_indices 2 8" for m
  proof -
    have "m = 2 \<or> m = 3"
      using payload_indices_bound [OF m] by arith
    then show ?thesis by auto
  qed
  have "unpack_loop 2 8 ws =
      List.map (\<lambda>i. if i < length (take ?n data) then take ?n data ! i else 0) [0..<8]"
    unfolding ws_def by (rule unpack_pack) (rule zero)
  then have bytes: "unpack_loop 2 8 ws = List.map (\<lambda>i. if i < ?n then data ! i else 0) [0..<8]"
    using assms(2) by (auto intro: nth_equalityI)
  show "take ?n (unpack_loop 2 8 ws) = take ?n data"
    unfolding bytes using assms(2) clip8_le(3) [of len] by (intro nth_equalityI) (simp_all add: min_def)
  have ws: "ws 0 = ident" "ws 1 = ucast (clip8 len)"
    by (simp_all add: ws_def pack_loop_below)
  have "run_state (can_dispatch_esp K \<lparr>label = CAN_MSG_SEND_ESP, words = ws\<rparr>) st =
      (case run_state (can_hw_send K ident (unpack_loop 2 8 ws) (clip8 len)) st of
         (rc, st') \<Rightarrow> (\<lparr>label = 0, words = (\<lambda>_. 0)(0 := rc)\<rparr>, st'))"
    by (simp add: can_dispatch_esp_def Let_def ws ucast_up_ucast_id is_up split: prod.splits del: One_nat_def)
  then show "run_state (can_send_esp K ep (ipc K (can_dispatch_esp K)) junk ident data len) st =
      run_state (can_hw_send K ident (unpack_loop 2 8 ws) (clip8 len)) st"
    using assms(1) unfolding ws_def
    by (simp add: can_send_esp_def Let_def ipc_def clip8_def split: prod.splits del: One_nat_def)
qed simp

lemma run_can_recv:
  assumes "ep \<noteq> ULMK_EP_INVALID K" "unat (ci_last_len (g_can st)) \<le> 8"
    "unat (ci_last_len (g_can st)) \<le> length (ci_last (g_can st))"
  shows "run_state (can_recv_esp K ep (ipc K (can_dispatch_esp K)) junk (Some a) (Some d) (Some l)) st =
    ((ULMK_OK K, Some (ci_last_id (g_can st)),
      Some (take (unat (ci_last_len (g_can st))) (ci_last (g_can st)) @ drop (unat (ci_last_len (g_can st))) d),
      Some (ci_last_len (g_can st))), st)"
proof -
  let ?c = "g_can st"
  define bs where "bs = take (unat (ci_last_len ?c)) (ci_last ?c)"
  have n: "length bs = unat (ci_last_len ?c)"
    using assms(3) by (simp add: bs_def)
  define ws where "ws = pack_loop 3 0 bs ((\<lambda>_. 0)(0 := ULMK_OK K, 1 := ci_last_id ?c, 2 := ucast (ci_last_len ?c)))"
  have "((\<lambda>_. 0)(0 := ULMK_OK K, 1 := ci_last_id ?c, 2 := ucast (ci_last_len ?c))) m = 0"
    if "m \<in> payload_indices 3 (length bs)" for m
    using payload_indices_bound [OF that] by auto
  then have bytes: "unpack_loop 3 (unat (ci_last_len ?c)) ws = bs"
    unfolding ws_def n [symmetric] by (rule unpack_pack_exact)
  have ws: "ws 0 = ULMK_OK K" "ws 1 = ci_last_id ?c" "ws 2 = ucast (ci_last_len ?c)"
    by (simp_all add: ws_def pack_loop_below)
  have "\<not> ci_last_len ?c > 8"
    using assms(2) by (simp add: not_less word_le_nat_alt)
  moreover have "run_state (can_dispatch_esp K \<lparr>label = CAN_MSG_RECV_ESP, words = junk\<rparr>) st =
      (\<lparr>label = 0, words = ws\<rparr>, st)"
    by (simp add: can_dispatch_esp_def Let_def ws_def bs_def const_defs del: One_nat_def)
  ultimately show ?thesis
    using assms(1) ws bytes
    by (simp add: can_recv_esp_def ipc_def Let_def ucast_up_ucast_id is_up bs_def del: One_nat_def)
qed

lemma run_can_recv_taken:
  assumes "ep \<noteq> ULMK_EP_INVALID K" "g_can st = take_frame r c"
  shows "run_state (can_recv_esp K ep (ipc K (can_dispatch_esp K)) junk (Some a) (Some d) (Some l)) st =
    ((ULMK_OK K, Some (fst (decode_frame r)), Some (snd (decode_frame r) @ drop (length (snd (decode_frame r))) d),
      Some (of_nat (length (snd (decode_frame r))))), st)"
proof -
  have "length (frame_bytes r) = unat (frame_len r)"
    by (simp add: frame_bytes_def)
  then show ?thesis
    using run_can_recv [OF assms(1), of st junk a d l] assms(2) unat_frame_len [of r]
    by (simp add: take_frame_def decode_frame_def)
qed

section \<open>When a send succeeds\<close>

definition tx_free :: "(esp_act event list \<Rightarrow> esp_act event \<Rightarrow> u32) \<Rightarrow> bool" where
  "tx_free ans \<longleftrightarrow> (\<forall>t. ans t (Dev (Rd32 TWAI_STATUS)) AND ST_TXBUF \<noteq> 0)"

lemma run_await_free:
  "tx_free (answer st) \<Longrightarrow> run_state (await_status K c ST_TXBUF ints) st =
     (ULMK_OK K, st\<lparr>trace := trace st @ [Dev (Rd32 TWAI_STATUS)]\<rparr>)"
  by (simp add: await_status_def tx_free_def)

lemma run_await_rx:
  assumes "twai_board K (answer st) frames filed"
  shows "0 < filed (trace st) \<Longrightarrow> run_state (await_status K c ST_RXBUF INT_RX) st =
      (ULMK_OK K, st\<lparr>trace := trace st @ [Dev (Rd32 TWAI_STATUS)]\<rparr>)"
    and "filed (trace st) = 0 \<Longrightarrow> \<exists>pre. frames (trace st @ pre) = frames (trace st) \<and> list_all no_cmd pre \<and>
      run_state (await_status K c ST_RXBUF INT_RX) st =
      (answer st (trace st @ pre) (Kern (Notif_wait_timeout (ci_notif c) (push_bit CAN_NOTIF_IRQ 1) CAN_WAIT_MS)),
       st\<lparr>trace := trace st @ pre @ [Kern (Notif_wait_timeout (ci_notif c) (push_bit CAN_NOTIF_IRQ 1) CAN_WAIT_MS),
         Dev (Wr32 TWAI_INT_ENA 0), Dev (Rd32 TWAI_INT)]\<rparr>)"
proof -
  let ?pre = "[Dev (Rd32 TWAI_STATUS), Dev (Rd32 TWAI_INT), Kern (Irq_ack (ucast (ci_irq c))), Dev (Wr32 TWAI_INT_ENA INT_RX)]"
  have rx: "answer st (trace st) (Dev (Rd32 TWAI_STATUS)) AND ST_RXBUF = 0 \<longleftrightarrow> filed (trace st) = 0"
    using twai_boardD(9) [OF assms] .
  then show "0 < filed (trace st) \<Longrightarrow> run_state (await_status K c ST_RXBUF INT_RX) st =
      (ULMK_OK K, st\<lparr>trace := trace st @ [Dev (Rd32 TWAI_STATUS)]\<rparr>)"
    by (simp add: await_status_def)
  have "list_all no_cmd ?pre"
    by simp
  moreover from this have "frames (trace st @ ?pre) = frames (trace st)"
    using calm(1) [OF assms] by blast
  moreover assume "filed (trace st) = 0"
  ultimately show "\<exists>pre. frames (trace st @ pre) = frames (trace st) \<and> list_all no_cmd pre \<and>
      run_state (await_status K c ST_RXBUF INT_RX) st =
      (answer st (trace st @ pre) (Kern (Notif_wait_timeout (ci_notif c) (push_bit CAN_NOTIF_IRQ 1) CAN_WAIT_MS)),
       st\<lparr>trace := trace st @ pre @ [Kern (Notif_wait_timeout (ci_notif c) (push_bit CAN_NOTIF_IRQ 1) CAN_WAIT_MS),
         Dev (Wr32 TWAI_INT_ENA 0), Dev (Rd32 TWAI_INT)]\<rparr>)"
    using rx by (intro exI [of _ ?pre]) (simp add: await_status_def twai_wait_int_def)
qed

text \<open>A frame in the FIFO, or a wait that works, makes the send return OK.\<close>

lemma can_hw_send_succeeds:
  assumes "abi_ok K" "twai_board K (answer st) frames filed" "ci_ready (g_can st)" "tx_free (answer st)"
    and "len \<le> 8" "unat len \<le> length data"
    and "0 < filed (trace st) \<or>
      (\<forall>t n b ms. frames t \<noteq> [] \<longrightarrow> answer st t (Kern (Notif_wait_timeout n b ms)) = ULMK_OK K)"
  shows "fst (run_state (can_hw_send K ident data len) st) = ULMK_OK K"
proof -
  define t1 where "t1 = trace st @ [Dev (Rd32 TWAI_STATUS)] @ load_events ident data (unat len) @ [Dev (Wr32 TWAI_CMD CMD_SELF_RX)]"
  have n: "unat len \<le> 8" "\<not> len > 8"
    using assms(5) by (auto simp: word_le_nat_alt not_less)
  have q: "List.map decode_frame (frames t1) = List.map decode_frame (frames (trace st)) @ [(ident AND 0x7FF, take (unat len) data)]"
    "filed (trace st) \<le> filed t1"
    using frames_after_start [OF assms(2) _ n(1) assms(6) t1_def] by simp_all
  then have "frames t1 \<noteq> []"
    by auto
  have "\<exists>s'. run_state (await_status K (g_can st) ST_RXBUF INT_RX) (st\<lparr>trace := t1\<rparr>) = (ULMK_OK K, s')"
  proof (cases "0 < filed t1")
    case True
    then show ?thesis
      using run_await_rx(1) [of K "st\<lparr>trace := t1\<rparr>" frames filed] assms(2) by auto
  next
    case False
    with assms(7) q(2) have w: "\<forall>t n b ms. frames t \<noteq> [] \<longrightarrow> answer st t (Kern (Notif_wait_timeout n b ms)) = ULMK_OK K"
      by auto
    then show ?thesis
      using run_await_rx(2) [of K "st\<lparr>trace := t1\<rparr>" frames filed "g_can st"] assms(2) False \<open>frames t1 \<noteq> []\<close>
      by fastforce
  qed
  then obtain s' where "run_state (await_status K (g_can st) ST_RXBUF INT_RX) (st\<lparr>trace := t1\<rparr>) = (ULMK_OK K, s')"
    by blast
  then show ?thesis
    using assms(3) n(2) run_await_free [OF assms(4), of K "g_can st"]
    by (simp add: can_hw_send_def run_can_load_frame t1_def split: prod.splits)
qed

section \<open>A controller for the witnesses\<close>

text \<open>
  The frames of a log, newest event first; a frame in flight reaches the FIFO at the next event in \<open>A\<close>.
\<close>

fun sim_fifo :: "(esp_act event \<Rightarrow> bool) \<Rightarrow> esp_act event list \<Rightarrow> frame_image list \<times> nat" where
  "sim_fifo A [] = ([], 0)"
| "sim_fifo A (e # t) = (case sim_fifo A t of (fs, n) \<Rightarrow>
     if e = Dev (Wr32 TWAI_CMD CMD_SELF_RX) then (fs @ [tx_image (rev t)], n)
     else if e = Dev (Wr32 TWAI_CMD CMD_RELEASE_RX) then (if 0 < n then (tl fs, n - 1) else (fs, n))
     else if e = Dev (Wr32 TWAI_CMD CMD_ABORT) then (take n fs, n)
     else (fs, if A e then length fs else n))"

definition sim_answer :: "(esp_act event \<Rightarrow> bool) \<Rightarrow> esp_act event list \<Rightarrow> esp_act event \<Rightarrow> u32" where
  "sim_answer A t e = (case sim_fifo A (rev t) of (fs, n) \<Rightarrow>
     (case e of
        Kern (Notif_wait_timeout _ _ _) \<Rightarrow> if A e \<and> fs \<noteq> [] then 0 else - 5
      | Dev (Rd32 a) \<Rightarrow> if a = TWAI_STATUS then (if 0 < n then ST_TXBUF OR ST_RXBUF else ST_TXBUF)
          else hd fs (unat ((a - TWAI_DATA 0) div 4))
      | _ \<Rightarrow> 0))"

lemma sim_fifo_filed: "snd (sim_fifo A t) \<le> length (fst (sim_fifo A t))"
  by (induction t) (auto split: prod.splits)

lemma sim_fifo_le: "sim_fifo A t = (fs, n) \<Longrightarrow> n \<le> length fs"
  using sim_fifo_filed [of A t] by simp

lemma sim_data_index: "n < 11 \<Longrightarrow> unat ((TWAI_DATA (of_nat n) - TWAI_DATA 0) div 4) = n"
  and sim_data_status: "n < 11 \<Longrightarrow> TWAI_DATA (of_nat n) \<noteq> TWAI_STATUS"
proof -
  have "n < 11 \<Longrightarrow> n = 0 \<or> n = 1 \<or> n = 2 \<or> n = 3 \<or> n = 4 \<or> n = 5 \<or> n = 6 \<or> n = 7 \<or> n = 8 \<or> n = 9 \<or> n = 10"
    by arith
  then show "n < 11 \<Longrightarrow> unat ((TWAI_DATA (of_nat n) - TWAI_DATA 0) div 4) = n" "n < 11 \<Longrightarrow> TWAI_DATA (of_nat n) \<noteq> TWAI_STATUS"
    by (auto simp: const_defs)
qed

lemma twai_cmds: "CMD_ABORT \<noteq> CMD_SELF_RX" "CMD_RELEASE_RX \<noteq> CMD_SELF_RX" "CMD_ABORT \<noteq> CMD_RELEASE_RX"
  "(ST_TXBUF OR ST_RXBUF) AND ST_RXBUF \<noteq> 0" "ST_TXBUF AND ST_RXBUF = 0" "(ST_TXBUF OR ST_RXBUF) AND ST_TXBUF \<noteq> 0"
  "ST_TXBUF AND ST_TXBUF \<noteq> 0"
  by (simp_all add: CMD_ABORT_def CMD_SELF_RX_def CMD_RELEASE_RX_def ST_TXBUF_def ST_RXBUF_def)

lemma sim_board: "twai_board sample_abi (sim_answer A) (\<lambda>t. fst (sim_fifo A (rev t))) (\<lambda>t. snd (sim_fifo A (rev t)))"
  using sim_fifo_filed [of A] twai_cmds
  by (auto dest: sim_fifo_le simp: twai_board_def sim_answer_def sim_data_index sim_data_status no_cmd_def sample_abi_def
      split: prod.splits event.splits esp_act.splits if_splits)

section \<open>Send and receive\<close>

lemma sent_is_queued:
  assumes "abi_ok K" "twai_board K (answer st) frames filed" "ci_ready (g_can st)" "length (ci_last (g_can st)) = 8"
    and "ep \<noteq> ULMK_EP_INVALID K" "unat (clip8 len) \<le> length data"
    and "run_state (can_send_esp K ep (ipc K (can_dispatch_esp K)) junk ident data len) st = (ULMK_OK K, st')"
    and "queue = List.map decode_frame (frames (trace st)) @ [(ident AND 0x7FF, take (unat (clip8 len)) data)]"
  shows "run_state (can_recv_esp K ep (ipc K (can_dispatch_esp K)) junk' (Some a) (Some buf) (Some l)) st' =
      ((ULMK_OK K, Some (fst (hd queue)), Some (snd (hd queue) @ drop (length (snd (hd queue))) buf),
        Some (of_nat (length (snd (hd queue))))), st')"
    and "List.map decode_frame (frames (trace st')) = tl queue"
proof -
  obtain bs where bs: "take (unat (clip8 len)) bs = take (unat (clip8 len)) data" "length bs = 8"
    "run_state (can_send_esp K ep (ipc K (can_dispatch_esp K)) junk ident data len) st =
      run_state (can_hw_send K ident bs (clip8 len)) st"
    using assms(5,6) by (rule run_can_send_esp)
  obtain r where r: "st' = st\<lparr>g_can := take_frame r (g_can st), trace := trace st'\<rparr>" "decode_frame r = hd queue"
    "List.map decode_frame (frames (trace st')) = tl queue"
    using run_can_hw_send [OF assms(1-4) clip8_le(1), of len bs ident st'] assms(7,8) bs clip8_le(3) [of len] by auto
  have "g_can st' = take_frame r (g_can st)"
    by (subst r(1)) simp
  with r(2,3) run_can_recv_taken [OF assms(5)]
  show "run_state (can_recv_esp K ep (ipc K (can_dispatch_esp K)) junk' (Some a) (Some buf) (Some l)) st' =
      ((ULMK_OK K, Some (fst (hd queue)), Some (snd (hd queue) @ drop (length (snd (hd queue))) buf),
        Some (of_nat (length (snd (hd queue))))), st')" "List.map decode_frame (frames (trace st')) = tl queue"
    by metis+
qed

text \<open>C36: Send and receive are the two ends of a queue.  On a controller that files its own frames, a send that
  returns OK appends the caller's frame (the low eleven bits of the identifier, at most eight bytes) to
  the frames the controller still holds and takes the oldest one off, and the next \<^verbatim>\<open>can_recv\<close> returns
  exactly that one: identifier, length and bytes, in the front of the caller's buffer.  With no frame left
  over from before, that is the frame just sent; with one left over it is an older one, and as many frames
  are left over afterwards as before, so that the server never catches up.\<close>

theorem can_send_recv_queue:
  assumes "abi_ok K" "twai_board K (answer st) frames filed" "ci_ready (g_can st)" "length (ci_last (g_can st)) = 8"
    and "ep \<noteq> ULMK_EP_INVALID K" "unat (clip8 len) \<le> length data"
    and "run_state (can_send_esp K ep (ipc K (can_dispatch_esp K)) junk ident data len) st = (ULMK_OK K, st')"
    and "queue = List.map decode_frame (frames (trace st)) @ [(ident AND 0x7FF, take (unat (clip8 len)) data)]"
  shows "run_state (can_recv_esp K ep (ipc K (can_dispatch_esp K)) junk' (Some a) (Some buf) (Some l)) st' =
      ((ULMK_OK K, Some (fst (hd queue)), Some (snd (hd queue) @ drop (length (snd (hd queue))) buf),
        Some (of_nat (length (snd (hd queue))))), st') \<and>
    List.map decode_frame (frames (trace st')) = tl queue"
  using sent_is_queued [OF assms(1-8)] by simp

definition can_esp_boot :: "(esp_act event list \<Rightarrow> esp_act event \<Rightarrow> u32) \<Rightarrow> can_esp_st" where
  "can_esp_boot ans = \<lparr>trace = [], answer = ans, fault = False, g_pinmux_eps_esp = 7, g_can_ep = 5,
     g_can = \<lparr>ci_index = 0, ci_ready = True, ci_irq = 9, ci_notif = 3, ci_last_id = 0, ci_last = replicate 8 0, ci_last_len = 0\<rparr>\<rparr>"

lemma can_esp_boot_simps [simp]: "trace (can_esp_boot ans) = []" "answer (can_esp_boot ans) = ans"
  "ci_ready (g_can (can_esp_boot ans))" "length (ci_last (g_can (can_esp_boot ans))) = 8"
  by (simp_all add: can_esp_boot_def)

text \<open>A frame arrives while the server waits for it.\<close>

definition at_wait :: "esp_act event \<Rightarrow> bool" where
  "at_wait e \<longleftrightarrow> (case e of Kern (Notif_wait_timeout _ _ _) \<Rightarrow> True | _ \<Rightarrow> False)"

lemma tx_free_sim: "tx_free (sim_answer A)"
  using twai_cmds(6,7) by (auto simp: tx_free_def sim_answer_def split: prod.splits)

lemma can_send_succeeds:
  assumes "abi_ok K" "twai_board K (answer st) frames filed" "ci_ready (g_can st)" "tx_free (answer st)"
    and "ep \<noteq> ULMK_EP_INVALID K" "unat (clip8 len) \<le> length data"
    and "0 < filed (trace st) \<or>
      (\<forall>t n b ms. frames t \<noteq> [] \<longrightarrow> answer st t (Kern (Notif_wait_timeout n b ms)) = ULMK_OK K)"
  shows "\<exists>st'. run_state (can_send_esp K ep (ipc K (can_dispatch_esp K)) junk ident data len) st = (ULMK_OK K, st')"
proof -
  obtain bs where "length bs = 8" "run_state (can_send_esp K ep (ipc K (can_dispatch_esp K)) junk ident data len) st =
      run_state (can_hw_send K ident bs (clip8 len)) st"
    using assms(5,6) by (rule run_can_send_esp)
  then show ?thesis
    using can_hw_send_succeeds [OF assms(1-4) clip8_le(1) _ assms(7), of len bs ident] clip8_le(3) [of len]
    by (metis prod.collapse)
qed

theorem can_send_recv_queue_witness:
  "fst (run_state (do {
      rc \<leftarrow> can_send_esp sample_abi 5 (ipc sample_abi (can_dispatch_esp sample_abi)) (\<lambda>_. 0xDEAD) 0x123 [1, 2, 3] 3;
      r \<leftarrow> can_recv_esp sample_abi 5 (ipc sample_abi (can_dispatch_esp sample_abi)) (\<lambda>_. 0xBEEF) (Some 0) (Some [9, 9, 9, 9]) (Some 0);
      ret (rc, r)
    }) (can_esp_boot (sim_answer at_wait))) = (0, 0, Some 0x123, Some [1, 2, 3, 9], Some 3)"
proof -
  let ?st = "can_esp_boot (sim_answer at_wait)"
  have b: "twai_board sample_abi (answer ?st) (\<lambda>t. fst (sim_fifo at_wait (rev t))) (\<lambda>t. snd (sim_fifo at_wait (rev t)))"
    using sim_board by simp
  have ep: "(5 :: u32) \<noteq> ULMK_EP_INVALID sample_abi" and n: "unat (clip8 3) \<le> length [1, 2, 3 :: u8]" "unat (clip8 3) = 3"
    by (simp_all add: sample_abi_def clip8_def)
  have "\<forall>t n b ms. fst (sim_fifo at_wait (rev t)) \<noteq> [] \<longrightarrow>
      answer ?st t (Kern (Notif_wait_timeout n b ms)) = ULMK_OK sample_abi"
    by (auto simp: sim_answer_def at_wait_def sample_abi_def split: prod.splits)
  then have "\<exists>st'. run_state (can_send_esp sample_abi 5 (ipc sample_abi (can_dispatch_esp sample_abi))
      (\<lambda>_. 0xDEAD) 0x123 [1, 2, 3] 3) ?st = (ULMK_OK sample_abi, st')"
    using can_send_succeeds [OF sample_abi_ok b _ _ ep n(1)] tx_free_sim by simp
  then obtain st' where st': "run_state (can_send_esp sample_abi 5 (ipc sample_abi (can_dispatch_esp sample_abi))
      (\<lambda>_. 0xDEAD) 0x123 [1, 2, 3] 3) ?st = (ULMK_OK sample_abi, st')"
    by blast
  show ?thesis
    using can_send_recv_queue [OF sample_abi_ok b _ _ ep n(1) st' refl] st' n(2)
    by (simp add: sample_abi_def)
qed

section \<open>A lost interrupt\<close>

text \<open>The frame arrives just before the interrupt register is read, which clears its flag: the wait times out.\<close>

lemma can_hw_send_lost:
  assumes "abi_ok K" "twai_board K (answer st) frames filed" "ci_ready (g_can st)" "tx_free (answer st)"
    and "len \<le> 8" "unat len \<le> length data" "frames (trace st) = []"
    and "\<And>t. filed (t @ [Dev (Wr32 TWAI_CMD CMD_SELF_RX)]) = filed t" "\<And>t. filed (t @ [Dev (Rd32 TWAI_INT)]) = length (frames t)"
    and "\<And>t n b ms. answer st t (Kern (Notif_wait_timeout n b ms)) = ULMK_ETIMEOUT K"
  shows "\<exists>t'. run_state (can_hw_send K ident data len) st = (ULMK_ETIMEOUT K, st\<lparr>trace := t'\<rparr>) \<and>
    List.map decode_frame (frames t') = [(ident AND 0x7FF, take (unat len) data)] \<and> 0 < filed t'"
proof -
  let ?load = "trace st @ [Dev (Rd32 TWAI_STATUS)] @ load_events ident data (unat len)"
  define t1 where "t1 = ?load @ [Dev (Wr32 TWAI_CMD CMD_SELF_RX)]"
  have n: "unat len \<le> 8" "\<not> len > 8"
    using assms(5) by (auto simp: word_le_nat_alt not_less)
  have q: "List.map decode_frame (frames t1) = [(ident AND 0x7FF, take (unat len) data)]"
    using frames_after_start(1) [OF assms(2) _ n(1) assms(6), where t = t1 and st = st and es = "[Dev (Rd32 TWAI_STATUS)]"]
      assms(7) by (simp add: t1_def)
  have "list_all no_cmd ([Dev (Rd32 TWAI_STATUS)] @ load_events ident data (unat len))"
    using load_events_calm [OF n(1)] by simp
  then have "frames ?load = []"
    using calm(1) [OF assms(2), of _ "trace st"] assms(7) by simp
  then have "filed t1 = 0"
    using twai_boardD(1) [OF assms(2), of ?load] assms(8) [of ?load] by (simp add: t1_def)
  define w :: "esp_act event" where "w = Kern (Notif_wait_timeout (ci_notif (g_can st)) (push_bit CAN_NOTIF_IRQ 1) CAN_WAIT_MS)"
  obtain pre where pre: "frames (t1 @ pre) = frames t1" "list_all no_cmd pre"
    "run_state (await_status K (g_can st) ST_RXBUF INT_RX) (st\<lparr>trace := t1\<rparr>) =
      (ULMK_ETIMEOUT K, st\<lparr>trace := t1 @ pre @ [w, Dev (Wr32 TWAI_INT_ENA 0), Dev (Rd32 TWAI_INT)]\<rparr>)"
    using run_await_rx(2) [of K "st\<lparr>trace := t1\<rparr>" frames filed "g_can st"] assms(2,10) \<open>filed t1 = 0\<close> by (auto simp: w_def)
  let ?t = "(t1 @ pre @ [w, Dev (Wr32 TWAI_INT_ENA 0)])"
  let ?e = "?t @ [Dev (Rd32 TWAI_INT)] @ [Dev (Wr32 TWAI_CMD CMD_ABORT)]"
  have "list_all no_cmd [w, Dev (Wr32 TWAI_INT_ENA 0)]"
    by (simp add: w_def)
  then have t: "frames ?t = frames t1" "frames (?t @ [Dev (Rd32 TWAI_INT)]) = frames t1"
    using calm(1) [OF assms(2), of _ "t1 @ pre"] twai_boardD(2) [OF assms(2), of "Dev (Rd32 TWAI_INT)" ?t] pre(1) by simp_all
  have "filed (?t @ [Dev (Rd32 TWAI_INT)]) = length (frames t1)"
    using assms(9) [of ?t] t(1) by simp
  then have "frames ?e = frames t1" "filed ?e = length (frames t1)"
    using twai_boardD(7,8) [OF assms(2), of "?t @ [Dev (Rd32 TWAI_INT)]"] t(2) by simp_all
  moreover have "frames t1 \<noteq> []"
    using q by auto
  moreover have "run_state (can_hw_send K ident data len) st = (ULMK_ETIMEOUT K, st\<lparr>trace := ?e\<rparr>)"
    using assms(1,3) n(2) run_await_free [OF assms(4), of K "g_can st"] pre(3)
    by (simp add: can_hw_send_def run_can_load_frame t1_def)
  ultimately show ?thesis
    using q by (metis length_greater_0_conv)
qed

text \<open>C37: A frame can arrive between the status read and the read of the interrupt register in
  \<^verbatim>\<open>twai_wait_int\<close>, which clears its flag.  Then the send times out with the frame in the receive FIFO and
  the server's last frame unchanged, and nothing ever empties that FIFO: the next send, of another
  frame, returns OK, and the \<^verbatim>\<open>can_recv\<close> after it returns the frame of the send that failed, while the second
  frame stays behind in its turn.\<close>

theorem can_send_lost_wakeup:
  assumes "abi_ok K" "twai_board K (answer st) frames filed" "ci_ready (g_can st)" "length (ci_last (g_can st)) = 8"
    and "tx_free (answer st)" "ep \<noteq> ULMK_EP_INVALID K" "frames (trace st) = []"
    and "unat (clip8 len) \<le> length data" "unat (clip8 len') \<le> length data'"
    and "\<And>t. filed (t @ [Dev (Wr32 TWAI_CMD CMD_SELF_RX)]) = filed t" "\<And>t. filed (t @ [Dev (Rd32 TWAI_INT)]) = length (frames t)"
    and "\<And>t n b ms. answer st t (Kern (Notif_wait_timeout n b ms)) = ULMK_ETIMEOUT K"
  shows "\<exists>st1 st2.
    run_state (can_send_esp K ep (ipc K (can_dispatch_esp K)) junk ident data len) st = (ULMK_ETIMEOUT K, st1) \<and>
    g_can st1 = g_can st \<and>
    run_state (can_send_esp K ep (ipc K (can_dispatch_esp K)) junk ident' data' len') st1 = (ULMK_OK K, st2) \<and>
    run_state (can_recv_esp K ep (ipc K (can_dispatch_esp K)) junk (Some a) (Some buf) (Some l)) st2 =
      ((ULMK_OK K, Some (ident AND 0x7FF), Some (take (unat (clip8 len)) data @ drop (unat (clip8 len)) buf),
        Some (clip8 len)), st2) \<and>
    List.map decode_frame (frames (trace st2)) = [(ident' AND 0x7FF, take (unat (clip8 len')) data')]"
proof -
  obtain bs where bs: "take (unat (clip8 len)) bs = take (unat (clip8 len)) data" "length bs = 8"
    "run_state (can_send_esp K ep (ipc K (can_dispatch_esp K)) junk ident data len) st =
      run_state (can_hw_send K ident bs (clip8 len)) st"
    using assms(6,8) by (rule run_can_send_esp)
  obtain t1 where t1: "run_state (can_send_esp K ep (ipc K (can_dispatch_esp K)) junk ident data len) st =
      (ULMK_ETIMEOUT K, st\<lparr>trace := t1\<rparr>)"
    "List.map decode_frame (frames t1) = [(ident AND 0x7FF, take (unat (clip8 len)) data)]" "0 < filed t1"
    using can_hw_send_lost [OF assms(1-3,5) clip8_le(1) _ assms(7,10-12), of len bs ident] clip8_le(3) [of len] bs by auto
  let ?st1 = "st\<lparr>trace := t1\<rparr>"
  have st1: "twai_board K (answer ?st1) frames filed" "ci_ready (g_can ?st1)" "length (ci_last (g_can ?st1)) = 8"
    "tx_free (answer ?st1)" "0 < filed (trace ?st1)" "g_can ?st1 = g_can st"
    using assms(2-5) t1(3) by simp_all
  obtain st2 where st2: "run_state (can_send_esp K ep (ipc K (can_dispatch_esp K)) junk ident' data' len') ?st1 = (ULMK_OK K, st2)"
    using can_send_succeeds [OF assms(1) st1(1,2,4) assms(6,9)] st1(5) by blast
  have len: "length (take (unat (clip8 len)) data) = unat (clip8 len)"
    using assms(8) by simp
  have "run_state (can_recv_esp K ep (ipc K (can_dispatch_esp K)) junk (Some a) (Some buf) (Some l)) st2 =
      ((ULMK_OK K, Some (ident AND 0x7FF), Some (take (unat (clip8 len)) data @ drop (unat (clip8 len)) buf),
        Some (clip8 len)), st2)"
    "List.map decode_frame (frames (trace st2)) = [(ident' AND 0x7FF, take (unat (clip8 len')) data')]"
    using sent_is_queued(1) [OF assms(1) st1(1-3) assms(6,9) st2 refl, of junk a buf l]
      sent_is_queued(2) [OF assms(1) st1(1-3) assms(6,9) st2 refl] t1(2) len by simp_all
  with t1(1) st1(6) st2 show ?thesis
    by (intro exI [of _ ?st1] exI [of _ st2] conjI)
qed

text \<open>A frame arrives with the read of the interrupt register.\<close>

definition at_ack :: "esp_act event \<Rightarrow> bool" where
  "at_ack e \<longleftrightarrow> e = Dev (Rd32 TWAI_INT)"

theorem can_send_lost_wakeup_witness:
  "\<exists>st1 st2.
    run_state (can_send_esp sample_abi 5 (ipc sample_abi (can_dispatch_esp sample_abi)) (\<lambda>_. 0) 0x123 [1, 2, 3] 3)
      (can_esp_boot (sim_answer at_ack)) = (- 5, st1) \<and>
    run_state (can_send_esp sample_abi 5 (ipc sample_abi (can_dispatch_esp sample_abi)) (\<lambda>_. 0) 0x456 [7] 1) st1 = (0, st2) \<and>
    run_state (can_recv_esp sample_abi 5 (ipc sample_abi (can_dispatch_esp sample_abi)) (\<lambda>_. 0) (Some 0) (Some [9, 9, 9, 9])
      (Some 0)) st2 = ((0, Some 0x123, Some [1, 2, 3, 9], Some 3), st2)"
proof -
  let ?st = "can_esp_boot (sim_answer at_ack)"
  have b: "twai_board sample_abi (answer ?st) (\<lambda>t. fst (sim_fifo at_ack (rev t))) (\<lambda>t. snd (sim_fifo at_ack (rev t)))"
    using sim_board by simp
  have ep: "(5 :: u32) \<noteq> ULMK_EP_INVALID sample_abi" and n: "unat (clip8 3) \<le> length [1, 2, 3 :: u8]"
    "unat (clip8 1) \<le> length [7 :: u8]" "clip8 3 = 3"
    by (simp_all add: sample_abi_def clip8_def)
  have f: "snd (sim_fifo at_ack (rev (t @ [Dev (Wr32 TWAI_CMD CMD_SELF_RX)]))) = snd (sim_fifo at_ack (rev t))"
    "snd (sim_fifo at_ack (rev (t @ [Dev (Rd32 TWAI_INT)]))) = length (fst (sim_fifo at_ack (rev t)))"
    "answer ?st t (Kern (Notif_wait_timeout k m ms)) = ULMK_ETIMEOUT sample_abi"
    "fst (sim_fifo at_ack (rev (trace ?st))) = []" "tx_free (answer ?st)" for t k m ms
    by (simp_all add: at_ack_def sim_answer_def tx_free_sim sample_abi_def split: prod.splits)
  show ?thesis
    using can_send_lost_wakeup [OF sample_abi_ok b _ _ f(5) ep f(4) n(1,2) f(1-3),
        where junk = "\<lambda>_. 0" and ident = "0x123" and ident' = "0x456" and a = 0 and buf = "[9, 9, 9, 9]" and l = 0]
    by (auto simp: sample_abi_def n(3))
qed

end
