(* ===== verification/Gpio_Esp32.thy ===== *)
theory Gpio_Esp32
  imports Pinmux_Esp32
begin

text \<open>
  The GPIO driver of the ESP32-P4 board, \<^verbatim>\<open>esp32p4_ev_function/drivers/gpio/src/gpio_hw.c\<close>,
  \<^verbatim>\<open>server.c\<close> and \<^verbatim>\<open>client.c\<close>, and the two panel pins of \<^verbatim>\<open>board_lcd.c\<close>, which use the same
  functions from another thread.
\<close>

section \<open>Registers\<close>

definition GPIO_OUT_W1TS :: u32 where [const_defs]: "GPIO_OUT_W1TS = ULMK_BOARD_GPIO_BASE + 0x08"
definition GPIO_OUT_W1TC :: u32 where [const_defs]: "GPIO_OUT_W1TC = ULMK_BOARD_GPIO_BASE + 0x0c"
definition GPIO_OUT1_W1TS :: u32 where [const_defs]: "GPIO_OUT1_W1TS = ULMK_BOARD_GPIO_BASE + 0x14"
definition GPIO_OUT1_W1TC :: u32 where [const_defs]: "GPIO_OUT1_W1TC = ULMK_BOARD_GPIO_BASE + 0x18"
definition GPIO_IN :: u32 where [const_defs]: "GPIO_IN = ULMK_BOARD_GPIO_BASE + 0x3c"
definition GPIO_IN1 :: u32 where [const_defs]: "GPIO_IN1 = ULMK_BOARD_GPIO_BASE + 0x40"
definition GPIO_DIR_OUT_ESP :: u32 where [const_defs]: "GPIO_DIR_OUT_ESP = 1"
definition GPIO_PULL_NONE_ESP :: u32 where [const_defs]: "GPIO_PULL_NONE_ESP = 0"
definition GPIO_PULL_UP_ESP :: u32 where [const_defs]: "GPIO_PULL_UP_ESP = 1"
definition GPIO_PULL_DOWN_ESP :: u32 where [const_defs]: "GPIO_PULL_DOWN_ESP = 2"
definition PINMUX_ALT_GPIO_ESP :: u8 where [const_defs]: "PINMUX_ALT_GPIO_ESP = 0"
definition GPIO_MSG_CONFIG_ESP :: u32 where [const_defs]: "GPIO_MSG_CONFIG_ESP = 1"
definition GPIO_MSG_SET_ESP :: u32 where [const_defs]: "GPIO_MSG_SET_ESP = 2"
definition GPIO_MSG_GET_ESP :: u32 where [const_defs]: "GPIO_MSG_GET_ESP = 3"
definition GPIO_MSG_SUBSCRIBE_ESP :: u32 where [const_defs]: "GPIO_MSG_SUBSCRIBE_ESP = 4"
definition GPIO_MAX_ESP :: u8 where [const_defs]: "GPIO_MAX_ESP = 1"
definition GPIO_STACK_SIZE_ESP :: u32 where "GPIO_STACK_SIZE_ESP = 1536"
definition LCD_RST_GPIO :: u8 where [const_defs]: "LCD_RST_GPIO = 27"
definition BL_GPIO :: u8 where [const_defs]: "BL_GPIO = 26"

record gpio_esp_st = pads_esp +
  g_gpio_eps_esp :: u32

section \<open>The pads\<close>

definition gpio_hw_config_esp :: "ulmk_abi \<Rightarrow> u8 \<Rightarrow> u32 \<Rightarrow> u32 \<Rightarrow> ('z, cint) esp_op" where
  "gpio_hw_config_esp K gpio dir pull =
     (if \<not> gpio_ok gpio then ret (ULMK_EINVAL K)
      else pinmux_apply_esp K (Some \<lparr>pc_port = 0, pc_pin = gpio,
        pc_dir = (if dir = GPIO_DIR_OUT_ESP then PINMUX_DIR_OUT_ESP else PINMUX_DIR_IN_ESP),
        pc_pull = (if pull = GPIO_PULL_UP_ESP then PINMUX_PULL_UP_ESP
                   else if pull = GPIO_PULL_DOWN_ESP then PINMUX_PULL_DOWN_ESP else PINMUX_PULL_NONE_ESP),
        pc_alt = PINMUX_ALT_GPIO_ESP, pc_flags = PINMUX_F_IE, pc_matrix_out = 0, pc_matrix_in = 0\<rparr>))"

definition gpio_hw_set_esp :: "ulmk_abi \<Rightarrow> u8 \<Rightarrow> cint \<Rightarrow> ('z, cint) esp_op" where
  "gpio_hw_set_esp K gpio v =
     (if \<not> gpio_ok gpio then ret (ULMK_EINVAL K)
      else do {
        let b = push_bit (unat (gpio AND 31)) 1;
        (if gpio < 32 then
           (if v \<noteq> 0 then wr32 GPIO_OUT_W1TS b else wr32 GPIO_OUT_W1TC b)
         else
           (if v \<noteq> 0 then wr32 GPIO_OUT1_W1TS b else wr32 GPIO_OUT1_W1TC b));
        ret (ULMK_OK K)
      })"

text \<open>The level is returned with the status; the server's \<^verbatim>\<open>level\<close> is 0 where it is not set.\<close>

definition gpio_hw_get_esp :: "ulmk_abi \<Rightarrow> u8 \<Rightarrow> ('z, cint \<times> u32) esp_op" where
  "gpio_hw_get_esp K gpio =
     (if \<not> gpio_ok gpio then ret (ULMK_EINVAL K, 0)
      else do {
        let b = push_bit (unat (gpio AND 31)) 1;
        v \<leftarrow> (if gpio < 32 then rd32 GPIO_IN else rd32 GPIO_IN1);
        ret (ULMK_OK K, if v AND b \<noteq> 0 then 1 else 0)
      })"

section \<open>The server\<close>

definition pin_gpio :: "u16 \<Rightarrow> u8" where
  "pin_gpio enc = ucast (enc AND 0xFF)"

text \<open>The words of a reply that the server does not set are zero here; no client reads them.\<close>

definition gpio_reply_esp :: "cint \<Rightarrow> u32 \<Rightarrow> msg" where
  "gpio_reply_esp rc level = \<lparr>label = 0, words = (\<lambda>_. 0)(0 := rc, 1 := level)\<rparr>"

definition gpio_dispatch_esp :: "ulmk_abi \<Rightarrow> msg \<Rightarrow> ('z, msg) esp_op" where
  "gpio_dispatch_esp K m =
     (if label m = GPIO_MSG_CONFIG_ESP then do {
        rc \<leftarrow> gpio_hw_config_esp K (pin_gpio (ucast (words m 0))) (words m 1) (words m 2);
        ret (gpio_reply_esp rc 0)
      } else if label m = GPIO_MSG_SET_ESP then do {
        rc \<leftarrow> gpio_hw_set_esp K (pin_gpio (ucast (words m 0))) (words m 1);
        ret (gpio_reply_esp rc 0)
      } else if label m = GPIO_MSG_GET_ESP then do {
        (rc, level) \<leftarrow> gpio_hw_get_esp K (pin_gpio (ucast (words m 0)));
        ret (gpio_reply_esp rc level)
      } else if label m = GPIO_MSG_SUBSCRIBE_ESP then ret (gpio_reply_esp (ULMK_ENOTSUP K) 0)
      else ret (gpio_reply_esp (ULMK_EINVAL K) 0))"

definition gpio_init_esp :: "ulmk_abi \<Rightarrow> u8 \<Rightarrow> ('z gpio_esp_st_scheme, u32) state" where
  "gpio_init_esp K n = do {
     cur \<leftarrow> gets g_gpio_eps_esp;
     if n \<ge> GPIO_MAX_ESP then ret (ULMK_TID_INVALID K)
     else if cur \<noteq> ULMK_EP_INVALID K \<and> cur \<noteq> 0 then ret (ULMK_TID_INVALID K)
     else do {
       ep \<leftarrow> kern Ep_create;
       if ep = ULMK_EP_INVALID K then ret (ULMK_TID_INVALID K)
       else do {
         modify (\<lambda>st. st\<lparr>g_gpio_eps_esp := ep\<rparr>);
         tid \<leftarrow> kern (Thread_create ''gpio'' 1 GPIO_STACK_SIZE_ESP);
         if tid = ULMK_TID_INVALID K then do {
           modify (\<lambda>st. st\<lparr>g_gpio_eps_esp := ULMK_EP_INVALID K\<rparr>);
           kern_do (Ep_destroy ep);
           ret (ULMK_TID_INVALID K)
         } else do {
           kern_do (Cap_grant tid ''MAP_PERIPH'');
           ret tid
         }
       }
     }
   }"

section \<open>The client\<close>

text \<open>\<open>ep\<close> is the entry of \<^verbatim>\<open>g_gpio_eps\<close> for instance \<open>n\<close>; \<open>junk\<close> are the words of the uninitialised message.\<close>

definition gpio_call_esp :: "ulmk_abi \<Rightarrow> u32 \<Rightarrow> 's ep_call \<Rightarrow> u8 \<Rightarrow> msg \<Rightarrow> ('s, cint \<times> msg) state" where
  "gpio_call_esp K ep call n m =
     (if n \<ge> GPIO_MAX_ESP \<or> ep = ULMK_EP_INVALID K then ret (ULMK_ESRCH K, m) else call m)"

definition gpio_config_esp :: "ulmk_abi \<Rightarrow> u32 \<Rightarrow> 's ep_call \<Rightarrow> (nat \<Rightarrow> u32) \<Rightarrow> u8 \<Rightarrow> u16 \<Rightarrow> u32 \<Rightarrow> u32 \<Rightarrow> ('s, cint) state" where
  "gpio_config_esp K ep call junk n pin dir pull = do {
     (rc, m) \<leftarrow> gpio_call_esp K ep call n
       \<lparr>label = GPIO_MSG_CONFIG_ESP, words = junk(0 := ucast pin, 1 := dir, 2 := pull, 3 := 0)\<rparr>;
     ret (if rc \<noteq> ULMK_OK K then rc else words m 0)
   }"

definition gpio_set_esp :: "ulmk_abi \<Rightarrow> u32 \<Rightarrow> 's ep_call \<Rightarrow> (nat \<Rightarrow> u32) \<Rightarrow> u8 \<Rightarrow> u16 \<Rightarrow> cint \<Rightarrow> ('s, cint) state" where
  "gpio_set_esp K ep call junk n pin v = do {
     (rc, m) \<leftarrow> gpio_call_esp K ep call n \<lparr>label = GPIO_MSG_SET_ESP, words = junk(0 := ucast pin, 1 := v)\<rparr>;
     ret (if rc \<noteq> ULMK_OK K then rc else words m 0)
   }"

text \<open>The caller's variable is the option; \<open>None\<close> is a null pointer.\<close>

definition gpio_get_esp :: "ulmk_abi \<Rightarrow> u32 \<Rightarrow> 's ep_call \<Rightarrow> (nat \<Rightarrow> u32) \<Rightarrow> u8 \<Rightarrow> u16 \<Rightarrow> cint option \<Rightarrow>
    ('s, cint \<times> cint option) state" where
  "gpio_get_esp K ep call junk n pin val = do {
     (rc, m) \<leftarrow> gpio_call_esp K ep call n \<lparr>label = GPIO_MSG_GET_ESP, words = junk(0 := ucast pin)\<rparr>;
     if rc \<noteq> ULMK_OK K then ret (rc, val)
     else if words m 0 \<noteq> ULMK_OK K then ret (words m 0, val)
     else ret (ULMK_OK K, map_option (\<lambda>_. words m 1) val)
   }"

definition gpio_subscribe_esp :: "ulmk_abi \<Rightarrow> u32 \<Rightarrow> 's ep_call \<Rightarrow> (nat \<Rightarrow> u32) \<Rightarrow> u8 \<Rightarrow> u16 \<Rightarrow> u32 \<Rightarrow> u32 \<Rightarrow> u32 \<Rightarrow>
    ('s, cint) state" where
  "gpio_subscribe_esp K ep call junk n pin edge notif b = do {
     (rc, m) \<leftarrow> gpio_call_esp K ep call n
       \<lparr>label = GPIO_MSG_SUBSCRIBE_ESP, words = junk(0 := ucast pin, 1 := edge, 2 := notif, 3 := b)\<rparr>;
     ret (if rc \<noteq> ULMK_OK K then rc else words m 0)
   }"

section \<open>The panel\<close>

definition board_lcd_reset :: "ulmk_abi \<Rightarrow> ('z, unit) esp_op" where
  "board_lcd_reset K = do {
     _ \<leftarrow> gpio_hw_config_esp K LCD_RST_GPIO GPIO_DIR_OUT_ESP GPIO_PULL_NONE_ESP;
     _ \<leftarrow> gpio_hw_set_esp K LCD_RST_GPIO 0;
     kern_do (Sleep_ms 20);
     _ \<leftarrow> gpio_hw_set_esp K LCD_RST_GPIO 1;
     kern_do (Sleep_ms 50)
   }"

definition board_lcd_backlight_gpio :: "ulmk_abi \<Rightarrow> bool \<Rightarrow> ('z, unit) esp_op" where
  "board_lcd_backlight_gpio K on = do {
     _ \<leftarrow> gpio_hw_config_esp K BL_GPIO GPIO_DIR_OUT_ESP GPIO_PULL_NONE_ESP;
     _ \<leftarrow> gpio_hw_set_esp K BL_GPIO (if on then 1 else 0);
     ret ()
   }"

section \<open>What the log makes of the pads\<close>

text \<open>
  A pad is driven by two latches, its level and its output enable, each with a pair of registers that
  set and clear bits for the pads below 32 and another pair for the rest.  \<open>latch\<close> is the value of
  such a latch after a log, \<open>None\<close> before the first write.
\<close>

type_synonym bank = "u32 \<times> u32 \<times> u32 \<times> u32"

fun latch_step :: "bank \<Rightarrow> u8 \<Rightarrow> esp_act event \<Rightarrow> bool option \<Rightarrow> bool option" where
  "latch_step (s0, c0, s1, c1) p (Dev (Wr32 a v)) old =
     (if p < 32 then (if bit v (unat p) then (if a = s0 then Some True else if a = c0 then Some False else old) else old)
      else (if bit v (unat p - 32) then (if a = s1 then Some True else if a = c1 then Some False else old) else old))"
| "latch_step _ _ _ old = old"

definition latch :: "bank \<Rightarrow> esp_act event list \<Rightarrow> u8 \<Rightarrow> bool option" where
  "latch bk t p = fold (latch_step bk p) t None"

definition level_bank :: bank where
  "level_bank = (GPIO_OUT_W1TS, GPIO_OUT_W1TC, GPIO_OUT1_W1TS, GPIO_OUT1_W1TC)"

definition oe_bank :: bank where
  "oe_bank = (GPIO_ENABLE_W1TS, GPIO_ENABLE_W1TC, GPIO_ENABLE1_W1TS, GPIO_ENABLE1_W1TC)"

text \<open>The pads as a client sees them: for each, whether it is driven and at which level.\<close>

type_synonym pads_view = "(u8 \<Rightarrow> bool option) \<times> (u8 \<Rightarrow> bool option)"

definition pads_of :: "esp_act event list \<Rightarrow> pads_view" where
  "pads_of t = (latch oe_bank t, latch level_bank t)"

definition gpio_step :: "msg \<Rightarrow> pads_view \<Rightarrow> pads_view" where
  "gpio_step m v = (let pin = pin_gpio (ucast (words m 0)) in
     if pin > 56 then v
     else if label m = GPIO_MSG_CONFIG_ESP then ((fst v)(pin := Some (words m 1 = GPIO_DIR_OUT_ESP)), snd v)
     else if label m = GPIO_MSG_SET_ESP then (fst v, (snd v)(pin := Some (words m 1 \<noteq> 0)))
     else v)"

definition gpio_status :: "ulmk_abi \<Rightarrow> msg \<Rightarrow> cint" where
  "gpio_status K m =
     (if label m = GPIO_MSG_SUBSCRIBE_ESP then ULMK_ENOTSUP K
      else if label m \<notin> {GPIO_MSG_CONFIG_ESP, GPIO_MSG_SET_ESP, GPIO_MSG_GET_ESP} then ULMK_EINVAL K
      else if pin_gpio (ucast (words m 0)) > 56 then ULMK_EINVAL K else ULMK_OK K)"

lemma latch_append: "latch bk (t @ es) p = fold (latch_step bk p) es (latch bk t p)"
  by (simp add: latch_def)

lemma pin_split:
  fixes g :: u8
  assumes "g \<le> 56"
  shows "g < 32 \<Longrightarrow> unat (g AND 31) = unat g" "\<not> g < 32 \<Longrightarrow> unat (g AND 31) = unat g - 32" "unat g \<le> 56"
proof -
  have g: "unat g \<le> 56"
    using assms by (simp add: word_le_nat_alt)
  have "g AND 31 = take_bit 5 g"
    by (simp add: take_bit_eq_mask mask_eq_exp_minus_1)
  then have "unat (g AND 31) = unat g mod 32"
    by (simp add: take_bit_eq_mod unat_mod)
  then show "g < 32 \<Longrightarrow> unat (g AND 31) = unat g" "\<not> g < 32 \<Longrightarrow> unat (g AND 31) = unat g - 32" "unat g \<le> 56"
    using g by (simp_all add: word_less_nat_alt mod_nat_eqI le_mod_geq)
qed

text \<open>The write that sets or clears one latch.\<close>

fun drive :: "bank \<Rightarrow> u8 \<Rightarrow> bool \<Rightarrow> esp_act event" where
  "drive (s0, c0, s1, c1) g on =
     Dev (Wr32 (if g < 32 then (if on then s0 else c0) else (if on then s1 else c1)) (push_bit (unat (g AND 31)) 1))"

fun bank_regs :: "bank \<Rightarrow> u32 list" where
  "bank_regs (s0, c0, s1, c1) = [s0, c0, s1, c1]"

lemma latch_drive:
  assumes "g \<le> 56" "distinct (bank_regs bk)"
  shows "latch_step bk p (drive bk g on) old = (if p = g then Some on else old)"
proof -
  obtain s0 c0 s1 c1 where bk: "bk = (s0, c0, s1, c1)"
    by (cases bk) auto
  have low: "bit (push_bit (unat (g AND 31)) 1 :: u32) (unat p) \<longleftrightarrow> p = g" if "g < 32" "p < 32"
    using that pin_split(1,3) [OF assms(1)] by (auto simp: bit_simps word_less_nat_alt word_unat_eq_iff)
  have high: "bit (push_bit (unat (g AND 31)) 1 :: u32) (unat p - 32) \<longleftrightarrow> p = g" if "\<not> g < 32" "\<not> p < 32"
    using that pin_split(2,3) [OF assms(1)] by (auto simp: bit_simps word_less_nat_alt word_unat_eq_iff)
  show ?thesis
    using low high assms(2) unfolding bk by (auto simp del: push_bit_of_1)
qed

lemma latch_other: "a \<notin> set (bank_regs bk) \<Longrightarrow> latch_step bk p (Dev (Wr32 a v)) old = old"
  by (cases bk) auto

lemma drive_other: "set (bank_regs bk) \<inter> set (bank_regs bk') = {} \<Longrightarrow> latch_step bk p (drive bk' g on) old = old"
  by (cases bk'; cases bk) (auto split: if_splits)

lemma banks: "distinct (bank_regs level_bank)" "distinct (bank_regs oe_bank)"
  "set (bank_regs level_bank) \<inter> set (bank_regs oe_bank) = {}"
  "set (bank_regs oe_bank) \<inter> set (bank_regs level_bank) = {}"
  by (simp_all add: level_bank_def oe_bank_def const_defs GPIO_ENABLE_W1TS_def GPIO_ENABLE_W1TC_def
      GPIO_ENABLE1_W1TS_def GPIO_ENABLE1_W1TC_def)

text \<open>The registers of one pad lie above both banks.\<close>

lemma pad_regs_above:
  assumes "g \<le> 56" "a \<in> {IOMUX_GPIO g, GPIO_PIN_REG g, GPIO_FUNC_OUT_SEL g}"
  shows "a \<notin> set (bank_regs level_bank)" "a \<notin> set (bank_regs oe_bank)"
proof -
  have n: "(ucast g :: u32) = of_nat (unat g)"
    by simp
  have g: "unat g \<le> 56"
    using pin_split(3) [OF assms(1)] .
  obtain k where k: "a = of_nat k" "0x500E0074 \<le> k" "k < 2 ^ 32"
  proof -
    have "a = of_nat (0x500E1004 + 4 * unat g) \<or> a = of_nat (0x500E0074 + 4 * unat g) \<or>
        a = of_nat (0x500E0558 + 4 * unat g)"
      using assms(2) by (auto simp: IOMUX_GPIO_def GPIO_PIN_REG_def GPIO_FUNC_OUT_SEL_def const_defs)
    then show thesis
      by (elim disjE) (erule that; use g in simp)+
  qed
  then have "unat a = k"
    by (simp add: unat_of_nat)
  with k(2) have above: "0x500E0074 \<le> unat a"
    by simp
  have "\<forall>b \<in> set (bank_regs level_bank) \<union> set (bank_regs oe_bank). unat b < 0x500E0074"
    by (simp add: level_bank_def oe_bank_def const_defs GPIO_ENABLE_W1TS_def GPIO_ENABLE_W1TC_def
      GPIO_ENABLE1_W1TS_def GPIO_ENABLE1_W1TC_def)
  with above show "a \<notin> set (bank_regs level_bank)" "a \<notin> set (bank_regs oe_bank)"
    by (meson UnI1 UnI2 not_le)+
qed

lemma pads_of_snoc:
  assumes "g \<le> 56"
  shows "a \<in> {IOMUX_GPIO g, GPIO_PIN_REG g, GPIO_FUNC_OUT_SEL g} \<Longrightarrow> pads_of (t @ [Dev (Wr32 a v)]) = pads_of t"
    "pads_of (t @ [Dev (Rd32 a)]) = pads_of t"
    "pads_of (t @ [drive oe_bank g on]) = ((fst (pads_of t))(g := Some on), snd (pads_of t))"
    "pads_of (t @ [drive level_bank g on]) = (fst (pads_of t), (snd (pads_of t))(g := Some on))"
proof -
  show "a \<in> {IOMUX_GPIO g, GPIO_PIN_REG g, GPIO_FUNC_OUT_SEL g} \<Longrightarrow> pads_of (t @ [Dev (Wr32 a v)]) = pads_of t"
    using pad_regs_above [OF assms, of a] by (intro prod_eqI ext) (simp_all add: pads_of_def latch_append latch_other)
  show "pads_of (t @ [Dev (Rd32 a)]) = pads_of t"
    by (intro prod_eqI ext) (simp_all add: pads_of_def latch_append)
  show "pads_of (t @ [drive oe_bank g on]) = ((fst (pads_of t))(g := Some on), snd (pads_of t))"
    "pads_of (t @ [drive level_bank g on]) = (fst (pads_of t), (snd (pads_of t))(g := Some on))"
    by (intro prod_eqI ext;
        simp add: pads_of_def latch_append latch_drive [OF assms] banks drive_other [OF banks(3)] drive_other [OF banks(4)])+
qed

section \<open>One request\<close>

lemma run_gpio_hw_set:
  assumes "g \<le> 56"
  shows "run_state (gpio_hw_set_esp K g v) st = (ULMK_OK K, st\<lparr>trace := trace st @ [drive level_bank g (v \<noteq> 0)]\<rparr>)"
  using assms by (simp add: gpio_hw_set_esp_def gpio_ok_def level_bank_def Let_def)

lemma run_gpio_hw_config:
  assumes "g \<le> 56"
  shows "\<exists>v w. run_state (gpio_hw_config_esp K g dir pull) st = (ULMK_OK K,
    st\<lparr>trace := ((((trace st @ [Dev (Rd32 (IOMUX_GPIO g))]) @ [Dev (Wr32 (IOMUX_GPIO g) v)]) @ [Dev (Rd32 (GPIO_PIN_REG g))]) @
      [Dev (Wr32 (GPIO_PIN_REG g) w)]) @ [Dev (Wr32 (GPIO_FUNC_OUT_SEL g) (PINMUX_SIG_GPIO_OUT OR push_bit 10 1))] @
      [drive oe_bank g (dir = GPIO_DIR_OUT_ESP)]\<rparr>)"
proof -
  define cfg where "cfg = \<lparr>pc_port = 0, pc_pin = g,
        pc_dir = (if dir = GPIO_DIR_OUT_ESP then PINMUX_DIR_OUT_ESP else PINMUX_DIR_IN_ESP),
        pc_pull = (if pull = GPIO_PULL_UP_ESP then PINMUX_PULL_UP_ESP
                   else if pull = GPIO_PULL_DOWN_ESP then PINMUX_PULL_DOWN_ESP else PINMUX_PULL_NONE_ESP),
        pc_alt = PINMUX_ALT_GPIO_ESP, pc_flags = PINMUX_F_IE, pc_matrix_out = 0, pc_matrix_in = 0\<rparr>"
  have cfg: "pc_pin cfg = g" "pc_alt cfg \<noteq> PINMUX_ALT_MATRIX" "pc_flags cfg AND PINMUX_F_OPENDRAIN_ESP = 0"
    "pc_dir cfg = PINMUX_DIR_OUT_ESP \<longleftrightarrow> dir = GPIO_DIR_OUT_ESP"
    by (simp_all add: cfg_def PINMUX_ALT_GPIO_ESP_def PINMUX_ALT_MATRIX_def PINMUX_DIR_OUT_ESP_def PINMUX_DIR_IN_ESP_def
      PINMUX_F_IE_def PINMUX_F_OPENDRAIN_ESP_def)
  have "run_state (gpio_hw_config_esp K g dir pull) st = run_state (pinmux_apply_esp K (Some cfg)) st"
    using assms by (simp add: gpio_hw_config_esp_def gpio_ok_def cfg_def)
  also have "\<dots> = (ULMK_OK K, st\<lparr>trace :=
      ((((trace st @ [Dev (Rd32 (IOMUX_GPIO g))]) @
        [Dev (Wr32 (IOMUX_GPIO g) (pad_mux cfg (answer st (trace st) (Dev (Rd32 (IOMUX_GPIO g))))))]) @
        [Dev (Rd32 (GPIO_PIN_REG g))]) @
      [Dev (Wr32 (GPIO_PIN_REG g) (answer st (trace st @ [Dev (Rd32 (IOMUX_GPIO g)),
          Dev (Wr32 (IOMUX_GPIO g) (pad_mux cfg (answer st (trace st) (Dev (Rd32 (IOMUX_GPIO g))))))])
          (Dev (Rd32 (GPIO_PIN_REG g))) AND NOT (push_bit 2 1)))]) @
      [Dev (Wr32 (GPIO_FUNC_OUT_SEL g) (PINMUX_SIG_GPIO_OUT OR push_bit 10 1))] @
      [drive oe_bank g (dir = GPIO_DIR_OUT_ESP)]\<rparr>)"
    using assms cfg by (simp add: pinmux_apply_esp_def gpio_ok_def set_oe_def oe_bank_def Let_def)
  finally show ?thesis
    by blast
qed

lemma gpio_dispatch_step:
  "pads_of (trace (snd (run_state (gpio_dispatch_esp K m) st))) = gpio_step m (pads_of (trace st))"
  "words (fst (run_state (gpio_dispatch_esp K m) st)) 0 = gpio_status K m"
proof -
  define g where "g = pin_gpio (ucast (words m 0))"
  have "pads_of (trace (snd (run_state (gpio_dispatch_esp K m) st))) = gpio_step m (pads_of (trace st)) \<and>
    words (fst (run_state (gpio_dispatch_esp K m) st)) 0 = gpio_status K m"
  proof (cases "g \<le> 56")
    case True
    obtain v w where conf: "run_state (gpio_hw_config_esp K g (words m 1) (words m 2)) st = (ULMK_OK K,
      st\<lparr>trace := ((((trace st @ [Dev (Rd32 (IOMUX_GPIO g))]) @ [Dev (Wr32 (IOMUX_GPIO g) v)]) @ [Dev (Rd32 (GPIO_PIN_REG g))]) @
        [Dev (Wr32 (GPIO_PIN_REG g) w)]) @ [Dev (Wr32 (GPIO_FUNC_OUT_SEL g) (PINMUX_SIG_GPIO_OUT OR push_bit 10 1))] @
        [drive oe_bank g (words m 1 = GPIO_DIR_OUT_ESP)]\<rparr>)"
      using run_gpio_hw_config [OF True] by blast
    note snoc = pads_of_snoc [OF True]
    have ng: "\<not> g > 56"
      using True by simp
    consider "label m = GPIO_MSG_CONFIG_ESP" | "label m = GPIO_MSG_SET_ESP" | "label m = GPIO_MSG_GET_ESP"
      | "label m = GPIO_MSG_SUBSCRIBE_ESP"
      | "label m \<notin> {GPIO_MSG_CONFIG_ESP, GPIO_MSG_SET_ESP, GPIO_MSG_GET_ESP, GPIO_MSG_SUBSCRIBE_ESP}"
      by blast
    then show ?thesis
    proof cases
      case 1
      have "pads_of (((((((trace st @ [Dev (Rd32 (IOMUX_GPIO g))]) @ [Dev (Wr32 (IOMUX_GPIO g) v)]) @ [Dev (Rd32 (GPIO_PIN_REG g))]) @
        [Dev (Wr32 (GPIO_PIN_REG g) w)]) @ [Dev (Wr32 (GPIO_FUNC_OUT_SEL g) (PINMUX_SIG_GPIO_OUT OR push_bit 10 1))]) @
        [drive oe_bank g (words m 1 = GPIO_DIR_OUT_ESP)])) =
          ((fst (pads_of (trace st)))(g := Some (words m 1 = GPIO_DIR_OUT_ESP)), snd (pads_of (trace st)))"
        by (simp only: snoc insert_iff simp_thms)
      with 1 True conf show ?thesis
        by (simp add: ng gpio_dispatch_esp_def g_def [symmetric] gpio_reply_esp_def gpio_step_def gpio_status_def Let_def const_defs)
    next
      case 2
      with True show ?thesis
        by (simp add: ng gpio_dispatch_esp_def g_def [symmetric] run_gpio_hw_set snoc gpio_reply_esp_def gpio_step_def
          gpio_status_def Let_def const_defs)
    next
      case 3
      with True show ?thesis
        by (simp add: ng gpio_dispatch_esp_def g_def [symmetric] gpio_hw_get_esp_def gpio_ok_def snoc gpio_reply_esp_def
          gpio_step_def gpio_status_def Let_def const_defs)
    qed (use True in \<open>simp_all add: gpio_dispatch_esp_def g_def [symmetric] gpio_reply_esp_def gpio_step_def gpio_status_def
          Let_def const_defs\<close>)
  next
    case False
    then show ?thesis
      by (simp add: gpio_dispatch_esp_def g_def [symmetric] gpio_hw_config_esp_def gpio_hw_set_esp_def gpio_hw_get_esp_def
        gpio_ok_def gpio_reply_esp_def gpio_step_def gpio_status_def Let_def const_defs not_le)
  qed
  then show "pads_of (trace (snd (run_state (gpio_dispatch_esp K m) st))) = gpio_step m (pads_of (trace st))"
    "words (fst (run_state (gpio_dispatch_esp K m) st)) 0 = gpio_status K m"
    by simp_all
qed

interpretation gpio_esp: rpc_server "gpio_dispatch_esp K" "\<lambda>_. True" "\<lambda>_. True" "\<lambda>st. pads_of (trace st)" gpio_step for K
  by unfold_locales (simp_all add: gpio_dispatch_step)

lemma serve_statuses: "List.map (\<lambda>r. words r 0) (fst (run_state (serve (gpio_dispatch_esp K) ms) st)) = List.map (gpio_status K) ms"
  by (induction ms arbitrary: st)
     (auto split: prod.splits, metis fst_conv gpio_dispatch_step(2), metis fst_conv)

text \<open>C38: The GPIO server refines a map of pads.  Over any sequence of requests from any clients, what the log of
  register writes has made of the pads, the output enable and the level of each, is what \<open>gpio_step\<close>
  makes of them: CONFIG sets the direction of the one pad it names, SET its level, and no request
  touches another pad or, for a pad number above 56, any pad; the statuses are OK for a
  pad that exists, EINVAL otherwise, and a subscription is always refused.\<close>

theorem gpio_esp_serve_refines:
  "pads_of (trace (snd (run_state (serve (gpio_dispatch_esp K) ms) st))) = fold gpio_step ms (pads_of (trace st)) \<and>
   List.map (\<lambda>r. words r 0) (fst (run_state (serve (gpio_dispatch_esp K) ms) st)) = List.map (gpio_status K) ms"
  by (intro conjI gpio_esp.serve_abs serve_statuses) simp_all

end
