(* ===== verification/Pwm_Esp32.thy ===== *)
theory Pwm_Esp32
  imports Pinmux_Esp32
begin

text \<open>
  The PWM driver of the ESP32-P4 board, \<^verbatim>\<open>esp32p4_ev_function/drivers/pwm/src/pwm_hw.c\<close>,
  \<^verbatim>\<open>server.c\<close> and \<^verbatim>\<open>client.c\<close>: one timer and one channel of the LEDC, for the panel's backlight.
\<close>

section \<open>Registers\<close>

definition PWM_HP_SOC_CLK_CTRL3 :: u32 where "PWM_HP_SOC_CLK_CTRL3 = 0x500E6000 + 0x20"
definition PWM_HP_PERI_CLK_CTRL22 :: u32 where "PWM_HP_PERI_CLK_CTRL22 = 0x500E6000 + 0x9c"
definition PWM_HP_RST_EN1 :: u32 where "PWM_HP_RST_EN1 = 0x500E6000 + 0xc4"
definition LEDC_BASE :: u32 where "LEDC_BASE = 0x500D3000"
definition LEDC_CH_STRIDE :: u32 where "LEDC_CH_STRIDE = 0x14"
definition LEDC_CH_CONF0 :: "u8 \<Rightarrow> u32" where "LEDC_CH_CONF0 n = LEDC_BASE + ucast n * LEDC_CH_STRIDE + 0x00"
definition LEDC_CH_HPOINT :: "u8 \<Rightarrow> u32" where "LEDC_CH_HPOINT n = LEDC_BASE + ucast n * LEDC_CH_STRIDE + 0x04"
definition LEDC_CH_DUTY :: "u8 \<Rightarrow> u32" where "LEDC_CH_DUTY n = LEDC_BASE + ucast n * LEDC_CH_STRIDE + 0x08"
definition LEDC_CH_CONF1 :: "u8 \<Rightarrow> u32" where "LEDC_CH_CONF1 n = LEDC_BASE + ucast n * LEDC_CH_STRIDE + 0x0c"
definition LEDC_TIMER0_CONF :: u32 where "LEDC_TIMER0_CONF = LEDC_BASE + 0xa0"
definition LEDC_CONF :: u32 where "LEDC_CONF = LEDC_BASE + 0x170"
definition LEDC_SIG_OUT0 :: u16 where "LEDC_SIG_OUT0 = 126"
definition DUTY_RES_BITS :: u32 where "DUTY_RES_BITS = 10"
definition DUTY_PERIOD :: u32 where "DUTY_PERIOD = push_bit (unat DUTY_RES_BITS) 1"
definition DUTY_FULL :: u32 where "DUTY_FULL = DUTY_PERIOD - 1"
definition XTAL_HZ :: u32 where "XTAL_HZ = 40000000"
definition PWM_MAX_CH :: u8 where "PWM_MAX_CH = 1"
definition PWM_STACK :: u32 where "PWM_STACK = 1536"
definition PWM_BL_GPIO :: u8 where "PWM_BL_GPIO = 26"
definition PWM_MSG_CONFIG :: u32 where [const_defs]: "PWM_MSG_CONFIG = 1"
definition PWM_MSG_DUTY :: u32 where [const_defs]: "PWM_MSG_DUTY = 2"
definition PWM_MSG_ENABLE :: u32 where [const_defs]: "PWM_MSG_ENABLE = 3"

text \<open>The tables have \<^verbatim>\<open>PWM_MAX_CH\<close> entries, one.\<close>

record pwm_st = pads_esp +
  g_pwm_ep :: u32
  g_pwm_duty :: "u32 list"
  g_pwm_on :: "u8 list"
  g_pwm_hw_ok :: bool

type_synonym ('z, 'a) pwm_op = "('z pwm_st_scheme, 'a) state"

definition g_pwm_pin :: "u8 list" where
  "g_pwm_pin = [PWM_BL_GPIO]"

section \<open>The timer and the channel\<close>

definition ledc_clk_enable :: "('z, unit) esp_op" where
  "ledc_clk_enable = do {
     v \<leftarrow> rd32 PWM_HP_SOC_CLK_CTRL3;
     wr32 PWM_HP_SOC_CLK_CTRL3 (v OR push_bit 0 1);
     v \<leftarrow> rd32 PWM_HP_RST_EN1;
     wr32 PWM_HP_RST_EN1 (v OR push_bit 29 1);
     wr32 PWM_HP_RST_EN1 (v AND NOT (push_bit 29 1));
     v \<leftarrow> rd32 PWM_HP_PERI_CLK_CTRL22;
     wr32 PWM_HP_PERI_CLK_CTRL22 ((v AND NOT 7) OR push_bit 2 1);
     v \<leftarrow> rd32 LEDC_CONF;
     wr32 LEDC_CONF (v OR push_bit 31 1)
   }"

definition gpio_matrix_ledc :: "ulmk_abi \<Rightarrow> u8 \<Rightarrow> u8 \<Rightarrow> ('z, unit) esp_op" where
  "gpio_matrix_ledc K gpio ch = do {
     _ \<leftarrow> pinmux_apply_esp K (Some \<lparr>pc_port = 0, pc_pin = gpio, pc_dir = PINMUX_DIR_OUT_ESP,
       pc_pull = PINMUX_PULL_NONE_ESP, pc_alt = PINMUX_ALT_MATRIX, pc_flags = PINMUX_F_PERIPH_OE,
       pc_matrix_out = LEDC_SIG_OUT0 + ucast ch, pc_matrix_in = 0\<rparr>);
     ret ()
   }"

text \<open>The divider; \<open>XTAL_HZ << 8\<close> and the product wrap at 32 bits.  A zero divisor is undefined in C.\<close>

definition ledc_div :: "u32 \<Rightarrow> u32" where
  "ledc_div freq_hz = (let d = push_bit 8 XTAL_HZ div (freq_hz * DUTY_PERIOD) in if d < 256 then 256 else d)"

definition timer0_set_freq :: "u32 \<Rightarrow> ('z, unit) esp_op" where
  "timer0_set_freq freq_hz = do {
     let freq_hz = (if freq_hz = 0 then 5000 else freq_hz);
     when_do (freq_hz * DUTY_PERIOD = 0) set_fault;
     let conf = (DUTY_RES_BITS AND 0x1f) OR push_bit 5 (ledc_div freq_hz AND 0x3ffff);
     wr32 LEDC_TIMER0_CONF (conf OR push_bit 24 1);
     wr32 LEDC_TIMER0_CONF conf;
     wr32 LEDC_TIMER0_CONF (conf OR push_bit 26 1)
   }"

definition ch_apply_duty :: "u8 \<Rightarrow> u32 \<Rightarrow> bool \<Rightarrow> ('z, unit) esp_op" where
  "ch_apply_duty ch duty_permille on = do {
     let duty_permille = (if duty_permille > 1000 then 1000 else duty_permille);
     let duty_val = (DUTY_FULL * duty_permille) div 1000;
     let duty_val = (if \<not> on then 0 else duty_val);
     wr32 (LEDC_CH_HPOINT ch) 0;
     wr32 (LEDC_CH_DUTY ch) (push_bit 4 duty_val);
     wr32 (LEDC_CH_CONF1 ch) (push_bit 31 1);
     let conf0 = (if on then push_bit 2 1 else 0);
     wr32 (LEDC_CH_CONF0 ch) (conf0 OR push_bit 4 1)
   }"

definition pwm_hw_set_idle_level :: "ulmk_abi \<Rightarrow> u8 \<Rightarrow> u8 \<Rightarrow> bool \<Rightarrow> ('z, cint) esp_op" where
  "pwm_hw_set_idle_level K ch gpio level_high =
     (if ch \<ge> PWM_MAX_CH then ret (ULMK_EINVAL K)
      else do {
        ledc_clk_enable;
        gpio_matrix_ledc K gpio ch;
        timer0_set_freq 5000;
        wr32 (LEDC_CH_HPOINT ch) 0;
        wr32 (LEDC_CH_DUTY ch) 0;
        wr32 (LEDC_CH_CONF1 ch) (push_bit 31 1);
        let conf0 = (if level_high then push_bit 3 1 else 0);
        wr32 (LEDC_CH_CONF0 ch) (conf0 OR push_bit 4 1);
        ret (ULMK_OK K)
      })"

definition pwm_hw_init :: "ulmk_abi \<Rightarrow> ('z, cint) esp_op" where
  "pwm_hw_init K = do { ledc_clk_enable; timer0_set_freq 5000; ret (ULMK_OK K) }"

definition pwm_hw_config :: "ulmk_abi \<Rightarrow> u8 \<Rightarrow> u8 \<Rightarrow> u32 \<Rightarrow> u32 \<Rightarrow> ('z, cint) esp_op" where
  "pwm_hw_config K ch gpio freq_hz duty_permille =
     (if ch \<ge> PWM_MAX_CH then ret (ULMK_EINVAL K)
      else do {
        timer0_set_freq freq_hz;
        gpio_matrix_ledc K gpio ch;
        ch_apply_duty ch duty_permille False;
        ret (ULMK_OK K)
      })"

definition pwm_hw_set_duty :: "ulmk_abi \<Rightarrow> u8 \<Rightarrow> u32 \<Rightarrow> bool \<Rightarrow> ('z, cint) esp_op" where
  "pwm_hw_set_duty K ch duty_permille on =
     (if ch \<ge> PWM_MAX_CH then ret (ULMK_EINVAL K)
      else do { ch_apply_duty ch duty_permille on; ret (ULMK_OK K) })"

definition pwm_hw_enable :: "ulmk_abi \<Rightarrow> u8 \<Rightarrow> u32 \<Rightarrow> bool \<Rightarrow> ('z, cint) esp_op" where
  "pwm_hw_enable K ch duty_permille on = pwm_hw_set_duty K ch duty_permille on"

section \<open>The server\<close>

definition set_pwm_duty :: "u8 \<Rightarrow> u32 \<Rightarrow> ('z, unit) pwm_op" where
  "set_pwm_duty n duty = modify (\<lambda>st. st\<lparr>g_pwm_duty := (g_pwm_duty st)[unat n := (if duty > 1000 then 1000 else duty)]\<rparr>)"

definition pwm_do_config :: "ulmk_abi \<Rightarrow> u8 \<Rightarrow> u32 \<Rightarrow> u32 \<Rightarrow> ('z, cint) pwm_op" where
  "pwm_do_config K n freq duty =
     (if n \<ge> PWM_MAX_CH then ret (ULMK_EINVAL K)
      else do {
        set_pwm_duty n duty;
        ok \<leftarrow> gets g_pwm_hw_ok;
        if \<not> ok then ret (ULMK_ENOTSUP K)
        else do {
          ds \<leftarrow> gets g_pwm_duty;
          pwm_hw_config K n (g_pwm_pin ! unat n) (if freq \<noteq> 0 then freq else 1000) (ds ! unat n)
        }
      })"

definition pwm_do_duty :: "ulmk_abi \<Rightarrow> u8 \<Rightarrow> u32 \<Rightarrow> ('z, cint) pwm_op" where
  "pwm_do_duty K n duty =
     (if n \<ge> PWM_MAX_CH then ret (ULMK_EINVAL K)
      else do {
        set_pwm_duty n duty;
        ok \<leftarrow> gets g_pwm_hw_ok;
        if \<not> ok then ret (ULMK_ENOTSUP K)
        else do {
          ds \<leftarrow> gets g_pwm_duty;
          on \<leftarrow> gets g_pwm_on;
          pwm_hw_set_duty K n (ds ! unat n) (on ! unat n \<noteq> 0)
        }
      })"

definition pwm_do_enable :: "ulmk_abi \<Rightarrow> u8 \<Rightarrow> cint \<Rightarrow> ('z, cint) pwm_op" where
  "pwm_do_enable K n on =
     (if n \<ge> PWM_MAX_CH then ret (ULMK_EINVAL K)
      else do {
        modify (\<lambda>st. st\<lparr>g_pwm_on := (g_pwm_on st)[unat n := (if on \<noteq> 0 then 1 else 0)]\<rparr>);
        ok \<leftarrow> gets g_pwm_hw_ok;
        if \<not> ok then ret (ULMK_ENOTSUP K)
        else do {
          ds \<leftarrow> gets g_pwm_duty;
          pwm_hw_enable K n (ds ! unat n) (on \<noteq> 0)
        }
      })"

definition pwm_server_start :: "ulmk_abi \<Rightarrow> ('z, unit) pwm_op" where
  "pwm_server_start K = do {
     rc \<leftarrow> pwm_hw_init K;
     modify (\<lambda>st. st\<lparr>g_pwm_hw_ok := (rc = ULMK_OK K)\<rparr>)
   }"

text \<open>The words of a reply that the server does not set are zero here; no client reads them.\<close>

definition pwm_dispatch :: "ulmk_abi \<Rightarrow> msg \<Rightarrow> ('z, msg) pwm_op" where
  "pwm_dispatch K m = do {
     rc \<leftarrow> (if label m = PWM_MSG_CONFIG then pwm_do_config K (ucast (words m 0)) (words m 1) (words m 2)
           else if label m = PWM_MSG_DUTY then pwm_do_duty K (ucast (words m 0)) (words m 1)
           else if label m = PWM_MSG_ENABLE then pwm_do_enable K (ucast (words m 0)) (words m 1)
           else ret (ULMK_EINVAL K));
     ret \<lparr>label = 0, words = (\<lambda>_. 0)(0 := rc)\<rparr>
   }"

definition pwm_init :: "ulmk_abi \<Rightarrow> ('z, u32) pwm_op" where
  "pwm_init K = do {
     cur \<leftarrow> gets g_pwm_ep;
     if cur \<noteq> ULMK_EP_INVALID K \<and> cur \<noteq> 0 then ret (ULMK_TID_INVALID K)
     else do {
       ep \<leftarrow> kern Ep_create;
       modify (\<lambda>st. st\<lparr>g_pwm_ep := ep\<rparr>);
       if ep = ULMK_EP_INVALID K then ret (ULMK_TID_INVALID K)
       else do {
         tid \<leftarrow> kern (Thread_create ''pwm'' 1 PWM_STACK);
         if tid = ULMK_TID_INVALID K then ret (ULMK_TID_INVALID K)
         else do {
           kern_do (Cap_grant tid ''MAP_PERIPH'');
           ret tid
         }
       }
     }
   }"

section \<open>The client\<close>

definition pwm_call :: "ulmk_abi \<Rightarrow> u32 \<Rightarrow> 's ep_call \<Rightarrow> msg \<Rightarrow> ('s, cint) state" where
  "pwm_call K ep call m =
     (if ep = ULMK_EP_INVALID K then ret (ULMK_ESRCH K)
      else do {
        (rc, m) \<leftarrow> call m;
        ret (if rc \<noteq> ULMK_OK K then rc else words m 0)
      })"

definition pwm_config :: "ulmk_abi \<Rightarrow> u32 \<Rightarrow> 's ep_call \<Rightarrow> (nat \<Rightarrow> u32) \<Rightarrow> u8 \<Rightarrow> u32 \<Rightarrow> u32 \<Rightarrow> ('s, cint) state" where
  "pwm_config K ep call junk n freq_hz duty_permille =
     pwm_call K ep call \<lparr>label = PWM_MSG_CONFIG, words = junk(0 := ucast n, 1 := freq_hz, 2 := duty_permille)\<rparr>"

definition pwm_set_duty :: "ulmk_abi \<Rightarrow> u32 \<Rightarrow> 's ep_call \<Rightarrow> (nat \<Rightarrow> u32) \<Rightarrow> u8 \<Rightarrow> u32 \<Rightarrow> ('s, cint) state" where
  "pwm_set_duty K ep call junk n duty_permille =
     pwm_call K ep call \<lparr>label = PWM_MSG_DUTY, words = junk(0 := ucast n, 1 := duty_permille)\<rparr>"

definition pwm_enable :: "ulmk_abi \<Rightarrow> u32 \<Rightarrow> 's ep_call \<Rightarrow> (nat \<Rightarrow> u32) \<Rightarrow> u8 \<Rightarrow> cint \<Rightarrow> ('s, cint) state" where
  "pwm_enable K ep call junk n on =
     pwm_call K ep call \<lparr>label = PWM_MSG_ENABLE, words = junk(0 := ucast n, 1 := on)\<rparr>"

section \<open>The divider\<close>

text \<open>\<open>1650065408\<close> is \<open>40000000 * 256\<close> modulo \<open>2 ^ 32\<close>.\<close>

lemma unat_ledc_div:
  assumes "0 < freq" "freq < 4194304"
  shows "unat (ledc_div (of_nat freq)) = max 256 (1650065408 div (freq * 1024))"
proof -
  have p: "push_bit 8 XTAL_HZ = 1650065408"
    by (simp add: XTAL_HZ_def)
  have f: "of_nat freq * DUTY_PERIOD = (of_nat (freq * 1024) :: u32)"
    by (simp add: DUTY_PERIOD_def DUTY_RES_BITS_def)
  have "unat (of_nat (freq * 1024) :: u32) = freq * 1024"
    using assms(2) by (simp add: unat_of_nat del: of_nat_mult)
  then have "unat (push_bit 8 XTAL_HZ div (of_nat freq * DUTY_PERIOD)) = 1650065408 div (freq * 1024)"
    unfolding p f by (simp add: unat_div del: of_nat_mult)
  then show ?thesis
    by (simp add: ledc_div_def Let_def word_less_nat_alt max_def not_less)
qed

lemma divider_small:
  assumes "7 \<le> freq" "freq < 4194304"
  shows "ledc_div (of_nat freq) AND 0x3ffff = ledc_div (of_nat freq)"
proof -
  have "1650065408 div (freq * 1024) \<le> 1650065408 div (7 * 1024)"
    using assms(1) by (intro div_le_mono2) simp_all
  then have "unat (ledc_div (of_nat freq)) < 2 ^ 18"
    using unat_ledc_div [of freq] assms by simp
  then have "take_bit 18 (unat (ledc_div (of_nat freq))) = unat (ledc_div (of_nat freq))"
    by (rule take_bit_nat_eq_self)
  then have "take_bit 18 (ledc_div (of_nat freq)) = ledc_div (of_nat freq)"
    by (simp add: word_unat_eq_iff unsigned_take_bit_eq)
  then show ?thesis
    by (simp add: take_bit_eq_mask mask_eq_exp_minus_1)
qed

lemma divider_too_small:
  assumes "7 \<le> freq" "freq \<le> 6294"
  shows "unat (ledc_div (of_nat freq)) = 1650065408 div (freq * 1024)"
    "6 * freq * (1024 * unat (ledc_div (of_nat freq))) \<le> 40000000 * 256"
proof -
  have "1650065408 div (6294 * 1024) \<le> 1650065408 div (freq * 1024)"
    using assms by (intro div_le_mono2) simp_all
  then show d: "unat (ledc_div (of_nat freq)) = 1650065408 div (freq * 1024)"
    using unat_ledc_div [of freq] assms by simp
  define x where "x = 1650065408 div (freq * 1024) * (freq * 1024)"
  have "x \<le> 1650065408"
    unfolding x_def by (rule div_times_less_eq_dividend)
  then have "6 * x \<le> 40000000 * 256"
    by simp
  then show "6 * freq * (1024 * unat (ledc_div (of_nat freq))) \<le> 40000000 * 256"
    unfolding d x_def by (simp only: mult_ac)
qed

section \<open>Properties\<close>

definition timer_events :: "u32 \<Rightarrow> esp_act event list" where
  "timer_events d = [Dev (Wr32 LEDC_TIMER0_CONF ((10 OR push_bit 5 d) OR push_bit 24 1)),
     Dev (Wr32 LEDC_TIMER0_CONF (10 OR push_bit 5 d)), Dev (Wr32 LEDC_TIMER0_CONF ((10 OR push_bit 5 d) OR push_bit 26 1))]"

lemma run_timer0:
  assumes "7 \<le> freq" "freq < 4194304"
  shows "run_state (timer0_set_freq (of_nat freq)) st =
    ((), st\<lparr>trace := trace st @ timer_events (ledc_div (of_nat freq))\<rparr>)"
proof -
  have "(of_nat freq :: u32) \<noteq> 0" "of_nat freq * DUTY_PERIOD \<noteq> 0"
  proof -
    have "(of_nat (freq * 1024) :: u32) \<noteq> 0"
      using assms by (simp add: word_unat_eq_iff unat_of_nat del: of_nat_mult)
    then show "(of_nat freq :: u32) \<noteq> 0" "of_nat freq * DUTY_PERIOD \<noteq> 0"
      by (auto simp: DUTY_PERIOD_def DUTY_RES_BITS_def)
  qed
  then show ?thesis
    by (simp add: timer0_set_freq_def Let_def timer_events_def DUTY_RES_BITS_def divider_small [OF assms] del: push_bit_and)
qed

lemma logs_channel:
  "logs (\<lambda>_. True) (gpio_matrix_ledc K gpio ch)" "logs (\<lambda>_. True) (ch_apply_duty ch duty on)"
  unfolding gpio_matrix_ledc_def ch_apply_duty_def Let_def
  by (auto intro!: logs_intros logs_mono [OF logs_apply])

text \<open>C39: The frequency a client asks for is not the one it gets.  The source shifts the crystal frequency
  left by eight in 32 bits, which loses its upper part: for a request between 7 and 6294 Hz the
  divider written to the timer, with status OK, is 1650065408 / (1024 f) and not
  10240000000 / (1024 f), so that the output, the crystal frequency times 256 divided by 1024 times the divider, runs at
  more than six times the frequency asked for.\<close>

theorem pwm_frequency_wraps:
  assumes "g_pwm_hw_ok st" "ep \<noteq> ULMK_EP_INVALID K" "7 \<le> freq" "freq \<le> 6294"
  shows "\<exists>ds es. run_state (pwm_config K ep (ipc K (pwm_dispatch K)) junk 0 (of_nat freq) duty) st =
      (ULMK_OK K, st\<lparr>g_pwm_duty := ds, trace := trace st @ timer_events (ledc_div (of_nat freq)) @ es\<rparr>) \<and>
    unat (ledc_div (of_nat freq)) = 1650065408 div (freq * 1024) \<and>
    6 * freq * (1024 * unat (ledc_div (of_nat freq))) \<le> 40000000 * 256"
proof -
  have "(of_nat freq :: u32) \<noteq> 0"
    using assms(3,4) by (simp add: word_unat_eq_iff unat_of_nat)
  define ds where "ds = (g_pwm_duty st)[0 := (if duty > 1000 then 1000 else duty)]"
  let ?st = "st\<lparr>g_pwm_duty := ds, trace := trace st @ timer_events (ledc_div (of_nat freq))\<rparr>"
  have timer: "run_state (timer0_set_freq (of_nat freq)) (st\<lparr>g_pwm_duty := ds\<rparr>) = ((), ?st)"
    using run_timer0 [of freq "st\<lparr>g_pwm_duty := ds\<rparr>"] assms(3,4) by simp
  obtain u es where a: "run_state (gpio_matrix_ledc K PWM_BL_GPIO 0) ?st = (u, ?st\<lparr>trace := trace ?st @ es\<rparr>)"
    using logs_channel(1) by (rule logsE)
  obtain w es' where b: "run_state (ch_apply_duty 0 (ds ! 0) False) (?st\<lparr>trace := trace ?st @ es\<rparr>) =
      (w, ?st\<lparr>trace := trace ?st @ es @ es'\<rparr>)"
    by (rule logsE [OF logs_channel(2), where st = "?st\<lparr>trace := trace ?st @ es\<rparr>"]) auto
  have "run_state (pwm_config K ep (ipc K (pwm_dispatch K)) junk 0 (of_nat freq) duty) st =
      (ULMK_OK K, st\<lparr>g_pwm_duty := ds, trace := trace st @ timer_events (ledc_div (of_nat freq)) @ es @ es'\<rparr>)"
    using assms(1,2) timer a b \<open>(of_nat freq :: u32) \<noteq> 0\<close>
    by (simp add: pwm_config_def pwm_call_def ipc_def pwm_dispatch_def pwm_do_config_def pwm_hw_config_def PWM_MAX_CH_def
      set_pwm_duty_def g_pwm_pin_def ds_def)
  then show ?thesis
    using divider_too_small [OF assms(3,4)] by blast
qed

definition pwm_boot :: pwm_st where
  "pwm_boot = \<lparr>trace = [], answer = (\<lambda>_ _. 0), fault = False, g_pinmux_eps_esp = 7, g_pwm_ep = 6, g_pwm_duty = [0], g_pwm_on = [0],
     g_pwm_hw_ok = True\<rparr>"

theorem pwm_frequency_wraps_witness:
  "\<exists>ds es. run_state (pwm_config sample_abi 6 (ipc sample_abi (pwm_dispatch sample_abi)) (\<lambda>_. 0) 0 5000 500) pwm_boot =
      (0, pwm_boot\<lparr>g_pwm_duty := ds, trace := timer_events (ledc_div 5000) @ es\<rparr>) \<and> unat (ledc_div 5000) = 322"
  using pwm_frequency_wraps [of pwm_boot 6 sample_abi 5000 "\<lambda>_. 0" 500]
  by (simp add: pwm_boot_def sample_abi_def)

text \<open>The duty registers only ever hold what ten bits can.\<close>

definition duty_ok :: "esp_act event \<Rightarrow> bool" where
  "duty_ok e \<longleftrightarrow> (case e of Dev (Wr32 a v) \<Rightarrow> a \<noteq> LEDC_CH_DUTY 0 \<or> v \<le> push_bit 4 DUTY_FULL | _ \<Rightarrow> True)"

definition pwm_inv :: "'z pwm_st_scheme \<Rightarrow> bool" where
  "pwm_inv st \<longleftrightarrow> length (g_pwm_duty st) = 1 \<and> length (g_pwm_on st) = 1 \<and> list_all (\<lambda>d. d \<le> 1000) (g_pwm_duty st) \<and>
     list_all duty_ok (trace st)"

lemma duty_ok_simps [simp]:
  "duty_ok (Kern k)" "duty_ok (Dev (Rd32 a))"
  "duty_ok (Dev (Wr32 a v)) \<longleftrightarrow> a \<noteq> LEDC_CH_DUTY 0 \<or> v \<le> push_bit 4 DUTY_FULL"
  by (simp_all add: duty_ok_def)

lemma keeps_pwm_logs:
  assumes "logs duty_ok m"
  shows "keeps pwm_inv m"
proof (rule keepsI, goal_cases)
  case (1 s)
  obtain a es where "run_state m s = (a, s\<lparr>trace := trace s @ es\<rparr>)" "list_all duty_ok es"
    using assms by (rule logsE)
  with 1 show ?case
    by (simp add: pwm_inv_def)
qed

lemma scaled_duty:
  assumes "d \<le> 1000"
  shows "push_bit 4 ((DUTY_FULL * d) div 1000) \<le> push_bit 4 DUTY_FULL"
proof -
  have c: "DUTY_FULL = 1023"
    by (simp add: DUTY_FULL_def DUTY_PERIOD_def DUTY_RES_BITS_def)
  have d: "unat d \<le> 1000"
    using assms by (simp add: word_le_nat_alt)
  then have "1023 * unat d < 2 ^ LENGTH(32)"
    by simp
  then have "unat (DUTY_FULL * d) = 1023 * unat d"
    unfolding c by (simp add: unat_word_ariths)
  then have u: "unat (DUTY_FULL * d div 1000) = 1023 * unat d div 1000"
    by (simp add: unat_div)
  moreover have "1023 * unat d div 1000 \<le> 1023"
    using d by simp
  ultimately have "unat (DUTY_FULL * d div 1000) \<le> 1023"
    by simp
  then have "unat (push_bit 4 (DUTY_FULL * d div 1000)) \<le> 16 * 1023"
    by (simp add: push_bit_eq_mult unat_word_ariths)
  moreover have "unat (push_bit 4 (1023 :: u32)) = 16 * 1023"
    by simp
  ultimately show ?thesis
    unfolding c word_le_nat_alt by (simp only:)
qed

lemma logs_duty_hw:
  "logs duty_ok ledc_clk_enable" "logs duty_ok (gpio_matrix_ledc K PWM_BL_GPIO 0)" "logs duty_ok (ch_apply_duty 0 d on)"
proof -
  have regs: "LEDC_CH_HPOINT 0 \<noteq> LEDC_CH_DUTY 0" "LEDC_CH_CONF0 0 \<noteq> LEDC_CH_DUTY 0" "LEDC_CH_CONF1 0 \<noteq> LEDC_CH_DUTY 0"
    "LEDC_CONF \<noteq> LEDC_CH_DUTY 0" "PWM_HP_SOC_CLK_CTRL3 \<noteq> LEDC_CH_DUTY 0" "PWM_HP_RST_EN1 \<noteq> LEDC_CH_DUTY 0"
    "PWM_HP_PERI_CLK_CTRL22 \<noteq> LEDC_CH_DUTY 0"
    by (simp_all add: LEDC_CH_HPOINT_def LEDC_CH_DUTY_def LEDC_CH_CONF0_def LEDC_CH_CONF1_def LEDC_CONF_def LEDC_BASE_def
      LEDC_CH_STRIDE_def PWM_HP_SOC_CLK_CTRL3_def PWM_HP_RST_EN1_def PWM_HP_PERI_CLK_CTRL22_def)
  then show "logs duty_ok ledc_clk_enable"
    unfolding ledc_clk_enable_def by (intro logs_intros) simp_all
  have "push_bit 4 (if \<not> on then 0 else DUTY_FULL * (if d > 1000 then 1000 else d) div 1000) \<le> push_bit 4 DUTY_FULL"
    using scaled_duty [of "if d > 1000 then 1000 else d"] by (simp add: not_less)
  then show "logs duty_ok (ch_apply_duty 0 d on)"
    unfolding ch_apply_duty_def Let_def using regs by (intro logs_intros) simp_all
  have "LEDC_CH_DUTY 0 \<notin> pad_regs cfg" if "pc_pin cfg = PWM_BL_GPIO" "pc_matrix_in cfg = 0" for cfg
    using that by (simp add: pad_regs_def PWM_BL_GPIO_def IOMUX_GPIO_def GPIO_PIN_REG_def GPIO_FUNC_OUT_SEL_def const_defs
      GPIO_ENABLE_W1TS_def GPIO_ENABLE_W1TC_def GPIO_ENABLE1_W1TS_def GPIO_ENABLE1_W1TC_def LEDC_CH_DUTY_def LEDC_BASE_def
      LEDC_CH_STRIDE_def)
  moreover have "in_regs A e \<Longrightarrow> LEDC_CH_DUTY 0 \<notin> A \<Longrightarrow> duty_ok e" for A e
    by (auto simp: in_regs_def duty_ok_def split: event.splits esp_act.splits)
  ultimately show "logs duty_ok (gpio_matrix_ledc K PWM_BL_GPIO 0)"
    unfolding gpio_matrix_ledc_def by (intro logs_intros logs_mono [OF logs_apply]) auto
qed

lemma keeps_timer0: "keeps pwm_inv (timer0_set_freq freq)"
proof -
  have "LEDC_TIMER0_CONF \<noteq> LEDC_CH_DUTY 0"
    by (simp add: LEDC_TIMER0_CONF_def LEDC_CH_DUTY_def LEDC_BASE_def LEDC_CH_STRIDE_def)
  then have "keeps pwm_inv (wr32 LEDC_TIMER0_CONF v)" for v
    by (intro keeps_pwm_logs logs_intros) simp
  moreover have "keeps pwm_inv set_fault"
    unfolding set_fault_def by (rule keeps_modify) (simp add: pwm_inv_def)
  ultimately show ?thesis
    unfolding timer0_set_freq_def Let_def by (intro keeps_intros)
qed

lemma keeps_pwm_hw:
  "keeps pwm_inv (pwm_hw_config K 0 PWM_BL_GPIO freq d)" "keeps pwm_inv (pwm_hw_set_duty K 0 d on)"
  "keeps pwm_inv (pwm_hw_enable K 0 d on)"
  unfolding pwm_hw_config_def pwm_hw_set_duty_def pwm_hw_enable_def
  by (intro keeps_intros keeps_timer0 keeps_pwm_logs logs_duty_hw)+

lemma keeps_pwm_dispatch: "keeps pwm_inv (pwm_dispatch K m)"
proof -
  have zero: "n = 0" if "\<not> n \<ge> PWM_MAX_CH" for n
    using that by (simp add: PWM_MAX_CH_def word_less_nat_alt not_le flip: unat_eq_zero)
  have pin: "g_pwm_pin ! 0 = PWM_BL_GPIO"
    by (simp add: g_pwm_pin_def)
  have duty: "keeps pwm_inv (set_pwm_duty 0 d)" for d
    unfolding set_pwm_duty_def by (rule keeps_modify) (auto simp: pwm_inv_def list_all_length not_less)
  have on: "keeps pwm_inv (modify (\<lambda>st. st\<lparr>g_pwm_on := (g_pwm_on st)[0 := v]\<rparr>))" for v
    by (rule keeps_modify) (simp add: pwm_inv_def)
  show ?thesis
    unfolding pwm_dispatch_def pwm_do_config_def pwm_do_duty_def pwm_do_enable_def
    by (intro keeps_intros; (drule zero)?; simp add: pin duty on keeps_pwm_hw)
qed

text \<open>No request can make the driver write a duty value outside of the ten bits of the timer (a
  larger one can leave the output stuck), nor remember a duty above 1000 per mille: over any sequence of
  requests the tables keep their size and range, and every value written to the duty register of the channel is at most
  1023 in its field.\<close>

theorem pwm_duty_bounded:
  assumes "pwm_inv st"
  shows "pwm_inv (snd (run_state (serve (pwm_dispatch K) ms) st))"
  using keepsD [OF keeps_serve [OF keeps_pwm_dispatch] assms] .

theorem pwm_duty_bounded_witness:
  "pwm_inv (snd (run_state (serve (pwm_dispatch sample_abi) [rpc PWM_MSG_DUTY [0, 70000], rpc PWM_MSG_ENABLE [0, 1]]) pwm_boot))"
  by (rule pwm_duty_bounded) (simp add: pwm_inv_def pwm_boot_def)

end
