(* ===== verification/Cache_Esp32.thy ===== *)
theory Cache_Esp32
  imports Ulmk_Base
begin

text \<open>
  Maintenance of the data cache, \<^verbatim>\<open>esp32p4_ev_function/board_cache.c\<close>: the primitives that the kernel calls
  in machine mode, which drive the sync engine register by register with interrupts masked, and the
  functions that drivers call, which are system calls.
\<close>

section \<open>The sync engine\<close>

definition CACHE_BASE :: u32 where [const_defs]: "CACHE_BASE = 0x3ff10000"
definition CACHE_SYNC_CTRL :: u32 where [const_defs]: "CACHE_SYNC_CTRL = CACHE_BASE + 0x98"
definition CACHE_SYNC_MAP :: u32 where [const_defs]: "CACHE_SYNC_MAP = CACHE_BASE + 0x9c"
definition CACHE_SYNC_ADDR :: u32 where [const_defs]: "CACHE_SYNC_ADDR = CACHE_BASE + 0xa0"
definition CACHE_SYNC_SIZE :: u32 where [const_defs]: "CACHE_SYNC_SIZE = CACHE_BASE + 0xa4"
definition SYNC_INVALIDATE_ENA :: u32 where "SYNC_INVALIDATE_ENA = push_bit 0 1"
definition SYNC_WRITEBACK_ENA :: u32 where "SYNC_WRITEBACK_ENA = push_bit 2 1"
definition SYNC_MAP_L1_DCACHE :: u32 where "SYNC_MAP_L1_DCACHE = push_bit 4 1"
definition SYNC_MAP_L2_CACHE :: u32 where "SYNC_MAP_L2_CACHE = push_bit 5 1"
definition CACHE_LINE :: u32 where "CACHE_LINE = 64"
definition SYNC_CHUNK :: u32 where "SYNC_CHUNK = 0x1000"
definition SYNC_SPIN_LIMIT :: nat where "SYNC_SPIN_LIMIT = 1000000"
definition EXT_CACHED_LO :: u32 where "EXT_CACHED_LO = 0x40000000"
definition EXT_CACHED_HI :: u32 where "EXT_CACHED_HI = 0x4C000000"
definition INT_SRAM_LO :: u32 where "INT_SRAM_LO = 0x4FF00000"
definition INT_SRAM_HI :: u32 where "INT_SRAM_HI = 0x4FFC0000"

text \<open>The accesses of this file: registers, the interrupt mask of the core, fences, and system calls.\<close>

datatype cache_act =
    C_rd u32
  | C_wr u32 u32
  | Irq_save
  | Irq_restore u32
  | Fence
  | Sys_clean u32 u32
  | Sys_invalidate u32 u32
  | Sys_clean_invalidate u32 u32

type_synonym ('z, 'a) cache_op = "((cache_act, 'z) io_scheme, 'a) state"

primrec sync_spin :: "nat \<Rightarrow> u32 \<Rightarrow> ('z, unit) cache_op" where
  "sync_spin 0 trigger = ret ()"
| "sync_spin (Suc n) trigger = do {
     v \<leftarrow> dev (C_rd CACHE_SYNC_CTRL);
     if v AND trigger = 0 then ret () else sync_spin n trigger
   }"

definition sync_op :: "u32 \<Rightarrow> u32 \<Rightarrow> u32 \<Rightarrow> u32 \<Rightarrow> ('z, unit) cache_op" where
  "sync_op lvs trigger a len = do {
     dev_do (C_wr CACHE_SYNC_MAP lvs);
     dev_do (C_wr CACHE_SYNC_ADDR a);
     dev_do (C_wr CACHE_SYNC_SIZE len);
     dev_do (C_wr CACHE_SYNC_CTRL trigger);
     sync_spin SYNC_SPIN_LIMIT trigger
   }"

definition sync_map_for :: "u32 \<Rightarrow> u32" where
  "sync_map_for a =
     (if a \<ge> EXT_CACHED_LO \<and> a < EXT_CACHED_HI then SYNC_MAP_L1_DCACHE OR SYNC_MAP_L2_CACHE
      else if a \<ge> INT_SRAM_LO \<and> a < INT_SRAM_HI then SYNC_MAP_L1_DCACHE
      else 0)"

definition chunk_len :: "u32 \<Rightarrow> u32 \<Rightarrow> u32" where
  "chunk_len a e = (let n = e - a in if n > SYNC_CHUNK then SYNC_CHUNK else n)"

lemma chunk_len_progress:
  assumes "a < e"
  shows "unat (a + chunk_len a e) = unat a + unat (chunk_len a e)"
    "unat (chunk_len a e) = min 4096 (unat e - unat a)" "unat a + unat (chunk_len a e) \<le> unat e"
proof -
  have d: "unat (e - a) = unat e - unat a"
    using assms by (simp add: unat_sub)
  then show l: "unat (chunk_len a e) = min 4096 (unat e - unat a)"
    by (auto simp: chunk_len_def Let_def SYNC_CHUNK_def word_less_nat_alt min_def not_less)
  then show le: "unat a + unat (chunk_len a e) \<le> unat e"
    using assms by (auto simp: word_less_nat_alt)
  have "unat e < 2 ^ LENGTH(32)"
    by (rule unsigned_less)
  with le show "unat (a + chunk_len a e) = unat a + unat (chunk_len a e)"
    by (simp add: unat_word_ariths)
qed

text \<open>The loop over \<open>[a, e)\<close> in chunks.\<close>

function sync_loop :: "u32 \<Rightarrow> u32 \<Rightarrow> u32 \<Rightarrow> u32 \<Rightarrow> ('z, unit) cache_op" where
  "sync_loop lvs trigger a e =
     (if a < e then do {
        let n = chunk_len a e;
        key \<leftarrow> dev Irq_save;
        sync_op SYNC_MAP_L1_DCACHE trigger a n;
        when_do (lvs AND SYNC_MAP_L2_CACHE \<noteq> 0) (sync_op SYNC_MAP_L2_CACHE trigger a n);
        dev_do (Irq_restore key);
        sync_loop lvs trigger (a + n) e
      } else ret ())"
  by pat_completeness auto
termination
proof (relation "measure (\<lambda>(lvs, trigger, a, e). unat e - unat a)", simp_all, goal_cases)
  case (1 a e)
  then have "a < e" "unat a < unat e"
    by (simp_all add: word_less_nat_alt)
  then show ?case
    using chunk_len_progress [OF \<open>a < e\<close>] by (auto simp: min_def)
qed

declare sync_loop.simps [simp del]

definition line_floor :: "u32 \<Rightarrow> u32" where
  "line_floor x = x AND NOT (CACHE_LINE - 1)"

definition sync_range :: "u32 \<Rightarrow> u32 \<Rightarrow> u32 \<Rightarrow> ('z, unit) cache_op" where
  "sync_range trigger addr sz =
     (if addr = 0 \<or> sz = 0 then ret ()
      else do {
        let lvs = sync_map_for addr;
        if lvs = 0 then ret ()
        else sync_loop lvs trigger (line_floor addr) (line_floor (addr + sz + CACHE_LINE - 1))
      })"

definition ulmk_board_dcache_clean :: "u32 \<Rightarrow> u32 \<Rightarrow> ('z, unit) cache_op" where
  "ulmk_board_dcache_clean addr len = do { dev_do Fence; sync_range SYNC_WRITEBACK_ENA addr len }"

definition ulmk_board_dcache_invalidate :: "u32 \<Rightarrow> u32 \<Rightarrow> ('z, unit) cache_op" where
  "ulmk_board_dcache_invalidate addr len = do { sync_range SYNC_INVALIDATE_ENA addr len; dev_do Fence }"

section \<open>What drivers call\<close>

definition board_dcache_clean :: "u32 \<Rightarrow> u32 \<Rightarrow> ('z, unit) cache_op" where
  "board_dcache_clean addr sz = dev_do (Sys_clean addr sz)"

definition board_dcache_invalidate :: "u32 \<Rightarrow> u32 \<Rightarrow> ('z, unit) cache_op" where
  "board_dcache_invalidate addr sz = dev_do (Sys_invalidate addr sz)"

definition board_dcache_clean_invalidate :: "u32 \<Rightarrow> u32 \<Rightarrow> ('z, unit) cache_op" where
  "board_dcache_clean_invalidate addr sz = dev_do (Sys_clean_invalidate addr sz)"

text \<open>The signed coordinates travel as their patterns; \<open>x\<close> and the pixel size are not used.\<close>

definition area_op :: "(u32 \<Rightarrow> u32 \<Rightarrow> ('z, unit) cache_op) \<Rightarrow> u32 \<Rightarrow> u32 \<Rightarrow> cint \<Rightarrow> cint \<Rightarrow> cint \<Rightarrow> cint \<Rightarrow> u32 \<Rightarrow>
    ('z, unit) cache_op" where
  "area_op op buf stride x y w h px_size =
     (if buf = 0 \<or> sint w \<le> 0 \<or> sint h \<le> 0 \<or> stride = 0 then ret ()
      else op (buf + y * stride) (h * stride))"

definition board_dcache_clean_area :: "u32 \<Rightarrow> u32 \<Rightarrow> cint \<Rightarrow> cint \<Rightarrow> cint \<Rightarrow> cint \<Rightarrow> u32 \<Rightarrow> ('z, unit) cache_op" where
  "board_dcache_clean_area buf stride x y w h px_size = area_op board_dcache_clean buf stride x y w h px_size"

definition board_dcache_clean_invalidate_area ::
    "u32 \<Rightarrow> u32 \<Rightarrow> cint \<Rightarrow> cint \<Rightarrow> cint \<Rightarrow> cint \<Rightarrow> u32 \<Rightarrow> ('z, unit) cache_op" where
  "board_dcache_clean_invalidate_area buf stride x y w h px_size =
     area_op board_dcache_clean_invalidate buf stride x y w h px_size"

section \<open>What the engine is told\<close>

text \<open>The log without the polling, with the saved mask of a restore left out.\<close>

fun control :: "cache_act event \<Rightarrow> cache_act event list" where
  "control (Dev (C_rd a)) = []"
| "control (Dev (Irq_restore k)) = [Dev (Irq_restore 0)]"
| "control e = [e]"

definition op_events :: "u32 \<Rightarrow> u32 \<Rightarrow> nat \<times> nat \<Rightarrow> cache_act event list" where
  "op_events lvs trigger = (\<lambda>(b, n).
     [Dev (C_wr CACHE_SYNC_MAP lvs), Dev (C_wr CACHE_SYNC_ADDR (of_nat b)), Dev (C_wr CACHE_SYNC_SIZE (of_nat n)),
      Dev (C_wr CACHE_SYNC_CTRL trigger)])"

text \<open>One chunk: both levels, L1 first, between the masking of the interrupts and its end.\<close>

definition chunk_events :: "bool \<Rightarrow> u32 \<Rightarrow> nat \<times> nat \<Rightarrow> cache_act event list" where
  "chunk_events l2 trigger c =
     Dev Irq_save # op_events SYNC_MAP_L1_DCACHE trigger c @
     (if l2 then op_events SYNC_MAP_L2_CACHE trigger c else []) @ [Dev (Irq_restore 0)]"

definition control_log :: "cache_act event list \<Rightarrow> cache_act event list" where
  "control_log t = concat (List.map control t)"

lemma control_log_simps [simp]: "control_log [] = []" "control_log (e # t) = control e @ control_log t"
  "control_log (t @ t') = control_log t @ control_log t'"
  by (simp_all add: control_log_def)

text \<open>\<open>tells es m\<close>: the operation only logs, and its control log is \<open>es\<close> whatever is answered.\<close>

definition tells :: "cache_act event list \<Rightarrow> ('z, unit) cache_op \<Rightarrow> bool" where
  "tells es m \<longleftrightarrow> (\<forall>st. \<exists>t. run_state m st = ((), st\<lparr>trace := trace st @ t\<rparr>) \<and> control_log t = es)"

lemma tellsE:
  assumes "tells es m"
  obtains t where "run_state m st = ((), st\<lparr>trace := trace st @ t\<rparr>)" "control_log t = es"
  using assms unfolding tells_def by blast

lemma tells_quiet: "tells [] (ret ())"
  by (auto simp: tells_def intro!: exI [of _ "[]"])

lemma tells_do: "control (Dev d) = es \<Longrightarrow> tells es (dev_do d)"
  by (auto simp: tells_def intro!: exI [of _ "[Dev d]"])

lemma tells_bind:
  assumes "tells es m" "tells es' n"
  shows "tells (es @ es') (do { m; n })"
  unfolding tells_def
proof
  fix st
  obtain t where m: "run_state m st = ((), st\<lparr>trace := trace st @ t\<rparr>)" "control_log t = es"
    using assms(1) by (rule tellsE)
  obtain t' where "run_state n (st\<lparr>trace := trace st @ t\<rparr>) = ((), st\<lparr>trace := trace st @ t @ t'\<rparr>)" "control_log t' = es'"
    by (rule tellsE [OF assms(2), where st = "st\<lparr>trace := trace st @ t\<rparr>"]) auto
  with m show "\<exists>t. run_state (do { m; n }) st = ((), st\<lparr>trace := trace st @ t\<rparr>) \<and> control_log t = es @ es'"
    by (intro exI [of _ "t @ t'"]) simp
qed

lemma tells_dev:
  assumes "\<And>v. tells es' (f v)"
  shows "tells (control (Dev d) @ es') (State_Monad.bind (dev d) f)"
  unfolding tells_def
proof (rule allI, goal_cases)
  case (1 st)
  let ?v = "answer st (trace st) (Dev d)"
  obtain t where "run_state (f ?v) (st\<lparr>trace := trace st @ [Dev d]\<rparr>) = ((), st\<lparr>trace := trace st @ [Dev d] @ t\<rparr>)"
    "control_log t = es'"
    by (rule tellsE [OF assms [of ?v], where st = "st\<lparr>trace := trace st @ [Dev d]\<rparr>"]) auto
  then show ?case
    by (intro exI [of _ "Dev d # t"]) simp
qed

lemma tells_spin: "tells [] (sync_spin n trigger :: ('z, unit) cache_op)"
proof (induction n)
  case (Suc n)
  then have "tells [] (if v AND trigger = 0 then ret () else (sync_spin n trigger :: ('z, unit) cache_op))" for v
    by (simp add: tells_quiet)
  from tells_dev [OF this, of "C_rd CACHE_SYNC_CTRL"] show ?case
    by simp
qed (simp add: tells_quiet)

lemma tells_op: "tells (op_events lvs trigger (unat a, unat n)) (sync_op lvs trigger a n)"
proof -
  have "tells ([Dev (C_wr CACHE_SYNC_MAP lvs)] @ [Dev (C_wr CACHE_SYNC_ADDR a)] @ [Dev (C_wr CACHE_SYNC_SIZE n)] @
      [Dev (C_wr CACHE_SYNC_CTRL trigger)] @ []) (sync_op lvs trigger a n)"
    unfolding sync_op_def by (intro tells_bind tells_do tells_spin) simp_all
  then show ?thesis
    by (simp add: op_events_def)
qed

text \<open>The chunks of a range.\<close>

definition covers :: "(nat \<times> nat) list \<Rightarrow> nat \<Rightarrow> nat \<Rightarrow> bool" where
  "covers cs lo hi \<longleftrightarrow> (\<Union>(b, n) \<in> set cs. {b..<b + n}) = {lo..<hi} \<and> list_all (\<lambda>(b, n). 0 < n \<and> n \<le> 4096) cs"

lemma tells_loop:
  "\<exists>cs. covers cs (unat a) (unat e) \<and>
     tells (concat (List.map (chunk_events (lvs AND SYNC_MAP_L2_CACHE \<noteq> 0) trigger) cs)) (sync_loop lvs trigger a e :: ('z, unit) cache_op)"
proof (induction lvs trigger a e rule: sync_loop.induct)
  case (1 lvs trigger a e)
  show ?case
  proof (cases "a < e")
    case True
    let ?n = "chunk_len a e" and ?l2 = "lvs AND SYNC_MAP_L2_CACHE \<noteq> 0"
    note p = chunk_len_progress [OF True]
    obtain cs where cs: "covers cs (unat (a + ?n)) (unat e)"
      "tells (concat (List.map (chunk_events ?l2 trigger) cs)) (sync_loop lvs trigger (a + ?n) e :: ('z, unit) cache_op)"
      using 1 [OF True refl] by blast
    have l2: "tells (if ?l2 then op_events SYNC_MAP_L2_CACHE trigger (unat a, unat ?n) else [])
        (when_do ?l2 (sync_op SYNC_MAP_L2_CACHE trigger a ?n) :: ('z, unit) cache_op)"
      by (simp add: when_do_def tells_op tells_quiet)
    have body: "(sync_loop lvs trigger a e :: ('z, unit) cache_op) = do {
        key \<leftarrow> dev Irq_save;
        sync_op SYNC_MAP_L1_DCACHE trigger a ?n;
        when_do ?l2 (sync_op SYNC_MAP_L2_CACHE trigger a ?n);
        dev_do (Irq_restore key);
        sync_loop lvs trigger (a + ?n) e
      }"
      using True by (simp add: sync_loop.simps [of lvs trigger a e] Let_def)
    have "tells (control (Dev Irq_save) @ op_events SYNC_MAP_L1_DCACHE trigger (unat a, unat ?n) @
        (if ?l2 then op_events SYNC_MAP_L2_CACHE trigger (unat a, unat ?n) else []) @ [Dev (Irq_restore 0)] @
        concat (List.map (chunk_events ?l2 trigger) cs)) (sync_loop lvs trigger a e :: ('z, unit) cache_op)"
      unfolding body by (rule tells_dev, rule tells_bind [OF tells_op tells_bind [OF l2 tells_bind [OF tells_do cs(2)]]]) simp
    then have "tells (concat (List.map (chunk_events ?l2 trigger) ((unat a, unat ?n) # cs))) (sync_loop lvs trigger a e :: ('z, unit) cache_op)"
      by (simp add: chunk_events_def)
    moreover have "covers ((unat a, unat ?n) # cs) (unat a) (unat e)"
      using cs(1) p True by (auto simp: covers_def word_less_nat_alt)
    ultimately show ?thesis
      by blast
  next
    case False
    then have "covers [] (unat a) (unat e)" "(sync_loop lvs trigger a e :: ('z, unit) cache_op) = ret ()"
      by (simp_all add: covers_def word_less_nat_alt sync_loop.simps [of lvs trigger a e])
    then show ?thesis
      using tells_quiet by (intro exI [of _ "[]"]) simp
  qed
qed

section \<open>Properties\<close>

lemma unat_line_floor: "unat (line_floor x) = 64 * (unat x div 64)"
proof -
  have m: "CACHE_LINE - 1 = mask 6"
    by (simp add: CACHE_LINE_def mask_eq_exp_minus_1)
  have "line_floor x = push_bit 6 (drop_bit 6 x)"
    unfolding line_floor_def m by (rule bit_eqI) (auto simp: bit_simps)
  moreover have "unat (drop_bit 6 x) = unat x div 64"
    by (simp add: drop_bit_eq_div unat_div)
  moreover have "64 * (unat x div 64) \<le> unat x"
    by simp
  moreover have "unat x < 2 ^ LENGTH(32)"
    by (rule unsigned_less)
  ultimately show ?thesis
    by (simp add: push_bit_eq_mult unat_word_ariths)
qed

definition cached_window :: "u32 \<Rightarrow> bool" where
  "cached_window a \<longleftrightarrow> EXT_CACHED_LO \<le> a \<and> a < EXT_CACHED_HI \<or> INT_SRAM_LO \<le> a \<and> a < INT_SRAM_HI"

lemma sync_map_for_window:
  assumes "cached_window a"
  shows "sync_map_for a \<noteq> 0" "sync_map_for a AND SYNC_MAP_L2_CACHE \<noteq> 0 \<longleftrightarrow> a < EXT_CACHED_HI"
  using assms
  by (auto simp: cached_window_def sync_map_for_def SYNC_MAP_L1_DCACHE_def SYNC_MAP_L2_CACHE_def word_less_nat_alt
      word_le_nat_alt EXT_CACHED_LO_def EXT_CACHED_HI_def INT_SRAM_LO_def INT_SRAM_HI_def)



end
