(* ===== verification/Spec2Isabelle.thy ===== *)
theory Spec2Isabelle
  imports I2c_Client_Linum Console_Tc275 Psram_Esp32 Gpio_Tc275 Can_Tc275 Spi_Esp32 I2c_Esp32 Uart_Esp32 Adc_Esp32 Can_Esp32 Gpio_Esp32 Pwm_Esp32 Cache_Esp32
begin

text \<open>
  A model of the board-support drivers of \<^verbatim>\<open>ulmk_boards\<close>, with the theorems that say what they
  guarantee and where they fall short.

  \<^bold>\<open>The program.\<close>  The repository holds three boards for the \<^verbatim>\<open>ulmk\<close> microkernel:
  \<^verbatim>\<open>src/witte_linum\<close> (STM32H7), \<^verbatim>\<open>src/tc275_lite\<close> (AURIX TC275) and
  \<^verbatim>\<open>src/esp32p4_ev_function\<close> (ESP32-P4).  A driver is a server thread that receives a message,
  handles it and replies (\<^verbatim>\<open>drivers/*/src/server.c\<close>), a client library that packs a call into a
  message (\<^verbatim>\<open>client.c\<close>), and an \<open>_init\<close> that creates endpoint, notifications, interrupt bindings
  and thread.  Drivers call each other: the Linum I2C driver is a client of the DMA and pinmux
  drivers, the TC275 GPIO and CAN drivers call the pinmux driver in their own address space, the
  ESP32-P4 SPI driver does both (pads in its own address space, the DMA server by message).

  \<^bold>\<open>The method.\<close>  An operation is a state transformer over a record that extends \<open>io\<close>
  (\<^verbatim>\<open>Ulmk_Base\<close>): \<open>trace\<close> is the log of kernel calls and device accesses, \<open>answer\<close> an arbitrary
  function that gives the value returned by the next interaction from the whole history.  A
  theorem without a hypothesis on \<open>answer\<close> holds for every kernel, every device and every
  interleaving with other threads between two interactions.  C integers are words of their
  width; \<open>fault\<close> is set by an access outside a C array; an error code is a value; the kernel's
  error codes and invalid handles are the record \<open>ulmk_abi\<close> (the kernel's headers are not part
  of the repository), the addresses and enumerators of vendor headers are records of their own.

  \<^bold>\<open>Theories.\<close>
  \<^item> \<^verbatim>\<open>Ulmk_Base\<close>: words, register fields, messages, interactions, the monad; the judgements
    \<open>keeps\<close> (invariants), \<open>triple\<close> (total correctness), \<open>grows\<close>, \<open>emits\<close> (bounds on the number of
    interactions) with their rule collections; table search; the locale \<open>rpc_server\<close> of a server
    loop that keeps an invariant and refines a specification of one request.
  \<^item> \<^verbatim>\<open>Payload\<close>: the packing of bytes into message words, with the locale \<open>payload_codec\<close>.
  \<^item> \<^verbatim>\<open>Dma_Linum\<close>, \<^verbatim>\<open>Dma_Linum_Hw\<close>, \<^verbatim>\<open>Dma_Client_Linum\<close>, \<^verbatim>\<open>Dma_Linum_Props\<close>:
    \<^verbatim>\<open>witte_linum/drivers/dma\<close> (dispatcher, workers, bring-up, client; the DMA engine as an
    environment that may store into an armed buffer).  Memory safety of every reachable state,
    the channel table as an abstract pool, delivery of the caller's bytes, order of the stream
    programming, and three defects (wrap-around of an offset, leak of an earlier client's data,
    a stream left enabled).
  \<^item> \<^verbatim>\<open>Port_Cache\<close>, \<^verbatim>\<open>Pinmux_Linum\<close>, \<^verbatim>\<open>Pinmux_Tc275\<close>: the two pinmux drivers; the table of mapped
    ports as the locale \<open>resource_cache\<close>, interpreted on both; a configuration survives the
    message, a port is mapped once, a pad's configuration changes exactly its byte lane.
  \<^item> \<^verbatim>\<open>I2c_Linum\<close>, \<^verbatim>\<open>I2c_Client_Linum\<close>: \<^verbatim>\<open>witte_linum/drivers/i2c\<close> on top of the models of the DMA
    and pinmux drivers; end-to-end reads and writes, safety of the composed server, bounds of
    the bus recovery, the stale bytes of a long WRITEREAD.
  \<^item> \<^verbatim>\<open>Gpio_Tc275\<close>: \<^verbatim>\<open>tc275_lite/drivers/gpio\<close>; the table of edge subscriptions as a refinement of
    an abstract list and owner map, one round of the interrupt thread, the starvation of a
    subscriber whose pin shares a channel.
  \<^item> \<^verbatim>\<open>Can_Tc275\<close>: \<^verbatim>\<open>tc275_lite/drivers/can\<close>; the program of a transmission, the round trip of a
    frame, bounds of every wait, and what the status of a transmission really tells.
  \<^item> \<^verbatim>\<open>Console_Tc275\<close>: \<^verbatim>\<open>tc275_lite/board_console.c\<close>; \<open>printf\<close> against a rendering specification,
    numbers that read back, chunked delivery of a text to the UART and the bounded log.
  \<^item> \<^verbatim>\<open>Psram_Tune\<close>, \<^verbatim>\<open>Psram_Tune_Props\<close>, \<^verbatim>\<open>Psram_Esp32\<close>: \<^verbatim>\<open>esp32p4_ev_function/board_psram.c\<close>,
    \<^verbatim>\<open>board_psram_tune.c\<close>, \<^verbatim>\<open>board_mpll.c\<close>; the calibration programs the middle of the longest window
    of working points, the window of the memory is only handed over after a read-back, the PLL
    bring-up is bounded.

  \<^item> \<^verbatim>\<open>Pinmux_Esp32\<close>: \<^verbatim>\<open>esp32p4_ev_function/drivers/pinmux\<close> and the accesses of that board (registers
    at their real addresses, bytes of memory, cache maintenance), with the judgement \<open>logs\<close> for what an
    operation may add to the log; a configuration survives the message, but its matrix index is
    not checked.
  \<^item> \<^verbatim>\<open>Gdma_Axi_Esp32\<close>: \<^verbatim>\<open>esp32p4_ev_function/drivers/gdma_axi\<close>; the five slots as a state machine,
    isolation of the channels, the program of a transfer and of a memory copy, what a successful
    initialisation establishes and what a failed one leaves behind.
  \<^item> \<^verbatim>\<open>Spi_Esp32\<close>: \<^verbatim>\<open>esp32p4_ev_function/drivers/spi\<close> on top of both; the round trip of a loopback through
    message, buffers, cache and DMA server, and the MISO pad that is never read.
  \<^item> \<^verbatim>\<open>I2c_Esp32\<close>: \<^verbatim>\<open>esp32p4_ev_function/drivers/i2c\<close>; what a write puts on the bus (and what it sends
    beyond the sixteen bytes the client packs), and the round trip of a read through command list,
    FIFO and message.
  \<^item> \<^verbatim>\<open>Uart_Esp32\<close>: \<^verbatim>\<open>esp32p4_ev_function/drivers/uart\<close>; the transmit FIFO is never overrun, a buffer is
    sent as it is, and when a change of the baud rate returns.
  \<^item> \<^verbatim>\<open>Dma_Ahb_Esp32\<close>, \<^verbatim>\<open>Adc_Esp32\<close>: \<^verbatim>\<open>esp32p4_ev_function/drivers/dma\<close> and \<^verbatim>\<open>drivers/adc\<close>; a copy
    leaves the receiving channel alone, a scan returns the means of the frame in memory through
    both servers, and the converter samples only while the channel listens.
  \<^item> \<^verbatim>\<open>Can_Esp32\<close>: \<^verbatim>\<open>esp32p4_ev_function/drivers/can\<close>; send and receive as the two ends of the controller's
    queue of frames, and the interrupt that is lost and leaves the queue one frame late.
  \<^item> \<^verbatim>\<open>Gpio_Esp32\<close>, \<^verbatim>\<open>Pwm_Esp32\<close>, \<^verbatim>\<open>Cache_Esp32\<close>: \<^verbatim>\<open>esp32p4_ev_function/drivers/gpio\<close>, \<^verbatim>\<open>board_lcd.c\<close>,
    \<^verbatim>\<open>drivers/pwm\<close> and \<^verbatim>\<open>board_cache.c\<close>; the pads as a refined map, the timer divider that wraps, and a
    cache operation that covers its range in masked chunks, L1 before L2.

  \<^bold>\<open>Bounds and fuel.\<close>  A loop with a counter in the source is a structural recursion on the turns
  that are left, so its fuel is the bound of the source and running out of it is the branch the
  source takes: 1000001 polls of the CAN panel, 200000 of a transmission, 200001 of a register
  write to the PLL, 100001 of the SPI command register.  Two waits have no bound in the source and
  have fuel here: that of the Linum I2C driver for STOP or NACK, whose fuel runs out only while
  every round has blocked on an interrupt, and the spin of the ESP32-P4 UART on its commit register,
  which returns, with as much fuel as the controller takes polls, exactly when the controller clears the bit.

  \<^bold>\<open>Not modelled.\<close>  The preemption of one handler by another thread of the same driver (a handler
  runs to completion, other threads act between its interactions through \<open>answer\<close>).  Words of a
  reply that a server never sets are 0.  Outside the model altogether: the vendor's libraries
  and headers, the start-up and clock code (\<^verbatim>\<open>board_init.c\<close>, PLL and linker scripts), the
  OpenOCD overlays under \<^verbatim>\<open>tc275_lite/openocd\<close> (a debugger's code), demos, and the drivers listed
  as not modelled in the manifest.
\<close>

end
